(* ===== verification/Prelude.thy ===== *)
theory Prelude
  imports Complex_Main "HOL-Library.Product_Lexorder" "HOL-Library.List_Lexorder"
    "HOL-Library.Char_ord" "HOL-Library.Sublist" "HOL-Library.AList"
begin

text \<open>
  Shared vocabulary of the development: JSON values as the Python runners see them after
  \<open>json.loads\<close>, dictionary access as the source writes it (\<open>d[k]\<close>, \<open>d.get(k)\<close>,
  \<open>k in d\<close>), the reading of a sequence of \<open>if ...: raise\<close> statements as the first
  error raised, and the lemmas on lists and association lists that several components use.

  A Python dictionary keeps its keys unique and remembers insertion order, so it is an
  association list; \<open>map_of\<close> is the lookup. Strings are lists over a character type:
  the verifiers use HOL's \<open>char\<close>, the canonicaliser uses Unicode code points. A float is
  its (rational) value; the infinities and NaN, which are not JSON, have no counterpart.
\<close>

named_theorems py_defs "definitions that unfold the Python access idioms"

section \<open>JSON values\<close>

datatype 'c json =
    JNull
  | JBool bool
  | JInt int
  | JFloat rat
  | JStr "'c list"
  | JArr "'c json list"
  | JObj "('c list \<times> 'c json) list"

type_synonym pyval = "char json"
type_synonym pydict = "(string \<times> char json) list"

fun is_dict :: "'c json \<Rightarrow> bool" where
  "is_dict (JObj _) = True"
| "is_dict _ = False"

fun is_list :: "'c json \<Rightarrow> bool" where
  "is_list (JArr _) = True"
| "is_list _ = False"

fun is_str :: "'c json \<Rightarrow> bool" where
  "is_str (JStr _) = True"
| "is_str _ = False"

fun is_bool :: "'c json \<Rightarrow> bool" where
  "is_bool (JBool _) = True"
| "is_bool _ = False"

fun members :: "'c json \<Rightarrow> ('c list \<times> 'c json) list" where
  "members (JObj m) = m"
| "members _ = []"

fun elements :: "'c json \<Rightarrow> 'c json list" where
  "elements (JArr xs) = xs"
| "elements _ = []"

fun str_of :: "'c json \<Rightarrow> 'c list" where
  "str_of (JStr s) = s"
| "str_of _ = []"

text \<open>No dictionary repeats a name, at any depth: what \<open>json.loads\<close> and every Python value satisfy.\<close>

fun unique_names :: "'c json \<Rightarrow> bool" where
  "unique_names (JObj pairs) \<longleftrightarrow> distinct (map fst pairs) \<and> list_all (\<lambda>(n, v). unique_names v) pairs"
| "unique_names (JArr items) \<longleftrightarrow> list_all unique_names items"
| "unique_names v \<longleftrightarrow> True"

text \<open>\<open>k in d\<close>, and \<open>d.get(k)\<close> with Python's \<open>None\<close> (which is also JSON's null).\<close>

definition has_key :: "'c json \<Rightarrow> 'c list \<Rightarrow> bool" where
  "has_key d k = (map_of (members d) k \<noteq> None)"

definition get :: "'c json \<Rightarrow> 'c list \<Rightarrow> 'c json" where
  "get d k = (case map_of (members d) k of None \<Rightarrow> JNull | Some v \<Rightarrow> v)"

definition nonempty_str :: "'c json \<Rightarrow> bool" where
  "nonempty_str v = (is_str v \<and> str_of v \<noteq> [])"

text \<open>
  Membership of a JSON value in a Python \<open>set\<close> hashes the value first; lists and
  dictionaries have no hash, so the test raises \<open>TypeError\<close>.
\<close>

definition hashable :: "'c json \<Rightarrow> bool" where
  "hashable v = (\<not> is_list v \<and> \<not> is_dict v)"

lemmas json_access [py_defs] = has_key_def get_def nonempty_str_def hashable_def

lemma get_no_key: "\<not> has_key d k \<Longrightarrow> get d k = JNull"
  by (simp add: json_access)

lemma get_not_null:
  assumes "get d k \<noteq> JNull"
  shows "is_dict d" and "has_key d k"
proof -
  show "is_dict d" using assms by (cases d) (simp_all add: get_def)
  show "has_key d k" using assms by (rule contrapos_np) (simp add: get_no_key)
qed

lemma is_dict_conv: "is_dict v \<longleftrightarrow> (\<exists>m. v = JObj m)"
  by (cases v) auto

lemma is_str_conv: "is_str v \<longleftrightarrow> (\<exists>s. v = JStr s)"
  by (cases v) auto

lemma is_list_conv: "is_list v \<longleftrightarrow> (\<exists>xs. v = JArr xs)"
  by (cases v) auto

lemma nonempty_str_conv: "nonempty_str v \<longleftrightarrow> (\<exists>s. v = JStr s \<and> s \<noteq> [])"
  by (cases v) (auto simp: nonempty_str_def)

lemma is_dict_not_null [simp]: "is_dict v \<Longrightarrow> v \<noteq> JNull"
  by auto

section \<open>Sequences of guards\<close>

text \<open>
  \<open>raise_if c e\<close> is \<open>if c: raise e\<close>; a function body that is a sequence of such
  statements raises the first error, or none.
\<close>

definition raise_if :: "bool \<Rightarrow> 'e \<Rightarrow> 'e option" where
  "raise_if c e = (if c then Some e else None)"

fun first_error :: "'e option list \<Rightarrow> 'e option" where
  "first_error [] = None"
| "first_error (None # xs) = first_error xs"
| "first_error (Some e # xs) = Some e"

lemma raise_if_None [simp]: "raise_if c e = None \<longleftrightarrow> \<not> c"
  by (simp add: raise_if_def)

lemma raise_if_Some [simp]: "raise_if c e = Some x \<longleftrightarrow> c \<and> x = e"
  by (auto simp: raise_if_def)

lemma raise_if_simps [simp]: "raise_if True e = Some e" "raise_if False e = None"
  by (simp_all add: raise_if_def)

lemma first_error_None: "first_error xs = None \<longleftrightarrow> (\<forall>x\<in>set xs. x = None)"
  by (induction xs rule: first_error.induct) auto

lemma first_error_None_Cons [simp]:
  "first_error (x # xs) = None \<longleftrightarrow> x = None \<and> first_error xs = None"
  by (cases x) auto

lemma first_error_None_append [simp]:
  "first_error (xs @ ys) = None \<longleftrightarrow> first_error xs = None \<and> first_error ys = None"
  by (induction xs) auto

lemma first_error_Some_in: "first_error xs = Some e \<Longrightarrow> Some e \<in> set xs"
  by (induction xs rule: first_error.induct) auto

text \<open>Sequencing of computations that may raise: the first error wins.\<close>

fun bind_sum :: "'e + 'a \<Rightarrow> ('a \<Rightarrow> 'e + 'b) \<Rightarrow> 'e + 'b" where
  "bind_sum (Inl e) f = Inl e"
| "bind_sum (Inr x) f = f x"

lemma bind_sum_Inr [simp]: "bind_sum m f = Inr y \<longleftrightarrow> (\<exists>x. m = Inr x \<and> f x = Inr y)"
  by (cases m) auto

lemma bind_sum_Inl: "bind_sum m f = Inl e \<longleftrightarrow> m = Inl e \<or> (\<exists>x. m = Inr x \<and> f x = Inl e)"
  by (cases m) auto

fun traverse :: "('a \<Rightarrow> 'e + 'b) \<Rightarrow> 'a list \<Rightarrow> 'e + 'b list" where
  "traverse f [] = Inr []"
| "traverse f (x # xs) = bind_sum (f x) (\<lambda>y. bind_sum (traverse f xs) (\<lambda>ys. Inr (y # ys)))"

lemma traverse_Inr: "(\<And>x. x \<in> set xs \<Longrightarrow> f x = Inr (g x)) \<Longrightarrow> traverse f xs = Inr (map g xs)"
  by (induction xs) auto

lemma traverse_list_all2: "traverse f xs = Inr ys \<longleftrightarrow> list_all2 (\<lambda>x y. f x = Inr y) xs ys"
  by (induction xs arbitrary: ys) (auto simp: list_all2_Cons1)

lemma traverse_map: "traverse f (map g xs) = traverse (\<lambda>x. f (g x)) xs"
  by (induction xs) auto

lemma traverse_cong [cong]: "xs = ys \<Longrightarrow> (\<And>x. x \<in> set ys \<Longrightarrow> f x = g x) \<Longrightarrow> traverse f xs = traverse g ys"
  by (induction xs arbitrary: ys) auto

text \<open>Python's \<open>or\<close> and \<open>and\<close> on tests that may raise: the right one runs only if needed.\<close>

definition or_else :: "'e + bool \<Rightarrow> 'e + bool \<Rightarrow> 'e + bool" where
  "or_else a b = bind_sum a (\<lambda>x. if x then Inr True else b)"

definition and_also :: "'e + bool \<Rightarrow> 'e + bool \<Rightarrow> 'e + bool" where
  "and_also a b = bind_sum a (\<lambda>x. if x then b else Inr False)"

lemma or_else_simps [simp]:
  "or_else (Inr x) b = (if x then Inr True else b)" "or_else (Inl e) b = Inl e"
  by (simp_all add: or_else_def)

lemma and_also_simps [simp]:
  "and_also (Inr x) b = (if x then b else Inr False)" "and_also (Inl e) b = Inl e"
  by (simp_all add: and_also_def)

section \<open>Strings\<close>

text \<open>\<open>str(n)\<close> in decimal, \<open>sep.join(parts)\<close> and \<open>s.replace(c, r)\<close> for one character\<close>

fun str_nat :: "nat \<Rightarrow> string" where
  "str_nat n = (if n < 10 then [char_of (48 + n)] else str_nat (n div 10) @ [char_of (48 + n mod 10)])"

declare str_nat.simps [simp del]

fun join :: "'a list \<Rightarrow> 'a list list \<Rightarrow> 'a list" where
  "join sep [] = []"
| "join sep [x] = x"
| "join sep (x # y # ys) = x @ sep @ join sep (y # ys)"

definition replace_char :: "'a \<Rightarrow> 'a list \<Rightarrow> 'a list \<Rightarrow> 'a list" where
  "replace_char c r s = concat (map (\<lambda>x. if x = c then r else [x]) s)"

section \<open>Lists\<close>

fun enumerate_from :: "nat \<Rightarrow> 'a list \<Rightarrow> (nat \<times> 'a) list" where
  "enumerate_from n [] = []"
| "enumerate_from n (x # xs) = (n, x) # enumerate_from (Suc n) xs"

abbreviation starts_with :: "'a list \<Rightarrow> 'a list \<Rightarrow> bool" where
  "starts_with s p \<equiv> prefix p s"

lemma find_Some_in: "find P xs = Some x \<Longrightarrow> x \<in> set xs \<and> P x"
  by (induction xs) (auto split: if_splits)

lemma list_all2_left: "list_all2 P xs ys \<Longrightarrow> x \<in> set xs \<Longrightarrow> \<exists>y \<in> set ys. P x y"
  by (induction rule: list_all2_induct) auto

lemma list_all2_right: "list_all2 P xs ys \<Longrightarrow> y \<in> set ys \<Longrightarrow> \<exists>x \<in> set xs. P x y"
  by (induction rule: list_all2_induct) auto

lemma map_of_Some_in: "map_of m k = Some v \<Longrightarrow> (k, v) \<in> set m"
  by (rule map_of_SomeD)

section \<open>Machines: runs of a step function that may raise\<close>

fun run_machine :: "('s \<Rightarrow> 'i \<Rightarrow> 'e + 'o \<times> 's) \<Rightarrow> 's \<Rightarrow> 'i list \<Rightarrow> 'e + 'o list \<times> 's" where
  "run_machine stp s [] = Inr ([], s)"
| "run_machine stp s (i # is) =
     bind_sum (stp s i) (\<lambda>(out, s').
       bind_sum (run_machine stp s' is) (\<lambda>(outs, s''). Inr (out # outs, s'')))"

lemma run_machine_Cons:
  "run_machine stp s (i # is) = Inr (outs, s'') \<longleftrightarrow>
     (\<exists>out s' rest. stp s i = Inr (out, s') \<and> run_machine stp s' is = Inr (rest, s'') \<and> outs = out # rest)"
  by auto

text \<open>An invariant kept by every admissible input is kept by every admissible run, and what holds
  of each answer under the invariant holds of all answers of the run.\<close>

locale guarded_machine =
  fixes stp :: "'s \<Rightarrow> 'i \<Rightarrow> 'e + 'o \<times> 's"
    and inv :: "'s \<Rightarrow> bool"
    and ok :: "'i \<Rightarrow> bool"
    and good :: "'i \<Rightarrow> 'o \<Rightarrow> bool"
  assumes keeps: "inv s \<Longrightarrow> ok i \<Longrightarrow> stp s i = Inr (out, s') \<Longrightarrow> inv s'"
    and answers: "inv s \<Longrightarrow> ok i \<Longrightarrow> stp s i = Inr (out, s') \<Longrightarrow> good i out"
begin

lemma run_keeps:
  "run_machine stp s is = Inr (outs, s') \<Longrightarrow> inv s \<Longrightarrow> list_all ok is \<Longrightarrow> inv s'"
proof (induction "is" arbitrary: s outs)
  case (Cons i "is")
  then show ?case unfolding run_machine_Cons by (auto dest: keeps)
qed simp

lemma run_answers:
  "run_machine stp s is = Inr (outs, s') \<Longrightarrow> inv s \<Longrightarrow> list_all ok is \<Longrightarrow> list_all2 good is outs"
proof (induction "is" arbitrary: s outs)
  case (Cons i "is")
  then show ?case unfolding run_machine_Cons by (auto dest: keeps answers)
qed simp

end

end
