(* ===== verification/Verdicts.thy ===== *)
theory Verdicts
  imports Prelude
begin

text \<open>
  The verdict vocabulary the two CoSAI WS4 checkers share (\<open>pass\<close>, \<open>fail\<close>,
  \<open>not_established\<close>), the result dictionary they return, the two exception classes they
  raise instead of a verdict, and the contract both promise: a checker validates its input
  once before any inference, names an obligation exactly when the verdict is
  \<open>not_established\<close>, and never turns an uncovered negative into a \<open>pass\<close>.
\<close>

datatype verdict = Pass | Fail | Not_established

datatype checker_error =
    CandidateInputError string
  | UnsupportedVerification string
  | PyTypeError

text \<open>A reason is a format string with the values the source interpolates with \<open>%\<close>.\<close>

record outcome =
  verdict :: verdict
  unmet_obligation :: "string option"
  reason :: "string \<times> pyval list"

text \<open>\<open>v not in frozenset(names)\<close> of a JSON value: unhashable values raise.\<close>

definition not_in_names :: "pyval \<Rightarrow> string list \<Rightarrow> checker_error \<Rightarrow> checker_error option" where
  "not_in_names v names e =
     (if \<not> hashable v then Some PyTypeError
      else raise_if (v \<notin> JStr ` set names) e)"

lemma not_in_names_None: "not_in_names v names e = None \<longleftrightarrow> (\<exists>s\<in>set names. v = JStr s)"
  by (cases v) (auto simp: not_in_names_def hashable_def)

text \<open>
  The premise a negative over an interval needs: coverage is established, for the evaluated
  scope, and bound to the evaluated claim.
\<close>

definition covers :: "pyval \<Rightarrow> bool" where
  "covers ctx =
     (let c = get ctx ''observation_coverage'' in
        c \<noteq> JNull \<and> get c ''status'' = JStr ''established'' \<and>
        get c ''scope'' = get ctx ''evaluation_scope'' \<and>
        get c ''claim_ref'' = get ctx ''claim_ref'')"

section \<open>The contract of a three-valued checker\<close>

locale three_valued_checker =
  fixes evaluate :: "'i \<Rightarrow> checker_error + outcome"
    and validate :: "'i \<Rightarrow> checker_error option"
    and context_of :: "'i \<Rightarrow> pyval"
    and negative :: "'i \<Rightarrow> bool"
  assumes malformed_raises: "validate i = Some e \<Longrightarrow> evaluate i = Inl e"
    and obligation_named:
      "evaluate i = Inr r \<Longrightarrow> (unmet_obligation r \<noteq> None) = (verdict r = Not_established)"
    and negative_needs_coverage:
      "evaluate i = Inr r \<Longrightarrow> negative i \<Longrightarrow> verdict r = Pass \<Longrightarrow> covers (context_of i)"
begin

lemma verdict_only_if_valid: "evaluate i = Inr r \<Longrightarrow> validate i = None"
  using malformed_raises by (cases "validate i") auto

lemma uncovered_negative_never_passes:
  assumes "negative i" and "\<not> covers (context_of i)" and "evaluate i = Inr r"
  shows "verdict r = Fail \<or> (verdict r = Not_established \<and> unmet_obligation r \<noteq> None)"
  using assms negative_needs_coverage obligation_named by (cases "verdict r") auto

lemma settled_has_no_obligation:
  assumes "evaluate i = Inr r" and "verdict r = Pass \<or> verdict r = Fail"
  shows "unmet_obligation r = None"
  using obligation_named [OF assms(1)] assms(2) by auto

end

end
