(* ===== verification/Decision_Effect.thy ===== *)
theory Decision_Effect
  imports Verdicts
begin

text \<open>
  The checker of the CoSAI WS4 #149 decision-to-effect corpus
  (\<open>interop/cosai-ws4-149-decision-to-effect/adapter/py/checker.py\<close>): structural
  validation, the three evaluators, and \<open>evaluate\<close>. Subscripts \<open>d[k]\<close> of validated
  members are read with \<open>get\<close>; \<open>validated_subscripts\<close> shows every such key present.
\<close>

section \<open>Structural validation\<close>

definition DISPATCH_STATUSES :: "string list" where
  "DISPATCH_STATUSES = [''dispatched'', ''refused'']"
definition READ_BACK_STATUSES :: "string list" where
  "READ_BACK_STATUSES = [''agrees'', ''disagrees'', ''unavailable'']"
definition CREDENTIAL_PATHS :: "string list" where
  "CREDENTIAL_PATHS = [''governed'', ''alternate'']"
definition SUPPORTED_PROPERTIES :: "string list" where
  "SUPPORTED_PROPERTIES = [''exact_call'', ''non_bypassability'', ''effect_verified'']"

lemmas vocab_defs = DISPATCH_STATUSES_def READ_BACK_STATUSES_def CREDENTIAL_PATHS_def
  SUPPORTED_PROPERTIES_def

definition validate_admission :: "pyval \<Rightarrow> checker_error option" where
  "validate_admission admission =
     (if admission = JNull then None
      else first_error
        (raise_if (\<not> is_dict admission)
           (CandidateInputError ''evidence.admission must be an object or null'')
         # map (\<lambda>key. raise_if (\<not> nonempty_str (get admission key))
             (CandidateInputError (''evidence.admission requires a non-empty string '' @ key)))
             [''action_id'', ''tool'', ''args_digest'', ''decision'']))"

definition validate_dispatch :: "pyval \<Rightarrow> checker_error option" where
  "validate_dispatch dispatch = first_error
     [raise_if (\<not> is_dict dispatch)
        (CandidateInputError ''evidence.closure.dispatch must be an object''),
      not_in_names (get dispatch ''status'') DISPATCH_STATUSES
        (CandidateInputError ''evidence.closure.dispatch.status must be dispatched or refused''),
      (if get dispatch ''status'' = JStr ''dispatched'' then
         raise_if (\<not> nonempty_str (get dispatch ''args_digest''))
           (CandidateInputError ''a dispatched closure requires a non-empty string args_digest'')
       else
         (let refusal = get dispatch ''refusal'' in first_error
            (raise_if (\<not> is_dict refusal)
               (CandidateInputError ''a refused closure requires a refusal object'')
             # map (\<lambda>key. raise_if (\<not> nonempty_str (get refusal key))
                 (CandidateInputError (''closure.dispatch.refusal requires a non-empty string '' @ key)))
                 [''reason'', ''attributed_cause''])))]"

definition validate_read_back :: "pyval \<Rightarrow> checker_error option" where
  "validate_read_back read_back = first_error
     [raise_if (\<not> is_dict read_back)
        (CandidateInputError ''evidence.closure.read_back must be an object''),
      not_in_names (get read_back ''status'') READ_BACK_STATUSES
        (CandidateInputError ''evidence.closure.read_back.status must be one of agrees, disagrees, unavailable''),
      (if get read_back ''status'' = JStr ''unavailable'' then
         raise_if (\<not> nonempty_str (get read_back ''reason''))
           (CandidateInputError ''a read-back reported unavailable requires a non-empty string reason'')
       else
         raise_if (\<not> nonempty_str (get read_back ''observed_digest''))
           (CandidateInputError ''a read-back reporting agrees or disagrees requires a non-empty string observed_digest''))]"

definition validate_credential_use :: "pyval \<Rightarrow> checker_error option" where
  "validate_credential_use cu =
     (if cu = JNull then None
      else first_error
        [raise_if (\<not> is_dict cu)
           (CandidateInputError ''evidence.closure.credential_use must be an object or absent''),
         raise_if (\<not> nonempty_str (get cu ''credential''))
           (CandidateInputError ''credential_use requires a non-empty string credential''),
         not_in_names (get cu ''path'') CREDENTIAL_PATHS
           (CandidateInputError ''credential_use.path must be governed or alternate''),
         raise_if (\<not> has_key cu ''admission_ref'')
           (CandidateInputError ''credential_use requires an admission_ref key (a string, or explicit null)''),
         raise_if (\<not> (get cu ''admission_ref'' = JNull \<or> nonempty_str (get cu ''admission_ref'')))
           (CandidateInputError ''credential_use.admission_ref must be a non-empty string or null'')])"

definition validate_closure :: "pyval \<Rightarrow> checker_error option" where
  "validate_closure closure = first_error
     [raise_if (\<not> is_dict closure) (CandidateInputError ''evidence.closure must be an object''),
      raise_if (\<not> nonempty_str (get closure ''ref''))
        (CandidateInputError ''evidence.closure requires a non-empty string ref''),
      raise_if (\<not> has_key closure ''dispatch'')
        (CandidateInputError ''evidence.closure requires a dispatch record''),
      validate_dispatch (get closure ''dispatch''),
      raise_if (\<not> has_key closure ''tool_self_report'' \<or> \<not> is_dict (get closure ''tool_self_report''))
        (CandidateInputError ''evidence.closure requires a tool_self_report object''),
      raise_if (\<not> nonempty_str (get (get closure ''tool_self_report'') ''status''))
        (CandidateInputError ''closure.tool_self_report requires a non-empty string status''),
      raise_if (\<not> has_key closure ''read_back'')
        (CandidateInputError ''evidence.closure requires a read_back record''),
      validate_read_back (get closure ''read_back''),
      validate_credential_use (get closure ''credential_use'')]"

definition validate_context :: "pyval \<Rightarrow> checker_error option" where
  "validate_context ctx = first_error
     [raise_if (\<not> is_dict ctx) (CandidateInputError ''context must be an object''),
      raise_if (\<not> nonempty_str (get ctx ''evaluation_scope''))
        (CandidateInputError ''context requires a non-empty string evaluation_scope''),
      (let coverage = get ctx ''observation_coverage'' in
       if coverage \<noteq> JNull then first_error
         ([raise_if (\<not> is_dict coverage)
             (CandidateInputError ''observation_coverage must be an object'')]
          @ map (\<lambda>key. raise_if (\<not> nonempty_str (get coverage key))
              (CandidateInputError (''observation_coverage requires a non-empty string '' @ key)))
              [''status'', ''scope'', ''claim_ref'']
          @ [raise_if (\<not> nonempty_str (get ctx ''claim_ref''))
              (CandidateInputError ''context requires a non-empty string claim_ref when observation_coverage is supplied'')])
       else raise_if (has_key ctx ''claim_ref'' \<and> \<not> nonempty_str (get ctx ''claim_ref''))
              (CandidateInputError ''context claim_ref, when present, must be a non-empty string''))]"

definition validate149 :: "pyval \<Rightarrow> checker_error option" where
  "validate149 ci =
     (let prop = get ci ''property''; evidence = get ci ''evidence'' in first_error
        ([raise_if (\<not> is_dict ci) (CandidateInputError ''checker input must be an object'')]
         @ map (\<lambda>key. raise_if (\<not> has_key ci key)
             (CandidateInputError (''checker input requires '' @ key)))
             [''property'', ''evidence'', ''context'']
         @ [raise_if (\<not> is_dict prop \<or> \<not> nonempty_str (get prop ''name''))
              (CandidateInputError ''property requires a non-empty string name''),
            raise_if (\<not> is_dict evidence) (CandidateInputError ''evidence must be an object''),
            raise_if (\<not> has_key evidence ''admission'')
              (CandidateInputError ''evidence requires an admission key''),
            validate_admission (get evidence ''admission''),
            raise_if (\<not> has_key evidence ''closure'' \<or> get evidence ''closure'' = JNull)
              (CandidateInputError ''evidence requires a closure record: the observed outcome''),
            validate_closure (get evidence ''closure''),
            validate_context (get ci ''context''),
            raise_if (has_key ci ''runtime_outcome'' \<and> get ci ''runtime_outcome'' \<noteq> JNull
                      \<and> \<not> is_dict (get ci ''runtime_outcome''))
              (CandidateInputError ''runtime_outcome, when present, must be an object'')]))"

section \<open>Evaluators\<close>

definition pass :: "string \<times> pyval list \<Rightarrow> outcome" where
  "pass r = \<lparr>verdict = Pass, unmet_obligation = None, reason = r\<rparr>"

definition fail :: "string \<times> pyval list \<Rightarrow> outcome" where
  "fail r = \<lparr>verdict = Fail, unmet_obligation = None, reason = r\<rparr>"

definition not_established :: "string \<Rightarrow> string \<times> pyval list \<Rightarrow> outcome" where
  "not_established ob r = \<lparr>verdict = Not_established, unmet_obligation = Some ob, reason = r\<rparr>"

lemmas outcome_defs = pass_def fail_def not_established_def

definition eval_exact_call :: "pyval \<Rightarrow> pyval \<Rightarrow> checker_error + outcome" where
  "eval_exact_call evidence ctx =
     (let admission = get evidence ''admission'';
          dispatch = get (get evidence ''closure'') ''dispatch'' in
      if \<not> is_dict admission then
        Inl (CandidateInputError ''exact_call requires a non-null evidence.admission'')
      else if get dispatch ''status'' = JStr ''dispatched'' then
        (if get dispatch ''args_digest'' = get admission ''args_digest'' then
           Inr (pass (''dispatched args digest %r matches the authorized args digest'',
                      [get dispatch ''args_digest'']))
         else
           Inr (fail (''dispatched args digest %r does not match the authorized args digest %r'',
                      [get dispatch ''args_digest'', get admission ''args_digest''])))
      else
        (let cause = get (get dispatch ''refusal'') ''attributed_cause'' in
         if cause = JStr ''args_mismatch'' then
           Inr (pass (''dispatch was refused, attributed cause is the args mismatch'', []))
         else
           Inr (not_established ''refusal_attribution''
             (''dispatch was refused, but the refusal is attributed to %r'', [cause]))))"

definition eval_effect_verified :: "pyval \<Rightarrow> pyval \<Rightarrow> checker_error + outcome" where
  "eval_effect_verified evidence ctx =
     (let closure = get evidence ''closure'';
          read_back = get closure ''read_back'';
          self_report = get closure ''tool_self_report'' in
      if get read_back ''status'' = JStr ''unavailable'' then
        Inr (not_established ''read_back''
          (''independent read-back could not be performed: %s'', [get read_back ''reason'']))
      else if get read_back ''status'' = JStr ''disagrees'' then
        Inr (fail (''tool self-report (%s) and independent read-back (%s) disagree'',
          [get self_report ''status'', get read_back ''observed_digest'']))
      else
        Inr (pass (''tool self-report (%s) agrees with the independent read-back (%s)'',
          [get self_report ''status'', get read_back ''observed_digest''])))"

definition resolves :: "pyval \<Rightarrow> bool" where
  "resolves evidence =
     (let admission = get evidence ''admission'';
          admission_ref = get (get (get evidence ''closure'') ''credential_use'') ''admission_ref'' in
      admission_ref \<noteq> JNull \<and> is_dict admission \<and> get admission ''action_id'' = admission_ref)"

definition coverage_verdict149 :: "pyval \<Rightarrow> outcome" where
  "coverage_verdict149 ctx =
     (let scope = get ctx ''evaluation_scope'';
          coverage = get ctx ''observation_coverage'';
          claim_ref = get ctx ''claim_ref'' in
      if coverage = JNull \<or> get coverage ''status'' \<noteq> JStr ''established'' then
        not_established ''observation_coverage''
          (''no bypass was observed, but observation coverage is not established for scope %r'', [scope])
      else if get coverage ''scope'' \<noteq> scope then
        not_established ''observation_coverage''
          (''observation coverage is established for scope %r, which is not the evaluated scope %r'',
           [get coverage ''scope'', scope])
      else if get coverage ''claim_ref'' \<noteq> claim_ref then
        not_established ''observation_coverage''
          (''observation coverage is bound to claim %r, which is not the evaluated claim %r'',
           [get coverage ''claim_ref'', claim_ref])
      else
        pass (''no bypass was observed, and observation coverage is established for scope %r and bound to %r'',
              [scope, claim_ref]))"

definition eval_non_bypassability :: "pyval \<Rightarrow> pyval \<Rightarrow> checker_error + outcome" where
  "eval_non_bypassability evidence ctx =
     (let credential_use = get (get evidence ''closure'') ''credential_use'';
          path = get credential_use ''path'' in
      if \<not> is_dict credential_use then
        Inl (CandidateInputError ''non_bypassability requires evidence.closure.credential_use'')
      else if path = JStr ''governed'' \<and> \<not> resolves evidence then
        Inl (CandidateInputError ''credential_use.path is governed but admission_ref does not resolve to a covering admission record'')
      else if path \<noteq> JStr ''governed'' \<and> \<not> resolves evidence then
        Inr (fail (''closure shows the protected credential %r used via an alternate path with no admission record covering it'',
                   [get credential_use ''credential'']))
      else Inr (coverage_verdict149 ctx))"

definition evaluate149 :: "pyval \<Rightarrow> checker_error + outcome" where
  "evaluate149 ci =
     (case validate149 ci of
        Some e \<Rightarrow> Inl e
      | None \<Rightarrow>
          (let name = str_of (get (get ci ''property'') ''name'');
               evidence = get ci ''evidence''; ctx = get ci ''context'' in
           if name \<notin> set SUPPORTED_PROPERTIES then Inl (UnsupportedVerification name)
           else if name = ''exact_call'' then eval_exact_call evidence ctx
           else if name = ''effect_verified'' then eval_effect_verified evidence ctx
           else eval_non_bypassability evidence ctx))"

section \<open>What validation guarantees\<close>

lemma validate149_parts:
  assumes "validate149 ci = None"
  shows "is_dict ci" and "nonempty_str (get (get ci ''property'') ''name'')"
    and "is_dict (get ci ''evidence'')"
    and "validate_admission (get (get ci ''evidence'') ''admission'') = None"
    and "validate_closure (get (get ci ''evidence'') ''closure'') = None"
    and "validate_context (get ci ''context'') = None"
  using assms by (auto simp: validate149_def Let_def)

lemma validate_admission_keys:
  "validate_admission a = None \<Longrightarrow> is_dict a \<Longrightarrow>
     k \<in> {''action_id'', ''tool'', ''args_digest'', ''decision''} \<Longrightarrow> nonempty_str (get a k)"
  by (auto simp: validate_admission_def)

lemma validate_closure_parts:
  assumes "validate_closure c = None"
  shows "is_dict c" and "validate_dispatch (get c ''dispatch'') = None"
    and "nonempty_str (get (get c ''tool_self_report'') ''status'')"
    and "validate_read_back (get c ''read_back'') = None"
    and "validate_credential_use (get c ''credential_use'') = None"
  using assms by (auto simp: validate_closure_def)

lemma validate_dispatch_cases:
  assumes "validate_dispatch d = None"
  obtains (dispatched) "get d ''status'' = JStr ''dispatched''" "nonempty_str (get d ''args_digest'')"
  | (refused) "get d ''status'' = JStr ''refused''" "nonempty_str (get (get d ''refusal'') ''reason'')"
      "nonempty_str (get (get d ''refusal'') ''attributed_cause'')"
  using assms
  by (auto simp: validate_dispatch_def Let_def not_in_names_None DISPATCH_STATUSES_def split: if_splits)

lemma validate_read_back_cases:
  assumes "validate_read_back d = None"
  obtains (unavailable) "get d ''status'' = JStr ''unavailable''" "nonempty_str (get d ''reason'')"
  | (disagrees) "get d ''status'' = JStr ''disagrees''" "nonempty_str (get d ''observed_digest'')"
  | (agrees) "get d ''status'' = JStr ''agrees''" "nonempty_str (get d ''observed_digest'')"
  using assms
  by (auto simp: validate_read_back_def not_in_names_None READ_BACK_STATUSES_def split: if_splits)

lemma validate_credential_use_parts:
  assumes "validate_credential_use cu = None" and "is_dict cu"
  shows "nonempty_str (get cu ''credential'')"
    and "get cu ''path'' = JStr ''governed'' \<or> get cu ''path'' = JStr ''alternate''"
    and "has_key cu ''admission_ref''"
  using assms by (auto simp: validate_credential_use_def not_in_names_None CREDENTIAL_PATHS_def)

lemma validate_context_coverage:
  assumes "validate_context ctx = None" and "get ctx ''observation_coverage'' \<noteq> JNull"
  shows "is_dict (get ctx ''observation_coverage'')" and "nonempty_str (get ctx ''claim_ref'')"
    and "k \<in> {''status'', ''scope'', ''claim_ref''} \<Longrightarrow>
         nonempty_str (get (get ctx ''observation_coverage'') k)"
  using assms by (auto simp: validate_context_def Let_def)

lemma validate_context_scope:
  "validate_context ctx = None \<Longrightarrow> nonempty_str (get ctx ''evaluation_scope'')"
  by (simp add: validate_context_def)

lemma nonempty_str_has_key: "nonempty_str (get d k) \<Longrightarrow> has_key d k"
  by (rule ccontr) (simp add: nonempty_str_def get_no_key)

section \<open>Verdicts\<close>

lemma coverage_verdict149_pass: "verdict (coverage_verdict149 ctx) = Pass \<longleftrightarrow> covers ctx"
  by (auto simp: coverage_verdict149_def covers_def outcome_defs Let_def)

lemma coverage_verdict149_not_pass:
  "\<not> covers ctx \<Longrightarrow> verdict (coverage_verdict149 ctx) = Not_established
     \<and> unmet_obligation (coverage_verdict149 ctx) = Some ''observation_coverage''"
  by (auto simp: coverage_verdict149_def covers_def outcome_defs Let_def split: if_splits)

lemma evaluate149_Inr_valid: "evaluate149 ci = Inr r \<Longrightarrow> validate149 ci = None"
  by (auto simp: evaluate149_def split: option.splits)

lemma evaluate149_named:
  assumes "validate149 ci = None" and "get (get ci ''property'') ''name'' = JStr name"
  shows "name = ''exact_call'' \<Longrightarrow> evaluate149 ci = eval_exact_call (get ci ''evidence'') (get ci ''context'')"
    and "name = ''effect_verified'' \<Longrightarrow> evaluate149 ci = eval_effect_verified (get ci ''evidence'') (get ci ''context'')"
    and "name = ''non_bypassability'' \<Longrightarrow> evaluate149 ci = eval_non_bypassability (get ci ''evidence'') (get ci ''context'')"
    and "name \<notin> set SUPPORTED_PROPERTIES \<Longrightarrow> evaluate149 ci = Inl (UnsupportedVerification name)"
  using assms by (auto simp: evaluate149_def SUPPORTED_PROPERTIES_def)

abbreviation negative149 :: "pyval \<Rightarrow> bool" where
  "negative149 ci \<equiv> get (get ci ''property'') ''name'' = JStr ''non_bypassability''"

lemma evaluators_obligation:
  "eval_exact_call ev ctx = Inr r \<Longrightarrow> (unmet_obligation r \<noteq> None) = (verdict r = Not_established)"
  "eval_effect_verified ev ctx = Inr r \<Longrightarrow> (unmet_obligation r \<noteq> None) = (verdict r = Not_established)"
  "eval_non_bypassability ev ctx = Inr r \<Longrightarrow> (unmet_obligation r \<noteq> None) = (verdict r = Not_established)"
  by (auto simp: eval_exact_call_def eval_effect_verified_def eval_non_bypassability_def
      coverage_verdict149_def outcome_defs Let_def split: if_splits)

interpretation d2e: three_valued_checker evaluate149 validate149
    "\<lambda>ci. get ci ''context''" negative149
proof unfold_locales
  fix i e assume "validate149 i = Some e"
  then show "evaluate149 i = Inl e" by (simp add: evaluate149_def)
next
  fix i r assume "evaluate149 i = Inr r"
  then show "(unmet_obligation r \<noteq> None) = (verdict r = Not_established)"
    by (auto simp: evaluate149_def Let_def dest: evaluators_obligation split: option.splits if_splits)
next
  fix i r assume *: "evaluate149 i = Inr r" and neg: "negative149 i" and p: "verdict r = Pass"
  from * have "validate149 i = None" by (rule evaluate149_Inr_valid)
  with * neg have "eval_non_bypassability (get i ''evidence'') (get i ''context'') = Inr r"
    by (simp add: evaluate149_named(3))
  with p show "covers (get i ''context'')"
    by (auto simp: eval_non_bypassability_def Let_def fail_def coverage_verdict149_pass split: if_splits)
qed

end
