(* ===== verification/Decision_Effect_Corpus.thy ===== *)
theory Decision_Effect_Corpus
  imports Decision_Effect
begin

text \<open>
  The candidate corpus of \<open>interop/cosai-ws4-149-decision-to-effect/adapter/py/run.py\<close>
  (the \<open>cases\<close> list: id, checker input and expectation; provenance and rationale prose are
  left out) and the grading of \<open>evaluate_all\<close>, followed by the properties of the checker with
  the corpus cases as their witnesses.
\<close>

section \<open>The corpus\<close>

record candidate =
  cand_id :: string
  checker_input :: pyval
  expected_verdict :: verdict
  expected_obligation :: "string option"

definition cand149_POS_01_EXACT_CALL :: candidate where
  "cand149_POS_01_EXACT_CALL = \<lparr>
     cand_id = ''CAND-COSAI-149-D2E-POS-01-EXACT-CALL'',
     checker_input = JObj [(''property'', JObj [(''name'', JStr ''exact_call''),
       (''kind'', JStr ''decision_to_effect''),
       (''statement'', JStr ''the dispatched call carries exactly the authorized arguments'')]),
       (''evidence'', JObj [(''admission'', JObj [(''action_id'', JStr ''act-pos-01''),
       (''tool'', JStr ''wire_transfer''),
       (''args_digest'', JStr ''sha256:pos01-authorized-args''),
       (''decision'', JStr ''authorized'')]),
       (''closure'', JObj [(''ref'', JStr ''act-pos-01''),
       (''dispatch'', JObj [(''status'', JStr ''dispatched''),
       (''args_digest'', JStr ''sha256:pos01-authorized-args'')]),
       (''tool_self_report'', JObj [(''status'', JStr ''success'')]),
       (''read_back'', JObj [(''status'', JStr ''agrees''),
       (''observed_digest'', JStr ''sha256:pos01-authorized-args'')])])]),
       (''context'', JObj [(''evaluation_scope'', JStr ''positive control: single admission, single dispatch'')])],
     expected_verdict = Pass,
     expected_obligation = None\<rparr>"

definition cand149_POS_01_EFFECT_VERIFIED :: candidate where
  "cand149_POS_01_EFFECT_VERIFIED = \<lparr>
     cand_id = ''CAND-COSAI-149-D2E-POS-01-EFFECT-VERIFIED'',
     checker_input = JObj [(''property'', JObj [(''name'', JStr ''effect_verified''),
       (''kind'', JStr ''decision_to_effect''),
       (''statement'', JStr ''the tool's self-report agrees with an independent read-back'')]),
       (''evidence'', JObj [(''admission'', JObj [(''action_id'', JStr ''act-pos-01''),
       (''tool'', JStr ''wire_transfer''),
       (''args_digest'', JStr ''sha256:pos01-authorized-args''),
       (''decision'', JStr ''authorized'')]),
       (''closure'', JObj [(''ref'', JStr ''act-pos-01''),
       (''dispatch'', JObj [(''status'', JStr ''dispatched''),
       (''args_digest'', JStr ''sha256:pos01-authorized-args'')]),
       (''tool_self_report'', JObj [(''status'', JStr ''success'')]),
       (''read_back'', JObj [(''status'', JStr ''agrees''),
       (''observed_digest'', JStr ''sha256:pos01-authorized-args'')])])]),
       (''context'', JObj [(''evaluation_scope'', JStr ''positive control: single admission, single dispatch'')])],
     expected_verdict = Pass,
     expected_obligation = None\<rparr>"

definition cand149_POS_01_NON_BYPASSABILITY_COVERED :: candidate where
  "cand149_POS_01_NON_BYPASSABILITY_COVERED = \<lparr>
     cand_id = ''CAND-COSAI-149-D2E-POS-01-NON-BYPASSABILITY-COVERED'',
     checker_input = JObj [(''property'', JObj [(''name'', JStr ''non_bypassability''),
       (''kind'', JStr ''decision_to_effect''),
       (''statement'', JStr ''the protected effect was not reached by a path that bypasses the authorization boundary'')]),
       (''evidence'', JObj [(''admission'', JObj [(''action_id'', JStr ''act-pos-01''),
       (''tool'', JStr ''wire_transfer''),
       (''args_digest'', JStr ''sha256:pos01-authorized-args''),
       (''decision'', JStr ''authorized'')]),
       (''closure'', JObj [(''ref'', JStr ''act-pos-01''),
       (''dispatch'', JObj [(''status'', JStr ''dispatched''),
       (''args_digest'', JStr ''sha256:pos01-authorized-args'')]),
       (''tool_self_report'', JObj [(''status'', JStr ''success'')]),
       (''read_back'', JObj [(''status'', JStr ''agrees''),
       (''observed_digest'', JStr ''sha256:pos01-authorized-args'')]),
       (''credential_use'', JObj [(''credential'', JStr ''cred-pos-01''),
       (''path'', JStr ''governed''),
       (''admission_ref'', JStr ''act-pos-01'')])])]),
       (''context'', JObj [(''evaluation_scope'', JStr ''positive control: single admission, single dispatch''),
       (''claim_ref'', JStr ''pos01-claim-1''),
       (''observation_coverage'', JObj [(''status'', JStr ''established''),
       (''scope'', JStr ''positive control: single admission, single dispatch''),
       (''claim_ref'', JStr ''pos01-claim-1''),
       (''basis'', JStr ''test fixture: coverage of alternate paths to cred-pos-01 stipulated as established for this scope and this claim'')])])],
     expected_verdict = Pass,
     expected_obligation = None\<rparr>"

definition cand149_POS_01_NON_BYPASSABILITY_UNCOVERED :: candidate where
  "cand149_POS_01_NON_BYPASSABILITY_UNCOVERED = \<lparr>
     cand_id = ''CAND-COSAI-149-D2E-POS-01-NON-BYPASSABILITY-UNCOVERED'',
     checker_input = JObj [(''property'', JObj [(''name'', JStr ''non_bypassability''),
       (''kind'', JStr ''decision_to_effect''),
       (''statement'', JStr ''the protected effect was not reached by a path that bypasses the authorization boundary'')]),
       (''evidence'', JObj [(''admission'', JObj [(''action_id'', JStr ''act-pos-01''),
       (''tool'', JStr ''wire_transfer''),
       (''args_digest'', JStr ''sha256:pos01-authorized-args''),
       (''decision'', JStr ''authorized'')]),
       (''closure'', JObj [(''ref'', JStr ''act-pos-01''),
       (''dispatch'', JObj [(''status'', JStr ''dispatched''),
       (''args_digest'', JStr ''sha256:pos01-authorized-args'')]),
       (''tool_self_report'', JObj [(''status'', JStr ''success'')]),
       (''read_back'', JObj [(''status'', JStr ''agrees''),
       (''observed_digest'', JStr ''sha256:pos01-authorized-args'')]),
       (''credential_use'', JObj [(''credential'', JStr ''cred-pos-01''),
       (''path'', JStr ''governed''),
       (''admission_ref'', JStr ''act-pos-01'')])])]),
       (''context'', JObj [(''evaluation_scope'', JStr ''positive control: single admission, single dispatch'')])],
     expected_verdict = Not_established,
     expected_obligation = Some ''observation_coverage''\<rparr>"

definition cand149_EXACT_01 :: candidate where
  "cand149_EXACT_01 = \<lparr>
     cand_id = ''CAND-COSAI-149-D2E-EXACT-01'',
     checker_input = JObj [(''property'', JObj [(''name'', JStr ''exact_call''),
       (''kind'', JStr ''decision_to_effect''),
       (''statement'', JStr ''the dispatched call carries exactly the authorized arguments'')]),
       (''evidence'', JObj [(''admission'', JObj [(''action_id'', JStr ''act-exact-01''),
       (''tool'', JStr ''wire_transfer''),
       (''args_digest'', JStr ''sha256:exact01-authorized-args''),
       (''decision'', JStr ''authorized'')]),
       (''closure'', JObj [(''ref'', JStr ''act-exact-01''),
       (''dispatch'', JObj [(''status'', JStr ''dispatched''),
       (''args_digest'', JStr ''sha256:exact01-MUTATED-args'')]),
       (''tool_self_report'', JObj [(''status'', JStr ''success'')]),
       (''read_back'', JObj [(''status'', JStr ''agrees''),
       (''observed_digest'', JStr ''sha256:exact01-MUTATED-args'')])])]),
       (''context'', JObj [(''evaluation_scope'', JStr ''REMORA V-02: args mutated after authorization, dispatched anyway'')])],
     expected_verdict = Fail,
     expected_obligation = None\<rparr>"

definition cand149_EXACT_02 :: candidate where
  "cand149_EXACT_02 = \<lparr>
     cand_id = ''CAND-COSAI-149-D2E-EXACT-02'',
     checker_input = JObj [(''property'', JObj [(''name'', JStr ''exact_call''),
       (''kind'', JStr ''decision_to_effect''),
       (''statement'', JStr ''the dispatched call carries exactly the authorized arguments'')]),
       (''evidence'', JObj [(''admission'', JObj [(''action_id'', JStr ''act-exact-02''),
       (''tool'', JStr ''wire_transfer''),
       (''args_digest'', JStr ''sha256:exact02-authorized-args''),
       (''decision'', JStr ''authorized'')]),
       (''closure'', JObj [(''ref'', JStr ''act-exact-02''),
       (''dispatch'', JObj [(''status'', JStr ''refused''),
       (''refusal'', JObj [(''reason'', JStr ''observed dispatch arguments diverge from the authorized args digest''),
       (''attributed_cause'', JStr ''args_mismatch'')])]),
       (''tool_self_report'', JObj [(''status'', JStr ''not_attempted'')]),
       (''read_back'', JObj [(''status'', JStr ''unavailable''),
       (''reason'', JStr ''no dispatch occurred; there is no effect to read back'')])])]),
       (''context'', JObj [(''evaluation_scope'', JStr ''REMORA V-02: args mutated after authorization, dispatch refused citing the mismatch'')])],
     expected_verdict = Pass,
     expected_obligation = None\<rparr>"

definition cand149_BYPASS_01 :: candidate where
  "cand149_BYPASS_01 = \<lparr>
     cand_id = ''CAND-COSAI-149-D2E-BYPASS-01'',
     checker_input = JObj [(''property'', JObj [(''name'', JStr ''non_bypassability''),
       (''kind'', JStr ''decision_to_effect''),
       (''statement'', JStr ''the protected effect was not reached by a path that bypasses the authorization boundary'')]),
       (''evidence'', JObj [(''admission'', JNull),
       (''closure'', JObj [(''ref'', JStr ''closure-bypass-01''),
       (''dispatch'', JObj [(''status'', JStr ''dispatched''),
       (''args_digest'', JStr ''sha256:bypass01-effect-args'')]),
       (''tool_self_report'', JObj [(''status'', JStr ''success'')]),
       (''read_back'', JObj [(''status'', JStr ''agrees''),
       (''observed_digest'', JStr ''sha256:bypass01-effect-args'')]),
       (''credential_use'', JObj [(''credential'', JStr ''cred-shared-secret''),
       (''path'', JStr ''alternate''),
       (''admission_ref'', JNull)])])]),
       (''context'', JObj [(''evaluation_scope'', JStr ''alternate path to a protected credential, no admission record'')])],
     expected_verdict = Fail,
     expected_obligation = None\<rparr>"

definition cand149_BYPASS_02 :: candidate where
  "cand149_BYPASS_02 = \<lparr>
     cand_id = ''CAND-COSAI-149-D2E-BYPASS-02'',
     checker_input = JObj [(''property'', JObj [(''name'', JStr ''non_bypassability''),
       (''kind'', JStr ''decision_to_effect''),
       (''statement'', JStr ''the protected effect was not reached by a path that bypasses the authorization boundary'')]),
       (''evidence'', JObj [(''admission'', JObj [(''action_id'', JStr ''act-bypass-02''),
       (''tool'', JStr ''record_export''),
       (''args_digest'', JStr ''sha256:bypass02-args''),
       (''decision'', JStr ''authorized'')]),
       (''closure'', JObj [(''ref'', JStr ''act-bypass-02''),
       (''dispatch'', JObj [(''status'', JStr ''dispatched''),
       (''args_digest'', JStr ''sha256:bypass02-args'')]),
       (''tool_self_report'', JObj [(''status'', JStr ''success'')]),
       (''read_back'', JObj [(''status'', JStr ''agrees''),
       (''observed_digest'', JStr ''sha256:bypass02-args'')]),
       (''credential_use'', JObj [(''credential'', JStr ''cred-record-export''),
       (''path'', JStr ''governed''),
       (''admission_ref'', JStr ''act-bypass-02'')])])]),
       (''context'', JObj [(''evaluation_scope'', JStr ''no bypass observed, alternate-path coverage not established'')])],
     expected_verdict = Not_established,
     expected_obligation = Some ''observation_coverage''\<rparr>"

definition cand149_EFFECT_01 :: candidate where
  "cand149_EFFECT_01 = \<lparr>
     cand_id = ''CAND-COSAI-149-D2E-EFFECT-01'',
     checker_input = JObj [(''property'', JObj [(''name'', JStr ''effect_verified''),
       (''kind'', JStr ''decision_to_effect''),
       (''statement'', JStr ''the tool's self-report agrees with an independent read-back'')]),
       (''evidence'', JObj [(''admission'', JObj [(''action_id'', JStr ''act-effect-01''),
       (''tool'', JStr ''ledger_write''),
       (''args_digest'', JStr ''sha256:effect01-args''),
       (''decision'', JStr ''authorized'')]),
       (''closure'', JObj [(''ref'', JStr ''act-effect-01''),
       (''dispatch'', JObj [(''status'', JStr ''dispatched''),
       (''args_digest'', JStr ''sha256:effect01-args'')]),
       (''tool_self_report'', JObj [(''status'', JStr ''success'')]),
       (''read_back'', JObj [(''status'', JStr ''disagrees''),
       (''observed_digest'', JStr ''sha256:effect01-actual-state-differs'')])])]),
       (''context'', JObj [(''evaluation_scope'', JStr ''REMORA V-13: tool self-report success, independent read-back disagrees'')])],
     expected_verdict = Fail,
     expected_obligation = None\<rparr>"

definition cand149_EFFECT_02 :: candidate where
  "cand149_EFFECT_02 = \<lparr>
     cand_id = ''CAND-COSAI-149-D2E-EFFECT-02'',
     checker_input = JObj [(''property'', JObj [(''name'', JStr ''effect_verified''),
       (''kind'', JStr ''decision_to_effect''),
       (''statement'', JStr ''the tool's self-report agrees with an independent read-back'')]),
       (''evidence'', JObj [(''admission'', JObj [(''action_id'', JStr ''act-effect-02''),
       (''tool'', JStr ''ledger_write''),
       (''args_digest'', JStr ''sha256:effect02-args''),
       (''decision'', JStr ''authorized'')]),
       (''closure'', JObj [(''ref'', JStr ''act-effect-02''),
       (''dispatch'', JObj [(''status'', JStr ''dispatched''),
       (''args_digest'', JStr ''sha256:effect02-args'')]),
       (''tool_self_report'', JObj [(''status'', JStr ''success'')]),
       (''read_back'', JObj [(''status'', JStr ''unavailable''),
       (''reason'', JStr ''downstream ledger read API returned 503 throughout the verification window'')])])]),
       (''context'', JObj [(''evaluation_scope'', JStr ''read-back could not be performed'')])],
     expected_verdict = Not_established,
     expected_obligation = Some ''read_back''\<rparr>"

definition cand149_EFFECT_03 :: candidate where
  "cand149_EFFECT_03 = \<lparr>
     cand_id = ''CAND-COSAI-149-D2E-EFFECT-03'',
     checker_input = JObj [(''property'', JObj [(''name'', JStr ''effect_verified''),
       (''kind'', JStr ''decision_to_effect''),
       (''statement'', JStr ''the tool's self-report agrees with an independent read-back'')]),
       (''evidence'', JObj [(''admission'', JObj [(''action_id'', JStr ''act-effect-03''),
       (''tool'', JStr ''ledger_write''),
       (''args_digest'', JStr ''sha256:effect03-args''),
       (''decision'', JStr ''authorized'')]),
       (''closure'', JObj [(''ref'', JStr ''act-effect-03''),
       (''dispatch'', JObj [(''status'', JStr ''dispatched''),
       (''args_digest'', JStr ''sha256:effect03-args'')]),
       (''tool_self_report'', JObj [(''status'', JStr ''indeterminate'')]),
       (''read_back'', JObj [(''status'', JStr ''unavailable''),
       (''reason'', JStr ''effect state was indeterminate at runtime; independent read-back could not resolve a value within the verification window'')])])]),
       (''context'', JObj [(''evaluation_scope'', JStr ''REMORA V-14: EFFECT_INDETERMINATE runtime outcome carried as evidence'')]),
       (''runtime_outcome'', JObj [(''status'', JStr ''EFFECT_INDETERMINATE''),
       (''carried_as'', JStr ''evidence of the runtime outcome only, never a verdict on the property'')])],
     expected_verdict = Not_established,
     expected_obligation = Some ''read_back''\<rparr>"

definition cases149 :: "candidate list" where
  "cases149 = [cand149_POS_01_EXACT_CALL,
     cand149_POS_01_EFFECT_VERIFIED,
     cand149_POS_01_NON_BYPASSABILITY_COVERED,
     cand149_POS_01_NON_BYPASSABILITY_UNCOVERED,
     cand149_EXACT_01,
     cand149_EXACT_02,
     cand149_BYPASS_01,
     cand149_BYPASS_02,
     cand149_EFFECT_01,
     cand149_EFFECT_02,
     cand149_EFFECT_03]"

lemmas cand149_defs = cand149_POS_01_EXACT_CALL_def
  cand149_POS_01_EFFECT_VERIFIED_def
  cand149_POS_01_NON_BYPASSABILITY_COVERED_def
  cand149_POS_01_NON_BYPASSABILITY_UNCOVERED_def
  cand149_EXACT_01_def
  cand149_EXACT_02_def
  cand149_BYPASS_01_def
  cand149_BYPASS_02_def
  cand149_EFFECT_01_def
  cand149_EFFECT_02_def
  cand149_EFFECT_03_def

definition reproduced149 :: "candidate \<Rightarrow> outcome \<Rightarrow> bool" where
  "reproduced149 c obs =
     (verdict obs = expected_verdict c \<and> unmet_obligation obs = expected_obligation c)"

fun evaluate_all149 :: "candidate list \<Rightarrow> checker_error + (string \<times> outcome \<times> bool) list" where
  "evaluate_all149 [] = Inr []"
| "evaluate_all149 (c # cs) =
     (case evaluate149 (checker_input c) of
        Inl e \<Rightarrow> Inl e
      | Inr obs \<Rightarrow>
          (case evaluate_all149 cs of
             Inl e \<Rightarrow> Inl e
           | Inr rs \<Rightarrow> Inr ((cand_id c, obs, reproduced149 c obs) # rs)))"

lemmas check149_defs = validate149_def validate_admission_def validate_closure_def
  validate_dispatch_def validate_read_back_def validate_credential_use_def validate_context_def
  not_in_names_def vocab_defs json_access Let_def

lemmas eval149_defs = evaluate149_def eval_exact_call_def eval_effect_verified_def
  eval_non_bypassability_def coverage_verdict149_def resolves_def outcome_defs check149_defs

definition reproduces149 :: "candidate \<Rightarrow> bool" where
  "reproduces149 c = (case evaluate149 (checker_input c) of Inl _ \<Rightarrow> False | Inr r \<Rightarrow> reproduced149 c r)"

lemma evaluate_all149_reproduced:
  "\<forall>c\<in>set cs. reproduces149 c \<Longrightarrow>
     \<exists>rs. evaluate_all149 cs = Inr rs \<and> map fst rs = map cand_id cs \<and> (\<forall>r\<in>set rs. snd (snd r))"
  by (induction cs) (auto simp: reproduces149_def split: sum.splits)

lemma cand149_POS_01_EXACT_CALL_reproduced: "reproduces149 cand149_POS_01_EXACT_CALL"
  by (simp add: cand149_defs eval149_defs reproduces149_def reproduced149_def)

lemma cand149_POS_01_EFFECT_VERIFIED_reproduced: "reproduces149 cand149_POS_01_EFFECT_VERIFIED"
  by (simp add: cand149_defs eval149_defs reproduces149_def reproduced149_def)

lemma cand149_POS_01_NON_BYPASSABILITY_COVERED_reproduced: "reproduces149 cand149_POS_01_NON_BYPASSABILITY_COVERED"
  by (simp add: cand149_defs eval149_defs reproduces149_def reproduced149_def)

lemma cand149_POS_01_NON_BYPASSABILITY_UNCOVERED_reproduced: "reproduces149 cand149_POS_01_NON_BYPASSABILITY_UNCOVERED"
  by (simp add: cand149_defs eval149_defs reproduces149_def reproduced149_def)

lemma cand149_EXACT_01_reproduced: "reproduces149 cand149_EXACT_01"
  by (simp add: cand149_defs eval149_defs reproduces149_def reproduced149_def)

lemma cand149_EXACT_02_reproduced: "reproduces149 cand149_EXACT_02"
  by (simp add: cand149_defs eval149_defs reproduces149_def reproduced149_def)

lemma cand149_BYPASS_01_reproduced: "reproduces149 cand149_BYPASS_01"
  by (simp add: cand149_defs eval149_defs reproduces149_def reproduced149_def)

lemma cand149_BYPASS_02_reproduced: "reproduces149 cand149_BYPASS_02"
  by (simp add: cand149_defs eval149_defs reproduces149_def reproduced149_def)

lemma cand149_EFFECT_01_reproduced: "reproduces149 cand149_EFFECT_01"
  by (simp add: cand149_defs eval149_defs reproduces149_def reproduced149_def)

lemma cand149_EFFECT_02_reproduced: "reproduces149 cand149_EFFECT_02"
  by (simp add: cand149_defs eval149_defs reproduces149_def reproduced149_def)

lemma cand149_EFFECT_03_reproduced: "reproduces149 cand149_EFFECT_03"
  by (simp add: cand149_defs eval149_defs reproduces149_def reproduced149_def)

lemmas cand149_reproduced =
  cand149_POS_01_EXACT_CALL_reproduced
  cand149_POS_01_EFFECT_VERIFIED_reproduced
  cand149_POS_01_NON_BYPASSABILITY_COVERED_reproduced
  cand149_POS_01_NON_BYPASSABILITY_UNCOVERED_reproduced
  cand149_EXACT_01_reproduced
  cand149_EXACT_02_reproduced
  cand149_BYPASS_01_reproduced
  cand149_BYPASS_02_reproduced
  cand149_EFFECT_01_reproduced
  cand149_EFFECT_02_reproduced
  cand149_EFFECT_03_reproduced

section \<open>Properties\<close>

text \<open>Non-bypassability passes exactly when the closure records a credential use that
  resolves to the admission it cites and observation coverage is established for the evaluated
  scope and bound to the evaluated claim. No other evidence reaches \<open>pass\<close>.\<close>

theorem non_bypassability_pass_iff:
  assumes "validate149 ci = None" and "get (get ci ''property'') ''name'' = JStr ''non_bypassability''"
  shows "(\<exists>r. evaluate149 ci = Inr r \<and> verdict r = Pass) \<longleftrightarrow>
    is_dict (get (get (get ci ''evidence'') ''closure'') ''credential_use'')
    \<and> resolves (get ci ''evidence'') \<and> covers (get ci ''context'')"
  unfolding evaluate149_named(3) [OF assms refl]
  by (auto simp: eval_non_bypassability_def Let_def fail_def coverage_verdict149_pass split: if_splits)

theorem non_bypassability_pass_iff_witness:
  "\<exists>r. evaluate149 (checker_input cand149_POS_01_NON_BYPASSABILITY_COVERED) = Inr r \<and> verdict r = Pass"
  using non_bypassability_pass_iff [of "checker_input cand149_POS_01_NON_BYPASSABILITY_COVERED"]
  by (simp add: cand149_POS_01_NON_BYPASSABILITY_COVERED_def check149_defs resolves_def covers_def)

text \<open>A credential use on the alternate path that resolves to no admission, and a candidate with its context replaced\<close>

definition observed_bypass :: "pyval \<Rightarrow> bool" where
  "observed_bypass evidence \<longleftrightarrow>
     get (get (get evidence ''closure'') ''credential_use'') ''path'' = JStr ''alternate'' \<and> \<not> resolves evidence"

definition with_context :: "pyval \<Rightarrow> pyval \<Rightarrow> pyval" where
  "with_context ci ctx = JObj (AList.update ''context'' ctx (members ci))"

lemma with_context_get [simp]:
  "get (with_context ci ctx) k = (if k = ''context'' then ctx else get ci k)"
  "has_key (with_context ci ctx) k \<longleftrightarrow> k = ''context'' \<or> has_key ci k"
  by (simp_all add: with_context_def get_def has_key_def update_conv')

lemma first_error_none_append: "first_error xs = None \<Longrightarrow> first_error (xs @ ys) = first_error ys"
  by (induction xs rule: first_error.induct) auto

lemma validate149_with_context:
  assumes "validate149 ci = None"
  shows "validate149 (with_context ci ctx) = validate_context ctx"
proof -
  have "is_dict (with_context ci ctx)" by (simp add: with_context_def)
  with assms show ?thesis
    unfolding validate149_def Let_def
    by (cases "validate_context ctx") (simp_all add: first_error_none_append raise_if_def)
qed

lemma validated_path:
  assumes "validate149 ci = None" and "is_dict (get (get (get ci ''evidence'') ''closure'') ''credential_use'')"
  shows "get (get (get (get ci ''evidence'') ''closure'') ''credential_use'') ''path'' \<in> {JStr ''governed'', JStr ''alternate''}"
  using validate149_parts(5) [OF assms(1)] assms(2)
  by (auto simp: validate_closure_def validate_credential_use_def not_in_names_None CREDENTIAL_PATHS_def)

text \<open>C11: What fails non-bypassability, and that no coverage premise redeems it. For an input that validation accepts and
  whose property is named \<open>non_bypassability\<close> (a refused input has no verdict), the verdict is \<open>fail\<close> exactly when
  the closure records a credential use on the alternate path that resolves to no admission. It then carries no
  unmet obligation, and with any other context in place of the input's own the very same result is returned, unless
  the new context is itself malformed, in which case its own validation error is raised instead of a verdict.\<close>

theorem observed_bypass_fails:
  assumes "validate149 ci = None" and "get (get ci ''property'') ''name'' = JStr ''non_bypassability''"
  shows "((\<exists>r. evaluate149 ci = Inr r \<and> verdict r = Fail) \<longleftrightarrow> observed_bypass (get ci ''evidence''))
    \<and> (observed_bypass (get ci ''evidence'') \<longrightarrow>
         (\<exists>r. verdict r = Fail \<and> unmet_obligation r = None
            \<and> (\<forall>ctx. evaluate149 (with_context ci ctx) = (case validate_context ctx of None \<Rightarrow> Inr r | Some e \<Rightarrow> Inl e))))"
proof -
  let ?ev = "get ci ''evidence''"
  let ?cu = "get (get ?ev ''closure'') ''credential_use''"
  note named = evaluate149_named(3) [OF assms refl]
  have dict: "is_dict ?cu" if "observed_bypass ?ev"
    using that by (cases ?cu) (auto simp: observed_bypass_def get_def)
  have "(\<exists>r. evaluate149 ci = Inr r \<and> verdict r = Fail) \<longleftrightarrow> observed_bypass ?ev"
    unfolding named using dict validated_path [OF assms(1)]
    by (auto simp: eval_non_bypassability_def observed_bypass_def Let_def fail_def coverage_verdict149_def outcome_defs split: if_splits)
  moreover have "\<exists>r. verdict r = Fail \<and> unmet_obligation r = None
      \<and> (\<forall>ctx. evaluate149 (with_context ci ctx) = (case validate_context ctx of None \<Rightarrow> Inr r | Some e \<Rightarrow> Inl e))"
    if b: "observed_bypass ?ev"
  proof -
    obtain r where r: "\<And>ctx. eval_non_bypassability ?ev ctx = Inr r" "verdict r = Fail" "unmet_obligation r = None"
      using b dict [OF b] by (simp add: eval_non_bypassability_def observed_bypass_def fail_def)
    have "evaluate149 (with_context ci ctx) = (case validate_context ctx of None \<Rightarrow> Inr r | Some e \<Rightarrow> Inl e)" for ctx
      using validate149_with_context [OF assms(1), of ctx] evaluate149_named(3) [of "with_context ci ctx", OF _ _ refl] assms(2) r(1)
      by (auto simp: evaluate149_def split: option.split)
    then show ?thesis using r by blast
  qed
  ultimately show ?thesis by blast
qed

theorem observed_bypass_fails_witness:
  "\<exists>r. evaluate149 (with_context (checker_input cand149_BYPASS_01) (get (checker_input cand149_POS_01_NON_BYPASSABILITY_COVERED) ''context'')) = Inr r
     \<and> verdict r = Fail \<and> unmet_obligation r = None"
proof -
  let ?ci = "checker_input cand149_BYPASS_01"
  have v: "validate149 ?ci = None" by (simp add: cand149_BYPASS_01_def check149_defs)
  have n: "get (get ?ci ''property'') ''name'' = JStr ''non_bypassability''" by (simp add: cand149_BYPASS_01_def json_access)
  have b: "observed_bypass (get ?ci ''evidence'')"
    by (simp add: cand149_BYPASS_01_def observed_bypass_def resolves_def json_access Let_def)
  have c: "validate_context (get (checker_input cand149_POS_01_NON_BYPASSABILITY_COVERED) ''context'') = None"
    by (simp add: cand149_POS_01_NON_BYPASSABILITY_COVERED_def check149_defs)
  from observed_bypass_fails [OF v n] b obtain r where r: "verdict r = Fail" "unmet_obligation r = None"
    "\<And>ctx. evaluate149 (with_context ?ci ctx) = (case validate_context ctx of None \<Rightarrow> Inr r | Some e \<Rightarrow> Inl e)" by blast
  show ?thesis using r(1,2) r(3) [unfolded c option.case] by (simp add: c r(3))
qed

text \<open>The runtime outcome is carried as evidence and never read: two inputs that agree on
  property, evidence and context and both carry an admissible runtime outcome (absent, null or an
  object) get the same result, errors included.\<close>

theorem runtime_outcome_never_decides:
  assumes "\<forall>k. k \<noteq> ''runtime_outcome'' \<longrightarrow> map_of m k = map_of n k"
    and "get (JObj m) ''runtime_outcome'' = JNull \<or> is_dict (get (JObj m) ''runtime_outcome'')"
    and "get (JObj n) ''runtime_outcome'' = JNull \<or> is_dict (get (JObj n) ''runtime_outcome'')"
  shows "evaluate149 (JObj m) = evaluate149 (JObj n)"
proof -
  have get_eq: "get (JObj m) k = get (JObj n) k" and key_eq: "has_key (JObj m) k = has_key (JObj n) k"
    if "k \<noteq> ''runtime_outcome''" for k
    using assms(1) that by (auto simp: get_def has_key_def)
  have "validate149 (JObj m) = validate149 (JObj n)"
    unfolding validate149_def using assms(2,3) by (auto simp: get_eq key_eq raise_if_def)
  then show ?thesis by (simp add: evaluate149_def get_eq split: option.split)
qed

theorem runtime_outcome_never_decides_witness:
  "evaluate149 (JObj (members (checker_input cand149_EFFECT_03)))
   = evaluate149 (JObj (filter (\<lambda>kv. fst kv \<noteq> ''runtime_outcome'') (members (checker_input cand149_EFFECT_03))))"
  by (rule runtime_outcome_never_decides) (simp_all add: cand149_EFFECT_03_def get_def)

text \<open>Every committed candidate of the corpus is reproduced: the checker runs over the whole
  list without raising, reports the cases in order, and each observed verdict and obligation equals
  the committed expectation.\<close>

theorem corpus149_reproduced:
  "\<exists>rs. evaluate_all149 cases149 = Inr rs \<and> map fst rs = map cand_id cases149 \<and> list_all (\<lambda>r. snd (snd r)) rs"
  using evaluate_all149_reproduced [of cases149] cand149_reproduced
  by (auto simp: cases149_def list_all_iff)

end
