(* ===== verification/Evidence_Sufficiency.thy ===== *)
theory Evidence_Sufficiency
  imports Verdicts
begin

text \<open>
  The checker of the CoSAI WS4 #189 evidence-sufficiency candidate
  (\<open>interop/cosai-ws4-189-evidence-sufficiency/adapter/py/checker.py\<close>) and its three
  candidate cases (\<open>adapter/py/run.py\<close>). The single supported property is the narrow
  negative \<open>no_delegation_occurred\<close>: an absent field is evidence of absence only under
  declared producer capability and established observation coverage.
\<close>

section \<open>Structural validation\<close>

definition REQUIRED_DESCRIPTOR_KEYS :: "string list" where
  "REQUIRED_DESCRIPTOR_KEYS = [''present'', ''gated_on'']"

definition validate_descriptor :: "string \<times> pyval \<Rightarrow> checker_error option" where
  "validate_descriptor = (\<lambda>(name, desc). first_error
     ([raise_if (\<not> is_dict desc) (CandidateInputError (''must be a descriptor object: evidence.'' @ name))]
      @ map (\<lambda>k. raise_if (\<not> has_key desc k)
          (CandidateInputError (''a missing descriptor key is not a value: '' @ k @ '' of evidence.'' @ name)))
          REQUIRED_DESCRIPTOR_KEYS
      @ [raise_if (\<not> is_bool (get desc ''present''))
           (CandidateInputError (''present must be a bool: evidence.'' @ name)),
         raise_if (\<not> (get desc ''gated_on'' = JNull \<or> is_str (get desc ''gated_on'')))
           (CandidateInputError (''gated_on must be a capability string or explicit null: evidence.'' @ name))]))"

definition validate_coverage :: "pyval \<Rightarrow> checker_error option" where
  "validate_coverage ctx =
     (let coverage = get ctx ''observation_coverage'' in
      if coverage \<noteq> JNull then first_error
        ([raise_if (\<not> is_dict coverage)
            (CandidateInputError ''observation_coverage must be an object'')]
         @ map (\<lambda>k. raise_if (\<not> is_str (get coverage k) \<or> str_of (get coverage k) = [])
             (CandidateInputError (''observation_coverage requires a non-empty string '' @ k)))
             [''status'', ''scope'', ''claim_ref'']
         @ [raise_if (\<not> is_str (get ctx ''claim_ref'') \<or> str_of (get ctx ''claim_ref'') = [])
              (CandidateInputError ''context requires a non-empty string claim_ref when observation_coverage is supplied'')])
      else raise_if (has_key ctx ''claim_ref''
                     \<and> (\<not> is_str (get ctx ''claim_ref'') \<or> str_of (get ctx ''claim_ref'') = []))
             (CandidateInputError ''context claim_ref, when present, must be a non-empty string''))"

definition validate189 :: "pyval \<Rightarrow> checker_error option" where
  "validate189 ci =
     (let prop = get ci ''property''; evidence = get ci ''evidence''; ctx = get ci ''context'';
          declared = get ctx ''producer_declared_capabilities'' in first_error
        ([raise_if (\<not> is_dict ci) (CandidateInputError ''checker input must be an object'')]
         @ map (\<lambda>key. raise_if (\<not> has_key ci key)
             (CandidateInputError (''checker input requires '' @ key)))
             [''property'', ''evidence'', ''context'']
         @ [raise_if (\<not> is_dict prop \<or> \<not> is_str (get prop ''name''))
              (CandidateInputError ''property requires a string name''),
            raise_if (\<not> is_dict evidence)
              (CandidateInputError ''evidence must be an object of field descriptors'')]
         @ map validate_descriptor (members evidence)
         @ [raise_if (\<not> is_dict ctx) (CandidateInputError ''context must be an object''),
            raise_if (\<not> (declared = JNull \<or> is_list declared))
              (CandidateInputError ''producer_declared_capabilities must be a list or null''),
            raise_if (\<not> is_str (get ctx ''evaluation_scope'') \<or> str_of (get ctx ''evaluation_scope'') = [])
              (CandidateInputError ''context requires a non-empty string evaluation_scope''),
            validate_coverage ctx]))"

section \<open>Inference\<close>

definition result189 :: "verdict \<Rightarrow> string option \<Rightarrow> string \<times> pyval list \<Rightarrow> outcome" where
  "result189 v ob r = \<lparr>verdict = v, unmet_obligation = ob, reason = r\<rparr>"

text \<open>The tail both no-event paths fall through to: the completeness requirement.\<close>

definition completeness :: "pyval \<Rightarrow> string \<Rightarrow> outcome" where
  "completeness ctx visibility =
     (let scope = get ctx ''evaluation_scope''; coverage = get ctx ''observation_coverage'' in
      if coverage = JNull \<or> get coverage ''status'' \<noteq> JStr ''established'' then
        result189 Not_established (Some ''observation_coverage'')
          (''%s establishes visibility, but completeness of the evaluated interval %r is not established'',
           [JStr visibility, scope])
      else if get coverage ''scope'' \<noteq> scope then
        result189 Not_established (Some ''observation_coverage'')
          (''observation coverage is established for scope %r, which is not the evaluated interval %r'',
           [get coverage ''scope'', scope])
      else if get coverage ''claim_ref'' \<noteq> get ctx ''claim_ref'' then
        result189 Not_established (Some ''observation_coverage'')
          (''observation coverage is bound to claim %r, which is not the evaluated claim %r'',
           [get coverage ''claim_ref'', get ctx ''claim_ref''])
      else
        result189 Pass None
          (''%s, and observation coverage is established for the evaluated interval %r and bound to %r'',
           [JStr visibility, scope, get ctx ''claim_ref'']))"

definition capability_covered :: "pyval \<Rightarrow> pyval \<Rightarrow> bool" where
  "capability_covered gate declared =
     (gate = JNull \<or> (declared \<noteq> JNull \<and> gate \<in> set (elements declared)))"

definition evaluate189 :: "pyval \<Rightarrow> checker_error + outcome" where
  "evaluate189 ci =
     (case validate189 ci of
        Some e \<Rightarrow> Inl e
      | None \<Rightarrow>
          (let name = str_of (get (get ci ''property'') ''name'');
               ctx = get ci ''context'';
               declared = get ctx ''producer_declared_capabilities'';
               field = get (get ci ''evidence'') ''delegation'' in
           if name \<notin> {''no_delegation_occurred''} then Inl (UnsupportedVerification name)
           else if field = JNull then
             Inr (result189 Not_established (Some ''evidence_field_declared'')
               (''evidence carries no delegation field descriptor'', []))
           else if get field ''present'' = JBool True then
             (let val = get field ''value'' in
              if \<not> is_dict val then
                Inl (CandidateInputError ''present delegation evidence requires an object value'')
              else if \<not> has_key val ''events'' \<or> \<not> is_list (get val ''events'') then
                Inl (CandidateInputError ''present delegation evidence requires value.events list'')
              else if elements (get val ''events'') \<noteq> [] then
                Inr (result189 Fail None
                  (''delegation block present with %d event(s)'',
                   [JInt (int (length (elements (get val ''events''))))]))
              else Inr (completeness ctx ''delegation block present and empty''))
           else
             (let gate = get field ''gated_on'' in
              if \<not> capability_covered gate declared then
                Inr (result189 Not_established (Some ''producer_capability_coverage'')
                  (''field gated on %r, producer declared %s'',
                   [gate, if elements declared = [] then JStr ''nothing'' else declared]))
              else Inr (completeness ctx
                (''absent field, capability '' @
                 (if gate = JNull then ''ungated'' else str_of gate @ '' declared''))))))"

lemma completeness_pass: "verdict (completeness ctx v) = Pass \<longleftrightarrow> covers ctx"
  by (auto simp: completeness_def covers_def result189_def Let_def)

lemma completeness_not_fail: "verdict (completeness ctx v) \<noteq> Fail"
  by (auto simp: completeness_def result189_def Let_def)

lemma completeness_obligation:
  "(unmet_obligation (completeness ctx v) \<noteq> None) = (verdict (completeness ctx v) = Not_established)"
  by (auto simp: completeness_def result189_def Let_def)

lemma evaluate189_Inr_valid: "evaluate189 ci = Inr r \<Longrightarrow> validate189 ci = None"
  by (auto simp: evaluate189_def split: option.splits)

lemma evaluate189_obligation:
  assumes "evaluate189 ci = Inr r"
  shows "(unmet_obligation r \<noteq> None) = (verdict r = Not_established)"
  using assms completeness_obligation
  by (auto simp: evaluate189_def Let_def result189_def split: option.splits if_splits)

lemma evaluate189_pass_covers:
  assumes "evaluate189 ci = Inr r" and "verdict r = Pass"
  shows "covers (get ci ''context'')"
  using assms completeness_pass
  by (auto simp: evaluate189_def Let_def result189_def split: option.splits if_splits)

interpretation suff: three_valued_checker evaluate189 validate189
    "\<lambda>ci. get ci ''context''" "\<lambda>_. True"
proof unfold_locales
  fix i e assume "validate189 i = Some e"
  then show "evaluate189 i = Inl e" by (simp add: evaluate189_def)
qed (use evaluate189_obligation evaluate189_pass_covers in auto)

lemma valid_descriptor_present:
  assumes "validate189 ci = None" and "get (get ci ''evidence'') k \<noteq> JNull"
  shows "is_bool (get (get (get ci ''evidence'') k) ''present'')"
proof -
  obtain d where d: "(k, d) \<in> set (members (get ci ''evidence''))" and "get (get ci ''evidence'') k = d"
    using assms(2) by (auto simp: get_def split: option.splits dest: map_of_SomeD)
  moreover have "\<forall>x\<in>set (members (get ci ''evidence'')). validate_descriptor x = None"
    using assms(1) by (auto simp: validate189_def Let_def first_error_None)
  ultimately have "validate_descriptor (k, get (get ci ''evidence'') k) = None" by auto
  then show ?thesis by (simp add: validate_descriptor_def REQUIRED_DESCRIPTOR_KEYS_def)
qed

section \<open>The candidate cases\<close>

definition SINK_EVIDENCE :: pyval where
  "SINK_EVIDENCE = JObj
     [(''request'', JObj [(''gated_on'', JNull), (''present'', JBool True)]),
      (''mcp'', JObj [(''gated_on'', JNull), (''present'', JBool True)]),
      (''completion'', JObj [(''gated_on'', JNull), (''present'', JBool True)]),
      (''agent'', JObj [(''gated_on'', JStr ''read_agent''), (''present'', JBool False)]),
      (''delegation'', JObj [(''gated_on'', JStr ''read_delegation''), (''present'', JBool False)]),
      (''labels'', JObj [(''gated_on'', JStr ''read_labels''), (''present'', JBool False)])]"

definition SINK_01 :: pyval where
  "SINK_01 = JObj [(''property'', JObj [(''name'', JStr ''no_delegation_occurred''),
      (''kind'', JStr ''narrow_absence''),
      (''statement'', JStr ''the audited session contains no delegation event'')]),
      (''evidence'', SINK_EVIDENCE),
      (''context'', JObj [(''producer_declared_capabilities'', JArr []),
      (''evaluation_scope'', JStr ''single sink, single session'')]),
      (''runtime_outcome'', JObj [(''hash_chain'', JStr ''intact''),
      (''signature'', JStr ''valid''),
      (''carried_as'', JStr ''evidence that the records are intact, never a verdict on the property'')])]"

definition SINK_02 :: pyval where
  "SINK_02 = JObj [(''property'', JObj [(''name'', JStr ''no_delegation_occurred''),
      (''kind'', JStr ''narrow_absence''),
      (''statement'', JStr ''the audited session contains no delegation event'')]),
      (''evidence'', SINK_EVIDENCE),
      (''context'', JObj [(''producer_declared_capabilities'', JArr [JStr ''read_delegation'']),
      (''evaluation_scope'', JStr ''single sink, single session''),
      (''claim_ref'', JStr ''counterfactual-claim-1''),
      (''observation_coverage'', JObj [(''scope'', JStr ''single sink, single session''),
      (''claim_ref'', JStr ''counterfactual-claim-1''),
      (''status'', JStr ''established''),
      (''basis'', JStr ''assumed by this counterfactual; establishment of coverage and of its binding to this claim belongs to a separate verifier surface'')])]),
      (''runtime_outcome'', JObj [(''hash_chain'', JStr ''intact''),
      (''signature'', JStr ''valid'')])]"

definition SINK_03 :: pyval where
  "SINK_03 = JObj [(''property'', JObj [(''name'', JStr ''no_delegation_occurred''),
      (''kind'', JStr ''narrow_absence'')]),
      (''evidence'', SINK_EVIDENCE),
      (''context'', JObj [(''producer_declared_capabilities'', JNull),
      (''evaluation_scope'', JStr ''single sink, single session'')]),
      (''runtime_outcome'', JObj [(''hash_chain'', JStr ''intact''),
      (''signature'', JStr ''valid'')])]"

lemmas sink_defs = SINK_01_def SINK_02_def SINK_03_def SINK_EVIDENCE_def

lemmas check189_defs = validate189_def validate_descriptor_def validate_coverage_def
  REQUIRED_DESCRIPTOR_KEYS_def json_access Let_def

lemmas eval189_defs = evaluate189_def completeness_def capability_covered_def result189_def check189_defs

section \<open>Properties\<close>

text \<open>C27: The negative is sound in exactly one way. For an input that validation accepts and whose property is
  named \<open>no_delegation_occurred\<close> (a refused input has no verdict), \<open>pass\<close> is returned iff the delegation
  field shows no event (an empty event list, or an absent field whose gate is ungated or declared)
  and observation coverage is established for the evaluated interval and claim.\<close>

theorem no_delegation_pass_iff:
  assumes "validate189 ci = None" and "get (get ci ''property'') ''name'' = JStr ''no_delegation_occurred''"
  defines "fld \<equiv> get (get ci ''evidence'') ''delegation''" and "ctx \<equiv> get ci ''context''"
  shows "(\<exists>r. evaluate189 ci = Inr r \<and> verdict r = Pass) \<longleftrightarrow>
    fld \<noteq> JNull \<and> covers ctx \<and>
    (if get fld ''present'' = JBool True
     then get (get fld ''value'') ''events'' = JArr []
     else capability_covered (get fld ''gated_on'') (get ctx ''producer_declared_capabilities''))"
proof -
  have "is_dict (get fld ''value'') \<and> has_key (get fld ''value'') ''events''"
    if "get (get fld ''value'') ''events'' = JArr []"
    using that get_not_null [of "get fld ''value''" "''events''"] by simp
  then show ?thesis
    using assms(1,2) completeness_pass [of ctx]
    by (auto simp: evaluate189_def result189_def Let_def fld_def ctx_def is_list_conv)
qed

theorem no_delegation_pass_iff_witness:
  "\<exists>r. evaluate189 SINK_02 = Inr r \<and> verdict r = Pass"
  using no_delegation_pass_iff [of SINK_02]
  by (simp add: sink_defs check189_defs covers_def capability_covered_def)

text \<open>Outcomes are asymmetric: one recorded delegation event settles \<open>fail\<close> with no
  obligation, whatever capabilities are declared and whatever coverage is supplied.\<close>

theorem delegation_event_fails:
  assumes "validate189 ci = None" and "get (get ci ''property'') ''name'' = JStr ''no_delegation_occurred''"
    and "get (get (get ci ''evidence'') ''delegation'') ''present'' = JBool True"
    and "get (get (get (get ci ''evidence'') ''delegation'') ''value'') ''events'' = JArr (ev # evs)"
  shows "\<exists>r. evaluate189 ci = Inr r \<and> verdict r = Fail \<and> unmet_obligation r = None"
proof -
  let ?f = "get (get ci ''evidence'') ''delegation''"
  have "?f \<noteq> JNull" using assms(3) get_not_null(1) [of ?f "''present''"] by auto
  moreover have "is_dict (get ?f ''value'')" "has_key (get ?f ''value'') ''events''"
    using assms(4) get_not_null [of "get ?f ''value''" "''events''"] by simp_all
  ultimately show ?thesis
    using assms by (simp add: evaluate189_def result189_def)
qed

theorem delegation_event_fails_witness:
  "\<exists>r. evaluate189 (JObj
     [(''property'', JObj [(''name'', JStr ''no_delegation_occurred'')]),
      (''evidence'', JObj [(''delegation'', JObj [(''gated_on'', JNull), (''present'', JBool True),
         (''value'', JObj [(''events'', JArr [JStr ''delegated''])])])]),
      (''context'', JObj [(''evaluation_scope'', JStr ''session'')])]) = Inr r
     \<and> verdict r = Fail \<and> unmet_obligation r = None"
  by (rule delegation_event_fails) (simp_all add: check189_defs)

text \<open>The three committed candidates give the verdicts and obligations the corpus expects:
  an explicitly empty declaration and an unknown one both leave the producer's capability coverage
  unmet, and the counterfactual with capability and coverage passes.\<close>

theorem sink_cases_reproduced:
  "map (\<lambda>ci. map_sum id (\<lambda>r. (verdict r, unmet_obligation r)) (evaluate189 ci)) [SINK_01, SINK_02, SINK_03]
   = [Inr (Not_established, Some ''producer_capability_coverage''),
      Inr (Pass, None),
      Inr (Not_established, Some ''producer_capability_coverage'')]"
  by (simp add: sink_defs eval189_defs)

end
