(* ===== verification/Lease_Verifier.thy ===== *)
theory Lease_Verifier
  imports Prelude
begin

text \<open>
  The status source and the verifier of the lease-revocation-axes runner
  (\<open>interop/rttp-iqa-lra-runner-lease-revocation-axes-rev3-42eb417/lra_runner.py\<close>, classes
  \<open>Downstream\<close>, \<open>SourceAuthority\<close> and \<open>Verifier\<close>). Objects are records; a method
  returns the changed objects with its result, or the assertion it raises. The defective
  variants the runner carries (its \<open>mutant\<close> argument) are a datatype, so that the verifier
  under test is the whole method, with every variant's branch.
\<close>

section \<open>Data\<close>

datatype status = Active | Revoked

record observation =
  ob_status :: status
  as_of_ms :: int
  retrieved_at_ms :: int

record evidence =
  ev_id :: string
  ev_grant :: string
  issued_at_ms :: int
  expires_at_ms :: int
  ev_status :: status
  allowed_operations :: "string list"

record call =
  call_id :: string
  at_ms :: int
  worker :: string
  grant :: string
  operation :: string

datatype mode = Cached_lease | Live_standing_read
datatype boundary = Exclusive | Inclusive
datatype axis = Evidence_freshness | Authority_validity | Action_authorization

datatype mutant = Correct | Ignore_evidence_binding | Sliding_lease | Lease_ignores_expiry
  | Retrieval_renews_evidence | Fabricated_live_read | Sticky_unavailable | Live_first_read_only
  | Second_worker_stale | Live_fail_open | Post_expiry_diagnostic | Deny_everything
  | Selective_not_supported | Deny_but_dispatch

datatype lra_error = AssertionError string | KeyError string

record lease_decl =
  d_mode :: mode
  d_boundary :: boundary
  claimed_axes :: "axis list"
  action_policy :: string

definition DEFAULT_POLICY :: string where
  "DEFAULT_POLICY = ''P1-current-observation''"

datatype purpose = Verification | Rejected_input_diagnostic

record read_event =
  re_call :: string
  re_worker :: string
  re_grant :: string
  re_at_ms :: int
  re_purpose :: purpose
  re_observation :: "observation option"

section \<open>Downstream and the status source\<close>

type_synonym downstream = "string set"

definition execute :: "downstream \<Rightarrow> string \<Rightarrow> downstream" where
  "execute d cid = insert cid d"

definition reached :: "downstream \<Rightarrow> string \<Rightarrow> bool" where
  "reached d cid = (cid \<in> d)"

record source =
  states :: "string \<rightharpoonup> status"
  available :: bool
  reads :: "read_event list"
  current :: "(call \<times> bool) option"

definition begin_call :: "source \<Rightarrow> call \<Rightarrow> bool \<Rightarrow> lra_error + source" where
  "begin_call s c rejected =
     (if current s \<noteq> None then Inl (AssertionError ''overlapping calls'')
      else Inr (s\<lparr>current := Some (c, rejected)\<rparr>))"

definition end_call :: "source \<Rightarrow> source" where
  "end_call s = s\<lparr>current := None\<rparr>"

definition read :: "source \<Rightarrow> string \<Rightarrow> int \<Rightarrow> lra_error + observation option \<times> source" where
  "read s g t =
     (case current s of
        None \<Rightarrow> Inl (AssertionError ''read outside a call'')
      | Some (c, rejected) \<Rightarrow>
          (case states s g of
             None \<Rightarrow> Inl (AssertionError ''unknown source grant'')
           | Some st \<Rightarrow>
               (let observation =
                  (if available s
                   then Some \<lparr>ob_status = st, as_of_ms = t, retrieved_at_ms = t\<rparr> else None)
                in Inr (observation,
                     s\<lparr>reads := reads s @
                       [\<lparr>re_call = call_id c, re_worker = worker c, re_grant = g, re_at_ms = t,
                         re_purpose = (if rejected then Rejected_input_diagnostic else Verification),
                         re_observation = observation\<rparr>]\<rparr>))))"

section \<open>The verifier\<close>

record verifier =
  previous_use :: "string \<rightharpoonup> int"
  first_reads :: "string \<rightharpoonup> observation option"
  ever_failed :: bool

definition new_verifier :: verifier where
  "new_verifier = \<lparr>previous_use = Map.empty, first_reads = Map.empty, ever_failed = False\<rparr>"

definition lease_len :: "evidence \<Rightarrow> int" where
  "lease_len e = expires_at_ms e - issued_at_ms e"

definition bound_to :: "mutant \<Rightarrow> call \<Rightarrow> evidence \<Rightarrow> bool" where
  "bound_to mu c e = (grant c = ev_grant e \<or> mu = Ignore_evidence_binding)"

definition lease_within :: "boundary \<Rightarrow> int \<Rightarrow> int \<Rightarrow> bool" where
  "lease_within b t expiry = (case b of Exclusive \<Rightarrow> t < expiry | Inclusive \<Rightarrow> t \<le> expiry)"

definition lease_fresh :: "mutant \<Rightarrow> boundary \<Rightarrow> verifier \<Rightarrow> call \<Rightarrow> evidence \<Rightarrow> bool" where
  "lease_fresh mu b v c e =
     (let expiry = (case previous_use v (ev_id e) of
                      Some previous \<Rightarrow> if mu = Sliding_lease then previous + lease_len e else expires_at_ms e
                    | None \<Rightarrow> expires_at_ms e)
      in if mu = Lease_ignores_expiry then True else lease_within b (at_ms c) expiry)"

text \<open>\<open>c["id"].split("-r")[0]\<close>\<close>

fun before_dash_r :: "string \<Rightarrow> string" where
  "before_dash_r [] = []"
| "before_dash_r (x # xs) =
     (if starts_with (x # xs) ''-r'' then [] else x # before_dash_r xs)"

definition fabricated :: "call \<Rightarrow> observation option" where
  "fabricated c =
     (let cid = before_dash_r (call_id c);
          outage = (cid \<in> {''LRA-03'', ''LRA-07''} \<and> at_ms c \<ge> 5000) \<or> (cid = ''LRA-11'' \<and> at_ms c = 30000);
          revoked = cid \<in> {''LRA-02'', ''LRA-03'', ''LRA-04'', ''LRA-06'', ''LRA-08'', ''LRA-11'', ''LRA-12''}
                    \<and> grant c = ''g1'' \<and> at_ms c \<ge> 10000
      in if outage then None
         else Some \<lparr>ob_status = (if revoked then Revoked else Active),
                    as_of_ms = at_ms c, retrieved_at_ms = at_ms c\<rparr>)"

text \<open>The read a defective variant makes before it looks at freshness; \<open>None\<close> is the
  sentinel \<open>_UNSET\<close>, \<open>Some None\<close> a read that found the source unavailable.\<close>

definition prefetch ::
  "mutant \<Rightarrow> mode \<Rightarrow> bool \<Rightarrow> call \<Rightarrow> source \<Rightarrow> lra_error + observation option option \<times> source" where
  "prefetch mu m bound c s =
     (if bound \<and> mu = Retrieval_renews_evidence \<and> m = Live_standing_read
      then bind_sum (read s (grant c) (at_ms c)) (\<lambda>(ob, s'). Inr (Some ob, s'))
      else Inr (None, s))"

definition renewed_fresh :: "observation option option \<Rightarrow> bool \<Rightarrow> call \<Rightarrow> evidence \<Rightarrow> bool" where
  "renewed_fresh prefetched fresh c e =
     (case prefetched of Some (Some ob) \<Rightarrow> at_ms c < retrieved_at_ms ob + lease_len e | _ \<Rightarrow> fresh)"

definition live_observation ::
  "mutant \<Rightarrow> verifier \<Rightarrow> call \<Rightarrow> observation option option \<Rightarrow> source
   \<Rightarrow> lra_error + observation option \<times> verifier \<times> source" where
  "live_observation mu v c prefetched s =
     (case prefetched of
        Some ob \<Rightarrow> Inr (ob, v, s)
      | None \<Rightarrow>
          if mu = Fabricated_live_read then Inr (fabricated c, v, s)
          else if mu = Sticky_unavailable \<and> ever_failed v then Inr (None, v, s)
          else
            (case (if mu = Live_first_read_only \<or> (mu = Second_worker_stale \<and> worker c = ''w2'')
                   then first_reads v (grant c) else None) of
               Some ob \<Rightarrow> Inr (ob, v, s)
             | None \<Rightarrow>
                 bind_sum (read s (grant c) (at_ms c)) (\<lambda>(ob, s').
                   Inr (ob, v\<lparr>first_reads := (first_reads v)(grant c \<mapsto> ob),
                              ever_failed := ever_failed v \<or> ob = None\<rparr>, s'))))"

definition observe ::
  "mutant \<Rightarrow> mode \<Rightarrow> verifier \<Rightarrow> bool \<Rightarrow> bool \<Rightarrow> call \<Rightarrow> evidence \<Rightarrow> observation option option \<Rightarrow> source
   \<Rightarrow> lra_error + observation option \<times> verifier \<times> source" where
  "observe mu m v fresh bound c e prefetched s =
     (if fresh \<and> bound then
        bind_sum
          (case m of
             Cached_lease \<Rightarrow>
               Inr (Some \<lparr>ob_status = ev_status e, as_of_ms = issued_at_ms e,
                          retrieved_at_ms = issued_at_ms e\<rparr>, v, s)
           | Live_standing_read \<Rightarrow> live_observation mu v c prefetched s)
          (\<lambda>(ob, v', s').
             Inr (if mu = Live_fail_open \<and> ob = None
                  then Some \<lparr>ob_status = Active, as_of_ms = at_ms c, retrieved_at_ms = at_ms c\<rparr>
                  else ob, v', s'))
      else if \<not> fresh \<and> bound \<and> mu = Post_expiry_diagnostic then
        bind_sum (read s (grant c) (at_ms c)) (\<lambda>(ob, s'). Inr (ob, v, s'))
      else Inr (None, v, s))"

datatype binding = Matched | Mismatch
datatype freshness = Fresh | Expired
datatype validity = Valid | Revoked_validity | Not_established_validity
datatype decision = Permit | Deny | Not_claimed | Not_supported

datatype refusal = Evidence_binding_mismatch | Evidence_expired | Authority_not_determined
  | Authority_revoked | Operation_not_permitted

record grant_ref =
  gr_grant :: string
  gr_evidence_id :: string
  gr_issued_at_ms :: int
  gr_expires_at_ms :: int
  observation_as_of_ms :: "int option"

record answer =
  evidence_binding :: binding
  evidence_freshness :: freshness
  an_observation :: "observation option"
  authority_answer :: validity
  current_validity :: validity
  verification_accepted :: bool
  action_decision :: decision
  extra_fields :: "(refusal option \<times> grant_ref) option"

definition validity_of :: "status \<Rightarrow> validity" where
  "validity_of st = (if st = Active then Valid else Revoked_validity)"

lemma validity_of_simps [simp]:
  "validity_of st = Valid \<longleftrightarrow> st = Active" "validity_of st = Revoked_validity \<longleftrightarrow> st = Revoked"
  "Valid = validity_of st \<longleftrightarrow> st = Active" "Revoked_validity = validity_of st \<longleftrightarrow> st = Revoked"
  "validity_of st \<noteq> Not_established_validity" "Not_established_validity \<noteq> validity_of st"
  by (cases st; simp add: validity_of_def)+

definition validity_at :: "call \<Rightarrow> observation option \<Rightarrow> validity" where
  "validity_at c ob =
     (case ob of Some o' \<Rightarrow> if as_of_ms o' = at_ms c then validity_of (ob_status o') else Not_established_validity
               | None \<Rightarrow> Not_established_validity)"

definition scoped_answer :: "observation option \<Rightarrow> validity" where
  "scoped_answer ob = (case ob of None \<Rightarrow> Not_established_validity | Some o' \<Rightarrow> validity_of (ob_status o'))"

definition decide_action ::
  "mutant \<Rightarrow> lease_decl \<Rightarrow> bool \<Rightarrow> bool \<Rightarrow> validity \<Rightarrow> call \<Rightarrow> evidence \<Rightarrow> decision" where
  "decide_action mu d bound fresh cv c e =
     (let action =
        (if Action_authorization \<notin> set (claimed_axes d) then Not_claimed
         else if action_policy d \<noteq> DEFAULT_POLICY then Not_supported
         else if bound \<and> fresh \<and> cv = Valid \<and> operation c \<in> set (allowed_operations e) then Permit else Deny);
          action' = (if mu = Deny_everything \<and> action = Permit then Deny else action)
      in if mu = Selective_not_supported \<and> action' = Deny then Not_supported else action')"

definition refusal_of :: "decision \<Rightarrow> bool \<Rightarrow> bool \<Rightarrow> validity \<Rightarrow> refusal option" where
  "refusal_of action bound fresh cv =
     (if action = Deny then Some
        (if \<not> bound then Evidence_binding_mismatch
         else if \<not> fresh then Evidence_expired
         else if cv = Not_established_validity then Authority_not_determined
         else if cv = Revoked_validity then Authority_revoked
         else Operation_not_permitted)
      else None)"

definition grant_ref_of :: "evidence \<Rightarrow> bool \<Rightarrow> observation option \<Rightarrow> grant_ref" where
  "grant_ref_of e fresh ob =
     \<lparr>gr_grant = ev_grant e, gr_evidence_id = ev_id e, gr_issued_at_ms = issued_at_ms e,
      gr_expires_at_ms = expires_at_ms e,
      observation_as_of_ms = (case ob of None \<Rightarrow> None | Some o' \<Rightarrow> if fresh then Some (as_of_ms o') else None)\<rparr>"

definition answer_of ::
  "mutant \<Rightarrow> lease_decl \<Rightarrow> bool \<Rightarrow> bool \<Rightarrow> bool \<Rightarrow> observation option \<Rightarrow> call \<Rightarrow> evidence \<Rightarrow> answer" where
  "answer_of mu d extras bound fresh ob c e =
     (let cv = validity_at c ob; action = decide_action mu d bound fresh cv c e in
      \<lparr>evidence_binding = (if bound then Matched else Mismatch),
       evidence_freshness = (if fresh then Fresh else Expired),
       an_observation = ob,
       authority_answer = scoped_answer ob,
       current_validity = cv,
       verification_accepted = (bound \<and> fresh \<and> scoped_answer ob = Valid),
       action_decision = action,
       extra_fields = (if extras then Some (refusal_of action bound fresh cv, grant_ref_of e fresh ob) else None)\<rparr>)"

definition dispatches :: "mutant \<Rightarrow> decision \<Rightarrow> bool" where
  "dispatches mu action = (action = Permit \<or> (mu = Deny_but_dispatch \<and> action = Deny))"

definition verifier_call ::
  "mutant \<Rightarrow> lease_decl \<Rightarrow> bool \<Rightarrow> verifier \<Rightarrow> source \<Rightarrow> downstream \<Rightarrow> call \<Rightarrow> evidence
   \<Rightarrow> lra_error + answer \<times> verifier \<times> source \<times> downstream" where
  "verifier_call mu d extras v s down c e =
     (let bound = bound_to mu c e in
      bind_sum (prefetch mu (d_mode d) bound c s) (\<lambda>(prefetched, s1).
        let fresh = renewed_fresh prefetched (lease_fresh mu (d_boundary d) v c e) c e in
        bind_sum (observe mu (d_mode d) v fresh bound c e prefetched s1) (\<lambda>(ob, v2, s2).
          let ans = answer_of mu d extras bound fresh ob c e in
          Inr (ans,
               v2\<lparr>previous_use := (previous_use v2)(ev_id e \<mapsto> at_ms c)\<rparr>,
               s2,
               if dispatches mu (action_decision ans) then execute down (call_id c) else down))))"

section \<open>The contract of the status source\<close>

locale status_source =
  fixes rd :: "'s \<Rightarrow> string \<Rightarrow> int \<Rightarrow> lra_error + observation option \<times> 's"
    and truth :: "'s \<Rightarrow> string \<rightharpoonup> status"
    and up :: "'s \<Rightarrow> bool"
    and log :: "'s \<Rightarrow> read_event list"
  assumes read_value: "rd s g t = Inr (ob, s') \<Longrightarrow>
      ob = (if up s then map_option (\<lambda>st. \<lparr>ob_status = st, as_of_ms = t, retrieved_at_ms = t\<rparr>) (truth s g) else None)
      \<and> truth s g \<noteq> None"
    and read_frame: "rd s g t = Inr (ob, s') \<Longrightarrow> truth s' = truth s \<and> up s' = up s"
    and read_logged: "rd s g t = Inr (ob, s') \<Longrightarrow>
      \<exists>ev. log s' = log s @ [ev] \<and> re_grant ev = g \<and> re_at_ms ev = t \<and> re_observation ev = ob"
begin

lemma observation_current:
  assumes "rd s g t = Inr (Some o', s')"
  shows "as_of_ms o' = t" and "truth s g = Some (ob_status o')" and "up s"
  using read_value [OF assms] by (auto split: if_splits)

lemma validity_from_source:
  assumes "rd s (grant c) (at_ms c) = Inr (ob, s')"
  shows "validity_at c ob = Valid \<longleftrightarrow> up s \<and> truth s (grant c) = Some Active"
    and "validity_at c ob = Revoked_validity \<longleftrightarrow> up s \<and> truth s (grant c) = Some Revoked"
    and "validity_at c ob = scoped_answer ob"
  using read_value [OF assms]
  by (auto simp: validity_at_def validity_of_simps scoped_answer_def split: status.splits)

lemma one_more_read: "rd s g t = Inr (ob, s') \<Longrightarrow> length (log s') = Suc (length (log s))"
  using read_logged by fastforce

end

interpretation auth: status_source read states available reads
  by unfold_locales (auto simp: read_def Let_def split: option.splits prod.splits)

lemma read_defined:
  "current s \<noteq> None \<Longrightarrow> states s g \<noteq> None \<Longrightarrow> \<exists>ob s'. read s g t = Inr (ob, s')"
  by (auto simp: read_def Let_def)

lemma read_event_of_call:
  assumes "read s g t = Inr (ob, s')" and "current s = Some (c, rej)"
  shows "reads s' = reads s @ [\<lparr>re_call = call_id c, re_worker = worker c, re_grant = g, re_at_ms = t,
    re_purpose = (if rej then Rejected_input_diagnostic else Verification), re_observation = ob\<rparr>]"
    and "current s' = current s"
  using assms by (auto simp: read_def Let_def split: option.splits)

section \<open>The correct verifier\<close>

text \<open>The observation the correct variant works from, and the source it leaves behind.\<close>

definition correct_observation ::
  "mode \<Rightarrow> boundary \<Rightarrow> source \<Rightarrow> call \<Rightarrow> evidence \<Rightarrow> lra_error + observation option \<times> source" where
  "correct_observation m b s c e =
     (if grant c = ev_grant e \<and> lease_within b (at_ms c) (expires_at_ms e)
      then (case m of
              Cached_lease \<Rightarrow> Inr (Some \<lparr>ob_status = ev_status e, as_of_ms = issued_at_ms e,
                                        retrieved_at_ms = issued_at_ms e\<rparr>, s)
            | Live_standing_read \<Rightarrow> read s (grant c) (at_ms c))
      else Inr (None, s))"

lemma lease_fresh_correct [simp]:
  "lease_fresh Correct b v c e = lease_within b (at_ms c) (expires_at_ms e)"
  by (simp add: lease_fresh_def split: option.splits)

lemma bound_to_correct [simp]: "bound_to Correct c e \<longleftrightarrow> grant c = ev_grant e"
  by (simp add: bound_to_def)

lemma dispatches_correct [simp]: "dispatches Correct a \<longleftrightarrow> a = Permit"
  by (simp add: dispatches_def)

lemma decide_action_correct:
  "decide_action Correct d bound fresh cv c e =
     (if Action_authorization \<notin> set (claimed_axes d) then Not_claimed
      else if action_policy d \<noteq> DEFAULT_POLICY then Not_supported
      else if bound \<and> fresh \<and> cv = Valid \<and> operation c \<in> set (allowed_operations e) then Permit else Deny)"
  by (simp add: decide_action_def)

definition correct_memory :: "lease_decl \<Rightarrow> verifier \<Rightarrow> call \<Rightarrow> evidence \<Rightarrow> observation option \<Rightarrow> verifier" where
  "correct_memory d v c e ob =
     (if d_mode d = Live_standing_read \<and> grant c = ev_grant e
         \<and> lease_within (d_boundary d) (at_ms c) (expires_at_ms e)
      then v\<lparr>first_reads := (first_reads v)(grant c \<mapsto> ob), ever_failed := ever_failed v \<or> ob = None\<rparr>
      else v)\<lparr>previous_use := (previous_use v)(ev_id e \<mapsto> at_ms c)\<rparr>"

definition correct_answer :: "lease_decl \<Rightarrow> bool \<Rightarrow> observation option \<Rightarrow> call \<Rightarrow> evidence \<Rightarrow> answer" where
  "correct_answer d extras ob c e = answer_of Correct d extras (grant c = ev_grant e)
     (lease_within (d_boundary d) (at_ms c) (expires_at_ms e)) ob c e"

lemma verifier_call_correct_eq:
  "verifier_call Correct d extras v s down c e =
     bind_sum (correct_observation (d_mode d) (d_boundary d) s c e) (\<lambda>(ob, s').
       Inr (correct_answer d extras ob c e, correct_memory d v c e ob, s',
            if action_decision (correct_answer d extras ob c e) = Permit then insert (call_id c) down else down))"
proof -
  note defs = verifier_call_def prefetch_def renewed_fresh_def observe_def live_observation_def
    correct_observation_def correct_memory_def correct_answer_def execute_def Let_def
  consider "grant c \<noteq> ev_grant e" | "\<not> lease_within (d_boundary d) (at_ms c) (expires_at_ms e)"
    | "grant c = ev_grant e" "lease_within (d_boundary d) (at_ms c) (expires_at_ms e)" by blast
  then show ?thesis
  proof cases
    case 3
    then show ?thesis
      by (cases "d_mode d"; cases "read s (grant c) (at_ms c)") (auto simp: defs)
  qed (simp_all add: defs)
qed

lemma verifier_call_correct:
  assumes "verifier_call Correct d extras v s down c e = Inr (ans, v', s', down')"
  obtains ob where "correct_observation (d_mode d) (d_boundary d) s c e = Inr (ob, s')"
    and "ans = correct_answer d extras ob c e" and "v' = correct_memory d v c e ob"
    and "down' = (if action_decision ans = Permit then insert (call_id c) down else down)"
  using assms by (auto simp: verifier_call_correct_eq)

lemmas answer_simps = answer_of_def decide_action_correct refusal_of_def Let_def

lemma correct_frame:
  assumes "verifier_call Correct d extras v s down c e = Inr (ans, v', s', down')"
  shows "states s' = states s" and "available s' = available s"
proof -
  obtain ob where "correct_observation (d_mode d) (d_boundary d) s c e = Inr (ob, s')"
    using assms by (rule verifier_call_correct)
  then show "states s' = states s" and "available s' = available s"
    using auth.read_frame [of s "grant c" "at_ms c" ob s']
    by (auto simp: correct_observation_def split: if_splits mode.splits)
qed

section \<open>Properties\<close>

text \<open>The validity the correct verifier derives, in terms of its inputs.\<close>

definition established_validity :: "mode \<Rightarrow> source \<Rightarrow> call \<Rightarrow> evidence \<Rightarrow> validity" where
  "established_validity m s c e =
     (case m of
        Live_standing_read \<Rightarrow>
          (if available s then validity_of (the (states s (grant c))) else Not_established_validity)
      | Cached_lease \<Rightarrow>
          (if issued_at_ms e = at_ms c then validity_of (ev_status e) else Not_established_validity))"

lemma correct_validity:
  assumes "correct_observation m b s c e = Inr (ob, s')"
    and "grant c = ev_grant e" and "lease_within b (at_ms c) (expires_at_ms e)"
  shows "validity_at c ob = established_validity m s c e"
proof (cases m)
  case Cached_lease
  with assms show ?thesis
    by (auto simp: correct_observation_def validity_at_def established_validity_def)
next
  case Live_standing_read
  with assms have rd: "read s (grant c) (at_ms c) = Inr (ob, s')"
    by (simp add: correct_observation_def)
  then show ?thesis using Live_standing_read auth.read_value [OF rd]
    by (auto simp: validity_at_def established_validity_def)
qed

lemma correct_permit_validity:
  assumes "verifier_call Correct d extras v s down c e = Inr (ans, v', s', down')"
    and "action_decision ans = Permit"
  shows "established_validity (d_mode d) s c e = Valid"
    and "grant c = ev_grant e" and "lease_within (d_boundary d) (at_ms c) (expires_at_ms e)"
proof -
  obtain ob where ob: "correct_observation (d_mode d) (d_boundary d) s c e = Inr (ob, s')"
    and ans: "ans = correct_answer d extras ob c e"
    using assms(1) by (rule verifier_call_correct)
  have *: "grant c = ev_grant e" "lease_within (d_boundary d) (at_ms c) (expires_at_ms e)" "validity_at c ob = Valid"
    using assms(2) by (auto simp: ans correct_answer_def answer_simps split: if_splits)
  then show "grant c = ev_grant e" and "lease_within (d_boundary d) (at_ms c) (expires_at_ms e)" by auto
  show "established_validity (d_mode d) s c e = Valid" using correct_validity [OF ob] * by simp
qed

text \<open>Example data: the evidence and grants of the published profile.\<close>

definition e1 :: evidence where
  "e1 = \<lparr>ev_id = ''e1'', ev_grant = ''g1'', issued_at_ms = 0, expires_at_ms = 120000,
         ev_status = Active, allowed_operations = [''read'']\<rparr>"

definition call_at :: "int \<Rightarrow> call" where
  "call_at t = \<lparr>call_id = ''LRA-02-r2'', at_ms = t, worker = ''w1'', grant = ''g1'', operation = ''read''\<rparr>"

definition full_decl :: "mode \<Rightarrow> boundary \<Rightarrow> lease_decl" where
  "full_decl m b = \<lparr>d_mode = m, d_boundary = b,
     claimed_axes = [Evidence_freshness, Authority_validity, Action_authorization],
     action_policy = DEFAULT_POLICY\<rparr>"

definition source_in_call :: "status \<Rightarrow> int \<Rightarrow> source" where
  "source_in_call st t = \<lparr>states = [''g1'' \<mapsto> st], available = True, reads = [],
     current = Some (call_at t, False)\<rparr>"

lemmas lease_examples = e1_def call_at_def full_decl_def source_in_call_def

text \<open>The correct verifier permits exactly when the action axis is claimed under the default
  policy, the evidence is bound to the called grant, its original lease has not run out at the
  declared boundary, the operation is one the evidence allows, and the grant is established active at
  the instant of the call: by an available source in live mode, and in cached mode only by evidence
  issued at that very instant. A lease alone never authorises a later action.\<close>

theorem permit_iff:
  assumes "verifier_call Correct d extras v s down c e = Inr (ans, v', s', down')"
  shows "action_decision ans = Permit \<longleftrightarrow>
    Action_authorization \<in> set (claimed_axes d) \<and> action_policy d = DEFAULT_POLICY
    \<and> grant c = ev_grant e \<and> lease_within (d_boundary d) (at_ms c) (expires_at_ms e)
    \<and> operation c \<in> set (allowed_operations e)
    \<and> (case d_mode d of
         Live_standing_read \<Rightarrow> available s \<and> states s (grant c) = Some Active
       | Cached_lease \<Rightarrow> issued_at_ms e = at_ms c \<and> ev_status e = Active)"
proof -
  obtain ob where ob: "correct_observation (d_mode d) (d_boundary d) s c e = Inr (ob, s')"
    and ans: "ans = correct_answer d extras ob c e"
    using assms by (rule verifier_call_correct)
  have "states s (grant c) \<noteq> None"
    if "d_mode d = Live_standing_read" "grant c = ev_grant e"
      "lease_within (d_boundary d) (at_ms c) (expires_at_ms e)"
    using ob that auth.read_value [of s "grant c" "at_ms c" ob s']
    by (auto simp: correct_observation_def)
  with correct_validity [OF ob] show ?thesis
    by (auto simp: ans correct_answer_def answer_simps established_validity_def
        split: mode.splits if_splits)
qed

theorem permit_iff_witness:
  "\<exists>ans v' s' down'.
     verifier_call Correct (full_decl Live_standing_read Exclusive) True new_verifier
       (source_in_call Active 30000) {} (call_at 30000) e1 = Inr (ans, v', s', down')
     \<and> action_decision ans = Permit"
proof -
  let ?call = "verifier_call Correct (full_decl Live_standing_read Exclusive) True new_verifier
       (source_in_call Active 30000) {} (call_at 30000) e1"
  obtain ans v' s' down' where r: "?call = Inr (ans, v', s', down')"
    by (auto simp: verifier_call_correct_eq correct_observation_def read_def lease_examples lease_within_def Let_def)
  then show ?thesis
    using permit_iff [OF r] by (simp add: lease_examples lease_within_def)
qed

text \<open>Source reads and dispatch follow the declared contract: in live mode a bound, fresh call
  makes exactly one read of the source and every other call none, cached mode never reads; the source
  state is untouched, and the call reaches the downstream exactly when it is permitted.\<close>

theorem reads_and_dispatch_contract:
  assumes "verifier_call Correct d extras v s down c e = Inr (ans, v', s', down')"
  shows "length (reads s') = length (reads s) +
      (if d_mode d = Live_standing_read \<and> grant c = ev_grant e
          \<and> lease_within (d_boundary d) (at_ms c) (expires_at_ms e) then 1 else 0)
    \<and> (states s' = states s \<and> available s' = available s)
    \<and> down' = (if action_decision ans = Permit then insert (call_id c) down else down)"
proof (intro conjI)
  obtain ob where ob: "correct_observation (d_mode d) (d_boundary d) s c e = Inr (ob, s')"
    and dn: "down' = (if action_decision ans = Permit then insert (call_id c) down else down)"
    using assms by (rule verifier_call_correct)
  show "length (reads s') = length (reads s) +
      (if d_mode d = Live_standing_read \<and> grant c = ev_grant e
          \<and> lease_within (d_boundary d) (at_ms c) (expires_at_ms e) then 1 else 0)"
    using ob by (auto simp: correct_observation_def auth.one_more_read split: if_splits mode.splits)
  show "states s' = states s" "available s' = available s"
    using correct_frame [OF assms] by simp_all
  show "down' = (if action_decision ans = Permit then insert (call_id c) down else down)"
    by (rule dn)
qed

theorem reads_and_dispatch_contract_witness:
  "\<exists>ans v' s' down'.
     verifier_call Correct (full_decl Live_standing_read Inclusive) False new_verifier
       (source_in_call Revoked 120000) {} (call_at 120000) e1 = Inr (ans, v', s', down')
     \<and> length (reads s') = 1 \<and> down' = {}"
proof -
  let ?call = "verifier_call Correct (full_decl Live_standing_read Inclusive) False new_verifier
       (source_in_call Revoked 120000) {} (call_at 120000) e1"
  obtain ans v' s' down' where r: "?call = Inr (ans, v', s', down')"
    and nop: "action_decision ans \<noteq> Permit"
    by (auto simp: verifier_call_correct_eq correct_observation_def read_def lease_examples lease_within_def
        correct_answer_def answer_simps validity_at_def validity_of_def)
  then show ?thesis
    using reads_and_dispatch_contract [OF r] by (simp add: lease_examples lease_within_def)
qed

text \<open>The revision-3 fields: a refusal reason is present exactly on a deny, and it is the first
  applicable of the five causes in the fixed precedence (binding, expiry, authority not determined,
  authority revoked, operation). The grant reference names the grant as issued and carries an
  observation time only while the original lease is fresh.\<close>

theorem refusal_reason_precedence:
  assumes "verifier_call Correct d True v s down c e = Inr (ans, v', s', down')"
  defines "bound \<equiv> grant c = ev_grant e"
    and "fresh \<equiv> lease_within (d_boundary d) (at_ms c) (expires_at_ms e)"
    and "valid \<equiv> established_validity (d_mode d) s c e"
  shows "\<exists>gr. extra_fields ans =
      Some (if action_decision ans \<noteq> Deny then None
            else Some (if \<not> bound then Evidence_binding_mismatch
                       else if \<not> fresh then Evidence_expired
                       else if valid = Not_established_validity then Authority_not_determined
                       else if valid = Revoked_validity then Authority_revoked
                       else Operation_not_permitted), gr)
    \<and> gr_grant gr = ev_grant e \<and> gr_evidence_id gr = ev_id e
    \<and> (observation_as_of_ms gr \<noteq> None \<longrightarrow> fresh)"
proof -
  obtain ob where ob: "correct_observation (d_mode d) (d_boundary d) s c e = Inr (ob, s')"
    and ans: "ans = correct_answer d True ob c e"
    using assms(1) by (rule verifier_call_correct)
  have "bound \<Longrightarrow> fresh \<Longrightarrow> validity_at c ob = valid"
    using correct_validity [OF ob] by (simp add: bound_def fresh_def valid_def)
  then show ?thesis
    by (auto simp: ans correct_answer_def answer_simps grant_ref_of_def
        simp flip: bound_def fresh_def split: option.splits if_splits)
qed

theorem refusal_reason_precedence_witness:
  "\<exists>ans v' s' down' gr.
     verifier_call Correct (full_decl Live_standing_read Exclusive) True new_verifier
       (source_in_call Revoked 30000) {} (call_at 30000) e1 = Inr (ans, v', s', down')
     \<and> extra_fields ans = Some (Some Authority_revoked, gr) \<and> gr_grant gr = ''g1''"
proof -
  let ?call = "verifier_call Correct (full_decl Live_standing_read Exclusive) True new_verifier
       (source_in_call Revoked 30000) {} (call_at 30000) e1"
  obtain ans v' s' down' where r: "?call = Inr (ans, v', s', down')"
    and deny: "action_decision ans = Deny"
    by (auto simp: verifier_call_correct_eq correct_observation_def read_def lease_examples lease_within_def
        correct_answer_def answer_simps validity_at_def validity_of_def)
  then show ?thesis
    using refusal_reason_precedence [OF r]
    by (auto simp: lease_examples lease_within_def established_validity_def validity_of_def)
qed

end
