(* ===== verification/Lease_Runner.thy ===== *)
theory Lease_Runner
  imports Lease_Verifier
begin

text \<open>
  The replay of one frozen timeline (\<open>run_case\<close> of
  \<open>interop/rttp-iqa-lra-runner-lease-revocation-axes-rev3-42eb417/lra_runner.py\<close>): events
  revoke grants, switch the source off and on, or call a worker's verifier; every call is graded
  against the authored expectation axis by axis. A comparison of \<open>CheckSponge\<close> is a label with
  the truth of \<open>actual == expected\<close>; the failures it collects are the labels that are false,
  under the call's id (the printed values are left out). The wrapper \<open>make_hostile_call\<close> hides
  the fields \<open>expected\<close> and \<open>truth\<close> from the implementation; here the verifier's argument is
  the \<open>call\<close> record, which has no such fields.
\<close>

section \<open>Timelines\<close>

record expected =
  x_binding :: binding
  x_freshness :: freshness
  x_observation :: "observation option"
  x_authority_answer :: validity
  x_current_validity :: validity
  x_verification_accepted :: bool
  x_action_decision :: decision
  x_downstream_reached :: bool
  x_differs_from_truth :: bool
  x_extra :: "(refusal option \<times> grant_ref) option"

record call_event =
  ce_call :: call
  ce_evidence_id :: "string option"
  ce_truth :: status
  ce_expected :: "mode \<Rightarrow> boundary \<Rightarrow> expected"

datatype event = Revoke int string | Availability int bool | Call_event call_event

fun event_at :: "event \<Rightarrow> int" where
  "event_at (Revoke t g) = t"
| "event_at (Availability t a) = t"
| "event_at (Call_event ev) = at_ms (ce_call ev)"

record profile =
  lease_ms :: int
  lease_anchor :: string
  current_observation_max_age_ms :: int
  initial_evidence :: "evidence list"

definition AXES :: "axis list" where
  "AXES = [Evidence_freshness, Authority_validity, Action_authorization]"

datatype support = Supported | Axis_not_claimed | Axis_not_supported

definition axis_mapping :: "axis list \<Rightarrow> string \<Rightarrow> axis \<Rightarrow> support" where
  "axis_mapping claimed policy axis =
     (if axis \<notin> set claimed then Axis_not_claimed
      else if axis = Action_authorization \<and> policy \<noteq> DEFAULT_POLICY then Axis_not_supported
      else Supported)"

definition select_evidence :: "profile \<Rightarrow> call_event \<Rightarrow> evidence option" where
  "select_evidence p ev =
     (case ce_evidence_id ev of
        Some i \<Rightarrow> if i \<noteq> [] then find (\<lambda>cand. ev_id cand = i) (initial_evidence p)
                  else find (\<lambda>cand. ev_grant cand = grant (ce_call ev)) (initial_evidence p)
      | None \<Rightarrow> find (\<lambda>cand. ev_grant cand = grant (ce_call ev)) (initial_evidence p))"

section \<open>Grading one call\<close>

type_synonym checks = "(string \<times> bool) list"

definition sponge :: "string \<Rightarrow> checks \<Rightarrow> (string \<times> string) list" where
  "sponge cid cs = map (\<lambda>c. (cid, fst c)) (filter (\<lambda>c. \<not> snd c) cs)"

record graded =
  g_call :: call
  g_evidence :: evidence
  g_mode :: mode
  g_expired :: bool
  g_answer :: answer
  g_reads :: "read_event list"
  g_truth :: status
  g_down :: downstream
  g_expected :: expected
  g_extras :: bool

definition rejected_input :: "graded \<Rightarrow> bool" where
  "rejected_input g = (g_expired g \<or> grant (g_call g) \<noteq> ev_grant (g_evidence g))"

definition diagnostic :: "graded \<Rightarrow> bool" where
  "diagnostic g = (rejected_input g \<and> an_observation (g_answer g) \<noteq> None)"

definition mismatch :: "graded \<Rightarrow> bool" where
  "mismatch g = (case an_observation (g_answer g) of None \<Rightarrow> False | Some ob \<Rightarrow> ob_status ob \<noteq> g_truth g)"

definition source_checks :: "graded \<Rightarrow> checks" where
  "source_checks g =
     (if \<not> rejected_input g then
        [(''source_read_contract'',
          length (g_reads g) = (if g_mode g = Live_standing_read then 1 else 0))]
        @ (if g_mode g = Live_standing_read \<and> length (g_reads g) = 1
           then [(''source_observation_binding'', an_observation (g_answer g) = re_observation (hd (g_reads g)))]
           else [])
      else [])
     @ concat (map (\<lambda>r. [(''source_read_worker'', re_worker r = worker (g_call g)),
                         (''source_read_grant'', re_grant r = grant (g_call g)),
                         (''source_read_time'', re_at_ms r = at_ms (g_call g))]) (g_reads g))
     @ (if diagnostic g
        then [(''diagnostic_observation_provenance'',
               list_ex (\<lambda>r. re_observation r = an_observation (g_answer g)) (g_reads g))]
        else [])"

definition binding_checks :: "graded \<Rightarrow> checks" where
  "binding_checks g = [(''evidence_binding'', evidence_binding (g_answer g) = x_binding (g_expected g))]"

definition authority_checks :: "graded \<Rightarrow> checks" where
  "authority_checks g =
     (let a = g_answer g; x = g_expected g in
      if diagnostic g then
        (let ob = the (an_observation a); state = validity_of (ob_status ob) in
         [(''diagnostic_scoped_answer'', authority_answer a = state),
          (''diagnostic_current_validity'', current_validity a =
             (if as_of_ms ob = at_ms (g_call g) then state else Not_established_validity))])
      else
        [(''observation'', an_observation a = x_observation x),
         (''scoped_answer'', authority_answer a = x_authority_answer x),
         (''current_validity'', current_validity a = x_current_validity x),
         (''answer_differs_from_truth'', mismatch g = x_differs_from_truth x)])"

definition action_checks :: "graded \<Rightarrow> checks" where
  "action_checks g =
     (let a = g_answer g; x = g_expected g in
      [(''action_decision'', action_decision a = x_action_decision x),
       (''downstream_reached'', reached (g_down g) (call_id (g_call g)) = x_downstream_reached x)]
      @ (if g_extras g
         then [(''refusal_reason'', map_option fst (extra_fields a) = map_option fst (x_extra x)),
               (''grant_ref'', map_option snd (extra_fields a) = map_option snd (x_extra x))]
         else []))"

definition axis_checks :: "graded \<Rightarrow> support \<Rightarrow> axis \<Rightarrow> checks" where
  "axis_checks g spt axis =
     (case spt of
        Axis_not_claimed \<Rightarrow>
          (if axis = Action_authorization
           then [(''unclaimed_action'', action_decision (g_answer g) = Not_claimed),
                 (''unclaimed_dispatch'', \<not> reached (g_down g) (call_id (g_call g)))]
           else [])
      | Axis_not_supported \<Rightarrow>
          [(''unsupported_mapping_answer'', action_decision (g_answer g) = Not_supported),
           (''unsupported_dispatch'', \<not> reached (g_down g) (call_id (g_call g)))]
      | Supported \<Rightarrow>
          (case axis of
             Evidence_freshness \<Rightarrow>
               [(''evidence_freshness'', evidence_freshness (g_answer g) = x_freshness (g_expected g))]
           | Authority_validity \<Rightarrow> authority_checks g
           | Action_authorization \<Rightarrow> action_checks g))"

definition composite_claimed :: "axis list \<Rightarrow> bool" where
  "composite_claimed claimed = (Evidence_freshness \<in> set claimed \<and> Authority_validity \<in> set claimed)"

definition composite_checks :: "axis list \<Rightarrow> graded \<Rightarrow> checks" where
  "composite_checks claimed g =
     (if composite_claimed claimed
      then [(''verification_accepted'',
             verification_accepted (g_answer g) = x_verification_accepted (g_expected g))]
      else [])"

datatype assess = A_failed | A_matched | A_not_claimed | A_not_supported

definition assess_checks :: "checks \<Rightarrow> assess" where
  "assess_checks cs = (if list_all snd cs then A_matched else A_failed)"

record assessment =
  source_contract :: assess
  as_binding :: assess
  as_axis :: "axis \<Rightarrow> assess"
  verification_outcome :: assess

definition assess_call :: "axis list \<Rightarrow> string \<Rightarrow> graded \<Rightarrow> assessment" where
  "assess_call claimed policy g =
     \<lparr>source_contract = assess_checks (source_checks g),
      as_binding = assess_checks (binding_checks g),
      as_axis = (\<lambda>axis. case axis_mapping claimed policy axis of
         Axis_not_claimed \<Rightarrow> A_not_claimed
       | Axis_not_supported \<Rightarrow> A_not_supported
       | Supported \<Rightarrow>
           (if axis = Authority_validity \<and> assess_checks (source_checks g) = A_failed then A_failed
            else assess_checks (axis_checks g Supported axis))),
      verification_outcome =
        (if composite_claimed claimed then assess_checks (composite_checks claimed g) else A_not_claimed)\<rparr>"

definition call_checks :: "axis list \<Rightarrow> string \<Rightarrow> graded \<Rightarrow> checks" where
  "call_checks claimed policy g =
     source_checks g @ binding_checks g
     @ concat (map (\<lambda>axis. axis_checks g (axis_mapping claimed policy axis) axis) AXES)
     @ composite_checks claimed g"

section \<open>The replay\<close>

datatype claim_scope = Bounded_observation int string | Current_observation int

record call_record =
  r_call :: call
  r_evidence_id :: string
  r_claim_scope :: claim_scope
  r_truth :: status
  r_answer :: answer
  r_observation_age_ms :: "int option"
  r_differs :: bool
  r_downstream_reached :: bool
  r_reads :: "read_event list"
  r_assessment :: assessment

record run_state =
  rs_source :: source
  rs_down :: downstream
  rs_workers :: "(string \<times> verifier) list"
  rs_failures :: "(string \<times> string) list"
  rs_records :: "call_record list"
  rs_scored :: nat
  rs_composite :: nat
  rs_not_claimed :: nat
  rs_not_supported :: nat
  rs_last_ms :: int

record run_config =
  rc_profile :: profile
  rc_mode :: mode
  rc_boundary :: boundary
  rc_mutant :: mutant
  rc_claimed :: "axis list"
  rc_policy :: string
  rc_extras :: bool

definition decl_of :: "run_config \<Rightarrow> lease_decl" where
  "decl_of k = \<lparr>d_mode = rc_mode k, d_boundary = rc_boundary k, claimed_axes = rc_claimed k,
                action_policy = rc_policy k\<rparr>"

definition scope_of :: "run_config \<Rightarrow> graded \<Rightarrow> claim_scope" where
  "scope_of k g =
     (if rc_mode k = Cached_lease \<and> \<not> diagnostic g
      then Bounded_observation (lease_ms (rc_profile k)) (lease_anchor (rc_profile k))
      else Current_observation (current_observation_max_age_ms (rc_profile k)))"

definition count_support :: "run_config \<Rightarrow> support \<Rightarrow> nat" where
  "count_support k spt = length (filter (\<lambda>a. axis_mapping (rc_claimed k) (rc_policy k) a = spt) AXES)"

definition record_call :: "run_config \<Rightarrow> run_state \<Rightarrow> source \<Rightarrow> string \<Rightarrow> verifier \<Rightarrow> graded \<Rightarrow> run_state" where
  "record_call k rs src w v g =
     rs\<lparr>rs_source := src, rs_down := g_down g,
        rs_workers := AList.update w v (rs_workers rs),
        rs_failures := rs_failures rs @
          sponge (call_id (g_call g)) (call_checks (rc_claimed k) (rc_policy k) g),
        rs_records := rs_records rs @
          [\<lparr>r_call = g_call g, r_evidence_id = ev_id (g_evidence g), r_claim_scope = scope_of k g,
            r_truth = g_truth g, r_answer = g_answer g,
            r_observation_age_ms = map_option (\<lambda>ob. at_ms (g_call g) - as_of_ms ob) (an_observation (g_answer g)),
            r_differs = mismatch g, r_downstream_reached = reached (g_down g) (call_id (g_call g)),
            r_reads = g_reads g, r_assessment = assess_call (rc_claimed k) (rc_policy k) g\<rparr>],
        rs_scored := rs_scored rs + count_support k Supported,
        rs_not_claimed := rs_not_claimed rs + count_support k Axis_not_claimed,
        rs_not_supported := rs_not_supported rs + count_support k Axis_not_supported,
        rs_composite := rs_composite rs + (if composite_claimed (rc_claimed k) then 1 else 0)\<rparr>"

definition worker_of :: "run_state \<Rightarrow> string \<Rightarrow> verifier" where
  "worker_of rs w = (case map_of (rs_workers rs) w of None \<Rightarrow> new_verifier | Some v \<Rightarrow> v)"

definition call_expired :: "run_config \<Rightarrow> call \<Rightarrow> evidence \<Rightarrow> bool" where
  "call_expired k c e = (\<not> lease_within (rc_boundary k) (at_ms c) (expires_at_ms e))"

definition graded_of ::
  "run_config \<Rightarrow> run_state \<Rightarrow> call_event \<Rightarrow> evidence \<Rightarrow> answer \<Rightarrow> source \<Rightarrow> downstream \<Rightarrow> graded" where
  "graded_of k rs ev e ans s2 down' =
     \<lparr>g_call = ce_call ev, g_evidence = e, g_mode = rc_mode k, g_expired = call_expired k (ce_call ev) e,
      g_answer = ans, g_reads = drop (length (reads (rs_source rs))) (reads s2),
      g_truth = ce_truth ev, g_down = down',
      g_expected = ce_expected ev (rc_mode k) (rc_boundary k), g_extras = rc_extras k\<rparr>"

definition step_call :: "run_config \<Rightarrow> run_state \<Rightarrow> call_event \<Rightarrow> lra_error + run_state" where
  "step_call k rs ev =
     (let c = ce_call ev in
      case select_evidence (rc_profile k) ev of
        None \<Rightarrow> Inl (AssertionError (''no evidence for call '' @ call_id c))
      | Some e \<Rightarrow>
          bind_sum (begin_call (rs_source rs) c (call_expired k c e \<or> grant c \<noteq> ev_grant e)) (\<lambda>s1.
          bind_sum (verifier_call (rc_mutant k) (decl_of k) (rc_extras k) (worker_of rs (worker c)) s1 (rs_down rs) c e)
            (\<lambda>(ans, v', s2, down').
               if states s2 (grant c) = None then Inl (KeyError (grant c))
               else if states s2 (grant c) \<noteq> Some (ce_truth ev)
               then Inl (AssertionError ''authored truth disagrees with timeline'')
               else if rc_extras k \<and> axis_mapping (rc_claimed k) (rc_policy k) Action_authorization = Supported
                       \<and> x_extra (ce_expected ev (rc_mode k) (rc_boundary k)) = None
               then Inl (KeyError ''refusal_reason'')
               else Inr (record_call k rs (end_call s2) (worker c) v' (graded_of k rs ev e ans s2 down')))))"

definition step :: "run_config \<Rightarrow> run_state \<Rightarrow> event \<Rightarrow> lra_error + run_state" where
  "step k rs ev =
     (if event_at ev < rs_last_ms rs then Inl (AssertionError ''nonmonotonic clock'')
      else
        (let rs' = rs\<lparr>rs_last_ms := event_at ev\<rparr> in
         case ev of
           Revoke t g \<Rightarrow>
             (if states (rs_source rs') g = None then Inl (AssertionError ''revoke of an unknown grant'')
              else Inr (rs'\<lparr>rs_source := (rs_source rs')\<lparr>states := (states (rs_source rs'))(g \<mapsto> Revoked)\<rparr>\<rparr>))
         | Availability t a \<Rightarrow> Inr (rs'\<lparr>rs_source := (rs_source rs')\<lparr>available := a\<rparr>\<rparr>)
         | Call_event ce \<Rightarrow> step_call k rs' ce))"

fun steps :: "run_config \<Rightarrow> run_state \<Rightarrow> event list \<Rightarrow> lra_error + run_state" where
  "steps k rs [] = Inr rs"
| "steps k rs (ev # evs) = bind_sum (step k rs ev) (\<lambda>rs'. steps k rs' evs)"

definition initial_run :: "run_config \<Rightarrow> run_state" where
  "initial_run k =
     \<lparr>rs_source = \<lparr>states = map_of (map (\<lambda>e. (ev_grant e, Active)) (initial_evidence (rc_profile k))),
                  available = True, reads = [], current = None\<rparr>,
      rs_down = {}, rs_workers = [], rs_failures = [], rs_records = [], rs_scored = 0,
      rs_composite = 0, rs_not_claimed = 0, rs_not_supported = 0, rs_last_ms = -1\<rparr>"

datatype run_status = Run_failed | No_scored_coverage | Partial_coverage | Run_matched

definition status_of :: "run_state \<Rightarrow> run_status" where
  "status_of rs =
     (if rs_failures rs \<noteq> [] then Run_failed
      else if rs_scored rs = 0 then No_scored_coverage
      else if rs_not_supported rs > 0 then Partial_coverage
      else Run_matched)"

definition run_case :: "run_config \<Rightarrow> event list \<Rightarrow> lra_error + run_status \<times> run_state" where
  "run_case k timeline =
     bind_sum (steps k (initial_run k) timeline) (\<lambda>rs. Inr (status_of rs, rs))"

section \<open>Invariants of the replay\<close>

lemma steps_append:
  "steps k rs (xs @ ys) = bind_sum (steps k rs xs) (\<lambda>rs'. steps k rs' ys)"
proof (induction xs arbitrary: rs)
  case (Cons x xs)
  then show ?case by (cases "step k rs x") auto
qed simp

text \<open>What a graded call rests on.\<close>

definition called :: "run_config \<Rightarrow> run_state \<Rightarrow> call_event \<Rightarrow> evidence \<Rightarrow> answer \<Rightarrow> verifier \<Rightarrow> source \<Rightarrow> downstream \<Rightarrow> bool" where
  "called k rs ev e ans v' s2 down' \<longleftrightarrow>
     select_evidence (rc_profile k) ev = Some e \<and> current (rs_source rs) = None \<and>
     verifier_call (rc_mutant k) (decl_of k) (rc_extras k) (worker_of rs (worker (ce_call ev)))
       ((rs_source rs)\<lparr>current := Some (ce_call ev, call_expired k (ce_call ev) e \<or> grant (ce_call ev) \<noteq> ev_grant e)\<rparr>)
       (rs_down rs) (ce_call ev) e = Inr (ans, v', s2, down') \<and>
     states s2 (grant (ce_call ev)) = Some (ce_truth ev)"

lemma step_callE:
  assumes "step_call k rs ev = Inr rs'"
  obtains e ans v' s2 down' where "called k rs ev e ans v' s2 down'"
    and "rs' = record_call k rs (end_call s2) (worker (ce_call ev)) v' (graded_of k rs ev e ans s2 down')"
proof -
  obtain e where e: "select_evidence (rc_profile k) ev = Some e"
    using assms by (auto simp: step_call_def Let_def split: option.splits)
  have idle: "current (rs_source rs) = None"
    using assms e by (cases "current (rs_source rs)") (simp_all add: step_call_def begin_call_def Let_def)
  obtain ans v' s2 down' where
    "verifier_call (rc_mutant k) (decl_of k) (rc_extras k) (worker_of rs (worker (ce_call ev)))
       ((rs_source rs)\<lparr>current := Some (ce_call ev, call_expired k (ce_call ev) e \<or> grant (ce_call ev) \<noteq> ev_grant e)\<rparr>)
       (rs_down rs) (ce_call ev) e = Inr (ans, v', s2, down')"
    using assms e idle by (auto simp: step_call_def begin_call_def Let_def)
  then show ?thesis
    using assms e idle by (intro that [of e ans v' s2 down'])
      (auto simp: step_call_def called_def begin_call_def Let_def split: if_splits)
qed

lemma step_cases:
  assumes "step k rs ev = Inr rs'"
  obtains (revoke) t g where "ev = Revoke t g" "states (rs_source rs) g \<noteq> None"
      "rs' = rs\<lparr>rs_last_ms := t, rs_source := (rs_source rs)\<lparr>states := (states (rs_source rs))(g \<mapsto> Revoked)\<rparr>\<rparr>"
  | (availability) t a where "ev = Availability t a"
      "rs' = rs\<lparr>rs_last_ms := t, rs_source := (rs_source rs)\<lparr>available := a\<rparr>\<rparr>"
  | (call) ce where "ev = Call_event ce"
      "step_call k (rs\<lparr>rs_last_ms := event_at ev\<rparr>) ce = Inr rs'"
  using assms by (cases ev) (auto simp: step_def Let_def split: if_splits)

lemmas record_call_simps [simp] = record_call_def end_call_def

lemma axes_partition:
  "count_support k Supported + count_support k Axis_not_claimed + count_support k Axis_not_supported = 3"
proof -
  have "axis_mapping c p a \<in> {Supported, Axis_not_claimed, Axis_not_supported}" for c p a
    by (simp add: axis_mapping_def)
  then show ?thesis
    by (cases "axis_mapping (rc_claimed k) (rc_policy k) Evidence_freshness";
        cases "axis_mapping (rc_claimed k) (rc_policy k) Authority_validity";
        cases "axis_mapping (rc_claimed k) (rc_policy k) Action_authorization")
      (simp_all add: count_support_def AXES_def)
qed

definition tally_inv :: "run_state \<Rightarrow> bool" where
  "tally_inv rs \<longleftrightarrow> current (rs_source rs) = None
     \<and> rs_scored rs + rs_not_claimed rs + rs_not_supported rs = 3 * length (rs_records rs)
     \<and> rs_composite rs \<le> length (rs_records rs)"

lemma step_tally: "step k rs ev = Inr rs' \<Longrightarrow> tally_inv rs \<Longrightarrow> tally_inv rs'"
proof (erule step_cases)
  fix ce assume "step_call k (rs\<lparr>rs_last_ms := event_at ev\<rparr>) ce = Inr rs'" and "tally_inv rs"
  then show "tally_inv rs'"
    using axes_partition [of k] by (elim step_callE) (auto simp: tally_inv_def)
qed (auto simp: tally_inv_def)

lemma steps_tally: "steps k rs evs = Inr rs' \<Longrightarrow> tally_inv rs \<Longrightarrow> tally_inv rs'"
  by (induction evs arbitrary: rs) (auto dest: step_tally)

lemma initial_tally: "tally_inv (initial_run k)"
  by (simp add: tally_inv_def initial_run_def)

lemma steps_sorted:
  assumes "steps k rs evs = Inr rs'"
  shows "sorted (map event_at evs) \<and> (\<forall>ev\<in>set evs. rs_last_ms rs \<le> event_at ev)"
  using assms
proof (induction evs arbitrary: rs)
  case (Cons ev evs)
  then obtain r where r: "step k rs ev = Inr r" "steps k r evs = Inr rs'" by auto
  then have "rs_last_ms rs \<le> event_at ev" by (auto simp: step_def split: if_splits)
  moreover have "rs_last_ms r = event_at ev"
    using r(1) by (elim step_cases) (auto elim!: step_callE)
  ultimately show ?case using Cons.IH [OF r(2)] by auto
qed simp

section \<open>The source contract\<close>

definition source_labels :: "string set" where
  "source_labels = {''source_read_contract'', ''source_observation_binding'', ''source_read_worker'',
     ''source_read_grant'', ''source_read_time'', ''diagnostic_observation_provenance''}"

lemma sponge_append [simp]: "sponge cid (xs @ ys) = sponge cid xs @ sponge cid ys"
  by (simp add: sponge_def)

lemma sponge_passed: "list_all snd cs \<Longrightarrow> sponge cid cs = []"
  by (auto simp: sponge_def list_all_iff filter_empty_conv)

lemma sponge_labels: "(i, l) \<in> set (sponge cid cs) \<Longrightarrow> l \<in> fst ` set cs"
  by (auto simp: sponge_def)

lemma axis_labels: "l \<in> fst ` set (axis_checks g spt axis) \<Longrightarrow> l \<notin> source_labels"
proof -
  have "l \<in> fst ` set (authority_checks g) \<Longrightarrow> l \<notin> source_labels"
    by (cases "diagnostic g") (auto simp: authority_checks_def Let_def source_labels_def)
  moreover have "l \<in> fst ` set (action_checks g) \<Longrightarrow> l \<notin> source_labels"
    by (cases "g_extras g") (auto simp: action_checks_def Let_def source_labels_def)
  moreover assume "l \<in> fst ` set (axis_checks g spt axis)"
  ultimately show ?thesis
    by (cases spt; cases axis) (auto simp: axis_checks_def source_labels_def)
qed

definition graded_checks :: "axis list \<Rightarrow> string \<Rightarrow> graded \<Rightarrow> checks" where
  "graded_checks claimed policy g = binding_checks g
     @ concat (map (\<lambda>axis. axis_checks g (axis_mapping claimed policy axis) axis) AXES)
     @ composite_checks claimed g"

lemma call_checks_split: "call_checks claimed policy g = source_checks g @ graded_checks claimed policy g"
  by (simp add: call_checks_def graded_checks_def)

lemma graded_labels:
  assumes "l \<in> fst ` set (graded_checks claimed policy g)"
  shows "l \<notin> source_labels"
proof -
  from assms consider "l \<in> fst ` set (binding_checks g)"
    | axis where "l \<in> fst ` set (axis_checks g (axis_mapping claimed policy axis) axis)"
    | "l \<in> fst ` set (composite_checks claimed g)"
    unfolding graded_checks_def set_append set_concat set_map image_Un by blast
  then show ?thesis
  proof cases
    case 1
    then show ?thesis by (simp add: binding_checks_def source_labels_def)
  next
    case 2
    then show ?thesis by (rule axis_labels)
  next
    case 3
    then show ?thesis
      by (cases "composite_claimed claimed") (simp_all add: composite_checks_def source_labels_def)
  qed
qed

lemma correct_reads:
  assumes "verifier_call Correct d extras v (s\<lparr>current := Some (c, rej)\<rparr>) down c e = Inr (ans, v', s2, down')"
  defines "ok \<equiv> grant c = ev_grant e \<and> lease_within (d_boundary d) (at_ms c) (expires_at_ms e)"
  shows "\<not> ok \<Longrightarrow> reads s2 = reads s \<and> an_observation ans = None"
    and "ok \<Longrightarrow> d_mode d = Cached_lease \<Longrightarrow> reads s2 = reads s"
    and "ok \<Longrightarrow> d_mode d = Live_standing_read \<Longrightarrow>
      \<exists>ev. reads s2 = reads s @ [ev] \<and> re_worker ev = worker c \<and> re_grant ev = grant c
         \<and> re_at_ms ev = at_ms c \<and> re_observation ev = an_observation ans"
proof -
  obtain ob where ob: "correct_observation (d_mode d) (d_boundary d) (s\<lparr>current := Some (c, rej)\<rparr>) c e = Inr (ob, s2)"
    and ans: "ans = correct_answer d extras ob c e"
    using assms(1) by (rule verifier_call_correct)
  have obs: "an_observation ans = ob" by (simp add: ans correct_answer_def answer_of_def Let_def)
  show "\<not> ok \<Longrightarrow> reads s2 = reads s \<and> an_observation ans = None"
    using ob obs by (auto simp: correct_observation_def ok_def split: if_splits)
  show "ok \<Longrightarrow> d_mode d = Cached_lease \<Longrightarrow> reads s2 = reads s"
    using ob by (auto simp: correct_observation_def ok_def)
  assume ok "d_mode d = Live_standing_read"
  then have "read (s\<lparr>current := Some (c, rej)\<rparr>) (grant c) (at_ms c) = Inr (ob, s2)"
    using ob by (simp add: correct_observation_def ok_def)
  from read_event_of_call(1) [OF this, of c rej]
  show "\<exists>ev. reads s2 = reads s @ [ev] \<and> re_worker ev = worker c \<and> re_grant ev = grant c
         \<and> re_at_ms ev = at_ms c \<and> re_observation ev = an_observation ans"
    by (simp add: obs)
qed

lemma graded_source_ok:
  assumes "called k rs ev e ans v' s2 down'" and "rc_mutant k = Correct"
  shows "list_all snd (source_checks (graded_of k rs ev e ans s2 down'))"
proof -
  let ?g = "graded_of k rs ev e ans s2 down'"
  have vc: "verifier_call Correct (decl_of k) (rc_extras k) (worker_of rs (worker (ce_call ev)))
       ((rs_source rs)\<lparr>current := Some (ce_call ev, call_expired k (ce_call ev) e \<or> grant (ce_call ev) \<noteq> ev_grant e)\<rparr>)
       (rs_down rs) (ce_call ev) e = Inr (ans, v', s2, down')"
    using assms by (simp add: called_def)
  note reads = correct_reads [OF vc]
  show ?thesis
  proof (cases "rejected_input ?g")
    case True
    then have "g_reads ?g = [] \<and> an_observation (g_answer ?g) = None"
      using reads(1) by (auto simp: graded_of_def rejected_input_def decl_of_def call_expired_def)
    with True show ?thesis by (simp add: source_checks_def diagnostic_def)
  next
    case False
    then show ?thesis using reads(2,3)
      by (cases "rc_mode k") (auto simp: graded_of_def rejected_input_def decl_of_def call_expired_def
          source_checks_def diagnostic_def)
  qed
qed

lemma step_call_source_ok:
  assumes "step_call k rs ev = Inr rs'" and "rc_mutant k = Correct"
    and "(i, l) \<in> set (rs_failures rs')" and "l \<in> source_labels"
  shows "(i, l) \<in> set (rs_failures rs)"
  using assms(1)
proof (rule step_callE)
  fix e ans v' s2 down'
  let ?g = "graded_of k rs ev e ans s2 down'"
  assume c: "called k rs ev e ans v' s2 down'"
    and rs': "rs' = record_call k rs (end_call s2) (worker (ce_call ev)) v' ?g"
  have "(i, l) \<in> set (rs_failures rs) \<or>
      (i, l) \<in> set (sponge (call_id (g_call ?g)) (graded_checks (rc_claimed k) (rc_policy k) ?g))"
    using assms(3) by (simp add: rs' call_checks_split sponge_passed [OF graded_source_ok [OF c assms(2)]])
  then show ?thesis
  proof
    assume "(i, l) \<in> set (sponge (call_id (g_call ?g)) (graded_checks (rc_claimed k) (rc_policy k) ?g))"
    from graded_labels [OF sponge_labels [OF this]] assms(4) show ?thesis by contradiction
  qed
qed

lemma steps_source_ok:
  assumes "steps k rs evs = Inr rs'" and "rc_mutant k = Correct"
    and "(i, l) \<in> set (rs_failures rs')" and "l \<in> source_labels"
  shows "(i, l) \<in> set (rs_failures rs)"
  using assms(1)
proof (induction evs arbitrary: rs)
  case Nil
  then show ?case using assms(3) by simp
next
  case (Cons ev evs)
  then obtain r where r: "step k rs ev = Inr r" "steps k r evs = Inr rs'" by auto
  from Cons.IH [OF r(2)] have "(i, l) \<in> set (rs_failures r)" .
  with r(1) show ?case
  proof (cases rule: step_cases)
    case (call ce)
    from step_call_source_ok [OF call(2) assms(2) \<open>(i, l) \<in> set (rs_failures r)\<close> assms(4)]
    show ?thesis by simp
  qed simp_all
qed

section \<open>Revocation\<close>

lemma correct_states:
  "step_call k rs ev = Inr rs' \<Longrightarrow> rc_mutant k = Correct \<Longrightarrow> states (rs_source rs') = states (rs_source rs)"
  by (elim step_callE) (auto simp: called_def dest: correct_frame)

lemma step_revoked:
  assumes "step k rs ev = Inr rs'" and "rc_mutant k = Correct" and "states (rs_source rs) g = Some Revoked"
  shows "states (rs_source rs') g = Some Revoked"
  using assms by (elim step_cases) (auto dest: correct_states)

definition denied_on :: "string \<Rightarrow> call_record \<Rightarrow> bool" where
  "denied_on g r \<longleftrightarrow> (grant (r_call r) = g \<longrightarrow> action_decision (r_answer r) \<noteq> Permit)"

lemma step_call_revoked:
  assumes "step_call k rs ev = Inr rs'" and "rc_mutant k = Correct" and "rc_mode k = Live_standing_read"
    and "states (rs_source rs) g = Some Revoked"
  shows "\<exists>r. rs_records rs' = rs_records rs @ [r] \<and> denied_on g r"
  using assms(1)
proof (rule step_callE)
  fix e ans v' s2 down'
  assume c: "called k rs ev e ans v' s2 down'"
    and rs': "rs' = record_call k rs (end_call s2) (worker (ce_call ev)) v' (graded_of k rs ev e ans s2 down')"
  have "action_decision ans \<noteq> Permit" if "grant (ce_call ev) = g"
    using c assms(2,3,4) that
    by (auto simp: called_def established_validity_def decl_of_def dest!: correct_permit_validity(1) split: if_splits)
  then show ?thesis by (auto simp: rs' graded_of_def denied_on_def)
qed

lemma steps_revoked:
  assumes "steps k rs evs = Inr rs'" and "rc_mutant k = Correct" and "rc_mode k = Live_standing_read"
    and "states (rs_source rs) g = Some Revoked"
  shows "\<exists>new. rs_records rs' = rs_records rs @ new \<and> (\<forall>r\<in>set new. denied_on g r)"
  using assms(1,4)
proof (induction evs arbitrary: rs)
  case (Cons ev evs)
  then obtain r where r: "step k rs ev = Inr r" "steps k r evs = Inr rs'" by auto
  have rev: "states (rs_source r) g = Some Revoked"
    using step_revoked [OF r(1) assms(2) Cons.prems(2)] .
  from r(1) have "\<exists>n. rs_records r = rs_records rs @ n \<and> (\<forall>x\<in>set n. denied_on g x)"
    using step_call_revoked [OF _ assms(2,3)] Cons.prems(2) by (elim step_cases) fastforce+
  with Cons.IH [OF r(2) rev] show ?case by fastforce
qed simp

end
