(* ===== verification/Lease_Corpus.thy ===== *)
theory Lease_Corpus
  imports Lease_Runner
begin

text \<open>
  The properties of the replay of lease-revocation-axes timelines, with the published revision-3
  vector LRA-02 (\<open>vendor-r3/vectors.json\<close>, the shared revocation timeline) as the concrete run.
\<close>

section \<open>The published profile and vector\<close>

definition lra_profile :: profile where
  "lra_profile = \<lparr>lease_ms = 120000, lease_anchor = ''evidence_issued_at_ms'', current_observation_max_age_ms = 0,
     initial_evidence = [e1, e1\<lparr>ev_id := ''e2'', ev_grant := ''g2''\<rparr>]\<rparr>"

definition lra_config :: "mode \<Rightarrow> boundary \<Rightarrow> mutant \<Rightarrow> run_config" where
  "lra_config m b mu = \<lparr>rc_profile = lra_profile, rc_mode = m, rc_boundary = b, rc_mutant = mu,
     rc_claimed = AXES, rc_policy = DEFAULT_POLICY, rc_extras = True\<rparr>"

definition LRA_02 :: "event list" where
  "LRA_02 =
   [Call_event
     \<lparr>ce_call = \<lparr>call_id = ''LRA-02-r1'', at_ms = 0, worker = ''w1'', grant = ''g1'', operation = ''read''\<rparr>,
      ce_evidence_id = None, ce_truth = Active,
      ce_expected = (\<lambda>m b. case m of Cached_lease \<Rightarrow>
       \<lparr>x_binding = Matched, x_freshness = Fresh,
        x_observation = Some \<lparr>ob_status = Active, as_of_ms = 0, retrieved_at_ms = 0\<rparr>,
        x_authority_answer = Valid, x_current_validity = Valid,
        x_verification_accepted = True, x_action_decision = Permit,
        x_downstream_reached = True, x_differs_from_truth = False,
        x_extra = Some (None, \<lparr>gr_grant = ''g1'', gr_evidence_id = ''e1'',
          gr_issued_at_ms = 0, gr_expires_at_ms = 120000, observation_as_of_ms = Some 0\<rparr>)\<rparr>
      | Live_standing_read \<Rightarrow>
       \<lparr>x_binding = Matched, x_freshness = Fresh,
        x_observation = Some \<lparr>ob_status = Active, as_of_ms = 0, retrieved_at_ms = 0\<rparr>,
        x_authority_answer = Valid, x_current_validity = Valid,
        x_verification_accepted = True, x_action_decision = Permit,
        x_downstream_reached = True, x_differs_from_truth = False,
        x_extra = Some (None, \<lparr>gr_grant = ''g1'', gr_evidence_id = ''e1'',
          gr_issued_at_ms = 0, gr_expires_at_ms = 120000, observation_as_of_ms = Some 0\<rparr>)\<rparr>)\<rparr>,
    Revoke 10000 ''g1'',
    Call_event
     \<lparr>ce_call = \<lparr>call_id = ''LRA-02-r2'', at_ms = 30000, worker = ''w1'', grant = ''g1'', operation = ''read''\<rparr>,
      ce_evidence_id = None, ce_truth = Revoked,
      ce_expected = (\<lambda>m b. case m of Cached_lease \<Rightarrow>
       \<lparr>x_binding = Matched, x_freshness = Fresh,
        x_observation = Some \<lparr>ob_status = Active, as_of_ms = 0, retrieved_at_ms = 0\<rparr>,
        x_authority_answer = Valid, x_current_validity = Not_established_validity,
        x_verification_accepted = True, x_action_decision = Deny,
        x_downstream_reached = False, x_differs_from_truth = True,
        x_extra = Some (Some Authority_not_determined, \<lparr>gr_grant = ''g1'', gr_evidence_id = ''e1'',
          gr_issued_at_ms = 0, gr_expires_at_ms = 120000, observation_as_of_ms = Some 0\<rparr>)\<rparr>
      | Live_standing_read \<Rightarrow>
       \<lparr>x_binding = Matched, x_freshness = Fresh,
        x_observation = Some \<lparr>ob_status = Revoked, as_of_ms = 30000, retrieved_at_ms = 30000\<rparr>,
        x_authority_answer = Revoked_validity, x_current_validity = Revoked_validity,
        x_verification_accepted = False, x_action_decision = Deny,
        x_downstream_reached = False, x_differs_from_truth = False,
        x_extra = Some (Some Authority_revoked, \<lparr>gr_grant = ''g1'', gr_evidence_id = ''e1'',
          gr_issued_at_ms = 0, gr_expires_at_ms = 120000, observation_as_of_ms = Some 30000\<rparr>)\<rparr>)\<rparr>,
    Call_event
     \<lparr>ce_call = \<lparr>call_id = ''LRA-02-r3'', at_ms = 60000, worker = ''w1'', grant = ''g1'', operation = ''read''\<rparr>,
      ce_evidence_id = None, ce_truth = Revoked,
      ce_expected = (\<lambda>m b. case m of Cached_lease \<Rightarrow>
       \<lparr>x_binding = Matched, x_freshness = Fresh,
        x_observation = Some \<lparr>ob_status = Active, as_of_ms = 0, retrieved_at_ms = 0\<rparr>,
        x_authority_answer = Valid, x_current_validity = Not_established_validity,
        x_verification_accepted = True, x_action_decision = Deny,
        x_downstream_reached = False, x_differs_from_truth = True,
        x_extra = Some (Some Authority_not_determined, \<lparr>gr_grant = ''g1'', gr_evidence_id = ''e1'',
          gr_issued_at_ms = 0, gr_expires_at_ms = 120000, observation_as_of_ms = Some 0\<rparr>)\<rparr>
      | Live_standing_read \<Rightarrow>
       \<lparr>x_binding = Matched, x_freshness = Fresh,
        x_observation = Some \<lparr>ob_status = Revoked, as_of_ms = 60000, retrieved_at_ms = 60000\<rparr>,
        x_authority_answer = Revoked_validity, x_current_validity = Revoked_validity,
        x_verification_accepted = False, x_action_decision = Deny,
        x_downstream_reached = False, x_differs_from_truth = False,
        x_extra = Some (Some Authority_revoked, \<lparr>gr_grant = ''g1'', gr_evidence_id = ''e1'',
          gr_issued_at_ms = 0, gr_expires_at_ms = 120000, observation_as_of_ms = Some 60000\<rparr>)\<rparr>)\<rparr>,
    Call_event
     \<lparr>ce_call = \<lparr>call_id = ''LRA-02-r4'', at_ms = 119000, worker = ''w1'', grant = ''g1'', operation = ''read''\<rparr>,
      ce_evidence_id = None, ce_truth = Revoked,
      ce_expected = (\<lambda>m b. case m of Cached_lease \<Rightarrow>
       \<lparr>x_binding = Matched, x_freshness = Fresh,
        x_observation = Some \<lparr>ob_status = Active, as_of_ms = 0, retrieved_at_ms = 0\<rparr>,
        x_authority_answer = Valid, x_current_validity = Not_established_validity,
        x_verification_accepted = True, x_action_decision = Deny,
        x_downstream_reached = False, x_differs_from_truth = True,
        x_extra = Some (Some Authority_not_determined, \<lparr>gr_grant = ''g1'', gr_evidence_id = ''e1'',
          gr_issued_at_ms = 0, gr_expires_at_ms = 120000, observation_as_of_ms = Some 0\<rparr>)\<rparr>
      | Live_standing_read \<Rightarrow>
       \<lparr>x_binding = Matched, x_freshness = Fresh,
        x_observation = Some \<lparr>ob_status = Revoked, as_of_ms = 119000, retrieved_at_ms = 119000\<rparr>,
        x_authority_answer = Revoked_validity, x_current_validity = Revoked_validity,
        x_verification_accepted = False, x_action_decision = Deny,
        x_downstream_reached = False, x_differs_from_truth = False,
        x_extra = Some (Some Authority_revoked, \<lparr>gr_grant = ''g1'', gr_evidence_id = ''e1'',
          gr_issued_at_ms = 0, gr_expires_at_ms = 120000, observation_as_of_ms = Some 119000\<rparr>)\<rparr>)\<rparr>]"

section \<open>Counting and monotonicity\<close>

fun is_call :: "event \<Rightarrow> bool" where
  "is_call (Call_event _) = True"
| "is_call _ = False"

lemma step_records:
  "step k rs ev = Inr rs' \<Longrightarrow> length (rs_records rs') = length (rs_records rs) + (if is_call ev then 1 else 0)"
  by (elim step_cases) (auto elim!: step_callE)

lemma steps_records:
  "steps k rs evs = Inr rs' \<Longrightarrow> length (rs_records rs') = length (rs_records rs) + length (filter is_call evs)"
  by (induction evs arbitrary: rs) (auto dest: step_records)

lemma step_failures_mono: "step k rs ev = Inr rs' \<Longrightarrow> set (rs_failures rs) \<subseteq> set (rs_failures rs')"
  by (elim step_cases) (auto elim!: step_callE)

lemma steps_failures_mono: "steps k rs evs = Inr rs' \<Longrightarrow> set (rs_failures rs) \<subseteq> set (rs_failures rs')"
  by (induction evs arbitrary: rs) (auto dest: step_failures_mono)

section \<open>A fabricated answer is caught by the read audit\<close>

lemma fabricated_keeps_source:
  assumes "verifier_call Fabricated_live_read d extras v s down c e = Inr (ans, v', s2, down')"
    and "d_mode d = Live_standing_read"
  shows "s2 = s"
  using assms
  by (auto simp: verifier_call_def prefetch_def observe_def live_observation_def Let_def split: if_splits)

lemma step_call_fabricated:
  assumes "step_call k rs ev = Inr rs'" and "rc_mutant k = Fabricated_live_read"
    and "rc_mode k = Live_standing_read" and "select_evidence (rc_profile k) ev = Some e"
    and "grant (ce_call ev) = ev_grant e" and "\<not> call_expired k (ce_call ev) e"
  shows "(call_id (ce_call ev), ''source_read_contract'') \<in> set (rs_failures rs')"
  using assms(1)
proof (rule step_callE)
  fix e' ans v' s2 down'
  assume c: "called k rs ev e' ans v' s2 down'"
    and rs': "rs' = record_call k rs (end_call s2) (worker (ce_call ev)) v' (graded_of k rs ev e' ans s2 down')"
  have "e' = e" and "reads s2 = reads (rs_source rs)"
    using c assms(2-4) by (auto simp: called_def decl_of_def dest: fabricated_keeps_source)
  then have "(''source_read_contract'', False) \<in> set (source_checks (graded_of k rs ev e' ans s2 down'))"
    using assms(3,5,6) by (simp add: source_checks_def graded_of_def rejected_input_def)
  then show ?thesis
    by (force simp: rs' call_checks_split sponge_def graded_of_def)
qed

section \<open>Grants that are not revoked\<close>

lemma steps_keep_grant:
  assumes "steps k rs evs = Inr rs'" and "rc_mutant k = Correct" and "\<forall>t. Revoke t g \<notin> set evs"
  shows "states (rs_source rs') g = states (rs_source rs) g"
  using assms(1,3)
proof (induction evs arbitrary: rs)
  case (Cons ev evs)
  then obtain r where r: "step k rs ev = Inr r" "steps k r evs = Inr rs'" by auto
  have "states (rs_source r) g = states (rs_source rs) g"
    using r(1) Cons.prems(2) assms(2) by (elim step_cases) (auto dest: correct_states)
  then show ?case using Cons.IH [OF r(2)] Cons.prems(2) by simp
qed simp

lemma selected_grant_active:
  assumes "select_evidence (rc_profile k) ev = Some e" and "ev_grant e = g"
  shows "states (rs_source (initial_run k)) g = Some Active"
proof -
  have "e \<in> set (initial_evidence (rc_profile k))"
    using assms(1) by (auto simp: select_evidence_def dest: find_Some_in split: option.splits if_splits)
  then have "map_of (map (\<lambda>e. (ev_grant e, Active)) (initial_evidence (rc_profile k))) g \<noteq> None"
    using assms(2) by (simp add: map_of_eq_None_iff image_image) blast
  moreover have "x = Active" if "map_of (map (\<lambda>e. (ev_grant e, Active)) es) g = Some x" for x es
    using that by (induction es) (auto split: if_splits)
  ultimately show ?thesis by (auto simp: initial_run_def)
qed

lemma live_permit:
  assumes "verifier_call Correct d extras v s down c e = Inr (ans, v', s', down')"
    and "d_mode d = Live_standing_read" "Action_authorization \<in> set (claimed_axes d)" "action_policy d = DEFAULT_POLICY"
    and "ev_grant e = grant c" "lease_within (d_boundary d) (at_ms c) (expires_at_ms e)"
    and "operation c \<in> set (allowed_operations e)" "available s" "states s (grant c) = Some Active"
  shows "action_decision ans = Permit"
proof -
  obtain ob where ob: "correct_observation (d_mode d) (d_boundary d) s c e = Inr (ob, s')"
    and ans: "ans = correct_answer d extras ob c e"
    using assms(1) by (rule verifier_call_correct)
  have "validity_at c ob = Valid"
    using correct_validity [OF ob] assms by (simp add: established_validity_def)
  then show ?thesis using assms by (simp add: ans correct_answer_def answer_simps)
qed

section \<open>Runs of LRA-02\<close>

definition returns_records :: "run_config \<Rightarrow> event list \<Rightarrow> nat \<Rightarrow> bool" where
  "returns_records k tline n = (case run_case k tline of Inl _ \<Rightarrow> False | Inr (st, rs) \<Rightarrow> length (rs_records rs) = n)"

lemma returns_recordsE:
  assumes "returns_records k tline n"
  obtains st rs where "run_case k tline = Inr (st, rs)" "length (rs_records rs) = n"
  using assms by (auto simp: returns_records_def split: sum.splits)

lemma LRA_02_runs:
  "returns_records (lra_config Live_standing_read Exclusive Correct) LRA_02 4"
  "returns_records (lra_config Live_standing_read Exclusive Fabricated_live_read) LRA_02 4"
  by code_simp+

lemma LRA_02_revoke: "take 1 LRA_02 @ Revoke 10000 ''g1'' # drop 2 LRA_02 = LRA_02"
  by (simp add: LRA_02_def)

section \<open>Properties\<close>

text \<open>C28: The correct verifier satisfies the transport-layer audit on every timeline, whatever the
  authored expectations: no run collects a failure of the source-read contract, of the binding of an
  answer to the read it came from, of the worker, grant or time of a read, or of a diagnostic
  observation's provenance.\<close>

theorem correct_run_source_contract:
  assumes "run_case k timeline = Inr (st, rs)" and "rc_mutant k = Correct"
  shows "\<forall>(i, l) \<in> set (rs_failures rs). l \<notin> source_labels"
  using assms steps_source_ok [of k "initial_run k" timeline rs]
  by (auto simp: run_case_def initial_run_def)

text \<open>The timeline of LRA-02 with an outage after its revocation: four calls that each read the source, and answers that
  miss the authored expectations.\<close>

definition outage_LRA_02 :: "event list" where
  "outage_LRA_02 = take 2 LRA_02 @ Availability 20000 False # drop 2 LRA_02"

definition reads_and_fails :: "run_config \<Rightarrow> event list \<Rightarrow> bool" where
  "reads_and_fails k tline =
     (case run_case k tline of
        Inl _ \<Rightarrow> False
      | Inr (st, rs) \<Rightarrow> map (\<lambda>r. length (r_reads r)) (rs_records rs) = [1, 1, 1, 1] \<and> rs_failures rs \<noteq> [])"

lemma outage_LRA_02_reads: "reads_and_fails (lra_config Live_standing_read Exclusive Correct) outage_LRA_02"
  by code_simp

theorem correct_run_source_contract_witness:
  "\<exists>st rs. run_case (lra_config Live_standing_read Exclusive Correct) outage_LRA_02 = Inr (st, rs)
     \<and> map (\<lambda>r. length (r_reads r)) (rs_records rs) = [1, 1, 1, 1] \<and> rs_failures rs \<noteq> []
     \<and> (\<forall>(i, l) \<in> set (rs_failures rs). l \<notin> source_labels)"
proof -
  obtain st rs where r: "run_case (lra_config Live_standing_read Exclusive Correct) outage_LRA_02 = Inr (st, rs)"
      "map (\<lambda>r. length (r_reads r)) (rs_records rs) = [1, 1, 1, 1]" "rs_failures rs \<noteq> []"
    using outage_LRA_02_reads by (auto simp: reads_and_fails_def split: sum.splits)
  then show ?thesis using correct_run_source_contract [OF r(1)] by (simp add: lra_config_def)
qed

text \<open>C2: Revocation is final on a timeline: after a revoke event for a grant, no later call on that
  grant is permitted by the correct verifier in live mode, by any worker and with any evidence.\<close>

theorem revoked_grant_never_permitted:
  assumes "run_case k (pre @ Revoke t g # post) = Inr (st, rs)"
    and "rc_mutant k = Correct" and "rc_mode k = Live_standing_read"
  shows "\<forall>r \<in> set (drop (length (filter is_call pre)) (rs_records rs)).
           grant (r_call r) = g \<longrightarrow> action_decision (r_answer r) \<noteq> Permit"
proof -
  obtain r1 r2 where r: "steps k (initial_run k) pre = Inr r1" "step k r1 (Revoke t g) = Inr r2"
      "steps k r2 post = Inr rs"
    using assms(1) by (auto simp: run_case_def steps_append)
  have r2: "states (rs_source r2) g = Some Revoked" "rs_records r2 = rs_records r1"
    using r(2) by (auto elim!: step_cases)
  have "length (rs_records r1) = length (filter is_call pre)"
    using steps_records [OF r(1)] by (simp add: initial_run_def)
  with steps_revoked [OF r(3) assms(2,3) r2(1)] r2(2) show ?thesis
    by (auto simp: denied_on_def)
qed

theorem revoked_grant_never_permitted_witness:
  "\<exists>st rs. run_case (lra_config Live_standing_read Exclusive Correct) LRA_02 = Inr (st, rs)
     \<and> length (rs_records rs) = 4
     \<and> (\<forall>r \<in> set (drop 1 (rs_records rs)). grant (r_call r) = ''g1'' \<longrightarrow> action_decision (r_answer r) \<noteq> Permit)"
proof -
  obtain st rs where r: "run_case (lra_config Live_standing_read Exclusive Correct) LRA_02 = Inr (st, rs)"
      "length (rs_records rs) = 4"
    using LRA_02_runs(1) by (rule returns_recordsE)
  have calls: "length (filter is_call (take 1 LRA_02)) = 1" by (simp add: LRA_02_def)
  have "run_case (lra_config Live_standing_read Exclusive Correct)
      (take 1 LRA_02 @ Revoke 10000 ''g1'' # drop 2 LRA_02) = Inr (st, rs)"
    using r(1) by (simp only: LRA_02_revoke)
  from revoked_grant_never_permitted [OF this] r show ?thesis
    unfolding calls by (auto simp: lra_config_def)
qed

text \<open>A verifier that answers plausibly without reading the source never passes: in live mode,
  a timeline with one call that is bound to fresh evidence ends in status failed, whatever the
  expected answers are.\<close>

theorem fabricated_live_read_caught:
  assumes "run_case k (pre @ Call_event ev # post) = Inr (st, rs)"
    and "rc_mutant k = Fabricated_live_read" and "rc_mode k = Live_standing_read"
    and "select_evidence (rc_profile k) ev = Some e" and "grant (ce_call ev) = ev_grant e"
    and "lease_within (rc_boundary k) (at_ms (ce_call ev)) (expires_at_ms e)"
  shows "st = Run_failed \<and> (call_id (ce_call ev), ''source_read_contract'') \<in> set (rs_failures rs)"
proof -
  obtain r1 r2 where r: "step k r1 (Call_event ev) = Inr r2" "steps k r2 post = Inr rs"
    using assms(1) by (auto simp: run_case_def steps_append)
  have "(call_id (ce_call ev), ''source_read_contract'') \<in> set (rs_failures r2)"
    using r(1) assms(2-6)
    by (auto elim!: step_cases intro: step_call_fabricated simp: call_expired_def)
  with steps_failures_mono [OF r(2)]
  have "(call_id (ce_call ev), ''source_read_contract'') \<in> set (rs_failures rs)" by auto
  moreover from this have "st = Run_failed"
    using assms(1) by (auto simp: run_case_def status_of_def)
  ultimately show ?thesis by simp
qed

theorem fabricated_live_read_caught_witness:
  "\<exists>rs. run_case (lra_config Live_standing_read Exclusive Fabricated_live_read) LRA_02 = Inr (Run_failed, rs)"
proof -
  let ?k = "lra_config Live_standing_read Exclusive Fabricated_live_read"
  obtain st rs where r: "run_case ?k LRA_02 = Inr (st, rs)"
    using LRA_02_runs(2) by (rule returns_recordsE)
  obtain ev where ev: "LRA_02 = [] @ Call_event ev # drop 1 LRA_02"
    and sel: "select_evidence lra_profile ev = Some e1" and "grant (ce_call ev) = ''g1''" "at_ms (ce_call ev) = 0"
    by (simp add: LRA_02_def select_evidence_def lra_profile_def e1_def)
  then show ?thesis
    using fabricated_live_read_caught [of ?k "[]" ev "drop 1 LRA_02" st rs e1] r
    by (simp add: lra_config_def e1_def lease_within_def)
qed

text \<open>The replay's bookkeeping: a run that returns has a nondecreasing clock, one record per call
  event, every record's three axes counted exactly once as scored, not claimed or not supported, and
  status matched only with no failure, some scored axis and none unsupported.\<close>

theorem run_case_accounting:
  assumes "run_case k timeline = Inr (st, rs)"
  shows "sorted (map event_at timeline)
    \<and> length (rs_records rs) = length (filter is_call timeline)
    \<and> rs_scored rs + rs_not_claimed rs + rs_not_supported rs = 3 * length (rs_records rs)
    \<and> (st = Run_matched \<longleftrightarrow> rs_failures rs = [] \<and> rs_scored rs > 0 \<and> rs_not_supported rs = 0)"
proof (intro conjI)
  have r: "steps k (initial_run k) timeline = Inr rs" and st: "st = status_of rs"
    using assms by (auto simp: run_case_def)
  show "sorted (map event_at timeline)" using steps_sorted [OF r] by simp
  show "length (rs_records rs) = length (filter is_call timeline)"
    using steps_records [OF r] by (simp add: initial_run_def)
  show "rs_scored rs + rs_not_claimed rs + rs_not_supported rs = 3 * length (rs_records rs)"
    using steps_tally [OF r initial_tally] by (simp add: tally_inv_def)
  show "st = Run_matched \<longleftrightarrow> rs_failures rs = [] \<and> rs_scored rs > 0 \<and> rs_not_supported rs = 0"
    by (auto simp: st status_of_def)
qed

theorem run_case_accounting_witness:
  "\<exists>st rs. run_case (lra_config Live_standing_read Exclusive Correct) LRA_02 = Inr (st, rs)
     \<and> length (rs_records rs) = 4 \<and> rs_scored rs + rs_not_claimed rs + rs_not_supported rs = 12"
proof -
  obtain st rs where r: "run_case (lra_config Live_standing_read Exclusive Correct) LRA_02 = Inr (st, rs)"
      "length (rs_records rs) = 4"
    using LRA_02_runs(1) by (rule returns_recordsE)
  with run_case_accounting [OF r(1)] show ?thesis by simp
qed

text \<open>C16: an outage does not outlast itself. Take a live-mode run of the correct verifier that claims the axis
  \<open>action_authorization\<close> and grades actions by the default policy. Once the source is available again, the run
  permits and dispatches the next call whose evidence is bound to the grant, within its lease and allows the
  operation, if the grant has not been revoked: whatever calls failed before.\<close>

theorem recovers_after_outage:
  assumes "run_case k (past @ [Availability t True, Call_event ce]) = Inr (st, rs)"
    and "rc_mutant k = Correct" "rc_mode k = Live_standing_read"
    and "Action_authorization \<in> set (rc_claimed k)" "rc_policy k = DEFAULT_POLICY"
    and "select_evidence (rc_profile k) ce = Some e" "ev_grant e = grant (ce_call ce)"
    and "lease_within (rc_boundary k) (at_ms (ce_call ce)) (expires_at_ms e)"
    and "operation (ce_call ce) \<in> set (allowed_operations e)"
    and "\<forall>t'. Revoke t' (grant (ce_call ce)) \<notin> set past"
  shows "action_decision (r_answer (last (rs_records rs))) = Permit \<and> r_downstream_reached (last (rs_records rs))"
proof -
  let ?g = "grant (ce_call ce)"
  obtain r1 r2 where r1: "steps k (initial_run k) past = Inr r1" and r2: "step k r1 (Availability t True) = Inr r2"
    and r3: "step k r2 (Call_event ce) = Inr rs"
    using assms(1) by (auto simp: run_case_def steps_append)
  have "states (rs_source (initial_run k)) ?g = Some Active"
    using assms(6,7) by (rule selected_grant_active)
  then have "states (rs_source r1) ?g = Some Active"
    using steps_keep_grant [OF r1 assms(2,10)] by simp
  then have src: "states (rs_source r2) ?g = Some Active" "available (rs_source r2)"
    using r2 by (auto simp: step_def split: if_splits)
  have "step_call k (r2\<lparr>rs_last_ms := at_ms (ce_call ce)\<rparr>) ce = Inr rs" using r3 by (auto simp: step_def split: if_splits)
  then show ?thesis
  proof (rule step_callE)
    fix e' ans v' s2 down'
    assume c: "called k (r2\<lparr>rs_last_ms := at_ms (ce_call ce)\<rparr>) ce e' ans v' s2 down'"
      and rs: "rs = record_call k (r2\<lparr>rs_last_ms := at_ms (ce_call ce)\<rparr>) (end_call s2) (worker (ce_call ce)) v'
                 (graded_of k (r2\<lparr>rs_last_ms := at_ms (ce_call ce)\<rparr>) ce e' ans s2 down')"
    have e': "e' = e" using c assms(6) by (simp add: called_def)
    note vc = c [unfolded called_def e' assms(2), THEN conjunct2, THEN conjunct2, THEN conjunct1]
    have "action_decision ans = Permit"
      by (rule live_permit [OF vc]) (use assms src in \<open>simp_all add: decl_of_def\<close>)
    moreover have "call_id (ce_call ce) \<in> down'"
      using calculation vc by (auto elim!: verifier_call_correct)
    ultimately show ?thesis by (simp add: rs graded_of_def reached_def)
  qed
qed

theorem recovers_after_outage_witness:
  "\<exists>st rs. run_case (lra_config Live_standing_read Exclusive Correct)
       ([Availability 0 False, hd LRA_02] @ [Availability 0 True, hd LRA_02]) = Inr (st, rs) \<and>
     action_decision (r_answer (last (rs_records rs))) = Permit \<and> r_downstream_reached (last (rs_records rs))"
proof -
  obtain ce where ce: "hd LRA_02 = Call_event ce" "ce_call ce = \<lparr>call_id = ''LRA-02-r1'', at_ms = 0, worker = ''w1'', grant = ''g1'', operation = ''read''\<rparr>"
    "ce_evidence_id ce = None" by (auto simp: LRA_02_def)
  have "returns_records (lra_config Live_standing_read Exclusive Correct)
       ([Availability 0 False, hd LRA_02] @ [Availability 0 True, hd LRA_02]) 2"
    by code_simp
  then obtain st rs where run: "run_case (lra_config Live_standing_read Exclusive Correct)
       ([Availability 0 False, hd LRA_02] @ [Availability 0 True, hd LRA_02]) = Inr (st, rs)"
    by (rule returns_recordsE)
  have "action_decision (r_answer (last (rs_records rs))) = Permit \<and> r_downstream_reached (last (rs_records rs))"
    by (rule recovers_after_outage [OF run [unfolded ce(1)], of e1])
      (use ce in \<open>simp_all add: lra_config_def lra_profile_def select_evidence_def e1_def AXES_def lease_within_def\<close>)
  then show ?thesis using run by blast
qed

text \<open>The published vector LRA-02 is matched by the correct verifier under all four baseline
  profiles, and the defective variant that dispatches denied calls fails it.\<close>

theorem LRA_02_reproduced:
  "map (\<lambda>k. map_sum id fst (run_case k LRA_02))
     [lra_config Cached_lease Exclusive Correct, lra_config Cached_lease Inclusive Correct,
      lra_config Live_standing_read Exclusive Correct, lra_config Live_standing_read Inclusive Correct,
      lra_config Live_standing_read Exclusive Deny_but_dispatch]
   = [Inr Run_matched, Inr Run_matched, Inr Run_matched, Inr Run_matched, Inr Run_failed]"
  by code_simp

end
