(* ===== verification/Denial_Continuity.thy ===== *)
theory Denial_Continuity
  imports Prelude
begin

text \<open>
  The enforcement point of \<open>fixtures/runtime-authority-denial-continuity/verify.py\<close>: a ledger of
  denials keyed by effect and context (and by tool in the path-scoped negative control), a store of
  records, and the four requests of a timeline. A denied effect stays denied on every path until the
  exact denial is reauthorized, and a sequence of individually harmless writes may not compose into
  it. Methods take the enforcement point's state and return it with the outcome.
\<close>

section \<open>Data\<close>

record effect =
  resource :: string
  transition :: string
  domain :: string

type_synonym effect_id = "string \<times> string \<times> string"

definition effect_key :: "effect \<Rightarrow> effect_id" where
  "effect_key ef = (resource ef, transition ef, domain ef)"

datatype lkey = Canonical effect_id string | Path string effect_id string

definition canonical_key :: "effect \<Rightarrow> string \<Rightarrow> lkey" where
  "canonical_key ef ctx = Canonical (effect_key ef) ctx"

record denial =
  dn_effect :: effect
  dn_context :: string
  dn_ref :: string
  dn_resolved :: bool

record record_state =
  content :: string
  flags :: "(string \<times> bool) list"
  linked :: bool
  is_available :: bool

definition fresh_record :: record_state where
  "fresh_record = \<lparr>content = ''original content'', flags = [], linked = True, is_available = True\<rparr>"

type_synonym store = "string \<rightharpoonup> record_state"

definition store_get :: "store \<Rightarrow> string \<Rightarrow> record_state \<times> store" where
  "store_get st rid =
     (case st rid of
        None \<Rightarrow> (fresh_record, st(rid \<mapsto> fresh_record))
      | Some r \<Rightarrow> (r, st))"

definition store_set :: "store \<Rightarrow> string \<Rightarrow> record_state \<Rightarrow> store" where
  "store_set st rid r = st(rid \<mapsto> r)"

datatype rec_write = Set_content string | Set_flag string bool | Unlink_index | Unknown_write string

datatype py_error = ValueError string | IndexError

section \<open>Effects of writes\<close>

definition composed :: "record_state \<Rightarrow> bool" where
  "composed s = (content s = '''' \<and> map_of (flags s) ''quarantined'' = Some True \<and> \<not> linked s)"

definition unavailable_effect :: "string \<Rightarrow> effect" where
  "unavailable_effect rid = \<lparr>resource = ''record:'' @ rid, transition = ''unavailable'', domain = ''records''\<rparr>"

definition classify_composed_effect :: "string \<Rightarrow> record_state \<Rightarrow> effect option" where
  "classify_composed_effect rid s = (if composed s then Some (unavailable_effect rid) else None)"

fun apply_write :: "record_state \<Rightarrow> rec_write \<Rightarrow> py_error + record_state" where
  "apply_write s (Set_content c) = Inr (s\<lparr>content := c\<rparr>)"
| "apply_write s (Set_flag f v) = Inr (s\<lparr>flags := AList.update f v (flags s)\<rparr>)"
| "apply_write s Unlink_index = Inr (s\<lparr>linked := False\<rparr>)"
| "apply_write s (Unknown_write k) = Inl (ValueError k)"

fun atomic_identity :: "string \<Rightarrow> rec_write \<Rightarrow> py_error + effect" where
  "atomic_identity rid (Set_content c) =
     Inr \<lparr>resource = ''record:'' @ rid, transition = ''content_updated'', domain = ''records''\<rparr>"
| "atomic_identity rid (Set_flag f v) =
     Inr \<lparr>resource = ''record:'' @ rid, transition = ''flag_set:'' @ f, domain = ''records''\<rparr>"
| "atomic_identity rid Unlink_index =
     Inr \<lparr>resource = ''record:'' @ rid, transition = ''unlinked'', domain = ''records''\<rparr>"
| "atomic_identity rid (Unknown_write k) = Inl (ValueError k)"

section \<open>Policies and the enforcement point\<close>

record policy =
  pol_name :: string
  has_composed_effect_identification :: bool
  path_scoped :: bool

definition ledger_key :: "policy \<Rightarrow> string \<Rightarrow> effect \<Rightarrow> string \<Rightarrow> lkey" where
  "ledger_key pol tool ef ctx =
     (if path_scoped pol then Path tool (effect_key ef) ctx else canonical_key ef ctx)"

definition REFERENCE_GATE :: policy where
  "REFERENCE_GATE = \<lparr>pol_name = ''reference-gate'', has_composed_effect_identification = True, path_scoped = False\<rparr>"

definition FRESH_PATH_CONTROL :: policy where
  "FRESH_PATH_CONTROL = \<lparr>pol_name = ''fresh-path-control'', has_composed_effect_identification = True, path_scoped = True\<rparr>"

definition PER_WRITE_CONTROL :: policy where
  "PER_WRITE_CONTROL = \<lparr>pol_name = ''per-write-control'', has_composed_effect_identification = False, path_scoped = False\<rparr>"

record point =
  pt_store :: store
  ledger :: "(lkey \<times> denial) list"

definition new_point :: point where
  "new_point = \<lparr>pt_store = Map.empty, ledger = []\<rparr>"

type_synonym reply = "bool \<times> string"

abbreviation allow :: "string \<Rightarrow> reply" where "allow r \<equiv> (True, r)"
abbreviation deny_reply :: "string \<Rightarrow> reply" where "deny_reply r \<equiv> (False, r)"

definition deny :: "policy \<Rightarrow> point \<Rightarrow> string \<Rightarrow> string \<Rightarrow> effect \<Rightarrow> string \<Rightarrow> reply \<times> point" where
  "deny pol p request tool ef ctx =
     (deny_reply ''authority_denied'',
      p\<lparr>ledger := AList.update (ledger_key pol tool ef ctx)
          \<lparr>dn_effect = ef, dn_context = ctx, dn_ref = request, dn_resolved = False\<rparr> (ledger p)\<rparr>)"

text \<open>\<open>record is not None and not record.resolved\<close>\<close>

definition unresolved :: "denial option \<Rightarrow> bool" where
  "unresolved rec = (case rec of None \<Rightarrow> False | Some d \<Rightarrow> \<not> dn_resolved d)"

text \<open>\<open>effect["resource"].split(":", 1)[1]\<close>\<close>

fun after_colon :: "string \<Rightarrow> string option" where
  "after_colon [] = None"
| "after_colon (x # xs) = (if x = CHR '':'' then Some xs else after_colon xs)"

definition apply_direct_effect :: "store \<Rightarrow> effect \<Rightarrow> py_error + store" where
  "apply_direct_effect st ef =
     (if transition ef \<noteq> ''unavailable'' then Inr st
      else (case after_colon (resource ef) of
              None \<Rightarrow> Inl IndexError
            | Some rid \<Rightarrow>
                (let (r, st') = store_get st rid
                 in Inr (store_set st' rid (r\<lparr>content := '''', is_available := False\<rparr>)))))"

definition attempt :: "policy \<Rightarrow> point \<Rightarrow> string \<Rightarrow> effect \<Rightarrow> string \<Rightarrow> py_error + reply \<times> point" where
  "attempt pol p tool ef ctx =
     (let rec = map_of (ledger p) (ledger_key pol tool ef ctx) in
      if unresolved rec
      then Inr (deny_reply ''denied_effect_continuity'', p)
      else bind_sum (apply_direct_effect (pt_store p) ef) (\<lambda>st.
             Inr (if rec \<noteq> None then allow ''reauthorized'' else allow ''no_denial_on_effect'',
                  p\<lparr>pt_store := st\<rparr>)))"

definition candidate_denial :: "effect \<Rightarrow> string \<Rightarrow> denial \<Rightarrow> bool" where
  "candidate_denial ef ctx d =
     (\<not> dn_resolved d \<and> effect_key (dn_effect d) = effect_key ef \<and> dn_context d = ctx)"

fun resolve_first :: "(denial \<Rightarrow> bool) \<Rightarrow> (lkey \<times> denial) list \<Rightarrow> (lkey \<times> denial) list" where
  "resolve_first P [] = []"
| "resolve_first P ((k, d) # xs) =
     (if P d then (k, d\<lparr>dn_resolved := True\<rparr>) # xs else (k, d) # resolve_first P xs)"

definition reauthorize :: "point \<Rightarrow> effect \<Rightarrow> string \<Rightarrow> string option \<Rightarrow> reply \<times> point" where
  "reauthorize p ef ctx denial_ref =
     (let candidates = filter (candidate_denial ef ctx) (map snd (ledger p)) in
      case denial_ref of
        None \<Rightarrow>
          (if candidates = [] then (allow ''reauthorized'', p)
           else (deny_reply ''reauthorize_denial_ref_required'', p))
      | Some ref \<Rightarrow>
          (if find (\<lambda>d. dn_ref d = ref) candidates = None
           then (deny_reply ''reauthorize_denial_ref_not_found'', p)
           else (allow ''reauthorized'',
                 p\<lparr>ledger := resolve_first (\<lambda>d. candidate_denial ef ctx d \<and> dn_ref d = ref) (ledger p)\<rparr>)))"

definition decompose_write ::
  "policy \<Rightarrow> point \<Rightarrow> string \<Rightarrow> string \<Rightarrow> rec_write \<Rightarrow> string \<Rightarrow> py_error + reply \<times> point" where
  "decompose_write pol p tool rid w ctx =
     (let (before, st) = store_get (pt_store p) rid in
      bind_sum (apply_write before w) (\<lambda>after.
      bind_sum
        (case (if has_composed_effect_identification pol then classify_composed_effect rid after else None) of
           Some ef \<Rightarrow> Inr (ef, canonical_key ef ctx)
         | None \<Rightarrow> bind_sum (atomic_identity rid w) (\<lambda>ef. Inr (ef, ledger_key pol tool ef ctx)))
        (\<lambda>(ef, key).
           if unresolved (map_of (ledger p) key)
           then Inr (deny_reply (if transition ef = ''unavailable'' then ''composed_effect_denied_continuity''
                                 else ''denied_effect_continuity''),
                     p\<lparr>pt_store := st\<rparr>)
           else Inr (allow ''individually_permitted_write'', p\<lparr>pt_store := store_set st rid after\<rparr>))))"

section \<open>Timelines\<close>

datatype request =
    Deny_req string string effect string
  | Attempt_req string effect string
  | Reauthorize_req effect string "string option"
  | Write_req string string rec_write string
  | Unknown_req string

fun serve :: "policy \<Rightarrow> point \<Rightarrow> request \<Rightarrow> py_error + reply \<times> point" where
  "serve pol p (Deny_req request tool ef ctx) = Inr (deny pol p request tool ef ctx)"
| "serve pol p (Attempt_req tool ef ctx) = attempt pol p tool ef ctx"
| "serve pol p (Reauthorize_req ef ctx ref) = Inr (reauthorize p ef ctx ref)"
| "serve pol p (Write_req tool rid w ctx) = decompose_write pol p tool rid w ctx"
| "serve pol p (Unknown_req e) = Inl (ValueError e)"

record timeline_step =
  ts_request_id :: string
  ts_request :: request
  x_outcome :: bool
  x_reason :: "string option"
  x_requires :: "string option"
  x_absent_outcome :: "bool option"

datatype label = MATCH | MISMATCH | Not_identifiable

datatype dc_failure = Capability_absent string | Not_identifiable_failure string
  | Outcome_failure string | Reason_failure string | Final_state_failure string string

definition grade_step :: "policy \<Rightarrow> timeline_step \<Rightarrow> reply \<Rightarrow> dc_failure list \<times> label" where
  "grade_step pol ts obs =
     (let has = (case x_requires ts of
                   None \<Rightarrow> True
                 | Some c \<Rightarrow> c = ''composed_effect_identification'' \<and> has_composed_effect_identification pol) in
      if \<not> has then
        (let target = (case x_absent_outcome ts of None \<Rightarrow> x_outcome ts | Some t \<Rightarrow> t) in
         ((if fst obs \<noteq> target then [Capability_absent (ts_request_id ts)] else [])
          @ [Not_identifiable_failure (ts_request_id ts)], Not_identifiable))
      else
        (let outcome_ok = (fst obs = x_outcome ts);
             reason_ok = (case x_reason ts of None \<Rightarrow> True | Some r \<Rightarrow> snd obs = r) in
         ((if \<not> outcome_ok then [Outcome_failure (ts_request_id ts)] else [])
          @ (if \<not> reason_ok then [Reason_failure (ts_request_id ts)] else []),
          if outcome_ok \<and> reason_ok then MATCH else MISMATCH)))"

datatype field_check = F_content string | F_flags "(string \<times> bool) list" | F_linked bool | F_available bool

fun field_name :: "field_check \<Rightarrow> string" where
  "field_name (F_content _) = ''content''"
| "field_name (F_flags _) = ''flags''"
| "field_name (F_linked _) = ''linked''"
| "field_name (F_available _) = ''available''"

fun field_ok :: "record_state \<Rightarrow> field_check \<Rightarrow> bool" where
  "field_ok s (F_content c) = (content s = c)"
| "field_ok s (F_flags f) = (set (flags s) = set f)"
| "field_ok s (F_linked b) = (linked s = b)"
| "field_ok s (F_available b) = (is_available s = b)"

fun check_final :: "store \<Rightarrow> (string \<times> field_check list) list \<Rightarrow> dc_failure list" where
  "check_final st [] = []"
| "check_final st ((rid, fs) # rest) =
     (let (actual, st') = store_get st rid in
      map (\<lambda>f. Final_state_failure rid (field_name f)) (filter (\<lambda>f. \<not> field_ok actual f) fs)
      @ check_final st' rest)"

fun run_steps :: "policy \<Rightarrow> point \<Rightarrow> timeline_step list \<Rightarrow> py_error + point \<times> dc_failure list \<times> label list" where
  "run_steps pol p [] = Inr (p, [], [])"
| "run_steps pol p (ts # rest) =
     bind_sum (serve pol p (ts_request ts)) (\<lambda>(obs, p').
       let (f, l) = grade_step pol ts obs in
       bind_sum (run_steps pol p' rest) (\<lambda>(p'', fs, ls). Inr (p'', f @ fs, l # ls)))"

definition run_denial_case ::
  "policy \<Rightarrow> timeline_step list \<Rightarrow> (string \<times> field_check list) list \<Rightarrow> py_error + bool \<times> dc_failure list \<times> label list" where
  "run_denial_case pol timeline final_state =
     bind_sum (run_steps pol new_point timeline) (\<lambda>(p, fs, ls).
       let fs' = fs @ check_final (pt_store p) final_state in Inr (fs' = [], fs', ls))"

text \<open>The driver: the cases a policy is run against, and the three controls of \<open>main\<close>.
  A raise in any case ends the driver.\<close>

record denial_case =
  dc_id :: string
  dc_property :: string
  dc_timeline :: "timeline_step list"
  dc_final_state :: "(string \<times> field_check list) list"

fun policy_results :: "policy \<Rightarrow> string list \<Rightarrow> denial_case list \<Rightarrow> py_error + (string \<times> bool) list" where
  "policy_results pol properties [] = Inr []"
| "policy_results pol properties (c # cs) =
     (if dc_property c \<notin> set properties then policy_results pol properties cs
      else bind_sum (run_denial_case pol (dc_timeline c) (dc_final_state c)) (\<lambda>(ok, fs, ls).
             bind_sum (policy_results pol properties cs) (\<lambda>results. Inr ((dc_id c, ok) # results))))"

text \<open>\<open>results[case["id"]] = \<dots>\<close>: a later case of the same id overwrites the earlier one in its place.\<close>

definition run_policy :: "policy \<Rightarrow> string list \<Rightarrow> denial_case list \<Rightarrow> py_error + (string \<times> bool) list" where
  "run_policy pol properties cs =
     bind_sum (policy_results pol properties cs) (\<lambda>rs. Inr (fold (\<lambda>(i, ok). AList.update i ok) rs []))"

definition failed_ids :: "(string \<times> bool) list \<Rightarrow> string list" where
  "failed_ids results = map fst (filter (\<lambda>(i, ok). \<not> ok) results)"

definition check_negative_control :: "(string \<times> bool) list \<Rightarrow> string list \<Rightarrow> nat" where
  "check_negative_control results expected_fail_ids =
     (let observed = failed_ids results;
          undeclared = filter (\<lambda>i. i \<notin> set expected_fail_ids) observed;
          stopped_failing = filter (\<lambda>i. i \<notin> set observed) expected_fail_ids
      in (if undeclared \<noteq> [] then 1 else 0) + (if stopped_failing \<noteq> [] then 1 else 0))"

record policy_plan =
  runs_against :: "string list"
  expected_fail :: "string list"

definition denial_main :: "denial_case list \<Rightarrow> policy_plan \<Rightarrow> policy_plan \<Rightarrow> policy_plan \<Rightarrow> py_error + int" where
  "denial_main cs ref n1 n2 =
     bind_sum (run_policy REFERENCE_GATE (runs_against ref) cs) (\<lambda>r0.
     bind_sum (run_policy FRESH_PATH_CONTROL (runs_against n1) cs) (\<lambda>r1.
     bind_sum (run_policy PER_WRITE_CONTROL (runs_against n2) cs) (\<lambda>r2.
       let failed = (if failed_ids r0 \<noteq> [] then 1 else 0)
             + check_negative_control r1 (expected_fail n1) + check_negative_control r2 (expected_fail n2)
       in Inr (if failed > 0 then 1 else 0))))"

section \<open>The ledger\<close>

text \<open>Under a policy that is not path-scoped, an entry sits under its own effect and context.\<close>

definition wf_ledger :: "point \<Rightarrow> bool" where
  "wf_ledger p \<longleftrightarrow> (\<forall>(k, d) \<in> set (ledger p). k = canonical_key (dn_effect d) (dn_context d))"

definition blocked :: "point \<Rightarrow> effect \<Rightarrow> string \<Rightarrow> bool" where
  "blocked p ef ctx = unresolved (map_of (ledger p) (canonical_key ef ctx))"

lemma wf_new [simp]: "wf_ledger new_point"
  by (simp add: wf_ledger_def new_point_def)

lemma in_AList_update: "x \<in> set (AList.update k v xs) \<Longrightarrow> x = (k, v) \<or> x \<in> set xs"
  by (induction xs) (auto split: if_splits)

lemma wf_deny: "wf_ledger p \<Longrightarrow> \<not> path_scoped pol \<Longrightarrow> wf_ledger (snd (deny pol p req tool ef ctx))"
  by (fastforce simp: wf_ledger_def deny_def ledger_key_def canonical_key_def dest: in_AList_update)

lemma blocked_after_deny:
  "\<not> path_scoped pol \<Longrightarrow> blocked p ef ctx \<or> canonical_key ef ctx = canonical_key ef' ctx' \<Longrightarrow>
     blocked (snd (deny pol p req tool ef' ctx')) ef ctx"
  by (auto simp: blocked_def deny_def ledger_key_def AList.update_conv' unresolved_def)

lemma resolve_first_other:
  assumes "\<forall>(k, d) \<in> set l. k = canonical_key (dn_effect d) (dn_context d)"
    and "\<And>d. P d \<Longrightarrow> canonical_key (dn_effect d) (dn_context d) \<noteq> key"
  shows "map_of (resolve_first P l) key = map_of l key"
  using assms by (induction P l rule: resolve_first.induct) auto

lemma resolve_first_wf:
  "\<forall>(k, d) \<in> set l. k = canonical_key (dn_effect d) (dn_context d) \<Longrightarrow>
   \<forall>(k, d) \<in> set (resolve_first P l). k = canonical_key (dn_effect d) (dn_context d)"
  by (induction P l rule: resolve_first.induct) auto

lemma resolve_first_split:
  assumes "\<exists>d \<in> snd ` set l. P d"
  shows "\<exists>xs k d ys. l = xs @ (k, d) # ys \<and> P d \<and> (\<forall>(k', d') \<in> set xs. \<not> P d')
           \<and> resolve_first P l = xs @ (k, d\<lparr>dn_resolved := True\<rparr>) # ys"
  using assms
proof (induction P l rule: resolve_first.induct)
  case (2 P k d l)
  show ?case
  proof (cases "P d")
    case True
    then show ?thesis by (intro exI [of _ "[]"]) auto
  next
    case False
    with 2 obtain xs k' d' ys where *: "l = xs @ (k', d') # ys" "P d'" "\<forall>(k', d') \<in> set xs. \<not> P d'"
      "resolve_first P l = xs @ (k', d'\<lparr>dn_resolved := True\<rparr>) # ys" by auto
    show ?thesis
      by (intro exI [of _ "(k, d) # xs"] exI [of _ k'] exI [of _ d'] exI [of _ ys]) (use * False in auto)
  qed
qed simp

section \<open>Continuity\<close>

text \<open>Requests that do not present the denial of this effect and context for release.\<close>

fun no_release :: "effect \<Rightarrow> string \<Rightarrow> request \<Rightarrow> bool" where
  "no_release ef ctx (Reauthorize_req ef' ctx' (Some ref)) = (canonical_key ef' ctx' \<noteq> canonical_key ef ctx)"
| "no_release ef ctx _ = True"

fun stays_denied :: "effect \<Rightarrow> string \<Rightarrow> request \<Rightarrow> reply \<Rightarrow> bool" where
  "stays_denied ef ctx (Attempt_req tool ef' ctx') out =
     (canonical_key ef' ctx' = canonical_key ef ctx \<longrightarrow> out = deny_reply ''denied_effect_continuity'')"
| "stays_denied ef ctx _ out = True"

definition continuity_inv :: "effect \<Rightarrow> string \<Rightarrow> point \<Rightarrow> bool" where
  "continuity_inv ef ctx p \<longleftrightarrow> wf_ledger p \<and> blocked p ef ctx"

lemma continuity_inv_cong: "ledger p' = ledger p \<Longrightarrow> continuity_inv ef ctx p' = continuity_inv ef ctx p"
  by (simp add: continuity_inv_def wf_ledger_def blocked_def)

lemma reference_not_path_scoped [simp]: "\<not> path_scoped REFERENCE_GATE"
  "has_composed_effect_identification REFERENCE_GATE"
  by (simp_all add: REFERENCE_GATE_def)

lemma ledger_frame:
  "attempt pol p tool ef ctx = Inr (out, p') \<Longrightarrow> ledger p' = ledger p"
  "decompose_write pol p tool rid w ctx = Inr (out, p') \<Longrightarrow> ledger p' = ledger p"
  by (auto simp: attempt_def decompose_write_def Let_def split: prod.splits if_splits)

lemma reauthorize_keeps:
  assumes "continuity_inv ef ctx p" and "no_release ef ctx (Reauthorize_req ef' ctx' ref)"
  shows "continuity_inv ef ctx (snd (reauthorize p ef' ctx' ref))"
proof (cases ref)
  case None
  then show ?thesis using assms(1) by (simp add: reauthorize_def Let_def)
next
  case (Some r)
  let ?P = "\<lambda>d. candidate_denial ef' ctx' d \<and> dn_ref d = r"
  have wf: "\<forall>(k, d) \<in> set (ledger p). k = canonical_key (dn_effect d) (dn_context d)"
    using assms(1) by (simp add: continuity_inv_def wf_ledger_def)
  have "map_of (resolve_first ?P (ledger p)) (canonical_key ef ctx) = map_of (ledger p) (canonical_key ef ctx)"
    by (rule resolve_first_other [OF wf])
      (use Some assms(2) in \<open>auto simp: candidate_denial_def canonical_key_def\<close>)
  then have "continuity_inv ef ctx (p\<lparr>ledger := resolve_first ?P (ledger p)\<rparr>)"
    using assms(1) resolve_first_wf [OF wf] by (simp add: continuity_inv_def wf_ledger_def blocked_def)
  then show ?thesis using assms(1) Some by (simp add: reauthorize_def Let_def)
qed

lemma serve_continuity:
  assumes "continuity_inv ef ctx p" and "no_release ef ctx r" and "\<not> path_scoped pol"
    and "serve pol p r = Inr (out, p')"
  shows "continuity_inv ef ctx p'"
proof (cases r)
  case (Deny_req req tool ef' ctx')
  with assms show ?thesis
    using wf_deny [of p pol req tool ef' ctx'] blocked_after_deny [of pol p ef ctx]
    by (auto simp: continuity_inv_def simp del: split_paired_All dest!: arg_cong [of _ _ snd])
next
  case (Reauthorize_req ef' ctx' ref)
  with assms show ?thesis
    using reauthorize_keeps [of ef ctx p ef' ctx' ref] by (auto dest: arg_cong [of _ _ snd])
qed (use assms in \<open>auto dest!: ledger_frame dest: continuity_inv_cong [THEN iffD2]\<close>)

lemma serve_stays_denied:
  assumes "continuity_inv ef ctx p" and "\<not> path_scoped pol" and "serve pol p r = Inr (out, p')"
  shows "stays_denied ef ctx r out"
  using assms by (cases r) (auto simp: attempt_def continuity_inv_def blocked_def ledger_key_def Let_def)

interpretation continuity: guarded_machine "serve REFERENCE_GATE" "continuity_inv ef ctx"
    "no_release ef ctx" "stays_denied ef ctx" for ef ctx
proof unfold_locales
  fix s i out s'
  assume "continuity_inv ef ctx s" and "no_release ef ctx i" and "serve REFERENCE_GATE s i = Inr (out, s')"
  then show "continuity_inv ef ctx s'" and "stays_denied ef ctx i out"
    by (auto intro: serve_continuity [OF _ _ reference_not_path_scoped(1)]
        serve_stays_denied [OF _ reference_not_path_scoped(1)])
qed

section \<open>Composition\<close>

definition record_of :: "point \<Rightarrow> string \<Rightarrow> record_state" where
  "record_of p rid = fst (store_get (pt_store p) rid)"

text \<open>Requests that touch the record only inside the denied context.\<close>

fun inside :: "string \<Rightarrow> string \<Rightarrow> request \<Rightarrow> bool" where
  "inside rid ctx (Write_req tool rid' w ctx') = (rid' = rid \<longrightarrow> ctx' = ctx)"
| "inside rid ctx (Attempt_req tool ef ctx') =
     (transition ef = ''unavailable'' \<and> after_colon (resource ef) = Some rid \<longrightarrow>
        canonical_key ef ctx' = canonical_key (unavailable_effect rid) ctx)"
| "inside rid ctx r = no_release (unavailable_effect rid) ctx r"

definition not_composed_inv :: "string \<Rightarrow> string \<Rightarrow> point \<Rightarrow> bool" where
  "not_composed_inv rid ctx p \<longleftrightarrow>
     continuity_inv (unavailable_effect rid) ctx p \<and> \<not> composed (record_of p rid)"

lemma record_of_ledger [simp]: "record_of (p\<lparr>ledger := l\<rparr>) rid = record_of p rid"
  by (simp add: record_of_def)

lemma inside_no_release: "inside rid ctx r \<Longrightarrow> no_release (unavailable_effect rid) ctx r"
  by (cases r) auto

lemma fresh_not_composed [simp]: "\<not> composed fresh_record"
  by (simp add: composed_def fresh_record_def)

lemma record_of_get:
  "store_get (pt_store p) rid' = (b, st) \<Longrightarrow> record_of (p\<lparr>pt_store := st\<rparr>) rid = record_of p rid"
  by (auto simp: record_of_def store_get_def split: option.splits if_splits)

lemma record_of_set:
  "store_get (pt_store p) rid' = (b, st) \<Longrightarrow>
   record_of (p\<lparr>pt_store := store_set st rid' s\<rparr>) rid = (if rid = rid' then s else record_of p rid)"
  by (auto simp: record_of_def store_get_def store_set_def split: option.splits if_splits)

lemma write_not_composed:
  assumes "decompose_write REFERENCE_GATE p tool rid' w ctx' = Inr (out, p')"
    and "not_composed_inv rid ctx p" and "rid' = rid \<longrightarrow> ctx' = ctx"
  shows "\<not> composed (record_of p' rid)"
proof -
  obtain b st where g: "store_get (pt_store p) rid' = (b, st)" by (cases "store_get (pt_store p) rid'")
  obtain after where after: "apply_write b w = Inr after"
    using assms(1) g by (auto simp: decompose_write_def)
  have "p' = p\<lparr>pt_store := st\<rparr> \<or> (p' = p\<lparr>pt_store := store_set st rid' after\<rparr> \<and> \<not> (rid' = rid \<and> composed after))"
    using assms g after
    by (auto simp: decompose_write_def Let_def not_composed_inv_def continuity_inv_def blocked_def
        classify_composed_effect_def REFERENCE_GATE_def split: if_splits)
  then show ?thesis
    using assms(2) record_of_get [OF g] record_of_set [OF g]
    by (auto simp: not_composed_inv_def split: if_splits)
qed

lemma attempt_not_composed:
  assumes "attempt REFERENCE_GATE p tool ef ctx' = Inr (out, p')"
    and "not_composed_inv rid ctx p" and "inside rid ctx (Attempt_req tool ef ctx')"
  shows "\<not> composed (record_of p' rid)"
proof (cases "transition ef = ''unavailable'' \<and> after_colon (resource ef) = Some rid")
  case True
  then have "p' = p" using assms
    by (auto simp: attempt_def not_composed_inv_def continuity_inv_def blocked_def REFERENCE_GATE_def
        ledger_key_def Let_def)
  then show ?thesis using assms(2) by (simp add: not_composed_inv_def)
next
  case False
  then have "record_of p' rid = record_of p rid"
    using assms(1)
    by (auto simp: attempt_def apply_direct_effect_def Let_def record_of_def store_get_def store_set_def
        split: if_splits option.splits)
  then show ?thesis using assms(2) by (simp add: not_composed_inv_def)
qed

lemma serve_not_composed:
  assumes "not_composed_inv rid ctx p" and "inside rid ctx r" and "serve REFERENCE_GATE p r = Inr (out, p')"
  shows "not_composed_inv rid ctx p'"
proof -
  have "continuity_inv (unavailable_effect rid) ctx p'"
    using assms(1) by (intro continuity.keeps [OF _ inside_no_release [OF assms(2)] assms(3)])
      (simp add: not_composed_inv_def)
  moreover have "\<not> composed (record_of p' rid)"
  proof (cases r)
    case (Write_req tool rid' w ctx')
    with assms show ?thesis by (auto dest: write_not_composed)
  next
    case (Attempt_req tool ef ctx')
    with assms show ?thesis by (auto dest: attempt_not_composed)
  qed (use assms in \<open>auto simp: not_composed_inv_def deny_def reauthorize_def Let_def split: option.splits if_splits\<close>)
  ultimately show ?thesis by (simp add: not_composed_inv_def)
qed

interpretation composition: guarded_machine "serve REFERENCE_GATE" "not_composed_inv rid ctx"
    "inside rid ctx" "\<lambda>_ _. True" for rid ctx
  by unfold_locales (auto intro: serve_not_composed)

section \<open>Properties\<close>

lemma check_negative_control_zero:
  "check_negative_control results ids = 0 \<longleftrightarrow> set (failed_ids results) = set ids"
  by (auto simp: check_negative_control_def Let_def filter_empty_conv)

lemmas gate_unfold = attempt_def reauthorize_def deny_def new_point_def ledger_key_def canonical_key_def
  effect_key_def unresolved_def REFERENCE_GATE_def candidate_denial_def decompose_write_def store_get_def
  store_set_def classify_composed_effect_def composed_def fresh_record_def unavailable_effect_def
  record_of_def Let_def

text \<open>C1: denied-effect continuity of the reference gate. Once an effect has been denied in a context,
  every later attempt at that effect in that context is refused with the continuity reason, whatever
  tool it goes through and whatever other denials, attempts, writes and re-authorizations (of other
  effects or contexts) are interleaved; and the denial is still in force at the end.\<close>

theorem denied_effect_continuity:
  assumes "wf_ledger p" and "list_all (no_release ef ctx) rs"
    and "run_machine (serve REFERENCE_GATE) (snd (deny REFERENCE_GATE p req tool ef ctx)) rs = Inr (outs, p')"
  shows "list_all2 (stays_denied ef ctx) rs outs \<and> blocked p' ef ctx"
proof -
  have "continuity_inv ef ctx (snd (deny REFERENCE_GATE p req tool ef ctx))"
    using assms(1) by (simp add: continuity_inv_def wf_deny blocked_after_deny)
  then show ?thesis
    using continuity.run_answers [OF assms(3) _ assms(2)] continuity.run_keeps [OF assms(3) _ assms(2)]
    by (simp add: continuity_inv_def)
qed

theorem denied_effect_continuity_witness:
  "list_all2 (stays_denied (unavailable_effect ''42'') ''session-A'')
     [Attempt_req ''archive'' (unavailable_effect ''42'') ''session-A'',
      Reauthorize_req (unavailable_effect ''42'') ''session-B'' (Some ''r1'')]
     [deny_reply ''denied_effect_continuity'', deny_reply ''reauthorize_denial_ref_not_found'']"
proof -
  let ?p = "snd (deny REFERENCE_GATE new_point ''r1'' ''delete'' (unavailable_effect ''42'') ''session-A'')"
  have "run_machine (serve REFERENCE_GATE) ?p
     [Attempt_req ''archive'' (unavailable_effect ''42'') ''session-A'',
      Reauthorize_req (unavailable_effect ''42'') ''session-B'' (Some ''r1'')]
     = Inr ([deny_reply ''denied_effect_continuity'', deny_reply ''reauthorize_denial_ref_not_found''], ?p)"
    by (simp add: gate_unfold run_machine_Cons)
  then show ?thesis
    by (intro conjunct1 [OF denied_effect_continuity [OF wf_new]]) (auto simp: canonical_key_def)
qed

text \<open>C14: composition. When making a record unavailable has been denied in a context, no sequence of
  individually permitted writes made in that context brings the record into the composed state that
  amounts to the denied effect (emptied, quarantined and unlinked) under the reference gate.\<close>

theorem denied_effect_not_composed:
  assumes "wf_ledger p" and "\<not> composed (record_of p rid)" and "list_all (inside rid ctx) rs"
    and "run_machine (serve REFERENCE_GATE) (snd (deny REFERENCE_GATE p req tool (unavailable_effect rid) ctx)) rs
           = Inr (outs, p')"
  shows "\<not> composed (record_of p' rid)"
proof -
  have "not_composed_inv rid ctx (snd (deny REFERENCE_GATE p req tool (unavailable_effect rid) ctx))"
    using assms(1,2) wf_deny blocked_after_deny reference_not_path_scoped(1)
    by (auto simp: not_composed_inv_def continuity_inv_def deny_def)
  from composition.run_keeps [OF assms(4) this assms(3)] show ?thesis
    by (simp add: not_composed_inv_def)
qed

theorem denied_effect_not_composed_witness:
  "\<exists>outs p'. run_machine (serve REFERENCE_GATE)
        (snd (deny REFERENCE_GATE new_point ''r1'' ''delete'' (unavailable_effect ''42'') ''session-A''))
        [Write_req ''t1'' ''42'' (Set_content '''') ''session-A'',
         Write_req ''t2'' ''42'' (Set_flag ''quarantined'' True) ''session-A'',
         Write_req ''t3'' ''42'' Unlink_index ''session-A''] = Inr (outs, p') \<and> \<not> composed (record_of p' ''42'')"
    (is "\<exists>outs p'. ?run = _ \<and> _")
proof -
  obtain outs p' where run: "?run = Inr (outs, p')"
    by (simp add: gate_unfold run_machine_Cons)
  moreover have "\<not> composed (record_of new_point ''42'')" by (simp add: gate_unfold)
  ultimately show ?thesis
    using denied_effect_not_composed [OF wf_new _ _ run] by auto
qed

text \<open>Re-authorization is exact. It changes nothing but the resolved flag of one unresolved denial
  with the same effect identity, the same context and the cited reference; in every other case the
  enforcement point is left as it was.\<close>

theorem reauthorize_exact:
  assumes "reauthorize p ef ctx ref = (out, p')"
  shows "p' = p \<or> (\<exists>r xs k d ys. ref = Some r \<and> fst out \<and> ledger p = xs @ (k, d) # ys \<and>
            candidate_denial ef ctx d \<and> dn_ref d = r \<and>
            p' = p\<lparr>ledger := xs @ (k, d\<lparr>dn_resolved := True\<rparr>) # ys\<rparr>)"
proof (cases ref)
  case None
  then show ?thesis using assms by (auto simp: reauthorize_def Let_def split: if_splits)
next
  case (Some r)
  let ?P = "\<lambda>d. candidate_denial ef ctx d \<and> dn_ref d = r"
  show ?thesis
  proof (cases "\<exists>d \<in> snd ` set (ledger p). ?P d")
    case True
    from resolve_first_split [OF this] obtain xs k d ys where
      "ledger p = xs @ (k, d) # ys" "?P d" "resolve_first ?P (ledger p) = xs @ (k, d\<lparr>dn_resolved := True\<rparr>) # ys"
      by blast
    with Some assms show ?thesis
      by (auto simp: reauthorize_def Let_def find_None_iff split: if_splits)
  next
    case False
    with Some assms show ?thesis
      by (fastforce simp: reauthorize_def Let_def find_None_iff split: if_splits)
  qed
qed

theorem reauthorize_exact_witness:
  "\<exists>p p'. p' \<noteq> p \<and> reauthorize p (unavailable_effect ''42'') ''session-A'' (Some ''r1'') = (allow ''reauthorized'', p') \<and>
     (\<exists>xs k d ys. ledger p = xs @ (k, d) # ys \<and> dn_ref d = ''r1'')"
proof -
  let ?p = "snd (deny REFERENCE_GATE new_point ''r1'' ''delete'' (unavailable_effect ''42'') ''session-A'')"
  obtain p' where "reauthorize ?p (unavailable_effect ''42'') ''session-A'' (Some ''r1'')
      = (allow ''reauthorized'', p')" and "p' \<noteq> ?p"
    by (simp add: gate_unfold)
  with reauthorize_exact [OF this(1)] show ?thesis by blast
qed

text \<open>The fresh-path negative control really is flawed: with the tool in the ledger key, the same
  effect denied through one tool is allowed through any other.\<close>

theorem fresh_path_control_escapes:
  assumes "tool' \<noteq> tool" and "transition ef \<noteq> ''unavailable''"
  shows "attempt FRESH_PATH_CONTROL (snd (deny FRESH_PATH_CONTROL new_point req tool ef ctx)) tool' ef ctx
           = Inr (allow ''no_denial_on_effect'', snd (deny FRESH_PATH_CONTROL new_point req tool ef ctx))"
  using assms by (simp add: gate_unfold FRESH_PATH_CONTROL_def apply_direct_effect_def)

theorem fresh_path_control_escapes_witness:
  "attempt FRESH_PATH_CONTROL (snd (deny FRESH_PATH_CONTROL new_point ''r1'' ''a''
       \<lparr>resource = ''record:1'', transition = ''exported'', domain = ''records''\<rparr> ''s'')) ''b''
       \<lparr>resource = ''record:1'', transition = ''exported'', domain = ''records''\<rparr> ''s''
     = Inr (allow ''no_denial_on_effect'', snd (deny FRESH_PATH_CONTROL new_point ''r1'' ''a''
       \<lparr>resource = ''record:1'', transition = ''exported'', domain = ''records''\<rparr> ''s''))"
  by (rule fresh_path_control_escapes) simp_all

text \<open>The per-write negative control really is flawed: after the deletion of a record has been
  denied, three individually permitted writes in the same context leave it emptied, quarantined and
  unlinked; the reference gate refuses the last of the same three writes.\<close>

theorem per_write_control_composes:
  "(\<exists>p'. run_machine (serve PER_WRITE_CONTROL)
        (snd (deny PER_WRITE_CONTROL new_point req tool (unavailable_effect rid) ctx))
        [Write_req t1 rid (Set_content '''') ctx, Write_req t2 rid (Set_flag ''quarantined'' True) ctx,
         Write_req t3 rid Unlink_index ctx]
      = Inr (replicate 3 (allow ''individually_permitted_write''), p') \<and> composed (record_of p' rid)) \<and>
   (\<exists>p'. run_machine (serve REFERENCE_GATE)
        (snd (deny REFERENCE_GATE new_point req tool (unavailable_effect rid) ctx))
        [Write_req t1 rid (Set_content '''') ctx, Write_req t2 rid (Set_flag ''quarantined'' True) ctx,
         Write_req t3 rid Unlink_index ctx]
      = Inr ([allow ''individually_permitted_write'', allow ''individually_permitted_write'',
              deny_reply ''composed_effect_denied_continuity''], p'))"
  by (simp add: gate_unfold PER_WRITE_CONTROL_def run_machine_Cons numeral_3_eq_3)

text \<open>The driver exits 0 exactly when the reference gate matches every case it runs and each
  negative control fails its declared set and nothing else.\<close>

theorem denial_main_zero_iff:
  assumes "run_policy REFERENCE_GATE (runs_against ref) cs = Inr r0"
    and "run_policy FRESH_PATH_CONTROL (runs_against n1) cs = Inr r1"
    and "run_policy PER_WRITE_CONTROL (runs_against n2) cs = Inr r2"
  shows "denial_main cs ref n1 n2 = Inr 0 \<longleftrightarrow>
     (\<forall>(i, ok) \<in> set r0. ok) \<and> set (failed_ids r1) = set (expected_fail n1) \<and>
     set (failed_ids r2) = set (expected_fail n2)"
proof -
  have "failed_ids r0 = [] \<longleftrightarrow> (\<forall>(i, ok) \<in> set r0. ok)"
    by (auto simp: failed_ids_def filter_empty_conv)
  then show ?thesis
    using assms
    by (simp add: denial_main_def Let_def check_negative_control_zero [symmetric])
qed

text \<open>A timeline of the fixture's kind: an export denied through one tool and attempted through another.\<close>

definition other_tool_case :: denial_case where
  "other_tool_case = \<lparr>dc_id = ''A1'', dc_property = ''effect'', dc_timeline =
     [\<lparr>ts_request_id = ''r1'', ts_request = Deny_req ''r1'' ''mail''
          \<lparr>resource = ''record:1'', transition = ''exported'', domain = ''records''\<rparr> ''s'',
        x_outcome = False, x_reason = Some ''authority_denied'', x_requires = None, x_absent_outcome = None\<rparr>,
      \<lparr>ts_request_id = ''r2'', ts_request = Attempt_req ''ftp''
          \<lparr>resource = ''record:1'', transition = ''exported'', domain = ''records''\<rparr> ''s'',
        x_outcome = False, x_reason = Some ''denied_effect_continuity'', x_requires = None, x_absent_outcome = None\<rparr>],
     dc_final_state = []\<rparr>"

lemma other_tool_results:
  "run_policy REFERENCE_GATE [''effect''] [other_tool_case] = Inr [(''A1'', True)]"
  "run_policy FRESH_PATH_CONTROL [''effect''] [other_tool_case] = Inr [(''A1'', False)]"
  "run_policy PER_WRITE_CONTROL [''effect''] [other_tool_case] = Inr [(''A1'', True)]"
  by (simp_all add: gate_unfold other_tool_case_def FRESH_PATH_CONTROL_def PER_WRITE_CONTROL_def
      run_policy_def run_denial_case_def grade_step_def apply_direct_effect_def)

theorem denial_main_zero_iff_witness:
  "denial_main [other_tool_case] \<lparr>runs_against = [''effect''], expected_fail = []\<rparr>
     \<lparr>runs_against = [''effect''], expected_fail = [''A1'']\<rparr>
     \<lparr>runs_against = [''effect''], expected_fail = []\<rparr> = Inr 0"
  by (subst denial_main_zero_iff [of _ _ "[(''A1'', True)]" _ "[(''A1'', False)]" _ "[(''A1'', True)]"])
    (simp_all add: failed_ids_def other_tool_results)

end
