(* ===== verification/Calendar.thy ===== *)
theory Calendar
  imports Prelude
begin

text \<open>
  Timestamps. \<open>interop/sharif-aat-03/adapter/py/rfc3339.py\<close> (the ODIS adapter carries the same
  file) computes an ordering key with its own day arithmetic;
  \<open>fixtures/teardown-accounting/verify.py\<close> computes an instant through the standard
  library's \<open>datetime\<close>, whose proleptic Gregorian ordinal is modelled here as the library
  documents it. The two regular expressions differ in case sensitivity only; both are
  deterministic, so a match is a left-to-right scan. The theory ends with the order of the keys, the
  order of decimal fractions, and the agreement of the two implementations.
\<close>

section \<open>Digits\<close>

definition is_digit :: "char \<Rightarrow> bool" where
  "is_digit c = (CHR ''0'' \<le> c \<and> c \<le> CHR ''9'')"

definition digit :: "char \<Rightarrow> int" where
  "digit c = of_char c - 48"

text \<open>\<open>int(s)\<close> on a string of ASCII digits\<close>

definition int_of :: "string \<Rightarrow> int" where
  "int_of s = foldl (\<lambda>n c. 10 * n + digit c) 0 s"

text \<open>\<open>[0-9]{n}\<close>, one character of a class, and \<open>[0-9]+\<close> (maximal, as nothing after it
  starts with a digit)\<close>

fun digits_n :: "nat \<Rightarrow> string \<Rightarrow> (string \<times> string) option" where
  "digits_n 0 s = Some ([], s)"
| "digits_n (Suc n) [] = None"
| "digits_n (Suc n) (c # s) =
     (if is_digit c then map_option (\<lambda>(ds, r). (c # ds, r)) (digits_n n s) else None)"

fun one_of :: "string \<Rightarrow> string \<Rightarrow> (char \<times> string) option" where
  "one_of cs [] = None"
| "one_of cs (c # s) = (if c \<in> set cs then Some (c, s) else None)"

definition secfrac :: "string \<Rightarrow> (string \<times> string) option" where
  "secfrac s =
     (case one_of ''.'' s of
        None \<Rightarrow> Some ([], s)
      | Some (_, r) \<Rightarrow> (let ds = takeWhile is_digit r
                      in if ds = [] then None else Some (ds, dropWhile is_digit r)))"

datatype offset = Zulu | Num char string string

record date_time =
  year_s :: string
  month_s :: string
  day_s :: string
  hour_s :: string
  minute_s :: string
  second_s :: string
  frac_s :: string
  zone :: offset

definition zone_of :: "string \<Rightarrow> string \<Rightarrow> offset option" where
  "zone_of zs s =
     (case one_of zs s of
        Some (_, r) \<Rightarrow> if r = [] then Some Zulu else None
      | None \<Rightarrow>
          Option.bind (one_of ''+-'' s) (\<lambda>(sg, s).
          Option.bind (digits_n 2 s) (\<lambda>(oh, s).
          Option.bind (one_of '':'' s) (\<lambda>(_, s).
          Option.bind (digits_n 2 s) (\<lambda>(om, s).
            if s = [] then Some (Num sg oh om) else None)))))"

text \<open>\<open>fullmatch\<close> of the date-time expression: \<open>ts\<close> the letters accepted between date and
  time, \<open>zs\<close> those accepted for UTC. A missing fraction and an empty one are told apart by
  neither client (\<open>frac or ''\<close>).\<close>

definition match_date_time :: "string \<Rightarrow> string \<Rightarrow> string \<Rightarrow> date_time option" where
  "match_date_time ts zs s =
     Option.bind (digits_n 4 s) (\<lambda>(y, s).
     Option.bind (one_of ''-'' s) (\<lambda>(_, s).
     Option.bind (digits_n 2 s) (\<lambda>(mo, s).
     Option.bind (one_of ''-'' s) (\<lambda>(_, s).
     Option.bind (digits_n 2 s) (\<lambda>(d, s).
     Option.bind (one_of ts s) (\<lambda>(_, s).
     Option.bind (digits_n 2 s) (\<lambda>(h, s).
     Option.bind (one_of '':'' s) (\<lambda>(_, s).
     Option.bind (digits_n 2 s) (\<lambda>(mi, s).
     Option.bind (one_of '':'' s) (\<lambda>(_, s).
     Option.bind (digits_n 2 s) (\<lambda>(sec, s).
     Option.bind (secfrac s) (\<lambda>(f, s).
     Option.bind (zone_of zs s) (\<lambda>z.
       Some \<lparr>year_s = y, month_s = mo, day_s = d, hour_s = h, minute_s = mi, second_s = sec,
             frac_s = f, zone = z\<rparr>)))))))))))))"

text \<open>\<open>s.rstrip("0")\<close> and \<open>s.ljust(width, "0")\<close>\<close>

definition rstrip0 :: "string \<Rightarrow> string" where
  "rstrip0 s = rev (dropWhile (\<lambda>c. c = CHR ''0'') (rev s))"

definition ljust0 :: "nat \<Rightarrow> string \<Rightarrow> string" where
  "ljust0 w s = s @ replicate (w - length s) CHR ''0''"

section \<open>The RFC 3339 parser\<close>

definition leap_year :: "int \<Rightarrow> bool" where
  "leap_year y \<longleftrightarrow> (y mod 4 = 0 \<and> y mod 100 \<noteq> 0) \<or> y mod 400 = 0"

definition days_in_month :: "int \<Rightarrow> int \<Rightarrow> int" where
  "days_in_month y m =
     (if m \<in> {1, 3, 5, 7, 8, 10, 12} then 31
      else if m \<in> {4, 6, 9, 11} then 30
      else if leap_year y then 29 else 28)"

definition days_from_civil :: "int \<Rightarrow> int \<Rightarrow> int \<Rightarrow> int" where
  "days_from_civil y m d =
     (let y2 = y - (if m \<le> 2 then 1 else 0);
          era = y2 div 400;
          yoe = y2 - era * 400;
          mp = (m + 9) mod 12;
          doy = (153 * mp + 2) div 5 + d - 1;
          doe = yoe * 365 + yoe div 4 - yoe div 100 + doy;
          days = era * 146097 + doe
      in days + 306)"

type_synonym key = "int \<times> int \<times> string"

definition offset_seconds :: "char \<Rightarrow> int \<Rightarrow> int \<Rightarrow> int" where
  "offset_seconds sg oh om = (oh * 3600 + om * 60) * (if sg = CHR ''-'' then -1 else 1)"

definition key_of :: "date_time \<Rightarrow> key option" where
  "key_of t =
     (let y = int_of (year_s t); mo = int_of (month_s t); d = int_of (day_s t);
          h = int_of (hour_s t); mi = int_of (minute_s t); sec = int_of (second_s t) in
      if \<not> (1 \<le> mo \<and> mo \<le> 12 \<and> 1 \<le> d \<and> d \<le> days_in_month y mo) then None
      else if \<not> (0 \<le> h \<and> h \<le> 23 \<and> 0 \<le> mi \<and> mi \<le> 59 \<and> 0 \<le> sec \<and> sec \<le> 60) then None
      else Option.bind
        (case zone t of
           Zulu \<Rightarrow> Some 0
         | Num sg oh om \<Rightarrow>
             (let oh = int_of oh; om = int_of om in
              if \<not> (0 \<le> oh \<and> oh \<le> 23 \<and> 0 \<le> om \<and> om \<le> 59) then None
              else Some (offset_seconds sg oh om)))
        (\<lambda>off.
          let leap = (if sec = 60 then 1 else 0);
              local = days_from_civil y mo d * 86400 + h * 3600 + mi * 60 + (if leap \<noteq> 0 then 59 else sec)
          in Some (local - off, leap, rstrip0 (frac_s t))))"

definition parse_rfc3339 :: "pyval \<Rightarrow> key option" where
  "parse_rfc3339 v = (case v of JStr s \<Rightarrow> Option.bind (match_date_time ''Tt'' ''Zz'' s) key_of | _ \<Rightarrow> None)"

section \<open>Instants through \<open>datetime\<close>\<close>

text \<open>The proleptic Gregorian ordinal of \<open>datetime.date\<close>: 0001-01-01 has ordinal 1.\<close>

definition days_before_year :: "int \<Rightarrow> int" where
  "days_before_year y = (let y = y - 1 in y * 365 + y div 4 - y div 100 + y div 400)"

definition days_before_month :: "int \<Rightarrow> int \<Rightarrow> int" where
  "days_before_month y m =
     (if m = 1 then 0 else if m = 2 then 31 else if m = 3 then 59 else if m = 4 then 90
      else if m = 5 then 120 else if m = 6 then 151 else if m = 7 then 181 else if m = 8 then 212
      else if m = 9 then 243 else if m = 10 then 273 else if m = 11 then 304 else 334)
     + (if m > 2 \<and> leap_year y then 1 else 0)"

definition toordinal :: "int \<Rightarrow> int \<Rightarrow> int \<Rightarrow> int" where
  "toordinal y m d = days_before_year y + days_before_month y m + d"

text \<open>\<open>datetime.strptime(...)\<close> on digits the expression has matched: it raises outside these
  ranges, which \<open>instant\<close> answers with None. The value is the distance to \<open>EPOCH\<close> in seconds.\<close>

definition strptime :: "int \<Rightarrow> int \<Rightarrow> int \<Rightarrow> int \<Rightarrow> int \<Rightarrow> int \<Rightarrow> int option" where
  "strptime y mo d h mi s =
     (if 1 \<le> y \<and> y \<le> 9999 \<and> 1 \<le> mo \<and> mo \<le> 12 \<and> 1 \<le> d \<and> d \<le> days_in_month y mo
         \<and> 0 \<le> h \<and> h \<le> 23 \<and> 0 \<le> mi \<and> mi \<le> 59 \<and> 0 \<le> s \<and> s \<le> 59
      then Some ((toordinal y mo d - toordinal 1970 1 1) * 86400 + h * 3600 + mi * 60 + s)
      else None)"

definition instant_of :: "date_time \<Rightarrow> (int \<times> string) option" where
  "instant_of t =
     Option.bind (strptime (int_of (year_s t)) (int_of (month_s t)) (int_of (day_s t))
                    (int_of (hour_s t)) (int_of (minute_s t)) (int_of (second_s t))) (\<lambda>secs.
     Option.bind
       (case zone t of
          Zulu \<Rightarrow> Some 0
        | Num sg oh om \<Rightarrow>
            (let oh = int_of oh; om = int_of om in
             if oh > 23 \<or> om > 59 then None
             else Some ((oh * 60 + om) * 60 * (if sg = CHR ''+'' then 1 else -1)))) (\<lambda>shift.
       Some (secs - shift, rstrip0 (frac_s t))))"

definition instant :: "pyval \<Rightarrow> (int \<times> string) option" where
  "instant v = (case v of JStr s \<Rightarrow> Option.bind (match_date_time ''T'' ''Z'' s) instant_of | _ \<Rightarrow> None)"

text \<open>\<open>_cmp\<close> on two validated instants\<close>

definition cmp_instant :: "int \<times> string \<Rightarrow> int \<times> string \<Rightarrow> int" where
  "cmp_instant a b =
     (if fst a \<noteq> fst b then (if fst a < fst b then -1 else 1)
      else (let width = max (length (snd a)) (length (snd b));
                fa = ljust0 width (snd a); fb = ljust0 width (snd b)
            in if fa = fb then 0 else if fa < fb then -1 else 1))"

section \<open>Day arithmetic\<close>

lemma div_pred:
  fixes y k :: int
  assumes "k > 0"
  shows "y div k = (y - 1) div k + (if y mod k = 0 then 1 else 0)"
proof -
  define q r where "q = y div k" and "r = y mod k"
  have y: "y = k * q + r" and r: "0 \<le> r" "r < k" using assms by (simp_all add: q_def r_def)
  show ?thesis
  proof (cases "r = 0")
    case True
    have "(y - 1) div k = q - 1" using y True assms
      by (intro int_div_pos_eq [where r = "k - 1"]) (simp_all add: algebra_simps)
    then show ?thesis using True by (simp add: q_def r_def)
  next
    case False
    have "(y - 1) div k = q" using y r False assms
      by (intro int_div_pos_eq [where r = "r - 1"]) (simp_all add: algebra_simps)
    then show ?thesis using False by (simp add: q_def r_def)
  qed
qed

lemma mod_factor_zero: "(y :: int) mod (b * c) = 0 \<Longrightarrow> y mod b = 0"
  by (metis dvd_imp_mod_0 dvd_mult_left mod_0_imp_dvd)

definition leaps :: "int \<Rightarrow> int" where
  "leaps y = y div 4 - y div 100 + y div 400"

lemma leap_arith:
  assumes "a = a' + (if p then 1 else 0)" and "b = b' + (if q then 1 else 0)"
    and "c = c' + (if r then 1 else (0 :: int))" and "q \<Longrightarrow> p" and "r \<Longrightarrow> q"
  shows "a - b + c = a' - b' + c' + (if (p \<and> \<not> q) \<or> r then 1 else 0)"
  using assms by auto

lemma leaps_step: "leaps y = leaps (y - 1) + (if leap_year y then 1 else 0)"
  unfolding leaps_def leap_year_def
proof (rule leap_arith)
  show "y mod 100 = 0 \<Longrightarrow> y mod 4 = 0" and "y mod 400 = 0 \<Longrightarrow> y mod 100 = 0"
    using mod_factor_zero [of y 4 25] mod_factor_zero [of y 100 4] by simp_all
qed (rule div_pred; simp)+

lemma era_days:
  "(y div 400) * 146097 + ((y - y div 400 * 400) * 365 + (y - y div 400 * 400) div 4
     - (y - y div 400 * 400) div 100 + k) = y * 365 + leaps y + k"
proof -
  define q r where "q = y div 400" and "r = y - y div 400 * 400"
  have y: "y = q * 400 + r" by (simp add: q_def r_def)
  have q: "y div 400 = q" by (simp add: q_def)
  have "y div 4 = q * 100 + r div 4" "y div 100 = q * 4 + r div 100" unfolding y by simp_all
  then show ?thesis using y unfolding leaps_def q r_def [unfolded q, symmetric] by simp
qed

lemma days_before_year_leaps: "days_before_year y = (y - 1) * 365 + leaps (y - 1)"
  by (simp add: days_before_year_def leaps_def Let_def)

lemma month_cases:
  assumes "1 \<le> m" and "m \<le> (12 :: int)"
  obtains "m = 1" | "m = 2" | "m = 3" | "m = 4" | "m = 5" | "m = 6" | "m = 7" | "m = 8" | "m = 9"
    | "m = 10" | "m = 11" | "m = 12"
proof -
  have "m = 1 \<or> m = 2 \<or> m = 3 \<or> m = 4 \<or> m = 5 \<or> m = 6 \<or> m = 7 \<or> m = 8 \<or> m = 9 \<or> m = 10 \<or> m = 11 \<or> m = 12"
    using assms by presburger
  then show thesis using that by blast
qed

lemma days_from_civil_leaps:
  "days_from_civil y m d =
     (let y2 = y - (if m \<le> 2 then 1 else 0)
      in y2 * 365 + leaps y2 + ((153 * ((m + 9) mod 12) + 2) div 5 + d - 1) + 306)"
  unfolding days_from_civil_def Let_def era_days ..

lemma days_from_civil_toordinal:
  assumes "1 \<le> m" and "m \<le> 12"
  shows "days_from_civil y m d = toordinal y m d + 611"
  using assms
  by (cases rule: month_cases)
    (simp_all add: days_from_civil_leaps toordinal_def days_before_year_leaps days_before_month_def Let_def
      leaps_step [of y])

definition valid_date :: "int \<Rightarrow> int \<Rightarrow> int \<Rightarrow> bool" where
  "valid_date y m d \<longleftrightarrow> 1 \<le> m \<and> m \<le> 12 \<and> 1 \<le> d \<and> d \<le> days_in_month y m"

definition year_start :: "int \<Rightarrow> int" where
  "year_start y = days_before_year y + 612"

lemma year_start_Suc: "year_start (y + 1) = year_start y + 365 + (if leap_year y then 1 else 0)"
  by (simp add: year_start_def days_before_year_leaps leaps_step [of y])

lemma year_start_mono: "y \<le> y' \<Longrightarrow> year_start y \<le> year_start y'"
  by (induction y' rule: int_ge_induct) (simp_all add: year_start_Suc)

lemma month_end:
  assumes "1 \<le> m" and "m \<le> 12"
  shows "days_before_month y m + days_in_month y m =
     (if m = 12 then 365 + (if leap_year y then 1 else 0) else days_before_month y (m + 1))"
  using assms by (cases rule: month_cases) (simp_all add: days_before_month_def days_in_month_def)

lemma days_before_month_mono:
  assumes "m \<le> m'" and "1 \<le> m" and "m' \<le> 12"
  shows "days_before_month y m \<le> days_before_month y m'"
  using assms
proof (induction m' rule: int_ge_induct)
  case (step i)
  then have "days_before_month y i + days_in_month y i = days_before_month y (i + 1)"
    using month_end [of i y] by simp
  moreover have "0 \<le> days_in_month y i" by (simp add: days_in_month_def)
  ultimately show ?case using step by simp
qed simp

lemma valid_date_in_year:
  assumes "valid_date y m d"
  shows "year_start y \<le> days_from_civil y m d" and "days_from_civil y m d < year_start (y + 1)"
proof -
  have m: "1 \<le> m" "m \<le> 12" "1 \<le> d" "d \<le> days_in_month y m"
    using assms by (simp_all add: valid_date_def)
  have eq: "days_from_civil y m d = year_start y - 1 + days_before_month y m + d"
    using days_from_civil_toordinal [OF m(1,2)] by (simp add: toordinal_def year_start_def)
  have "0 \<le> days_before_month y m" by (simp add: days_before_month_def)
  then show "year_start y \<le> days_from_civil y m d" using eq m by linarith
  have "days_before_month y m + days_in_month y m \<le> 365 + (if leap_year y then 1 else 0)"
  proof (cases "m = 12")
    case False
    with m have "days_before_month y (m + 1) \<le> days_before_month y 12"
      by (intro days_before_month_mono) auto
    then show ?thesis using month_end [OF m(1,2)] False by (simp add: days_before_month_def split: if_splits)
  qed (use month_end [OF m(1,2)] in simp)
  then show "days_from_civil y m d < year_start (y + 1)" using eq m year_start_Suc [of y] by linarith
qed

lemma days_from_civil_mono:
  assumes "valid_date y m d" and "valid_date y' m' d'" and "(y, m, d) < (y', m', d')"
  shows "days_from_civil y m d < days_from_civil y' m' d'"
proof -
  consider "y < y'" | "y = y'" "m < m'" | "y = y'" "m = m'" "d < d'"
    using assms(3) by (fastforce simp: order.order_iff_strict)
  then show ?thesis
  proof cases
    case 1
    then show ?thesis
      using valid_date_in_year [OF assms(1)] valid_date_in_year [OF assms(2)] year_start_mono [of "y + 1" y']
      by linarith
  next
    case 2
    have "days_before_month y m + d \<le> days_before_month y (m + 1)"
      using month_end [of m y] assms 2 by (auto simp: valid_date_def)
    also have "\<dots> \<le> days_before_month y m'"
      using 2 assms by (intro days_before_month_mono) (auto simp: valid_date_def)
    finally show ?thesis
      using 2 assms by (auto simp: valid_date_def days_from_civil_toordinal toordinal_def)
  next
    case 3
    then show ?thesis using assms by (auto simp: valid_date_def days_from_civil_toordinal toordinal_def)
  qed
qed

section \<open>Decimal fractions\<close>

definition frac_value :: "string \<Rightarrow> rat" where
  "frac_value s = foldr (\<lambda>c v. (of_int (digit c) + v) / 10) s 0"

lemma frac_value_simps [simp]:
  "frac_value [] = 0" "frac_value (c # s) = (of_int (digit c) + frac_value s) / 10"
  by (simp_all add: frac_value_def)

lemma digit_less: "x < y \<longleftrightarrow> digit x < digit y"
proof -
  have "digit z = int (of_char z) - 48" for z by (simp only: digit_def of_nat_of_char)
  then show ?thesis by (simp add: less_char_def)
qed

lemma digit_bounds: "is_digit c \<Longrightarrow> 0 \<le> digit c \<and> digit c \<le> 9"
  unfolding is_digit_def using digit_less [of c "CHR ''0''"] digit_less [of "CHR ''9''" c]
  by (auto simp: not_less [symmetric] digit_def)

lemma frac_value_bounds: "list_all is_digit s \<Longrightarrow> 0 \<le> frac_value s \<and> frac_value s < 1"
proof (induction s)
  case (Cons c s)
  then have "0 \<le> digit c" "digit c \<le> 9" using digit_bounds by auto
  then have "0 \<le> (of_int (digit c) :: rat)" "(of_int (digit c) :: rat) \<le> of_int 9"
    by (simp_all only: of_int_0_le_iff of_int_le_iff)
  then show ?case using Cons by simp
qed simp

lemma frac_value_pos:
  "list_all is_digit s \<Longrightarrow> s \<noteq> [] \<Longrightarrow> last s \<noteq> CHR ''0'' \<Longrightarrow> 0 < frac_value s"
proof (induction s)
  case (Cons c s)
  have c: "0 \<le> (of_int (digit c) :: rat)" using Cons.prems digit_bounds by auto
  show ?case
  proof (cases s)
    case Nil
    then have "\<not> c < CHR ''0''" "c \<noteq> CHR ''0''" using Cons.prems by (auto simp: is_digit_def)
    then have "digit (CHR ''0'') < digit c" by (simp flip: digit_less)
    then show ?thesis using Nil by (simp add: digit_def)
  next
    case (Cons a s')
    then have "0 < frac_value s" using Cons.IH Cons.prems by simp
    then show ?thesis using c by (simp only: frac_value_simps) (simp add: add_nonneg_pos)
  qed
qed simp

lemma frac_head:
  assumes "digit x < digit y" and "list_all is_digit a" and "list_all is_digit b"
  shows "frac_value (x # a) < frac_value (y # b)"
proof -
  have "(of_int (digit x) :: rat) + 1 \<le> of_int (digit y)" using assms(1) by (metis of_int_1 of_int_add of_int_le_iff zless_imp_add1_zle)
  then show ?thesis using frac_value_bounds [OF assms(2)] frac_value_bounds [OF assms(3)] by simp
qed

definition no_trailing0 :: "string \<Rightarrow> bool" where
  "no_trailing0 s \<longleftrightarrow> s = [] \<or> last s \<noteq> CHR ''0''"

lemma no_trailing0_rstrip0 [simp]: "no_trailing0 (rstrip0 s)"
proof -
  have "dropWhile P xs = [] \<or> \<not> P (hd (dropWhile P xs))" for P and xs :: string
    by (induction xs) auto
  from this [of "\<lambda>c. c = CHR ''0''" "rev s"] show ?thesis
    by (auto simp: no_trailing0_def rstrip0_def last_rev)
qed

lemma digits_rstrip0: "list_all is_digit s \<Longrightarrow> list_all is_digit (rstrip0 s)"
  by (auto simp: rstrip0_def list_all_iff dest: set_dropWhileD)

lemma frac_less_stripped:
  "a < b \<Longrightarrow> list_all is_digit a \<Longrightarrow> list_all is_digit b \<Longrightarrow> no_trailing0 b \<Longrightarrow> frac_value a < frac_value b"
proof (induction b arbitrary: a)
  case (Cons y b)
  show ?case
  proof (cases a)
    case Nil
    then show ?thesis using Cons.prems frac_value_pos [of "y # b"] by (auto simp: no_trailing0_def)
  next
    case (Cons x a')
    show ?thesis
    proof (cases "x = y")
      case True
      then have "a' < b" and "no_trailing0 b"
        using Cons.prems \<open>a = _\<close> by (auto simp: no_trailing0_def split: if_splits)
      then show ?thesis using Cons.IH [of a'] Cons.prems \<open>a = _\<close> True by simp
    next
      case False
      then have "digit x < digit y" using Cons.prems \<open>a = _\<close> by (simp add: digit_less [symmetric])
      then show ?thesis using frac_head Cons.prems \<open>a = _\<close> by simp
    qed
  qed
qed simp

lemma frac_less_stripped_iff:
  assumes "list_all is_digit a" "list_all is_digit b" "no_trailing0 a" "no_trailing0 b"
  shows "a < b \<longleftrightarrow> frac_value a < frac_value b"
  using frac_less_stripped [of a b] frac_less_stripped [of b a] assms
  by (metis less_irrefl less_trans linorder_neqE)

lemma frac_less_same_length:
  "length a = length b \<Longrightarrow> list_all is_digit a \<Longrightarrow> list_all is_digit b \<Longrightarrow> a < b \<longleftrightarrow> frac_value a < frac_value b"
proof (induction a b rule: list_induct2)
  case (Cons x a y b)
  consider "x = y" | "digit x < digit y" | "digit y < digit x"
    by (metis digit_less linorder_neqE)
  then show ?case
  proof cases
    case 2
    then show ?thesis using frac_head [of x y a b] Cons.prems by (simp add: digit_less)
  next
    case 3
    then show ?thesis using frac_head [of y x b a] Cons.prems by (auto simp: digit_less)
  qed (use Cons in simp)
qed simp

lemma frac_value_ljust0 [simp]: "frac_value (ljust0 w s) = frac_value s"
proof -
  have "frac_value (replicate n CHR ''0'') = 0" for n by (induction n) (simp_all add: digit_def)
  then have "frac_value (s @ replicate n CHR ''0'') = frac_value s" for n by (induction s) simp_all
  then show ?thesis by (simp add: ljust0_def)
qed

lemma is_digit_0: "is_digit (CHR ''0'')"
  by code_simp

lemma digits_ljust0: "list_all is_digit s \<Longrightarrow> list_all is_digit (ljust0 w s)"
  using is_digit_0 by (auto simp: ljust0_def list_all_iff)

lemma length_ljust0: "length s \<le> w \<Longrightarrow> length (ljust0 w s) = w"
  by (simp add: ljust0_def)

text \<open>The exact time a pair of seconds and fraction digits denotes.\<close>

definition exact :: "int \<times> string \<Rightarrow> rat" where
  "exact t = of_int (fst t) + frac_value (snd t)"

lemma exact_less:
  assumes "list_all is_digit f" and "list_all is_digit g"
  shows "exact (s, f) < exact (t, g) \<longleftrightarrow> s < t \<or> s = t \<and> frac_value f < frac_value g"
proof -
  have b: "0 \<le> frac_value f" "frac_value f < 1" "0 \<le> frac_value g" "frac_value g < 1"
    using assms frac_value_bounds by auto
  consider "s < t" | "s = t" | "t < s" by linarith
  then show ?thesis
  proof cases
    case 1
    then have "(of_int s :: rat) + 1 \<le> of_int t" by (metis of_int_1 of_int_add of_int_le_iff zless_imp_add1_zle)
    then show ?thesis using b 1 by (simp add: exact_def)
  next
    case 3
    then have "(of_int t :: rat) + 1 \<le> of_int s" by (metis of_int_1 of_int_add of_int_le_iff zless_imp_add1_zle)
    then show ?thesis using b 3 by (simp add: exact_def)
  qed (simp add: exact_def)
qed

section \<open>What a match guarantees\<close>

lemma digits_n_Some: "digits_n n s = Some (ds, r) \<Longrightarrow> s = ds @ r \<and> length ds = n \<and> list_all is_digit ds"
  by (induction n s arbitrary: ds r rule: digits_n.induct) (auto split: if_splits)

lemma one_of_Some: "one_of cs s = Some (c, r) \<longleftrightarrow> s = c # r \<and> c \<in> set cs"
  by (cases s) auto

lemma secfrac_digits: "secfrac s = Some (f, r) \<Longrightarrow> list_all is_digit f"
  by (auto simp: secfrac_def Let_def list_all_iff dest: set_takeWhileD split: option.splits if_splits)

lemma zone_sign: "zone_of zs s = Some (Num sg oh om) \<Longrightarrow>
    sg \<in> {CHR ''+'', CHR ''-''} \<and> list_all is_digit oh \<and> list_all is_digit om"
  by (auto simp: zone_of_def bind_eq_Some_conv one_of_Some dest!: digits_n_Some split: option.splits if_splits)

lemma zone_mono:
  assumes "zone_of zs s = Some z" and "set zs \<subseteq> set zs'" and "CHR ''+'' \<notin> set zs'" and "CHR ''-'' \<notin> set zs'"
  shows "zone_of zs' s = Some z"
  using assms
  by (cases s) (auto simp: zone_of_def bind_eq_Some_conv one_of_Some split: option.splits if_splits)

lemma match_facts:
  assumes "match_date_time ts zs s = Some t"
  shows "list_all is_digit (frac_s t) \<and> list_all is_digit (year_s t) \<and>
    (\<forall>sg oh om. zone t = Num sg oh om \<longrightarrow> sg \<in> {CHR ''+'', CHR ''-''} \<and> list_all is_digit oh \<and> list_all is_digit om)"
  using assms
  by (auto simp: match_date_time_def bind_eq_Some_conv
      dest: secfrac_digits zone_sign digits_n_Some)

lemma bind_mono:
  assumes "Option.bind m f = Some y" and "\<And>x. m = Some x \<Longrightarrow> m' = Some x"
    and "\<And>x. f x = Some y \<Longrightarrow> g x = Some y"
  shows "Option.bind m' g = Some y"
  using assms by (cases m) auto

lemma match_mono:
  assumes "match_date_time ''T'' ''Z'' s = Some t"
  shows "match_date_time ''Tt'' ''Zz'' s = Some t"
proof -
  have z: "zone_of ''Zz'' r = Some z" if "zone_of ''Z'' r = Some z" for r z
    using zone_mono [OF that, of "''Zz''"] by simp
  have t: "one_of ''Tt'' r = Some x" if "one_of ''T'' r = Some x" for r x
    using that by (cases x) (simp add: one_of_Some)
  show ?thesis
    using assms unfolding match_date_time_def case_prod_beta
    by (elim bind_mono) (assumption | erule z t)+
qed

lemma int_of_nonneg: "list_all is_digit s \<Longrightarrow> 0 \<le> int_of s"
proof -
  have "list_all is_digit s \<Longrightarrow> 0 \<le> n \<Longrightarrow> 0 \<le> foldl (\<lambda>n c. 10 * n + digit c) n s" for n
    by (induction s arbitrary: n) (simp_all add: digit_bounds)
  then show "list_all is_digit s \<Longrightarrow> 0 \<le> int_of s" by (simp add: int_of_def)
qed

section \<open>Properties\<close>

lemma key_digits:
  assumes "parse_rfc3339 v = Some (s, l, f)"
  shows "list_all is_digit f" and "no_trailing0 f"
proof -
  obtain str t where "v = JStr str" "match_date_time ''Tt'' ''Zz'' str = Some t" "key_of t = Some (s, l, f)"
    using assms by (auto simp: parse_rfc3339_def bind_eq_Some_conv split: json.splits)
  moreover from this have "f = rstrip0 (frac_s t)"
    by (auto simp: key_of_def Let_def bind_eq_Some_conv split: if_splits)
  ultimately show "list_all is_digit f" and "no_trailing0 f"
    using match_facts [of "''Tt''" "''Zz''" str t] digits_rstrip0 [of "frac_s t"] by simp_all
qed

lemma instant_digits:
  assumes "instant v = Some (s, f)"
  shows "list_all is_digit f"
proof -
  obtain str t where "v = JStr str" "match_date_time ''T'' ''Z'' str = Some t" "instant_of t = Some (s, f)"
    using assms by (auto simp: instant_def bind_eq_Some_conv split: json.splits)
  moreover from this have "f = rstrip0 (frac_s t)" by (auto simp: instant_of_def bind_eq_Some_conv)
  ultimately show ?thesis
    using match_facts [of "''T''" "''Z''" str t] digits_rstrip0 [of "frac_s t"] by simp
qed

lemma toordinal_epoch: "toordinal 1970 1 1 = 719163"
  by (simp add: toordinal_def days_before_year_def days_before_month_def)

lemma instant_of_key_of:
  assumes "instant_of t = Some (s, f)"
    and "\<And>sg oh om. zone t = Num sg oh om \<Longrightarrow>
           sg \<in> {CHR ''+'', CHR ''-''} \<and> list_all is_digit oh \<and> list_all is_digit om"
  shows "key_of t = Some (s + 719774 * 86400, 0, f)"
proof -
  obtain secs where secs: "strptime (int_of (year_s t)) (int_of (month_s t)) (int_of (day_s t))
      (int_of (hour_s t)) (int_of (minute_s t)) (int_of (second_s t)) = Some secs"
    using assms(1) by (auto simp: instant_of_def bind_eq_Some_conv)
  show ?thesis
  proof (cases "zone t")
    case Zulu
    then show ?thesis using assms(1) secs
      by (auto simp: instant_of_def key_of_def strptime_def Let_def days_from_civil_toordinal toordinal_epoch
          split: if_splits)
  next
    case (Num sg oh om)
    then have "sg = CHR ''+'' \<or> sg = CHR ''-''" "0 \<le> int_of oh" "0 \<le> int_of om"
      using assms(2) int_of_nonneg by auto
    then show ?thesis using assms(1) secs Num
      by (auto simp: instant_of_def key_of_def strptime_def Let_def days_from_civil_toordinal toordinal_epoch
          offset_seconds_def split: if_splits)
  qed
qed

text \<open>The two timestamp implementations agree. Whatever the \<open>datetime\<close>-based
  \<open>instant\<close> of the teardown runner accepts, the integer arithmetic of \<open>parse_rfc3339\<close>
  accepts too, with the same fraction, no leap flag, and a number of seconds that differs by a
  constant.\<close>

theorem instant_agrees_rfc3339:
  assumes "instant v = Some (s, f)"
  shows "parse_rfc3339 v = Some (s + 719774 * 86400, 0, f)"
proof -
  obtain str t where *: "v = JStr str" "match_date_time ''T'' ''Z'' str = Some t" "instant_of t = Some (s, f)"
    using assms by (auto simp: instant_def bind_eq_Some_conv split: json.splits)
  have "key_of t = Some (s + 719774 * 86400, 0, f)"
    using match_facts [OF *(2)] by (intro instant_of_key_of [OF *(3)]) blast
  then show ?thesis using * match_mono [OF *(2)] by (simp add: parse_rfc3339_def)
qed

theorem instant_agrees_rfc3339_witness:
  "parse_rfc3339 (JStr ''2026-02-28T23:59:59.50+01:30'') = Some (1772317799 + 719774 * 86400, 0, ''5'')"
  by (rule instant_agrees_rfc3339) code_simp

text \<open>On UTC timestamps the ordering key is calendar order: two accepted date-times compare as
  their fields do, year first and fraction last, leap seconds included.\<close>

theorem rfc3339_key_order:
  assumes "key_of t = Some k" and "key_of u = Some l" and "zone t = Zulu" and "zone u = Zulu"
  shows "k < l \<longleftrightarrow>
     (int_of (year_s t), int_of (month_s t), int_of (day_s t), int_of (hour_s t), int_of (minute_s t),
      int_of (second_s t), rstrip0 (frac_s t))
     < (int_of (year_s u), int_of (month_s u), int_of (day_s u), int_of (hour_s u), int_of (minute_s u),
        int_of (second_s u), rstrip0 (frac_s u))"
proof -
  define D where "D = (\<lambda>t :: date_time. (int_of (year_s t), int_of (month_s t), int_of (day_s t)))"
  define N where "N = (\<lambda>t :: date_time. days_from_civil (int_of (year_s t)) (int_of (month_s t)) (int_of (day_s t)))"
  define sec where "sec = (\<lambda>t :: date_time. int_of (hour_s t) * 3600 + int_of (minute_s t) * 60
      + (if int_of (second_s t) = 60 then 59 else int_of (second_s t)))"
  have ok: "valid_date (int_of (year_s w)) (int_of (month_s w)) (int_of (day_s w))
        \<and> 0 \<le> int_of (hour_s w) \<and> int_of (hour_s w) \<le> 23 \<and> 0 \<le> int_of (minute_s w) \<and> int_of (minute_s w) \<le> 59
        \<and> 0 \<le> int_of (second_s w) \<and> int_of (second_s w) \<le> 60"
      and key: "j = (N w * 86400 + sec w, if int_of (second_s w) = 60 then 1 else 0, rstrip0 (frac_s w))"
    if "key_of w = Some j" and "zone w = Zulu" for w j
    using that by (auto simp: key_of_def Let_def valid_date_def N_def sec_def split: if_splits)
  have range: "0 \<le> sec w \<and> sec w < 86400" if "key_of w = Some j" and "zone w = Zulu" for w j
    using ok [OF that] by (auto simp: sec_def)
  note t = ok [OF assms(1,3)] key [OF assms(1,3)] range [OF assms(1,3)]
  note u = ok [OF assms(2,4)] key [OF assms(2,4)] range [OF assms(2,4)]
  consider "D t < D u" | "D t = D u" | "D u < D t" by fastforce
  then show ?thesis
  proof cases
    case 1
    then have "N t < N u" using t u by (auto simp: D_def N_def intro!: days_from_civil_mono simp del: less_prod_simp)
    then show ?thesis using 1 t u by (auto simp: D_def)
  next
    case 2
    then have "N t = N u" by (simp add: D_def N_def)
    then show ?thesis using 2 t(1) u(1) unfolding t(2) u(2) by (auto simp: D_def sec_def)
  next
    case 3
    then have "N u < N t" using t u by (auto simp: D_def N_def intro!: days_from_civil_mono simp del: less_prod_simp)
    then show ?thesis using 3 t u by (auto simp: D_def)
  qed
qed

definition utc_time :: "string \<Rightarrow> string \<Rightarrow> string \<Rightarrow> date_time" where
  "utc_time h s f = \<lparr>year_s = ''2016'', month_s = ''12'', day_s = ''31'', hour_s = h, minute_s = ''59'',
     second_s = s, frac_s = f, zone = Zulu\<rparr>"

theorem rfc3339_key_order_witness:
  "\<exists>k l. key_of (utc_time ''23'' ''59'' ''999'') = Some k \<and> key_of (utc_time ''23'' ''60'' ''0'') = Some l \<and> k < l"
proof -
  obtain k l where *: "key_of (utc_time ''23'' ''59'' ''999'') = Some k" "key_of (utc_time ''23'' ''60'' ''0'') = Some l"
    by (simp add: key_of_def utc_time_def int_of_def digit_def days_in_month_def Let_def)
  from rfc3339_key_order [OF *] have "k < l" by (simp add: utc_time_def int_of_def digit_def)
  with * show ?thesis by blast
qed

text \<open>Keys without a leap second order as the exact times they denote: comparing the stripped
  fraction digits as strings is comparing the fractions as numbers, at any precision.\<close>

theorem rfc3339_keys_are_exact:
  assumes "parse_rfc3339 v = Some (s, 0, f)" and "parse_rfc3339 w = Some (r, 0, g)"
  shows "(s, 0 :: int, f) < (r, 0, g) \<longleftrightarrow> exact (s, f) < exact (r, g)"
  using exact_less [of f g s r] frac_less_stripped_iff [of f g] key_digits [OF assms(1)] key_digits [OF assms(2)]
  by auto

theorem rfc3339_keys_are_exact_witness:
  "exact (55325, ''5'') < exact (55325, ''51'')"
proof -
  have p: "parse_rfc3339 (JStr ''2026-01-01T15:22:05.500Z'') = Some (63955754525, 0, ''5'')"
    "parse_rfc3339 (JStr ''2026-01-01T16:22:05.51+01:00'') = Some (63955754525, 0, ''51'')" by code_simp+
  have "(63955754525 :: int, 0 :: int, ''5'') < (63955754525, 0, ''51'')" by code_simp
  then show ?thesis using rfc3339_keys_are_exact [OF p] by (simp add: exact_def)
qed

lemma cmp_instant_pair:
  assumes "list_all is_digit f" and "list_all is_digit g"
  shows "(cmp_instant (s, f) (t, g) < 0 \<longleftrightarrow> exact (s, f) < exact (t, g)) \<and>
     (cmp_instant (s, f) (t, g) \<le> 0 \<longleftrightarrow> exact (s, f) \<le> exact (t, g))"
proof -
  define n where "n = max (length f) (length g)"
  have len: "length (ljust0 n f) = n" "length (ljust0 n g) = n" by (simp_all add: n_def length_ljust0)
  have lt: "ljust0 n f < ljust0 n g \<longleftrightarrow> frac_value f < frac_value g"
    and gt: "ljust0 n g < ljust0 n f \<longleftrightarrow> frac_value g < frac_value f"
    using frac_less_same_length [of "ljust0 n f" "ljust0 n g"] frac_less_same_length [of "ljust0 n g" "ljust0 n f"]
      len assms by (simp_all add: digits_ljust0)
  have "(ljust0 n f = ljust0 n g) \<longleftrightarrow> frac_value f = frac_value g" using lt gt by (metis less_irrefl linorder_neqE)
  then show ?thesis
    using lt gt exact_less [OF assms, of s t] exact_less [OF assms(2,1), of t s]
    by (auto simp: cmp_instant_def Let_def n_def [symmetric] not_less [symmetric])
qed

lemma cmp_instant_less: "instant v = Some a \<Longrightarrow> instant w = Some b \<Longrightarrow> cmp_instant a b < 0 \<longleftrightarrow> exact a < exact b"
  using cmp_instant_pair [of "snd a" "snd b" "fst a" "fst b"] instant_digits [of v "fst a" "snd a"]
    instant_digits [of w "fst b" "snd b"] by simp

lemma cmp_instant_le: "instant v = Some a \<Longrightarrow> instant w = Some b \<Longrightarrow> cmp_instant a b \<le> 0 \<longleftrightarrow> exact a \<le> exact b"
  using cmp_instant_pair [of "snd a" "snd b" "fst a" "fst b"] instant_digits [of v "fst a" "snd a"]
    instant_digits [of w "fst b" "snd b"] by simp

text \<open>The comparison of the teardown runner, which pads the fractions to one width and compares
  them as strings, is the comparison of the exact times.\<close>

theorem cmp_instant_exact:
  assumes "instant v = Some a" and "instant w = Some b"
  shows "(cmp_instant a b < 0 \<longleftrightarrow> exact a < exact b) \<and> (cmp_instant a b \<le> 0 \<longleftrightarrow> exact a \<le> exact b)"
  using cmp_instant_less [OF assms] cmp_instant_le [OF assms] by simp

theorem cmp_instant_exact_witness:
  "exact (1767280925, ''5'') < exact (1767280925, ''51'')"
proof -
  have p: "instant (JStr ''2026-01-01T15:22:05.500Z'') = Some (1767280925, ''5'')"
    "instant (JStr ''2026-01-01T16:22:05.51+01:00'') = Some (1767280925, ''51'')" by code_simp+
  have "cmp_instant (1767280925, ''5'') (1767280925, ''51'') < 0" by code_simp
  then show ?thesis using cmp_instant_exact [OF p] by simp
qed

text \<open>The day number is a faithful calendar: within a valid date range later dates have larger
  numbers and the day after the last of a month is the next one; its origin, however, is not the
  0000-01-01 the module's comment names, whose number is 246.\<close>

theorem days_from_civil_calendar:
  "(valid_date y m d \<and> valid_date y' m' d' \<longrightarrow>
      (days_from_civil y m d < days_from_civil y' m' d' \<longleftrightarrow> (y, m, d) < (y', m', d'))) \<and>
   days_from_civil y m (d + 1) = days_from_civil y m d + 1 \<and>
   (1 \<le> m \<and> m < 12 \<longrightarrow> days_from_civil y (m + 1) 1 = days_from_civil y m (days_in_month y m) + 1) \<and>
   days_from_civil (y + 1) 1 1 = days_from_civil y 12 31 + 1 \<and> days_from_civil 0 1 1 = 246"
proof (intro conjI impI)
  assume v: "valid_date y m d \<and> valid_date y' m' d'"
  have "(y, m, d) < (y', m', d') \<or> (y, m, d) = (y', m', d') \<or> (y', m', d') < (y, m, d)" by fastforce
  then show "days_from_civil y m d < days_from_civil y' m' d' \<longleftrightarrow> (y, m, d) < (y', m', d')"
    using v days_from_civil_mono [of y m d y' m' d'] days_from_civil_mono [of y' m' d' y m d]
    by (elim disjE) (auto simp del: less_prod_simp)
next
  show "days_from_civil y m (d + 1) = days_from_civil y m d + 1" by (simp add: days_from_civil_leaps Let_def)
next
  assume "1 \<le> m \<and> m < 12"
  then show "days_from_civil y (m + 1) 1 = days_from_civil y m (days_in_month y m) + 1"
    using month_end [of m y] by (simp add: days_from_civil_toordinal toordinal_def)
next
  show "days_from_civil (y + 1) 1 1 = days_from_civil y 12 31 + 1"
    by (simp add: days_from_civil_toordinal toordinal_def days_before_year_leaps leaps_step [of y] days_before_month_def)
next
  show "days_from_civil 0 1 1 = 246" by (simp add: days_from_civil_def)
qed

theorem days_from_civil_calendar_witness:
  "days_from_civil 2024 2 29 < days_from_civil 2024 3 1"
  using days_from_civil_calendar [of 2024 2 29 2024 3 1] by (simp add: valid_date_def days_in_month_def leap_year_def)

end
