(* ===== verification/Teardown.thy ===== *)
theory Teardown
  imports Calendar
begin

text \<open>
  \<open>fixtures/teardown-accounting/verify.py\<close>: a case input is validated against a schema table,
  which yields the set of JSON pointers that are wrong, and a valid input is judged by an ordered
  list of rules evaluated lazily. A negative control skips the cutoff-ordering rules. Item access,
  instants and hashing may raise in Python; every such raise is an \<open>Inl\<close> of the model, and one of the
  results is that a validated input never raises.
\<close>

section \<open>Schema and validation\<close>

datatype schema =
    S_id
  | S_instant
  | S_bool
  | S_int int
  | S_list schema
  | S_obj "(string \<times> schema) list"
  | S_map schema
  | S_nullable schema

definition SCHEMA :: schema where
  "SCHEMA = S_obj
     [(''stipulations'', S_list S_id),
      (''scope'', S_obj [(''declared_sinks'', S_list S_id), (''epoch'', S_id), (''boundary'', S_id)]),
      (''sink_configurations'', S_map (S_obj [(''epoch'', S_id), (''accepts_only_through'', S_id), (''digest'', S_id)])),
      (''runtime_bindings'', S_map (S_obj [(''config_digest'', S_id), (''from'', S_instant), (''to'', S_instant)])),
      (''admissions'', S_list (S_obj [(''seq'', S_int 1), (''descendant_id'', S_id)])),
      (''cutoff'', S_obj [(''at'', S_instant), (''committed_final_seq'', S_int 0), (''committed_members'', S_list S_id)]),
      (''cutoff_ordering_evidence'', S_nullable (S_obj [(''attestor'', S_id), (''covers_from'', S_instant), (''covers_to'', S_instant)])),
      (''stop_admitting'', S_obj [(''boundary'', S_id), (''epoch'', S_id), (''admits_epoch'', S_bool), (''asserted_by'', S_id), (''observed_at'', S_instant)]),
      (''teardown'', S_obj [(''processed'', S_list S_id)])]"

definition ptr :: "string \<Rightarrow> string \<Rightarrow> string" where
  "ptr base token = base @ ''/'' @ replace_char CHR ''/'' ''~1'' (replace_char CHR ''~'' ''~0'' token)"

definition MAX_SAFE :: int where
  "MAX_SAFE = 2 ^ 53 - 1"

definition is_integer :: "pyval \<Rightarrow> bool" where
  "is_integer v =
     (case v of
        JInt i \<Rightarrow> \<bar>i\<bar> \<le> MAX_SAFE
      | JFloat r \<Rightarrow> of_int \<lfloor>r\<rfloor> = r \<and> \<bar>r\<bar> \<le> of_int MAX_SAFE
      | _ \<Rightarrow> False)"

text \<open>The number a JSON value is to Python's comparisons\<close>

definition py_num :: "pyval \<Rightarrow> rat option" where
  "py_num v = (case v of JInt i \<Rightarrow> Some (of_int i) | JFloat r \<Rightarrow> Some r
                | JBool b \<Rightarrow> Some (if b then 1 else 0) | _ \<Rightarrow> None)"

fun walk :: "schema \<Rightarrow> pyval \<Rightarrow> string \<Rightarrow> string list" where
  "walk S_id v path = (if nonempty_str v then [] else [path])"
| "walk S_instant v path = (if instant v = None then [path] else [])"
| "walk S_bool v path = (if is_bool v then [] else [path])"
| "walk (S_int lo) v path = (if \<not> is_integer v \<or> the (py_num v) < of_int lo then [path] else [])"
| "walk (S_list sch) v path =
     (if \<not> is_list v then [path]
      else concat (map (\<lambda>(k, item). walk sch item (ptr path (str_nat k))) (enumerate_from 0 (elements v))))"
| "walk (S_obj ms) v path =
     (if \<not> is_dict v then [path]
      else concat (map (\<lambda>(name, sch). case map_of (members v) name of
                          None \<Rightarrow> [ptr path name] | Some x \<Rightarrow> walk sch x (ptr path name)) ms)
        @ map (ptr path) (filter (\<lambda>name. name \<notin> set (map fst ms)) (map fst (members v))))"
| "walk (S_map sch) v path =
     (if \<not> is_dict v then [path]
      else concat (map (\<lambda>(key, entry). if key \<noteq> [] then walk sch entry (ptr path key) else [ptr path key]) (members v)))"
| "walk (S_nullable sch) v path = (if v \<noteq> JNull then walk sch v path else [])"

definition STIPULATIONS :: "string list" where
  "STIPULATIONS =
     [''sink configurations and runtime bindings are authentic'',
      ''admission sequence is append only'',
      ''distinct attestor identifiers denote distinct parties'']"

text \<open>Positions of identifiers that occurred before; other entries are passed over.\<close>

fun repeats :: "string list \<Rightarrow> (nat \<times> pyval) list \<Rightarrow> nat list" where
  "repeats seen [] = []"
| "repeats seen ((k, v) # rest) =
     (if \<not> nonempty_str v then repeats seen rest
      else if str_of v \<in> set seen then k # repeats seen rest
      else repeats (str_of v # seen) rest)"

definition validate_paths :: "pyval \<Rightarrow> string list" where
  "validate_paths inp =
     walk SCHEMA inp '''' @
     (if \<not> is_dict inp then [] else
        (let stip = get inp ''stipulations'' in
         if is_list stip \<and> \<not> list_all (\<lambda>s. JStr s \<in> set (elements stip)) STIPULATIONS
         then [''/stipulations''] else [])
        @ (let sinks = get (get inp ''scope'') ''declared_sinks'' in
           if is_dict (get inp ''scope'') \<and> is_list sinks then
             (if elements sinks = [] then [''/scope/declared_sinks''] else [])
             @ map (\<lambda>k. ''/scope/declared_sinks/'' @ str_nat k) (repeats [] (enumerate_from 0 (elements sinks)))
           else [])
        @ (let adm = get inp ''admissions'' in
           if is_list adm then
             map (\<lambda>k. ''/admissions/'' @ str_nat k @ ''/descendant_id'')
               (repeats [] (enumerate_from 0 (map (\<lambda>a. get a ''descendant_id'') (elements adm))))
           else []))"

definition validate :: "pyval \<Rightarrow> string list" where
  "validate inp = sort (remdups (validate_paths inp))"

section \<open>Rules\<close>

datatype te_error = KeyError string | TypeError | ValueError

text \<open>\<open>d[k]\<close>\<close>

definition item :: "pyval \<Rightarrow> string \<Rightarrow> te_error + pyval" where
  "item d k = (case d of
     JObj m \<Rightarrow> (case map_of m k of None \<Rightarrow> Inl (KeyError k) | Some v \<Rightarrow> Inr v)
   | _ \<Rightarrow> Inl TypeError)"

definition instant_key :: "pyval \<Rightarrow> te_error + int \<times> string" where
  "instant_key v = (case instant v of None \<Rightarrow> Inl ValueError | Some t \<Rightarrow> Inr t)"

definition before_or_at :: "pyval \<Rightarrow> pyval \<Rightarrow> te_error + bool" where
  "before_or_at a b =
     bind_sum (instant_key a) (\<lambda>ta. bind_sum (instant_key b) (\<lambda>tb. Inr (cmp_instant ta tb \<le> 0)))"

definition strictly_before :: "pyval \<Rightarrow> pyval \<Rightarrow> te_error + bool" where
  "strictly_before a b =
     bind_sum (instant_key a) (\<lambda>ta. bind_sum (instant_key b) (\<lambda>tb. Inr (cmp_instant ta tb < 0)))"

text \<open>\<open>a[k] != b[l]\<close> and \<open>not (x)\<close>\<close>

definition differ :: "pyval \<Rightarrow> string \<Rightarrow> pyval \<Rightarrow> string \<Rightarrow> te_error + bool" where
  "differ a k b l = bind_sum (item a k) (\<lambda>x. bind_sum (item b l) (\<lambda>y. Inr (x \<noteq> y)))"

definition negate :: "te_error + bool \<Rightarrow> te_error + bool" where
  "negate x = bind_sum x (\<lambda>b. Inr (\<not> b))"

text \<open>\<open>before_or_at(d[f], cutoff) and before_or_at(cutoff, d[t])\<close>\<close>

definition span_covers :: "pyval \<Rightarrow> string \<Rightarrow> string \<Rightarrow> pyval \<Rightarrow> te_error + bool" where
  "span_covers d f t cutoff =
     and_also (bind_sum (item d f) (\<lambda>x. before_or_at x cutoff)) (bind_sum (item d t) (\<lambda>x. before_or_at cutoff x))"

type_synonym rule = "(te_error + bool) \<times> string \<times> string"

definition sink_rules :: "pyval \<Rightarrow> pyval \<Rightarrow> pyval \<Rightarrow> pyval \<Rightarrow> pyval \<Rightarrow> rule list" where
  "sink_rules scope confs binds cutoff sink =
     (let conf = get confs (str_of sink); bnd = get binds (str_of sink) in
      [(or_else (Inr (conf = JNull))
         (or_else (differ conf ''epoch'' scope ''epoch'')
                  (differ conf ''accepts_only_through'' scope ''boundary'')),
        ''not_established'', ''sink_configuration_not_established''),
       (or_else (Inr (bnd = JNull))
         (or_else (differ bnd ''config_digest'' conf ''digest'')
                  (negate (span_covers bnd ''from'' ''to'' cutoff))),
        ''not_established'', ''runtime_binding_not_established'')])"

definition stop_rule :: "pyval \<Rightarrow> pyval \<Rightarrow> pyval \<Rightarrow> rule" where
  "stop_rule scope st cutoff =
     (or_else (differ st ''boundary'' scope ''boundary'')
       (or_else (differ st ''epoch'' scope ''epoch'')
         (or_else (bind_sum (item st ''admits_epoch'') (\<lambda>x. Inr (x \<noteq> JBool False)))
           (negate (bind_sum (item st ''observed_at'') (\<lambda>t. strictly_before cutoff t))))),
      ''not_established'', ''stop_admitting_not_established'')"

definition ordering_rules :: "bool \<Rightarrow> pyval \<Rightarrow> pyval \<Rightarrow> pyval \<Rightarrow> rule list" where
  "ordering_rules honour_ordering ev st cutoff =
     (Inr (ev = JNull), ''not_established'', ''cutoff_ordering_not_established'') #
     (if honour_ordering then
        [(or_else (negate (span_covers ev ''covers_from'' ''covers_to'' cutoff))
            (negate (bind_sum (item ev ''covers_to'') (\<lambda>t. bind_sum (item st ''observed_at'') (\<lambda>o'. strictly_before t o')))),
          ''not_established'', ''cutoff_ordering_not_established''),
         (bind_sum (item ev ''attestor'') (\<lambda>x. bind_sum (item st ''asserted_by'') (\<lambda>y. Inr (x = y))),
          ''not_established'', ''cutoff_ordering_independence_not_established'')]
      else [])"

definition same_sequence :: "'a list \<Rightarrow> 'a list \<Rightarrow> bool" where
  "same_sequence a b = (if length a \<noteq> length b then False else list_all (\<lambda>(x, y). x = y) (zip a b))"

text \<open>\<open>[a["seq"] for a in admissions] != list(range(1, n + 1))\<close>\<close>

definition is_range :: "pyval list \<Rightarrow> bool" where
  "is_range xs = (map py_num xs = map (\<lambda>k. Some (of_nat (Suc k))) [0..<length xs])"

definition committed_rule :: "pyval list \<Rightarrow> pyval list \<Rightarrow> pyval \<Rightarrow> rule" where
  "committed_rule seqs admitted committed =
     (or_else (Inr (\<not> is_range seqs))
       (or_else (bind_sum (item committed ''committed_final_seq'') (\<lambda>x. Inr (py_num x \<noteq> Some (of_nat (length admitted)))))
         (bind_sum (item committed ''committed_members'') (\<lambda>x. Inr (\<not> same_sequence (elements x) admitted)))),
      ''not_established'', ''accepted_set_not_committed'')"

fun any_missing :: "pyval list \<Rightarrow> pyval list \<Rightarrow> te_error + bool" where
  "any_missing processed [] = Inr False"
| "any_missing processed (d # ds) =
     (if \<not> hashable d then Inl TypeError
      else if d \<notin> set processed then Inr True else any_missing processed ds)"

definition processed_rule :: "pyval list \<Rightarrow> pyval list \<Rightarrow> rule" where
  "processed_rule processed admitted =
     ((if list_all hashable processed then any_missing processed admitted else Inl TypeError),
      ''invalid'', ''accepted_descendant_missing_from_teardown'')"

text \<open>A statement that raises while the generator is advanced raises in place of the next rule.\<close>

definition or_raise :: "te_error + rule list \<Rightarrow> rule list" where
  "or_raise x = (case x of Inl e \<Rightarrow> [(Inl e, '''', '''')] | Inr rs \<Rightarrow> rs)"

definition tail_rules :: "pyval \<Rightarrow> rule list" where
  "tail_rules inp = or_raise (
     bind_sum (item inp ''admissions'') (\<lambda>adm.
     bind_sum (traverse (\<lambda>a. item a ''descendant_id'') (elements adm)) (\<lambda>admitted.
     bind_sum (item inp ''cutoff'') (\<lambda>committed.
     bind_sum (traverse (\<lambda>a. item a ''seq'') (elements adm)) (\<lambda>seqs.
       Inr (committed_rule seqs admitted committed # or_raise (
         bind_sum (item inp ''teardown'') (\<lambda>td.
         bind_sum (item td ''processed'') (\<lambda>pr. Inr [processed_rule (elements pr) admitted])))))))))"

definition basis_rules :: "pyval \<Rightarrow> bool \<Rightarrow> rule list" where
  "basis_rules inp honour_ordering = or_raise (
     bind_sum (item inp ''scope'') (\<lambda>scope.
     bind_sum (item inp ''cutoff'') (\<lambda>c. bind_sum (item c ''at'') (\<lambda>cutoff.
     bind_sum (item inp ''stop_admitting'') (\<lambda>st.
     bind_sum (item inp ''sink_configurations'') (\<lambda>confs.
     bind_sum (item inp ''runtime_bindings'') (\<lambda>binds.
     bind_sum (item scope ''declared_sinks'') (\<lambda>sinks.
       Inr (concat (map (sink_rules scope confs binds cutoff) (elements sinks))
            @ stop_rule scope st cutoff
            # or_raise (bind_sum (item inp ''cutoff_ordering_evidence'') (\<lambda>ev.
                Inr (ordering_rules honour_ordering ev st cutoff @ tail_rules inp))))))))))))"

fun first_holding :: "rule list \<Rightarrow> te_error + string option" where
  "first_holding [] = Inr None"
| "first_holding ((holds, verdict, reason) # rules) =
     bind_sum holds (\<lambda>b. if b then Inr (Some (verdict @ ''/'' @ reason)) else first_holding rules)"

definition VALID_LINE :: string where
  "VALID_LINE = ''valid/teardown_accounts_for_accepted_set_under_stipulated_basis''"

definition evaluate :: "pyval \<Rightarrow> bool \<Rightarrow> te_error + string" where
  "evaluate inp honour_ordering =
     (let errors = validate inp in
      if errors \<noteq> [] then Inr (''fixture_error['' @ join '','' errors @ '']'')
      else bind_sum (first_holding (basis_rules inp honour_ordering)) (\<lambda>r.
             Inr (case r of Some line \<Rightarrow> line | None \<Rightarrow> VALID_LINE)))"

definition reference :: "pyval \<Rightarrow> te_error + string" where
  "reference inp = evaluate inp True"

definition control :: "pyval \<Rightarrow> te_error + string" where
  "control inp = evaluate inp False"

section \<open>Conforming inputs\<close>

fun conforms :: "schema \<Rightarrow> pyval \<Rightarrow> bool" where
  "conforms S_id v \<longleftrightarrow> nonempty_str v"
| "conforms S_instant v \<longleftrightarrow> instant v \<noteq> None"
| "conforms S_bool v \<longleftrightarrow> is_bool v"
| "conforms (S_int lo) v \<longleftrightarrow> is_integer v \<and> of_int lo \<le> the (py_num v)"
| "conforms (S_list sch) v \<longleftrightarrow> is_list v \<and> list_all (conforms sch) (elements v)"
| "conforms (S_obj ms) v \<longleftrightarrow>
     is_dict v \<and> list_all (\<lambda>(n, sch). has_key v n \<and> conforms sch (get v n)) ms \<and>
     list_all (\<lambda>(n, x). n \<in> fst ` set ms) (members v)"
| "conforms (S_map sch) v \<longleftrightarrow> is_dict v \<and> list_all (\<lambda>(k, x). k \<noteq> [] \<and> conforms sch x) (members v)"
| "conforms (S_nullable sch) v \<longleftrightarrow> v = JNull \<or> conforms sch v"

lemma enumerate_from_snd: "snd ` set (enumerate_from n xs) = set xs"
  by (induction xs arbitrary: n) auto

lemma ball_enumerate: "(\<forall>(k, x) \<in> set (enumerate_from n xs). P x) \<longleftrightarrow> (\<forall>x \<in> set xs. P x)"
  using enumerate_from_snd [of n xs] by force

lemma walk_nil: "walk sch v path = [] \<longleftrightarrow> conforms sch v"
proof (induction sch v path rule: walk.induct)
  case (5 sch v path)
  have "(\<forall>(k, x) \<in> set (enumerate_from 0 (elements v)). walk sch x (ptr path (str_nat k)) = [])
      \<longleftrightarrow> (\<forall>(k, x) \<in> set (enumerate_from 0 (elements v)). conforms sch x)" if "is_list v"
    using 5 that by fastforce
  then show ?case
    using ball_enumerate [of 0 "elements v" "conforms sch"] by (auto simp: list_all_iff split: prod.splits)
next
  case (6 ms v path)
  have "(case map_of (members v) n of None \<Rightarrow> [ptr path n] | Some x \<Rightarrow> walk sch x (ptr path n)) = []
      \<longleftrightarrow> has_key v n \<and> conforms sch (get v n)" if "(n, sch) \<in> set ms" and "is_dict v" for n sch
    using 6 that by (auto simp: json_access split: option.splits)
  then have "(\<forall>x \<in> set ms. (case map_of (members v) (fst x) of
        None \<Rightarrow> [ptr path (fst x)] | Some y \<Rightarrow> walk (snd x) y (ptr path (fst x))) = [])
      \<longleftrightarrow> (\<forall>x \<in> set ms. has_key v (fst x) \<and> conforms (snd x) (get v (fst x)))" if "is_dict v"
    using that by (metis prod.collapse)
  then show ?case by (simp add: list_all_iff filter_empty_conv case_prod_beta)
next
  case (7 sch v path)
  have "(if key \<noteq> [] then walk sch entry (ptr path key) else [ptr path key]) = [] \<longleftrightarrow> key \<noteq> [] \<and> conforms sch entry"
    if "(key, entry) \<in> set (members v)" and "is_dict v" for key entry
    using 7 that by auto
  then show ?case by (auto simp: list_all_iff)
qed auto

lemma validate_nil: "validate inp = [] \<longleftrightarrow> validate_paths inp = []"
  by (metis length_0_conv length_sort remdups_eq_nil_iff validate_def)

lemma validate_conforms: "validate inp = [] \<Longrightarrow> conforms SCHEMA inp"
  by (simp add: validate_nil validate_paths_def walk_nil)

lemma item_get: "has_key d k \<Longrightarrow> item d k = Inr (get d k)"
  by (cases d) (auto simp: json_access item_def split: option.splits)

lemma conforms_map_entry: "conforms (S_map sch) v \<Longrightarrow> get v k \<noteq> JNull \<Longrightarrow> conforms sch (get v k)"
  by (cases v) (auto simp: get_def list_all_iff split: option.splits dest: map_of_SomeD)

section \<open>The specification of the rules\<close>

definition time :: "pyval \<Rightarrow> rat" where
  "time v = exact (the (instant v))"

lemma before_or_at_time:
  "instant a \<noteq> None \<Longrightarrow> instant b \<noteq> None \<Longrightarrow> before_or_at a b = Inr (time a \<le> time b)"
  using cmp_instant_le [of a _ b] by (auto simp: before_or_at_def instant_key_def time_def)

lemma strictly_before_time:
  "instant a \<noteq> None \<Longrightarrow> instant b \<noteq> None \<Longrightarrow> strictly_before a b = Inr (time a < time b)"
  using cmp_instant_less [of a _ b] by (auto simp: strictly_before_def instant_key_def time_def)

definition the_cutoff :: "pyval \<Rightarrow> pyval" where
  "the_cutoff inp = get (get inp ''cutoff'') ''at''"

definition sink_configured :: "pyval \<Rightarrow> pyval \<Rightarrow> bool" where
  "sink_configured inp sink \<longleftrightarrow>
     (let conf = get (get inp ''sink_configurations'') (str_of sink); scope = get inp ''scope'' in
      conf \<noteq> JNull \<and> get conf ''epoch'' = get scope ''epoch'' \<and>
      get conf ''accepts_only_through'' = get scope ''boundary'')"

definition sink_bound :: "pyval \<Rightarrow> pyval \<Rightarrow> bool" where
  "sink_bound inp sink \<longleftrightarrow>
     (let conf = get (get inp ''sink_configurations'') (str_of sink);
          bnd = get (get inp ''runtime_bindings'') (str_of sink) in
      bnd \<noteq> JNull \<and> get bnd ''config_digest'' = get conf ''digest'' \<and>
      time (get bnd ''from'') \<le> time (the_cutoff inp) \<and> time (the_cutoff inp) \<le> time (get bnd ''to''))"

definition stopped :: "pyval \<Rightarrow> bool" where
  "stopped inp \<longleftrightarrow>
     (let st = get inp ''stop_admitting''; scope = get inp ''scope'' in
      get st ''boundary'' = get scope ''boundary'' \<and> get st ''epoch'' = get scope ''epoch'' \<and>
      get st ''admits_epoch'' = JBool False \<and> time (the_cutoff inp) < time (get st ''observed_at''))"

definition evidence_of :: "pyval \<Rightarrow> pyval" where
  "evidence_of inp = get inp ''cutoff_ordering_evidence''"

definition cutoff_ordered :: "pyval \<Rightarrow> bool" where
  "cutoff_ordered inp \<longleftrightarrow>
     time (get (evidence_of inp) ''covers_from'') \<le> time (the_cutoff inp) \<and>
     time (the_cutoff inp) \<le> time (get (evidence_of inp) ''covers_to'') \<and>
     time (get (evidence_of inp) ''covers_to'') < time (get (get inp ''stop_admitting'') ''observed_at'')"

definition ordering_independent :: "pyval \<Rightarrow> bool" where
  "ordering_independent inp \<longleftrightarrow>
     get (evidence_of inp) ''attestor'' \<noteq> get (get inp ''stop_admitting'') ''asserted_by''"

definition admitted_of :: "pyval \<Rightarrow> pyval list" where
  "admitted_of inp = map (\<lambda>a. get a ''descendant_id'') (elements (get inp ''admissions''))"

definition set_committed :: "pyval \<Rightarrow> bool" where
  "set_committed inp \<longleftrightarrow>
     is_range (map (\<lambda>a. get a ''seq'') (elements (get inp ''admissions''))) \<and>
     py_num (get (get inp ''cutoff'') ''committed_final_seq'') = Some (of_nat (length (admitted_of inp))) \<and>
     elements (get (get inp ''cutoff'') ''committed_members'') = admitted_of inp"

definition all_processed :: "pyval \<Rightarrow> bool" where
  "all_processed inp \<longleftrightarrow>
     set (admitted_of inp) \<subseteq> set (elements (get (get inp ''teardown'') ''processed''))"

fun sinks_line :: "pyval \<Rightarrow> pyval list \<Rightarrow> string option" where
  "sinks_line inp [] = None"
| "sinks_line inp (s # ss) =
     (if \<not> sink_configured inp s then Some ''not_established/sink_configuration_not_established''
      else if \<not> sink_bound inp s then Some ''not_established/runtime_binding_not_established''
      else sinks_line inp ss)"

definition sinks_of :: "pyval \<Rightarrow> pyval list" where
  "sinks_of inp = elements (get (get inp ''scope'') ''declared_sinks'')"

definition tail_line :: "pyval \<Rightarrow> string option" where
  "tail_line inp =
     (if \<not> set_committed inp then Some ''not_established/accepted_set_not_committed''
      else if \<not> all_processed inp then Some ''invalid/accepted_descendant_missing_from_teardown''
      else None)"

definition ordering_line :: "bool \<Rightarrow> pyval \<Rightarrow> string option" where
  "ordering_line honour inp =
     (if evidence_of inp = JNull then Some ''not_established/cutoff_ordering_not_established''
      else if honour \<and> \<not> cutoff_ordered inp then Some ''not_established/cutoff_ordering_not_established''
      else if honour \<and> \<not> ordering_independent inp
           then Some ''not_established/cutoff_ordering_independence_not_established''
      else tail_line inp)"

definition rule_line :: "bool \<Rightarrow> pyval \<Rightarrow> string option" where
  "rule_line honour inp =
     (case sinks_line inp (sinks_of inp) of
        Some l \<Rightarrow> Some l
      | None \<Rightarrow> if \<not> stopped inp then Some ''not_established/stop_admitting_not_established''
                else ordering_line honour inp)"

section \<open>The rules meet their specification\<close>

lemma first_holding_append_sinks:
  assumes "\<And>sink rest. sink \<in> set sinks \<Longrightarrow> first_holding (f sink @ rest) =
      (if \<not> sink_configured inp sink then Inr (Some ''not_established/sink_configuration_not_established'')
       else if \<not> sink_bound inp sink then Inr (Some ''not_established/runtime_binding_not_established'')
       else first_holding rest)"
  shows "first_holding (concat (map f sinks) @ rest) =
     (case sinks_line inp sinks of Some l \<Rightarrow> Inr (Some l) | None \<Rightarrow> first_holding rest)"
  using assms by (induction sinks) auto

lemma span_covers_time:
  assumes "has_key d f" "has_key d t" "instant (get d f) \<noteq> None" "instant (get d t) \<noteq> None" "instant c \<noteq> None"
  shows "span_covers d f t c = Inr (time (get d f) \<le> time c \<and> time c \<le> time (get d t))"
  using assms by (simp add: span_covers_def item_get before_or_at_time)

lemma differ_get: "has_key a k \<Longrightarrow> has_key b l \<Longrightarrow> differ a k b l = Inr (get a k \<noteq> get b l)"
  by (simp add: differ_def item_get)

lemma same_sequence_eq: "same_sequence a b \<longleftrightarrow> a = b"
  by (auto simp: same_sequence_def list_all_iff list_eq_iff_zip_eq)

lemma any_missing_set: "list_all hashable ds \<Longrightarrow> any_missing pr ds = Inr (\<not> set ds \<subseteq> set pr)"
  by (induction ds) auto

lemma nonempty_str_hashable: "nonempty_str v \<Longrightarrow> hashable v"
  by (auto simp: nonempty_str_conv hashable_def)

lemmas rule_access = item_get differ_get span_covers_time before_or_at_time strictly_before_time negate_def ex_bool_eq

lemma top_keys:
  assumes "conforms SCHEMA inp"
  shows "has_key inp ''scope''" "has_key inp ''cutoff''" "has_key inp ''stop_admitting''"
    "has_key inp ''sink_configurations''" "has_key inp ''runtime_bindings''"
    "has_key inp ''cutoff_ordering_evidence''" "has_key inp ''admissions''" "has_key inp ''teardown''"
  using assms by (simp_all add: SCHEMA_def)

lemma scope_shape:
  assumes "conforms SCHEMA inp"
  shows "has_key (get inp ''scope'') ''declared_sinks''" "has_key (get inp ''scope'') ''epoch''"
    "has_key (get inp ''scope'') ''boundary''"
  using assms by (simp_all add: SCHEMA_def)

lemma cutoff_shape:
  assumes "conforms SCHEMA inp"
  shows "has_key (get inp ''cutoff'') ''at''" "instant (the_cutoff inp) \<noteq> None"
    "has_key (get inp ''cutoff'') ''committed_final_seq''" "has_key (get inp ''cutoff'') ''committed_members''"
  using assms by (simp_all add: SCHEMA_def the_cutoff_def)

lemma stop_shape:
  assumes "conforms SCHEMA inp"
  shows "has_key (get inp ''stop_admitting'') ''boundary''" "has_key (get inp ''stop_admitting'') ''epoch''"
    "has_key (get inp ''stop_admitting'') ''admits_epoch''" "has_key (get inp ''stop_admitting'') ''asserted_by''"
    "has_key (get inp ''stop_admitting'') ''observed_at''"
    "instant (get (get inp ''stop_admitting'') ''observed_at'') \<noteq> None"
  using assms by (simp_all add: SCHEMA_def)

lemma config_shape:
  assumes "conforms SCHEMA inp" and "get (get inp ''sink_configurations'') k \<noteq> JNull"
  shows "has_key (get (get inp ''sink_configurations'') k) ''epoch''"
    "has_key (get (get inp ''sink_configurations'') k) ''accepts_only_through''"
    "has_key (get (get inp ''sink_configurations'') k) ''digest''"
proof -
  have "conforms (S_map (S_obj [(''epoch'', S_id), (''accepts_only_through'', S_id), (''digest'', S_id)]))
      (get inp ''sink_configurations'')"
    using assms(1) unfolding SCHEMA_def by (simp del: conforms.simps(7))
  from conforms_map_entry [OF this assms(2)] show
    "has_key (get (get inp ''sink_configurations'') k) ''epoch''"
    "has_key (get (get inp ''sink_configurations'') k) ''accepts_only_through''"
    "has_key (get (get inp ''sink_configurations'') k) ''digest''" by simp_all
qed

lemma binding_shape:
  assumes "conforms SCHEMA inp" and "get (get inp ''runtime_bindings'') k \<noteq> JNull"
  shows "has_key (get (get inp ''runtime_bindings'') k) ''config_digest''"
    "has_key (get (get inp ''runtime_bindings'') k) ''from''" "has_key (get (get inp ''runtime_bindings'') k) ''to''"
    "instant (get (get (get inp ''runtime_bindings'') k) ''from'') \<noteq> None"
    "instant (get (get (get inp ''runtime_bindings'') k) ''to'') \<noteq> None"
proof -
  have "conforms (S_map (S_obj [(''config_digest'', S_id), (''from'', S_instant), (''to'', S_instant)]))
      (get inp ''runtime_bindings'')"
    using assms(1) unfolding SCHEMA_def by (simp del: conforms.simps(7))
  from conforms_map_entry [OF this assms(2)] show
    "has_key (get (get inp ''runtime_bindings'') k) ''config_digest''"
    "has_key (get (get inp ''runtime_bindings'') k) ''from''" "has_key (get (get inp ''runtime_bindings'') k) ''to''"
    "instant (get (get (get inp ''runtime_bindings'') k) ''from'') \<noteq> None"
    "instant (get (get (get inp ''runtime_bindings'') k) ''to'') \<noteq> None" by simp_all
qed

lemma evidence_shape:
  assumes "conforms SCHEMA inp" and "evidence_of inp \<noteq> JNull"
  shows "has_key (evidence_of inp) ''attestor''" "has_key (evidence_of inp) ''covers_from''"
    "has_key (evidence_of inp) ''covers_to''" "instant (get (evidence_of inp) ''covers_from'') \<noteq> None"
    "instant (get (evidence_of inp) ''covers_to'') \<noteq> None"
  using assms by (simp_all add: SCHEMA_def evidence_of_def)

lemma tail_shape:
  assumes "conforms SCHEMA inp"
  shows "has_key (get inp ''teardown'') ''processed''"
    "list_all hashable (elements (get (get inp ''teardown'') ''processed''))" "list_all hashable (admitted_of inp)"
    "\<And>a. a \<in> set (elements (get inp ''admissions'')) \<Longrightarrow> has_key a ''descendant_id'' \<and> has_key a ''seq''"
proof -
  have adm: "\<forall>a \<in> set (elements (get inp ''admissions'')).
      has_key a ''descendant_id'' \<and> has_key a ''seq'' \<and> nonempty_str (get a ''descendant_id'')"
    and pr: "\<forall>x \<in> set (elements (get (get inp ''teardown'') ''processed'')). nonempty_str x"
    using assms by (simp_all add: SCHEMA_def list_all_iff)
  show "has_key (get inp ''teardown'') ''processed''" using assms by (simp add: SCHEMA_def)
  show "list_all hashable (elements (get (get inp ''teardown'') ''processed''))" "list_all hashable (admitted_of inp)"
    using adm pr by (simp_all add: list_all_iff admitted_of_def nonempty_str_hashable)
  show "\<And>a. a \<in> set (elements (get inp ''admissions'')) \<Longrightarrow> has_key a ''descendant_id'' \<and> has_key a ''seq''"
    using adm by simp
qed

lemma sink_rules_spec:
  assumes "conforms SCHEMA inp"
  shows "first_holding (sink_rules (get inp ''scope'') (get inp ''sink_configurations'')
            (get inp ''runtime_bindings'') (the_cutoff inp) sink @ rest) =
      (if \<not> sink_configured inp sink then Inr (Some ''not_established/sink_configuration_not_established'')
       else if \<not> sink_bound inp sink then Inr (Some ''not_established/runtime_binding_not_established'')
       else first_holding rest)"
  using config_shape [OF assms, of "str_of sink"] binding_shape [OF assms, of "str_of sink"]
    scope_shape [OF assms] cutoff_shape [OF assms]
  by (simp add: sink_rules_def Let_def sink_configured_def sink_bound_def rule_access)

lemma stop_rule_spec:
  assumes "conforms SCHEMA inp"
  shows "first_holding (stop_rule (get inp ''scope'') (get inp ''stop_admitting'') (the_cutoff inp) # rest) =
     (if \<not> stopped inp then Inr (Some ''not_established/stop_admitting_not_established'') else first_holding rest)"
  using scope_shape [OF assms] cutoff_shape [OF assms] stop_shape [OF assms]
  by (simp add: stop_rule_def stopped_def Let_def rule_access)

lemma tail_rules_spec:
  assumes "conforms SCHEMA inp"
  shows "first_holding (tail_rules inp) = Inr (tail_line inp)"
proof -
  have "traverse (\<lambda>a. item a ''descendant_id'') (elements (get inp ''admissions'')) = Inr (admitted_of inp)"
    and "traverse (\<lambda>a. item a ''seq'') (elements (get inp ''admissions''))
      = Inr (map (\<lambda>a. get a ''seq'') (elements (get inp ''admissions'')))"
    using tail_shape(4) [OF assms] unfolding admitted_of_def by (auto intro!: traverse_Inr item_get)
  then show ?thesis
    using top_keys [OF assms] cutoff_shape [OF assms] tail_shape(1-3) [OF assms]
    by (simp add: tail_rules_def or_raise_def committed_rule_def processed_rule_def item_get any_missing_set
        same_sequence_eq ex_bool_eq tail_line_def set_committed_def all_processed_def)
qed

lemma ordering_rules_spec:
  assumes "conforms SCHEMA inp"
  shows "first_holding (ordering_rules honour (evidence_of inp) (get inp ''stop_admitting'') (the_cutoff inp)
            @ tail_rules inp) = Inr (ordering_line honour inp)"
  using evidence_shape [OF assms] cutoff_shape [OF assms] stop_shape [OF assms] tail_rules_spec [OF assms]
  by (simp add: ordering_rules_def ordering_line_def cutoff_ordered_def ordering_independent_def rule_access)

lemma basis_rules_spec:
  assumes "conforms SCHEMA inp"
  shows "first_holding (basis_rules inp honour) = Inr (rule_line honour inp)"
proof -
  have "basis_rules inp honour =
     concat (map (sink_rules (get inp ''scope'') (get inp ''sink_configurations'') (get inp ''runtime_bindings'')
       (the_cutoff inp)) (sinks_of inp))
     @ stop_rule (get inp ''scope'') (get inp ''stop_admitting'') (the_cutoff inp)
     # ordering_rules honour (evidence_of inp) (get inp ''stop_admitting'') (the_cutoff inp) @ tail_rules inp"
    using top_keys [OF assms] scope_shape [OF assms] cutoff_shape(1) [OF assms]
    by (simp add: basis_rules_def or_raise_def item_get sinks_of_def the_cutoff_def evidence_of_def)
  then show ?thesis
    by (simp add: first_holding_append_sinks [OF sink_rules_spec [OF assms]] stop_rule_spec [OF assms]
        ordering_rules_spec [OF assms] rule_line_def split: option.splits)
qed

section \<open>Properties of the evaluation\<close>

lemma evaluate_eq:
  "evaluate inp honour =
     Inr (if validate inp \<noteq> [] then ''fixture_error['' @ join '','' (validate inp) @ '']''
          else case rule_line honour inp of Some l \<Rightarrow> l | None \<Rightarrow> VALID_LINE)"
  using basis_rules_spec [OF validate_conforms, of inp honour] by (simp add: evaluate_def Let_def)

lemma sinks_line_None:
  "sinks_line inp ss = None \<longleftrightarrow> (\<forall>s \<in> set ss. sink_configured inp s \<and> sink_bound inp s)"
  by (induction ss) auto

lemma sinks_line_Some:
  "sinks_line inp ss = Some l \<Longrightarrow> l = ''not_established/sink_configuration_not_established'' \<or>
     l = ''not_established/runtime_binding_not_established''"
  by (induction ss) (auto split: if_splits)

definition RULE_REASONS :: "(string \<times> string) list" where
  "RULE_REASONS =
       [(''not_established'', ''sink_configuration_not_established''),
        (''not_established'', ''runtime_binding_not_established''),
        (''not_established'', ''stop_admitting_not_established''),
        (''not_established'', ''cutoff_ordering_not_established''),
        (''not_established'', ''cutoff_ordering_independence_not_established''),
        (''not_established'', ''accepted_set_not_committed''),
        (''invalid'', ''accepted_descendant_missing_from_teardown'')]"

lemma rule_line_range:
  "rule_line honour inp = Some l \<Longrightarrow>
     l \<in> (\<lambda>(v, r). v @ ''/'' @ r) ` set RULE_REASONS"
  by (auto simp: RULE_REASONS_def rule_line_def ordering_line_def tail_line_def dest!: sinks_line_Some split: option.splits if_splits)

lemma rule_line_not_valid: "rule_line honour inp \<noteq> Some VALID_LINE"
  by (auto simp: VALID_LINE_def RULE_REASONS_def dest!: rule_line_range)

lemma repeats_nil:
  "list_all nonempty_str xs \<Longrightarrow>
     repeats seen (enumerate_from n xs) = [] \<longleftrightarrow> distinct xs \<and> set (map str_of xs) \<inter> set seen = {}"
proof (induction xs arbitrary: seen n)
  case (Cons x xs)
  have "x \<in> set xs \<longleftrightarrow> str_of x \<in> str_of ` set xs"
    using Cons.prems by (force simp: list_all_iff nonempty_str_conv)
  with Cons show ?case by auto
qed simp

lemma id_lists:
  assumes "conforms SCHEMA inp"
  shows "is_list (get inp ''stipulations'')" "is_dict (get inp ''scope'')"
    "is_list (get (get inp ''scope'') ''declared_sinks'')" "list_all nonempty_str (sinks_of inp)"
    "is_list (get inp ''admissions'')" "list_all nonempty_str (admitted_of inp)"
proof -
  have "\<forall>a \<in> set (elements (get inp ''admissions'')). nonempty_str (get a ''descendant_id'')"
    and "\<forall>a \<in> set (sinks_of inp). nonempty_str a"
    using assms by (simp_all add: SCHEMA_def sinks_of_def list_all_iff)
  then show "list_all nonempty_str (admitted_of inp)" "list_all nonempty_str (sinks_of inp)"
    by (simp_all add: admitted_of_def list_all_iff)
qed (use assms in \<open>simp_all add: SCHEMA_def\<close>)

lemma validate_iff:
  "validate inp = [] \<longleftrightarrow>
     conforms SCHEMA inp \<and> (\<forall>s \<in> set STIPULATIONS. JStr s \<in> set (elements (get inp ''stipulations''))) \<and>
     sinks_of inp \<noteq> [] \<and> distinct (sinks_of inp) \<and> distinct (admitted_of inp)"
proof (cases "conforms SCHEMA inp")
  case True
  have "is_dict inp" using True by (simp add: SCHEMA_def)
  then show ?thesis
    using True id_lists [OF True] repeats_nil [OF id_lists(4) [OF True], of "[]" 0]
      repeats_nil [OF id_lists(6) [OF True], of "[]" 0]
    unfolding validate_nil validate_paths_def walk_nil append_is_Nil_conv Let_def
    by (auto simp: walk_nil list_all_iff sinks_of_def admitted_of_def)
qed (use validate_conforms in blast)

text \<open>C10: the evaluation is total and meets its specification. On every JSON input whatever it
  returns a line and never raises, although the rules index into the input, parse instants and hash
  values: a malformed input gives the sorted list of its wrong pointers, any other the line of the
  first rule that applies, read off the exact times and members of the input. Well formed means:
  conforming to the schema, carrying the stipulations, with sinks declared, and no sink and no
  admitted descendant twice.\<close>

theorem evaluate_meets_specification:
  "evaluate inp honour =
     Inr (if validate inp \<noteq> [] then ''fixture_error['' @ join '','' (validate inp) @ '']''
          else case rule_line honour inp of Some l \<Rightarrow> l | None \<Rightarrow> VALID_LINE) \<and>
   (validate inp = [] \<longleftrightarrow>
      conforms SCHEMA inp \<and> set (map JStr STIPULATIONS) \<subseteq> set (elements (get inp ''stipulations'')) \<and>
      sinks_of inp \<noteq> [] \<and> distinct (sinks_of inp) \<and> distinct (admitted_of inp))"
  unfolding evaluate_eq validate_iff by auto

text \<open>A teardown is judged valid exactly when the input is well formed, every declared sink is
  configured for the scope's epoch and boundary and bound to that configuration at the cutoff, the
  boundary was observed closed after the cutoff, independent evidence places the cutoff before that
  observation, the committed sequence is the admitted one, and every admitted descendant was
  processed.\<close>

theorem reference_valid_iff:
  "reference inp = Inr VALID_LINE \<longleftrightarrow>
     validate inp = [] \<and> (\<forall>s \<in> set (sinks_of inp). sink_configured inp s \<and> sink_bound inp s) \<and>
     stopped inp \<and> evidence_of inp \<noteq> JNull \<and> cutoff_ordered inp \<and> ordering_independent inp \<and>
     set_committed inp \<and> all_processed inp"
proof -
  have "reference inp = Inr VALID_LINE \<longleftrightarrow> validate inp = [] \<and> rule_line True inp = None"
    using rule_line_not_valid [of True inp]
    by (auto simp: reference_def evaluate_eq VALID_LINE_def split: option.splits)
  also have "rule_line True inp = None \<longleftrightarrow>
      (\<forall>s \<in> set (sinks_of inp). sink_configured inp s \<and> sink_bound inp s) \<and>
     stopped inp \<and> evidence_of inp \<noteq> JNull \<and> cutoff_ordered inp \<and> ordering_independent inp \<and>
     set_committed inp \<and> all_processed inp"
    by (auto simp: rule_line_def ordering_line_def tail_line_def sinks_line_None [symmetric] split: option.splits)
  finally show ?thesis .
qed

text \<open>The negative control differs from the reference only where it is meant to: when their
  answers differ, the reference's is one of the two cutoff-ordering refusals, and the input carries
  ordering evidence that does not order the cutoff or is not independent.\<close>

theorem control_differs_only_on_ordering:
  assumes "reference inp \<noteq> control inp"
  shows "(reference inp = Inr ''not_established/cutoff_ordering_not_established'' \<and> \<not> cutoff_ordered inp \<or>
          reference inp = Inr ''not_established/cutoff_ordering_independence_not_established''
            \<and> \<not> ordering_independent inp) \<and> evidence_of inp \<noteq> JNull \<and> validate inp = []"
  using assms
  by (auto simp: reference_def control_def evaluate_eq rule_line_def ordering_line_def
      split: option.splits if_splits)

section \<open>The positive control of the development cases\<close>

text \<open>\<open>put v path x\<close> replaces the value at a path of member names.\<close>

fun put :: "pyval \<Rightarrow> string list \<Rightarrow> pyval \<Rightarrow> pyval" where
  "put v [] x = x"
| "put v (k # ks) x = JObj (AList.update k (put (get v k) ks x) (members v))"

definition TA_DEV_a :: pyval where
  "TA_DEV_a =
    JObj [(''stipulations'', JArr [JStr ''sink configurations and runtime bindings are authentic'',
       JStr ''admission sequence is append only'',
       JStr ''distinct attestor identifiers denote distinct parties'']),
     (''scope'', JObj [(''declared_sinks'', JArr [JStr ''sink-a'', JStr ''sink-b'']),
       (''epoch'', JStr ''E0''),
       (''boundary'', JStr ''M'')]),
     (''sink_configurations'', JObj [(''sink-a'', JObj [(''epoch'', JStr ''E0''),
         (''accepts_only_through'', JStr ''M''),
         (''digest'', JStr ''cfg-a-v1'')]),
       (''sink-b'', JObj [(''epoch'', JStr ''E0''),
         (''accepts_only_through'', JStr ''M''),
         (''digest'', JStr ''cfg-b-v1'')])]),
     (''runtime_bindings'', JObj [(''sink-a'', JObj [(''config_digest'', JStr ''cfg-a-v1''),
         (''from'', JStr ''2026-09-20T09:00:00Z''),
         (''to'', JStr ''2026-09-20T13:00:00Z'')]),
       (''sink-b'', JObj [(''config_digest'', JStr ''cfg-b-v1''),
         (''from'', JStr ''2026-09-20T09:00:00Z''),
         (''to'', JStr ''2026-09-20T13:00:00Z'')])]),
     (''admissions'', JArr [JObj [(''seq'', JInt 1), (''descendant_id'', JStr ''d1'')],
       JObj [(''seq'', JInt 2), (''descendant_id'', JStr ''d2'')],
       JObj [(''seq'', JInt 3), (''descendant_id'', JStr ''d3'')]]),
     (''cutoff'', JObj [(''at'', JStr ''2026-09-20T11:00:00Z''),
       (''committed_final_seq'', JInt 3),
       (''committed_members'', JArr [JStr ''d1'', JStr ''d2'', JStr ''d3''])]),
     (''cutoff_ordering_evidence'', JObj [(''attestor'', JStr ''time-witness-b''),
       (''covers_from'', JStr ''2026-09-20T10:59:00Z''),
       (''covers_to'', JStr ''2026-09-20T11:01:00Z'')]),
     (''stop_admitting'', JObj [(''boundary'', JStr ''M''),
       (''epoch'', JStr ''E0''),
       (''admits_epoch'', JBool False),
       (''asserted_by'', JStr ''boundary-operator-a''),
       (''observed_at'', JStr ''2026-09-20T11:05:00Z'')]),
     (''teardown'', JObj [(''processed'', JArr [JStr ''d1'', JStr ''d2'', JStr ''d3''])])]"

definition TA_DEV_d :: pyval where
  "TA_DEV_d = put TA_DEV_a [''cutoff_ordering_evidence'', ''attestor''] (JStr ''boundary-operator-a'')"

theorem control_differs_only_on_ordering_witness:
  "reference TA_DEV_d = Inr ''not_established/cutoff_ordering_independence_not_established'' \<and>
   \<not> ordering_independent TA_DEV_d"
proof -
  have "reference TA_DEV_d = Inr ''not_established/cutoff_ordering_independence_not_established''"
    and "reference TA_DEV_d \<noteq> control TA_DEV_d" by code_simp+
  from control_differs_only_on_ordering [OF this(2)] this(1) show ?thesis by simp
qed

theorem reference_valid_iff_witness: "set_committed TA_DEV_a \<and> all_processed TA_DEV_a \<and> cutoff_ordered TA_DEV_a"
proof -
  have "reference TA_DEV_a = Inr VALID_LINE" by code_simp
  then show ?thesis by (simp only: reference_valid_iff)
qed

end
