(* ===== verification/Teardown_Runner.thy ===== *)
theory Teardown_Runner
  imports Teardown
begin

text \<open>
  The runner half of \<open>fixtures/teardown-accounting/verify.py\<close>: refusal of repeated member names,
  the reading of an expectation, and the run over a case file. The model starts from the tree the
  JSON parser hands to \<open>object_pairs_hook\<close> (member lists with repeats kept); reading the file and
  hashing PROPOSED.md are inputs. A problem is its kind and its subject instead of the printed text.
\<close>

section \<open>Repeated member names\<close>

fun find_duplicate_member :: "pyval \<Rightarrow> string \<Rightarrow> string option"
  and find_in_members :: "string list \<Rightarrow> (string \<times> pyval) list \<Rightarrow> string \<Rightarrow> string option"
  and find_in_items :: "nat \<Rightarrow> pyval list \<Rightarrow> string \<Rightarrow> string option" where
  "find_duplicate_member (JObj pairs) pointer = find_in_members [] pairs pointer"
| "find_duplicate_member (JArr items) pointer = find_in_items 0 items pointer"
| "find_duplicate_member _ pointer = None"
| "find_in_members seen [] pointer = None"
| "find_in_members seen ((name, v) # rest) pointer =
     (if name \<in> set seen then Some (ptr pointer name)
      else case find_duplicate_member v (ptr pointer name) of
             Some found \<Rightarrow> Some found
           | None \<Rightarrow> find_in_members (name # seen) rest pointer)"
| "find_in_items k [] pointer = None"
| "find_in_items k (v # rest) pointer =
     (case find_duplicate_member v (ptr pointer (str_nat k)) of
        Some found \<Rightarrow> Some found
      | None \<Rightarrow> find_in_items (Suc k) rest pointer)"

text \<open>\<open>{name: value for ...}\<close>: a repeated name keeps its first place and its last value.\<close>

definition dict_of :: "(string \<times> pyval) list \<Rightarrow> (string \<times> pyval) list" where
  "dict_of pairs = fold (\<lambda>(n, v) d. AList.update n v d) pairs []"

fun plain :: "pyval \<Rightarrow> pyval" where
  "plain (JObj pairs) = JObj (dict_of (map (\<lambda>(n, v). (n, plain v)) pairs))"
| "plain (JArr items) = JArr (map plain items)"
| "plain v = v"

text \<open>\<open>load_case_text\<close> after the parse: the document, or the pointer of the first repeat\<close>

definition load_case_tree :: "pyval \<Rightarrow> string + pyval" where
  "load_case_tree tree =
     (case find_duplicate_member tree '''' of Some p \<Rightarrow> Inl p | None \<Rightarrow> Inr (plain tree))"

section \<open>Expectations\<close>

datatype problem = Problem string string

definition REASON_VERDICT :: "(string \<times> string) list" where
  "REASON_VERDICT =
     [(''sink_configuration_not_established'', ''not_established''),
      (''runtime_binding_not_established'', ''not_established''),
      (''stop_admitting_not_established'', ''not_established''),
      (''cutoff_ordering_not_established'', ''not_established''),
      (''cutoff_ordering_independence_not_established'', ''not_established''),
      (''accepted_set_not_committed'', ''not_established''),
      (''accepted_descendant_missing_from_teardown'', ''invalid''),
      (''teardown_accounts_for_accepted_set_under_stipulated_basis'', ''valid'')]"

definition VERDICTS :: "string list" where
  "VERDICTS = [''valid'', ''invalid'', ''not_established'']"

definition keys_are :: "pyval \<Rightarrow> string list \<Rightarrow> bool" where
  "keys_are d ks = (set (map fst (members d)) = set ks)"

definition fixture_line :: "string list \<Rightarrow> string" where
  "fixture_line ps = ''fixture_error['' @ join '','' ps @ '']''"

definition expected_line :: "string \<Rightarrow> pyval \<Rightarrow> te_error + problem + string" where
  "expected_line cid e =
     (if \<not> is_dict e then Inr (Inl (Problem ''expected is not an object'' cid))
      else if keys_are e [''verdict'', ''reason''] then
        (let v = get e ''verdict''; r = get e ''reason'' in
         if \<not> hashable v then Inl TypeError
         else if v \<notin> set (map JStr VERDICTS) then Inr (Inl (Problem ''verdict outside the vocabulary'' cid))
         else if \<not> hashable r then Inl TypeError
         else if r \<notin> set (map (JStr \<circ> fst) REASON_VERDICT) then Inr (Inl (Problem ''reason not published'' cid))
         else if map_of REASON_VERDICT (str_of r) \<noteq> Some (str_of v)
              then Inr (Inl (Problem ''reason does not accompany verdict'' cid))
         else Inr (Inr (str_of v @ ''/'' @ str_of r)))
      else if keys_are e [''fixture_error''] then
        (let p = get e ''fixture_error''; ps = map str_of (elements p) in
         if \<not> is_list p \<or> elements p = [] \<or> \<not> list_all is_str (elements p)
         then Inr (Inl (Problem ''fixture_error must be a non-empty array'' cid))
         else if ps \<noteq> sort (remdups ps) then Inr (Inl (Problem ''pointers must be sorted and unique'' cid))
         else Inr (Inr (fixture_line ps)))
      else Inr (Inl (Problem ''expected must be verdict and reason or fixture_error'' cid)))"

section \<open>The run over a file\<close>

definition problem_if :: "bool \<Rightarrow> string \<Rightarrow> string \<Rightarrow> problem list" where
  "problem_if b what who = (if b then [Problem what who] else [])"

definition PROPOSED_PATH :: string where
  "PROPOSED_PATH = ''fixtures/teardown-accounting/PROPOSED.md''"

definition DEV_PROVENANCE :: string where
  "DEV_PROVENANCE = ''author development cases, not contributed vectors and not independent evidence''"

definition CONTROL_ID :: string where
  "CONTROL_ID = ''C1-ordering-taken-as-given''"

definition header_problems :: "string \<Rightarrow> bool \<Rightarrow> string \<Rightarrow> pyval \<Rightarrow> problem list" where
  "header_problems label is_dev sha doc =
     problem_if (get doc ''family'' \<noteq> JStr ''teardown-accounting'') ''family'' label
     @ problem_if (get doc ''status'' \<noteq> JStr ''candidate_against_proposed'') ''status'' label
     @ problem_if (is_dev \<and> get doc ''provenance'' \<noteq> JStr DEV_PROVENANCE) ''provenance'' label
     @ problem_if (\<not> is_dev \<and> \<not> nonempty_str (get doc ''provenance'')) ''provenance'' label
     @ (let pin = get doc ''proposed_text'' in
        if \<not> is_dict pin \<or> \<not> keys_are pin [''path'', ''sha256''] \<or> get pin ''path'' \<noteq> JStr PROPOSED_PATH
           \<or> \<not> is_str (get pin ''sha256'')
        then [Problem ''proposed_text'' label]
        else problem_if (JStr sha \<noteq> get pin ''sha256'') ''PROPOSED.md sha256'' label)"

type_synonym ready = "string \<times> pyval \<times> string"

fun collect_cases :: "string \<Rightarrow> nat \<Rightarrow> pyval list \<Rightarrow> string list \<Rightarrow> te_error + problem list \<times> ready list \<times> string list" where
  "collect_cases label k [] ids = Inr ([], [], ids)"
| "collect_cases label k (c # cs) ids =
     (if \<not> is_dict c \<or> \<not> keys_are c [''id'', ''group'', ''label'', ''title'', ''input'', ''expected''] then
        bind_sum (collect_cases label (Suc k) cs ids) (\<lambda>(ps, ws, ids'). Inr (Problem ''case members'' (str_nat k) # ps, ws, ids'))
      else
        (let cid = (if nonempty_str (get c ''id'') then str_of (get c ''id'') else ''#'' @ str_nat k);
             ps = problem_if (JStr cid \<noteq> get c ''id'') ''case has no id'' (str_nat k)
               @ problem_if (cid \<in> set ids) ''duplicate case id'' cid
               @ problem_if (get c ''label'' \<noteq> JStr ''candidate_against_proposed'') ''label'' cid
               @ problem_if (get c ''group'' \<noteq> JStr ''teardown_accounting'') ''group'' cid
               @ problem_if (\<not> nonempty_str (get c ''title'')) ''title missing'' cid in
         bind_sum (expected_line cid (get c ''expected'')) (\<lambda>want.
         bind_sum (collect_cases label (Suc k) cs (cid # ids)) (\<lambda>(ps', ws, ids').
           Inr (case want of
                  Inl p \<Rightarrow> (ps @ p # ps', ws, ids')
                | Inr line \<Rightarrow> (ps @ ps', (cid, get c ''input'', line) # ws, ids'))))))"

fun match_reference :: "ready list \<Rightarrow> te_error + problem list" where
  "match_reference [] = Inr []"
| "match_reference ((cid, inp, want) # ws) =
     bind_sum (reference inp) (\<lambda>got. bind_sum (control inp) (\<lambda>ctl.
     bind_sum (match_reference ws) (\<lambda>ps. Inr (problem_if (got \<noteq> want) ''reference differs'' cid @ ps))))"

text \<open>The control's run: problems on fixture-error cases, and the ids it fails\<close>

fun run_control :: "ready list \<Rightarrow> te_error + problem list \<times> string list" where
  "run_control [] = Inr ([], [])"
| "run_control ((cid, inp, want) # ws) =
     bind_sum (control inp) (\<lambda>got. bind_sum (run_control ws) (\<lambda>(ps, observed).
       Inr (if prefix ''fixture_error['' want
            then (problem_if (got \<noteq> want) ''control on a fixture-error case'' cid @ ps, observed)
            else (ps, if got \<noteq> want then cid # observed else observed))))"

definition control_problems :: "string \<Rightarrow> pyval \<Rightarrow> ready list \<Rightarrow> string list \<Rightarrow> te_error + problem list" where
  "control_problems label nc ws ids =
     (if \<not> is_dict nc \<or> \<not> keys_are nc [''id'', ''defect'', ''declared_fail_set'']
         \<or> get nc ''id'' \<noteq> JStr CONTROL_ID \<or> \<not> is_list (get nc ''declared_fail_set'')
         \<or> \<not> list_all is_str (elements (get nc ''declared_fail_set''))
      then Inr [Problem ''negative_control'' label]
      else
        (let declared = sort (map str_of (elements (get nc ''declared_fail_set''))) in
         bind_sum (run_control ws) (\<lambda>(ps, observed).
           Inr (problem_if (declared = []) ''empty declared fail set'' CONTROL_ID
                @ concat (map (\<lambda>d. problem_if (d \<notin> set ids) ''unknown declared case'' d) declared)
                @ ps @ problem_if (sort observed \<noteq> declared) ''declared fail set'' CONTROL_ID))))"

definition TOP_MEMBERS :: "string list" where
  "TOP_MEMBERS = [''family'', ''status'', ''provenance'', ''proposed_text'', ''negative_control'', ''cases'']"

definition run_document :: "string \<Rightarrow> bool \<Rightarrow> string \<Rightarrow> pyval \<Rightarrow> te_error + problem list" where
  "run_document label is_dev sha doc =
     (if \<not> is_dict doc \<or> \<not> keys_are doc TOP_MEMBERS then Inr [Problem ''top-level members'' label]
      else
        (let hs = header_problems label is_dev sha doc; cases = get doc ''cases'' in
         if \<not> is_list cases \<or> elements cases = [] then Inr (hs @ [Problem ''cases must be non-empty'' label])
         else
           bind_sum (collect_cases label 0 (elements cases) []) (\<lambda>(ps, ws, ids).
           bind_sum (match_reference ws) (\<lambda>ms.
           bind_sum (control_problems label (get doc ''negative_control'') ws ids) (\<lambda>cs.
             Inr (hs @ ps @ ms @ cs))))))"

definition run_file :: "string \<Rightarrow> bool \<Rightarrow> string \<Rightarrow> pyval \<Rightarrow> te_error + problem list" where
  "run_file label is_dev sha tree =
     (case load_case_tree tree of
        Inl pointer \<Rightarrow> Inr [Problem ''duplicate JSON member name'' pointer]
      | Inr doc \<Rightarrow> run_document label is_dev sha doc)"

section \<open>Lemmas\<close>

lemma find_None:
  "find_duplicate_member v pointer = None \<longleftrightarrow> unique_names v"
  "find_in_members seen pairs pointer = None \<longleftrightarrow>
     distinct (map fst pairs) \<and> set (map fst pairs) \<inter> set seen = {} \<and> list_all (\<lambda>(n, v). unique_names v) pairs"
  "find_in_items k items pointer = None \<longleftrightarrow> list_all unique_names items"
proof (induction v pointer and seen pairs pointer and k items pointer
    rule: find_duplicate_member_find_in_members_find_in_items.induct)
qed (auto split: option.splits)

lemma dict_of_distinct:
  assumes "distinct (map fst ps)"
  shows "dict_of ps = ps"
proof -
  have "fold (\<lambda>(n, v) d. AList.update n v d) ps acc = acc @ ps"
    if "distinct (map fst (acc @ ps))" for acc
    using that
  proof (induction ps arbitrary: acc)
    case (Cons p ps)
    have "AList.update (fst p) (snd p) acc = acc @ [p]"
      using Cons.prems by (induction acc) (auto split: prod.splits)
    with Cons.IH [of "acc @ [p]"] Cons.prems show ?case by (simp add: case_prod_beta)
  qed simp
  from this [of "[]"] show ?thesis using assms by (simp add: dict_of_def)
qed

lemma plain_unique: "unique_names v \<Longrightarrow> plain v = v"
proof (induction v rule: plain.induct)
  case (1 pairs)
  then have "map (\<lambda>(n, v). (n, plain v)) pairs = pairs"
    by (intro map_idI) (auto simp: list_all_iff)
  then show ?case using 1 by (simp add: dict_of_distinct)
next
  case (2 items)
  then show ?case by (auto simp: list_all_iff intro: map_idI)
qed auto

lemma problem_if_nil [simp]: "problem_if b what who = [] \<longleftrightarrow> \<not> b"
  by (simp add: problem_if_def)

fun read_as :: "pyval \<Rightarrow> ready \<Rightarrow> bool" where
  "read_as c (cid, inp, line) \<longleftrightarrow>
     get c ''id'' = JStr cid \<and> inp = get c ''input'' \<and> expected_line cid (get c ''expected'') = Inr (Inr line)"

lemma collect_cases_clean:
  assumes "collect_cases label k cs ids = Inr ([], ws, ids')"
  shows "list_all2 read_as cs ws \<and> distinct (map fst ws) \<and> set (map fst ws) \<inter> set ids = {}"
  using assms
proof (induction label k cs ids arbitrary: ws rule: collect_cases.induct)
  case (2 label k c cs ids)
  define cid where "cid = (if nonempty_str (get c ''id'') then str_of (get c ''id'') else ''#'' @ str_nat k)"
  from "2.prems" have ok: "is_dict c" "keys_are c [''id'', ''group'', ''label'', ''title'', ''input'', ''expected'']"
    by (auto simp: Let_def split: if_splits)
  from "2.prems" ok obtain want where e: "expected_line cid (get c ''expected'') = Inr want"
    by (auto simp: Let_def cid_def)
  obtain line where w: "want = Inr line"
    using "2.prems" ok e by (cases want) (auto simp: Let_def cid_def [symmetric])
  with "2.prems" ok e obtain ws' where r: "collect_cases label (Suc k) cs (cid # ids) = Inr ([], ws', ids')"
    and ws: "ws = (cid, get c ''input'', line) # ws'" and i: "JStr cid = get c ''id''" "cid \<notin> set ids"
    by (auto simp: Let_def cid_def [symmetric])
  have "\<not> (\<not> is_dict c \<or> \<not> keys_are c [''id'', ''group'', ''label'', ''title'', ''input'', ''expected''])"
    using ok by simp
  note IH = "2.IH"(2) [OF this cid_def refl]
  have "list_all2 read_as cs ws' \<and> distinct (map fst ws') \<and> set (map fst ws') \<inter> set (cid # ids) = {}"
    using IH r by simp
  then show ?case using e w ws i by auto
qed auto

lemma match_reference_clean:
  "match_reference ws = Inr [] \<Longrightarrow> (cid, inp, want) \<in> set ws \<Longrightarrow> reference inp = Inr want"
  by (induction ws rule: match_reference.induct) auto

lemma run_control_observed:
  "run_control ws = Inr ([], observed) \<Longrightarrow>
     set observed = {cid. \<exists>inp want. (cid, inp, want) \<in> set ws \<and> control inp \<noteq> Inr want}"
proof (induction ws arbitrary: observed rule: run_control.induct)
  case (2 cid inp want ws)
  then obtain got obs where "control inp = Inr got" "run_control ws = Inr ([], obs)"
    and obs: "observed = (if got \<noteq> want \<and> \<not> prefix ''fixture_error['' want then cid # obs else obs)"
      "prefix ''fixture_error['' want \<longrightarrow> got = want"
    by (auto split: if_splits)
  moreover have "{c. \<exists>i w. (c, i, w) \<in> set ((cid, inp, want) # ws) \<and> control i \<noteq> Inr w} =
     (if control inp = Inr want then {} else {cid}) \<union> {c. \<exists>i w. (c, i, w) \<in> set ws \<and> control i \<noteq> Inr w}"
    by auto
  ultimately show ?case using "2.IH" [of obs] by (auto split: if_splits)
qed simp

lemma control_problems_clean:
  assumes "control_problems label nc ws ids = Inr []"
  shows "set (map str_of (elements (get nc ''declared_fail_set''))) =
      {cid. \<exists>inp want. (cid, inp, want) \<in> set ws \<and> control inp \<noteq> Inr want} \<and>
    elements (get nc ''declared_fail_set'') \<noteq> []"
proof -
  obtain observed where "run_control ws = Inr ([], observed)"
    "sort observed = sort (map str_of (elements (get nc ''declared_fail_set'')))"
    "sort (map str_of (elements (get nc ''declared_fail_set''))) \<noteq> []"
    using assms by (auto simp: control_problems_def Let_def split: if_splits)
  moreover from this have "set observed = set (map str_of (elements (get nc ''declared_fail_set'')))"
    by (metis set_sort)
  ultimately show ?thesis using run_control_observed [of ws observed] by auto
qed

lemma keys_are_members: "keys_are (JObj m) ks \<longleftrightarrow> fst ` set m = set ks"
  by (simp add: keys_are_def)

lemma sort_remdups_idem: "sort (remdups (sort (remdups (xs :: string list)))) = sort (remdups xs)"
proof -
  have "distinct (sort (remdups xs))" by simp
  then show ?thesis by (simp add: distinct_remdups_id sorted_sort_id)
qed

section \<open>Properties of the runner\<close>

text \<open>A case file is refused exactly when some object in it repeats a member name, at any depth;
  otherwise the document handed on is the parsed tree itself, so no value was silently dropped.\<close>

theorem load_case_tree_iff:
  "load_case_tree tree = Inr doc \<longleftrightarrow> unique_names tree \<and> doc = tree"
  using find_None(1) [of tree "''''"] plain_unique [of tree]
  by (auto simp: load_case_tree_def split: option.splits)

text \<open>Every line the evaluation can return can be written as an expectation: the vocabulary of
  expectations accepts it and reads it back as the same line.\<close>

theorem evaluation_lines_are_expectable:
  assumes "evaluate inp honour = Inr line"
  shows "\<exists>e. expected_line cid e = Inr (Inr line)"
proof (cases "validate inp = []")
  case False
  let ?e = "JObj [(''fixture_error'', JArr (map JStr (validate inp)))]"
  have "map (str_of \<circ> JStr) (validate inp) = validate inp" by (simp add: comp_def)
  moreover have "validate inp = sort (remdups (validate inp))" by (simp add: validate_def sort_remdups_idem)
  ultimately have "expected_line cid ?e = Inr (Inr line)"
    using False assms
    by (simp add: expected_line_def keys_are_members get_def Let_def fixture_line_def evaluate_eq list_all_iff)
  then show ?thesis ..
next
  case True
  have *: "expected_line cid (JObj [(''verdict'', JStr v), (''reason'', JStr r)]) = Inr (Inr (v @ ''/'' @ r))"
    if "v \<in> set VERDICTS" and "map_of REASON_VERDICT r = Some v" for v r
  proof -
    have "r \<in> set (map fst REASON_VERDICT)" using that(2) by (force dest: map_of_SomeD)
    then show ?thesis using that
      by (auto simp: expected_line_def keys_are_members get_def Let_def hashable_def image_iff)
  qed
  have "\<exists>v r. line = v @ ''/'' @ r \<and> v \<in> set VERDICTS \<and> map_of REASON_VERDICT r = Some v"
  proof (cases "rule_line honour inp")
    case None
    then have "line = ''valid'' @ ''/'' @ ''teardown_accounts_for_accepted_set_under_stipulated_basis''"
      using True assms by (simp add: evaluate_eq VALID_LINE_def)
    then show ?thesis by (intro exI conjI) (assumption, simp_all add: VERDICTS_def REASON_VERDICT_def)
  next
    case (Some l)
    then have "line = l" using True assms by (simp add: evaluate_eq)
    moreover obtain v r where "(v, r) \<in> set RULE_REASONS" "l = v @ ''/'' @ r"
      using rule_line_range [OF Some] by auto
    moreover have "list_all (\<lambda>(v, r). map_of REASON_VERDICT r = Some v \<and> v \<in> set VERDICTS) RULE_REASONS"
      by code_simp
    ultimately show ?thesis unfolding list_all_iff by blast
  qed
  then show ?thesis using * by blast
qed

theorem evaluation_lines_are_expectable_witness:
  "\<exists>e. expected_line ''TA-DEV-a'' e = Inr (Inr VALID_LINE)"
  by (rule evaluation_lines_are_expectable [of TA_DEV_a True]) code_simp

text \<open>A run over a case file that reports no problem has checked what it says: no member name is
  repeated, the cases have pairwise different ids, each expectation is well formed and is exactly what
  the reference answers, and the declared fail set of the negative control, which is not empty, is
  exactly the set of cases the control answers differently.\<close>

theorem run_file_clean:
  assumes "run_file label is_dev sha doc = Inr []"
  shows "unique_names doc \<and>
    (\<forall>c \<in> set (elements (get doc ''cases'')). \<exists>cid line. get c ''id'' = JStr cid \<and>
        expected_line cid (get c ''expected'') = Inr (Inr line) \<and> reference (get c ''input'') = Inr line) \<and>
    distinct (map (\<lambda>c. get c ''id'') (elements (get doc ''cases''))) \<and>
    elements (get (get doc ''negative_control'') ''declared_fail_set'') \<noteq> [] \<and>
    set (map str_of (elements (get (get doc ''negative_control'') ''declared_fail_set''))) =
      {cid. \<exists>c \<in> set (elements (get doc ''cases'')). get c ''id'' = JStr cid \<and> control (get c ''input'') \<noteq> reference (get c ''input'')}"
proof -
  have u: "unique_names doc" and run: "run_document label is_dev sha doc = Inr []"
    using assms find_None(1) [of doc "''''"] plain_unique [of doc]
    by (auto simp: run_file_def load_case_tree_def split: option.splits)
  let ?cs = "elements (get doc ''cases'')"
  obtain ws ids where c: "collect_cases label 0 ?cs [] = Inr ([], ws, ids)"
    and m: "match_reference ws = Inr []"
    and n: "control_problems label (get doc ''negative_control'') ws ids = Inr []"
    using run by (auto simp: run_document_def Let_def split: if_splits)
  have r: "list_all2 read_as ?cs ws" and d: "distinct (map fst ws)" using collect_cases_clean [OF c] by auto
  have ids: "map (\<lambda>c. get c ''id'') ?cs = map (JStr \<circ> fst) ws"
    using r by (induction rule: list_all2_induct) auto
  have fwd: "\<exists>w \<in> set ws. read_as x w" if "x \<in> set ?cs" for x
    using list_all2_left [OF r that] .
  have bwd: "\<exists>x \<in> set ?cs. read_as x w" if "w \<in> set ws" for w
    using list_all2_right [OF r that] .
  have ref: "reference inp = Inr line" if "(cid, inp, line) \<in> set ws" for cid inp line
    using match_reference_clean [OF m that] .
  have "{cid. \<exists>inp want. (cid, inp, want) \<in> set ws \<and> control inp \<noteq> Inr want} =
      {cid. \<exists>c \<in> set ?cs. get c ''id'' = JStr cid \<and> control (get c ''input'') \<noteq> reference (get c ''input'')}"
    (is "?A = ?B")
  proof
    show "?A \<subseteq> ?B" using bwd ref by fastforce
    show "?B \<subseteq> ?A" using fwd ref by fastforce
  qed
  moreover have "distinct (map (\<lambda>c. get c ''id'') ?cs)"
    using d unfolding ids by (simp add: distinct_map inj_on_def)
  moreover have "\<exists>cid line. get x ''id'' = JStr cid \<and> expected_line cid (get x ''expected'') = Inr (Inr line)
      \<and> reference (get x ''input'') = Inr line" if "x \<in> set ?cs" for x
    using fwd [OF that] ref by fastforce
  ultimately show ?thesis using u control_problems_clean [OF n] by simp
qed

section \<open>The development cases\<close>

definition dev_case :: "string \<Rightarrow> string \<Rightarrow> pyval \<Rightarrow> string \<Rightarrow> string \<Rightarrow> pyval" where
  "dev_case cid title inp verdict reason =
     JObj [(''id'', JStr cid), (''group'', JStr ''teardown_accounting''),
           (''label'', JStr ''candidate_against_proposed''), (''title'', JStr title), (''input'', inp),
           (''expected'', JObj [(''verdict'', JStr verdict), (''reason'', JStr reason)])]"

definition dev_cases :: "pyval list" where
  "dev_cases =
     [dev_case ''TA-DEV-a'' ''Positive control'' TA_DEV_a ''valid'' ''teardown_accounts_for_accepted_set_under_stipulated_basis'',
      dev_case ''TA-DEV-b'' ''Runtime binding for sink-b removed''
        (put TA_DEV_a [''runtime_bindings''] (JObj [(''sink-a'', get (get TA_DEV_a ''runtime_bindings'') ''sink-a'')]))
        ''not_established'' ''runtime_binding_not_established'',
      dev_case ''TA-DEV-c'' ''Cutoff ordering evidence removed'' (put TA_DEV_a [''cutoff_ordering_evidence''] JNull)
        ''not_established'' ''cutoff_ordering_not_established'',
      dev_case ''TA-DEV-d'' ''Cutoff ordering attested by the party that asserted the stop'' TA_DEV_d
        ''not_established'' ''cutoff_ordering_independence_not_established'',
      dev_case ''TA-DEV-e'' ''An accepted descendant omitted from the teardown''
        (put TA_DEV_a [''teardown'', ''processed''] (JArr [JStr ''d1'', JStr ''d2'']))
        ''invalid'' ''accepted_descendant_missing_from_teardown'',
      dev_case ''TA-DEV-f'' ''The cutoff commitment disagrees with the admissions''
        (put TA_DEV_a [''cutoff'', ''committed_members''] (JArr [JStr ''d1'', JStr ''d2'']))
        ''not_established'' ''accepted_set_not_committed'',
      dev_case ''TA-DEV-g'' ''The ordering interval misses the cutoff''
        (put (put TA_DEV_a [''cutoff_ordering_evidence'', ''covers_from''] (JStr ''2026-09-20T11:02:00Z''))
           [''cutoff_ordering_evidence'', ''covers_to''] (JStr ''2026-09-20T11:04:00Z''))
        ''not_established'' ''cutoff_ordering_not_established'',
      dev_case ''TA-DEV-h'' ''The ordering interval covers the cutoff but ends after the stop observation''
        (put TA_DEV_a [''cutoff_ordering_evidence'', ''covers_to''] (JStr ''2026-09-20T11:06:00Z''))
        ''not_established'' ''cutoff_ordering_not_established'']"

definition dev_document :: "pyval list \<Rightarrow> string list \<Rightarrow> string \<Rightarrow> pyval" where
  "dev_document cs fails sha =
     JObj [(''family'', JStr ''teardown-accounting''), (''status'', JStr ''candidate_against_proposed''),
           (''provenance'', JStr DEV_PROVENANCE),
           (''proposed_text'', JObj [(''path'', JStr PROPOSED_PATH), (''sha256'', JStr sha)]),
           (''negative_control'', JObj [(''id'', JStr CONTROL_ID), (''defect'', JStr ''ordering taken as given''),
              (''declared_fail_set'', JArr (map JStr fails))]),
           (''cases'', JArr cs)]"

lemma dev_reference:
  "reference TA_DEV_a = Inr ''valid/teardown_accounts_for_accepted_set_under_stipulated_basis''"
  "reference TA_DEV_d = Inr ''not_established/cutoff_ordering_independence_not_established''"
  by code_simp+

lemma dev_control:
  "control TA_DEV_a = Inr ''valid/teardown_accounts_for_accepted_set_under_stipulated_basis''"
  "control TA_DEV_d = Inr ''valid/teardown_accounts_for_accepted_set_under_stipulated_basis''"
  by code_simp+

theorem run_file_clean_witness:
  "{cid. \<exists>c \<in> set [dev_cases ! 0, dev_cases ! 3]. get c ''id'' = JStr cid \<and>
      control (get c ''input'') \<noteq> reference (get c ''input'')} = {''TA-DEV-d''}"
proof -
  let ?cs = "[dev_cases ! 0, dev_cases ! 3]"
  have cs: "?cs = [dev_case ''TA-DEV-a'' ''Positive control'' TA_DEV_a ''valid'' ''teardown_accounts_for_accepted_set_under_stipulated_basis'',
      dev_case ''TA-DEV-d'' ''Cutoff ordering attested by the party that asserted the stop'' TA_DEV_d
        ''not_established'' ''cutoff_ordering_independence_not_established'']"
    by (simp add: dev_cases_def)
  have "load_case_tree (dev_document ?cs [''TA-DEV-d''] ''5d9a'') = Inr (dev_document ?cs [''TA-DEV-d''] ''5d9a'')"
    by code_simp
  then have "run_file ''dev-cases.json'' True ''5d9a'' (dev_document ?cs [''TA-DEV-d''] ''5d9a'') = Inr []"
    unfolding run_file_def cs
    by (simp add: run_document_def dev_document_def dev_case_def keys_are_def TOP_MEMBERS_def get_def Let_def
        header_problems_def problem_if_def nonempty_str_def expected_line_def VERDICTS_def REASON_VERDICT_def
        hashable_def control_problems_def dev_reference dev_control insert_commute)
  from run_file_clean [OF this] show ?thesis by (simp add: dev_document_def get_def)
qed

text \<open>On the eight development cases of the family the reference gives the line each case
  expects.\<close>

theorem dev_cases_reproduced:
  "map (\<lambda>c. expected_line (str_of (get c ''id'')) (get c ''expected'')) dev_cases
     = map (\<lambda>c. map_sum id Inr (reference (get c ''input''))) dev_cases"
  by code_simp

end
