(* ===== verification/Jcs.thy ===== *)
theory Jcs
  imports Prelude "HOL-Library.Multiset"
begin

text \<open>
  The JSON canonicalisation (RFC 8785 subset) that three adapters carry their own copy of:
  \<open>interop/sharif-aat-03/adapter/py/aat.py\<close>,
  \<open>interop/cosai-odis-148dc41/adapter/py/odis.py\<close> and
  \<open>interop/vaid-a2a-0.1.1-cleanroom-ca6077a2/vaid_cr.py\<close>. Strings are lists of Unicode code
  points; members are ordered by the bytes of the UTF-16-BE encoding of their names; a lone
  surrogate has no encoding and raises. The results: the order in which members were inserted does
  not matter, the output determines the value up to that order, and the three copies agree.
\<close>

type_synonym cp = nat
type_synonym jval = "cp json"

datatype jcs_error = FloatError | UnicodeEncodeError

section \<open>Encodings\<close>

definition surrogate :: "cp \<Rightarrow> bool" where
  "surrogate c \<longleftrightarrow> 55296 \<le> c \<and> c < 57344"

text \<open>A Python string has only code points below 1114112; a surrogate among them has no encoding.\<close>

definition scalar :: "cp \<Rightarrow> bool" where
  "scalar c \<longleftrightarrow> c < 1114112 \<and> \<not> surrogate c"

definition encodable :: "cp list \<Rightarrow> bool" where
  "encodable s = list_all scalar s"

definition utf16_units :: "cp \<Rightarrow> nat list" where
  "utf16_units c =
     (if c < 65536 then [c] else [55296 + (c - 65536) div 1024, 56320 + (c - 65536) mod 1024])"

text \<open>\<open>s.encode('utf-16-be')\<close>\<close>

definition utf16_key :: "cp list \<Rightarrow> nat list" where
  "utf16_key s = concat (map (\<lambda>u. [u div 256, u mod 256]) (concat (map utf16_units s)))"

definition utf8_bytes :: "cp \<Rightarrow> nat list" where
  "utf8_bytes c =
     (if c < 128 then [c]
      else if c < 2048 then [192 + c div 64, 128 + c mod 64]
      else if c < 65536 then [224 + c div 4096, 128 + c div 64 mod 64, 128 + c mod 64]
      else [240 + c div 262144, 128 + c div 4096 mod 64, 128 + c div 64 mod 64, 128 + c mod 64])"

definition encode_utf8 :: "cp list \<Rightarrow> jcs_error + nat list" where
  "encode_utf8 s = (if encodable s then Inr (concat (map utf8_bytes s)) else Inl UnicodeEncodeError)"

abbreviation cps :: "string \<Rightarrow> cp list" where
  "cps s \<equiv> map of_char s"

section \<open>The canonicaliser of the AAT adapter\<close>

definition hex :: "nat \<Rightarrow> cp" where
  "hex d = (if d < 10 then 48 + d else 87 + d)"

definition jcs_char :: "cp \<Rightarrow> cp list" where
  "jcs_char c =
     (if c = 34 then [92, 34] else if c = 92 then [92, 92]
      else if c = 8 then [92, 98] else if c = 12 then [92, 102] else if c = 10 then [92, 110]
      else if c = 13 then [92, 114] else if c = 9 then [92, 116]
      else if c < 32 then [92, 117, 48, 48, hex (c div 16), hex (c mod 16)]
      else [c])"

definition jcs_str :: "cp list \<Rightarrow> cp list" where
  "jcs_str s = [34] @ concat (map jcs_char s) @ [34]"

definition str_int :: "int \<Rightarrow> cp list" where
  "str_int i = (if i < 0 then 45 # cps (str_nat (nat (- i))) else cps (str_nat (nat i)))"

definition sorted_members :: "(cp list \<times> 'a) list \<Rightarrow> (cp list \<times> 'a) list" where
  "sorted_members ms = sort_key (\<lambda>kv. utf16_key (fst kv)) ms"

text \<open>The names are encoded for the sort before any value is visited; the values are then serialised in
  sorted order. The model pairs each name with its value's result, sorts the pairs, and takes the
  texts or the first error in that order.\<close>

fun ser :: "jval \<Rightarrow> jcs_error + cp list" where
  "ser JNull = Inr (cps ''null'')"
| "ser (JBool b) = Inr (if b then cps ''true'' else cps ''false'')"
| "ser (JInt i) = Inr (str_int i)"
| "ser (JFloat r) = Inl FloatError"
| "ser (JStr s) = Inr (jcs_str s)"
| "ser (JArr xs) = bind_sum (traverse id (map ser xs)) (\<lambda>ts. Inr (cps ''['' @ join (cps '','') ts @ cps '']''))"
| "ser (JObj ms) =
     (if \<not> list_all (\<lambda>(k, v). encodable k) ms then Inl UnicodeEncodeError
      else bind_sum (traverse (\<lambda>(k, t). bind_sum t (\<lambda>x. Inr (jcs_str k @ cps '':'' @ x)))
                       (sorted_members (map (\<lambda>(k, v). (k, ser v)) ms)))
             (\<lambda>ts. Inr (cps ''{'' @ join (cps '','') ts @ cps ''}'')))"

definition jcs :: "jval \<Rightarrow> jcs_error + nat list" where
  "jcs v = bind_sum (ser v) encode_utf8"

section \<open>The canonicaliser of the ODIS adapter\<close>

text \<open>Its string escapes are tested in another order, and it sorts the names and looks each one up.\<close>

definition odis_char :: "cp \<Rightarrow> cp list" where
  "odis_char c =
     (if c = 34 then [92, 34] else if c = 92 then [92, 92]
      else if c = 10 then [92, 110] else if c = 13 then [92, 114] else if c = 9 then [92, 116]
      else if c = 8 then [92, 98] else if c = 12 then [92, 102]
      else if c < 32 then [92, 117, 48, 48, hex (c div 16), hex (c mod 16)]
      else [c])"

definition odis_str :: "cp list \<Rightarrow> cp list" where
  "odis_str s = [34] @ concat (map odis_char s) @ [34]"

fun odis_ser :: "jval \<Rightarrow> jcs_error + cp list" where
  "odis_ser JNull = Inr (cps ''null'')"
| "odis_ser (JBool b) = Inr (if b then cps ''true'' else cps ''false'')"
| "odis_ser (JInt i) = Inr (str_int i)"
| "odis_ser (JFloat r) = Inl FloatError"
| "odis_ser (JStr s) = Inr (odis_str s)"
| "odis_ser (JArr xs) =
     bind_sum (traverse id (map odis_ser xs)) (\<lambda>ts. Inr (cps ''['' @ join (cps '','') ts @ cps '']''))"
| "odis_ser (JObj ms) =
     (if \<not> list_all (\<lambda>(k, v). encodable k) ms then Inl UnicodeEncodeError
      else let texts = map (\<lambda>(k, v). (k, odis_ser v)) ms in
        bind_sum (traverse (\<lambda>k. bind_sum (the (map_of texts k)) (\<lambda>x. Inr (odis_str k @ cps '':'' @ x)))
                    (sort_key utf16_key (map fst ms)))
             (\<lambda>ts. Inr (cps ''{'' @ join (cps '','') ts @ cps ''}'')))"

definition odis_jcs :: "jval \<Rightarrow> jcs_error + nat list" where
  "odis_jcs v = bind_sum (odis_ser v) encode_utf8"

section \<open>Prefix codes\<close>

text \<open>A code whose words can be told apart from the left is injective on sequences; with a stop
  symbol that starts no word, the end of the sequence can be found too.\<close>

locale prefix_code =
  fixes enc :: "'a \<Rightarrow> 'b list" and ok :: "'a \<Rightarrow> bool"
  assumes enc_nonempty: "ok a \<Longrightarrow> enc a \<noteq> []"
    and enc_prefix: "ok a \<Longrightarrow> ok b \<Longrightarrow> enc a @ r = enc b @ r' \<Longrightarrow> a = b"
begin

lemma concat_inj:
  "list_all ok s \<Longrightarrow> list_all ok t \<Longrightarrow> concat (map enc s) = concat (map enc t) \<Longrightarrow> s = t"
proof (induction s arbitrary: t)
  case Nil
  then show ?case using enc_nonempty by (cases t) auto
next
  case (Cons a s)
  then obtain b t' where t: "t = b # t'" using enc_nonempty by (cases t) auto
  then have "a = b" using Cons.prems enc_prefix by simp
  with t Cons show ?case by simp
qed

end

locale terminated_code = prefix_code +
  fixes stop :: 'b
  assumes stop_fresh: "ok a \<Longrightarrow> hd (enc a) \<noteq> stop"
begin

lemma concat_stop_inj:
  "list_all ok s \<Longrightarrow> list_all ok t \<Longrightarrow> concat (map enc s) @ stop # r = concat (map enc t) @ stop # r'
     \<Longrightarrow> s = t \<and> r = r'"
proof (induction s arbitrary: t)
  case Nil
  show ?case
  proof (cases t)
    case (Cons b t')
    obtain x xs where "enc b = x # xs" "x \<noteq> stop"
      using Nil Cons enc_nonempty [of b] stop_fresh [of b] by (cases "enc b") auto
    then show ?thesis using Nil Cons by simp
  qed (use Nil in simp)
next
  case (Cons a s)
  obtain x xs where x: "enc a = x # xs" "x \<noteq> stop"
    using Cons.prems enc_nonempty [of a] stop_fresh [of a] by (cases "enc a") auto
  then obtain b t' where t: "t = b # t'" using Cons.prems by (cases t) auto
  then have "a = b" using Cons.prems enc_prefix [of a b] by simp
  with t Cons show ?case by simp
qed

end

lemma div_mod_unique: "(x :: nat) div n = y div n \<Longrightarrow> x mod n = y mod n \<Longrightarrow> x = y"
  by (metis div_mult_mod_eq)

interpretation utf16: prefix_code utf16_units scalar
proof unfold_locales
  fix a b r r'
  assume "scalar a" "scalar b" and eq: "utf16_units a @ r = utf16_units b @ r'"
  show "a = b"
  proof (cases "a < 65536 \<or> b < 65536")
    case True
    then show ?thesis using eq \<open>scalar a\<close> \<open>scalar b\<close>
      by (auto simp: utf16_units_def scalar_def surrogate_def split: if_splits)
  next
    case False
    then have "(a - 65536) div 1024 = (b - 65536) div 1024" "(a - 65536) mod 1024 = (b - 65536) mod 1024"
      using eq by (auto simp: utf16_units_def)
    then have "a - 65536 = b - 65536" by (rule div_mod_unique)
    then show ?thesis using False by arith
  qed
qed (simp add: utf16_units_def)

interpretation unit_bytes: prefix_code "\<lambda>u :: nat. [u div 256, u mod 256]" "\<lambda>_. True"
  by unfold_locales (auto intro: div_mod_unique)

definition unhex :: "cp \<Rightarrow> nat" where
  "unhex h = (if h < 58 then h - 48 else h - 87)"

definition unescape :: "cp list \<Rightarrow> cp" where
  "unescape xs =
     (if xs ! 0 \<noteq> 92 then xs ! 0 else if xs ! 1 = 34 then 34 else if xs ! 1 = 92 then 92
      else if xs ! 1 = 98 then 8 else if xs ! 1 = 102 then 12 else if xs ! 1 = 110 then 10
      else if xs ! 1 = 114 then 13 else if xs ! 1 = 116 then 9
      else 16 * unhex (xs ! 4) + unhex (xs ! 5))"

lemma unhex_hex: "d < 16 \<Longrightarrow> unhex (hex d) = d"
  by (simp add: hex_def unhex_def)

lemma unescape_jcs_char: "unescape (jcs_char c @ r) = c"
proof (cases "c \<in> {34, 92, 8, 12, 10, 13, 9} \<or> 32 \<le> c")
  case True
  then show ?thesis by (auto simp: jcs_char_def unescape_def)
next
  case False
  then have "jcs_char c = [92, 117, 48, 48, hex (c div 16), hex (c mod 16)]" "c div 16 < 16"
    by (auto simp: jcs_char_def)
  then show ?thesis by (simp add: unescape_def unhex_hex)
qed

interpretation json_char: terminated_code jcs_char "\<lambda>_. True" 34
proof unfold_locales
  fix a b :: cp and r r'
  assume "jcs_char a @ r = jcs_char b @ r'"
  then show "a = b" by (metis unescape_jcs_char)
qed (simp_all add: jcs_char_def)

lemma utf16_key_inj:
  assumes "encodable s" and "encodable t" and "utf16_key s = utf16_key t"
  shows "s = t"
proof (rule utf16.concat_inj)
  show "concat (map utf16_units s) = concat (map utf16_units t)"
    by (rule unit_bytes.concat_inj [OF _ _ assms(3) [unfolded utf16_key_def]]) (simp_all add: list_all_iff)
qed (use assms in \<open>simp_all add: encodable_def\<close>)

lemma jcs_str_inj: "jcs_str s @ r = jcs_str t @ r' \<Longrightarrow> s = t \<and> r = r'"
  using json_char.concat_stop_inj [of s t r r'] by (simp add: jcs_str_def list_all_iff)

section \<open>The canonical value and its text\<close>

fun canon :: "jval \<Rightarrow> jval" where
  "canon (JArr xs) = JArr (map canon xs)"
| "canon (JObj ms) = JObj (sorted_members (map (\<lambda>(k, v). (k, canon v)) ms))"
| "canon v = v"

fun ser0 :: "jval \<Rightarrow> cp list" where
  "ser0 JNull = cps ''null''"
| "ser0 (JBool b) = (if b then cps ''true'' else cps ''false'')"
| "ser0 (JInt i) = str_int i"
| "ser0 (JFloat r) = []"
| "ser0 (JStr s) = jcs_str s"
| "ser0 (JArr xs) = cps ''['' @ join (cps '','') (map ser0 xs) @ cps '']''"
| "ser0 (JObj ms) = cps ''{'' @ join (cps '','') (map (\<lambda>(k, v). jcs_str k @ cps '':'' @ ser0 v) ms) @ cps ''}''"

text \<open>Values the canonicaliser accepts: no floating point number, every member name encodable\<close>

fun accepted :: "jval \<Rightarrow> bool" where
  "accepted (JFloat r) \<longleftrightarrow> False"
| "accepted (JArr xs) \<longleftrightarrow> list_all accepted xs"
| "accepted (JObj ms) \<longleftrightarrow> list_all (\<lambda>(k, v). encodable k \<and> accepted v) ms"
| "accepted v \<longleftrightarrow> True"

lemma insort_key_map: "insort_key f (g x) (map g xs) = map g (insort_key (f \<circ> g) x xs)"
  by (induction xs) auto

lemma sort_key_map: "sort_key f (map g xs) = map g (sort_key (f \<circ> g) xs)"
  by (induction xs) (simp_all add: insort_key_map del: comp_apply)

lemma sorted_members_map:
  "sorted_members (map (\<lambda>(k, v). (k, g v)) ms) = map (\<lambda>(k, v). (k, g v)) (sorted_members ms)"
  unfolding sorted_members_def sort_key_map by (simp add: comp_def case_prod_beta)

lemma set_sorted_members [simp]: "set (sorted_members ms) = set ms"
  by (simp add: sorted_members_def)

lemma traverse_id_Inr: "traverse id (map (\<lambda>x. Inr (g x)) xs) = Inr (map g xs)"
  by (induction xs) auto

lemma traverse_Inl: "\<exists>x \<in> set xs. \<exists>e. f x = Inl e \<Longrightarrow> \<exists>e. traverse f xs = Inl e"
proof (induction xs)
  case (Cons x xs)
  then show ?case by (cases "f x"; cases "traverse f xs") auto
qed simp

lemma traverse_members:
  "traverse (\<lambda>(k, t). bind_sum t (\<lambda>x. Inr (jcs_str k @ cps '':'' @ x))) (map (\<lambda>(k, v). (k, Inr (g v))) ns)
     = Inr (map (\<lambda>(k, v). jcs_str k @ cps '':'' @ g v) ns)"
  by (induction ns) auto

lemma ser_accepted: "accepted v \<Longrightarrow> ser v = Inr (ser0 (canon v))"
proof (induction v rule: ser.induct)
  case (6 xs)
  then have "map ser xs = map (\<lambda>x. Inr (ser0 (canon x))) xs" by (auto simp: list_all_iff)
  then have "traverse id (map ser xs) = Inr (map (\<lambda>x. ser0 (canon x)) xs)" by (simp only: traverse_id_Inr)
  then show ?case by (simp add: comp_def)
next
  case (7 ms)
  let ?f = "\<lambda>(k, t). bind_sum t (\<lambda>x. Inr (jcs_str k @ cps '':'' @ x))"
  have enc: "list_all (\<lambda>(k, v). encodable k) ms" and acc: "\<And>k v. (k, v) \<in> set ms \<Longrightarrow> accepted v"
    using "7.prems" by (auto simp: list_all_iff)
  have "\<And>k v. (k, v) \<in> set ms \<Longrightarrow> ser v = Inr (ser0 (canon v))" using "7.IH" enc acc by auto
  then have "map (\<lambda>(k, v). (k, ser v)) ms = map (\<lambda>(k, v). (k, Inr (ser0 (canon v)))) ms" by auto
  then have "traverse ?f (sorted_members (map (\<lambda>(k, v). (k, ser v)) ms))
      = traverse ?f (map (\<lambda>(k, v). (k, Inr (ser0 (canon v)))) (sorted_members ms))"
    by (simp only: sorted_members_map)
  also have "\<dots> = Inr (map (\<lambda>(k, v). jcs_str k @ cps '':'' @ ser0 (canon v)) (sorted_members ms))"
    by (rule traverse_members)
  also have "map (\<lambda>(k, v). jcs_str k @ cps '':'' @ ser0 (canon v)) (sorted_members ms) =
      map (\<lambda>(k, v). jcs_str k @ cps '':'' @ ser0 v) (sorted_members (map (\<lambda>(k, v). (k, canon v)) ms))"
    unfolding sorted_members_map by auto
  finally show ?case using enc by simp
qed auto

lemma ser_rejected: "\<not> accepted v \<Longrightarrow> \<exists>e. ser v = Inl e"
proof (induction v rule: ser.induct)
  case (6 xs)
  then obtain x e where "x \<in> set xs" "ser x = Inl e" by (auto simp: list_all_iff) blast
  then have "\<exists>e. traverse id (map ser xs) = Inl e" by (intro traverse_Inl) force
  then show ?case by auto
next
  case (7 ms)
  let ?f = "\<lambda>(k, t). bind_sum t (\<lambda>x. Inr (jcs_str k @ cps '':'' @ x))"
  show ?case
  proof (cases "list_all (\<lambda>(k, v). encodable k) ms")
    case True
    then obtain k v where kv: "(k, v) \<in> set ms" "\<not> accepted v" using "7.prems" by (auto simp: list_all_iff)
    with "7.IH" True obtain e where "ser v = Inl e" by (metis fst_conv)
    with kv have "(k, v) \<in> set ms" "ser v = Inl e" by auto
    then have "\<exists>x \<in> set (sorted_members (map (\<lambda>(k, v). (k, ser v)) ms)). \<exists>e. ?f x = Inl e" by force
    from traverse_Inl [OF this] show ?thesis using True by auto
  qed auto
qed auto

lemma ser_Inr_iff: "ser v = Inr s \<longleftrightarrow> accepted v \<and> s = ser0 (canon v)"
  using ser_accepted [of v] ser_rejected [of v] by (cases "accepted v") auto

section \<open>The text determines the canonical value\<close>

definition is_digit_cp :: "cp \<Rightarrow> bool" where
  "is_digit_cp c \<longleftrightarrow> 48 \<le> c \<and> c \<le> 57"

definition stops :: "cp list \<Rightarrow> bool" where
  "stops r \<longleftrightarrow> r = [] \<or> \<not> is_digit_cp (hd r)"

definition value_cp :: "cp list \<Rightarrow> nat" where
  "value_cp s = foldl (\<lambda>n c. 10 * n + (c - 48)) 0 s"

lemma of_char_digit: "d < 10 \<Longrightarrow> of_char (char_of (48 + d :: nat)) = (48 + d :: nat)"
  by simp

lemma cps_str_nat:
  "list_all is_digit_cp (cps (str_nat n)) \<and> value_cp (cps (str_nat n)) = n \<and> cps (str_nat n) \<noteq> []"
proof (induction n rule: str_nat.induct)
  case (1 n)
  show ?case
  proof (cases "n < 10")
    case True
    then show ?thesis by (subst (1 2 3) str_nat.simps) (simp add: of_char_digit is_digit_cp_def value_cp_def)
  next
    case False
    then have "cps (str_nat n) = cps (str_nat (n div 10)) @ [48 + n mod 10]"
      by (subst str_nat.simps) (simp add: of_char_digit)
    with 1 False show ?thesis by (auto simp: is_digit_cp_def value_cp_def)
  qed
qed

lemma digits_stop_inj:
  assumes "ds @ r = es @ r'" and "list_all is_digit_cp ds" and "list_all is_digit_cp es" and "stops r" and "stops r'"
  shows "ds = es \<and> r = r'"
proof -
  have "takeWhile is_digit_cp (xs @ q) = xs" if "list_all is_digit_cp xs" and "stops q" for xs q
    using that by (induction xs) (cases q; auto simp: stops_def)+
  then have "ds = es" using assms by metis
  then show ?thesis using assms(1) by simp
qed

lemma str_int_inj:
  assumes "str_int i @ r = str_int j @ r'" and "stops r" and "stops r'"
  shows "i = j \<and> r = r'"
proof -
  have minus: "\<not> is_digit_cp 45" by (simp add: is_digit_cp_def)
  have hd: "is_digit_cp (hd (cps (str_nat n) @ q))" for n q
    using cps_str_nat [of n] by (cases "cps (str_nat n)") auto
  have nat: "m = n \<and> r = r'" if "cps (str_nat m) @ r = cps (str_nat n) @ r'" for m n
    using digits_stop_inj [OF that] cps_str_nat [of m] cps_str_nat [of n] assms by metis
  consider "i < 0" "j < 0" | "0 \<le> i" "0 \<le> j" | "i < 0" "0 \<le> j" | "0 \<le> i" "j < 0" by linarith
  then show ?thesis
  proof cases
    case 1
    then have "nat (- i) = nat (- j) \<and> r = r'" using assms(1) by (intro nat) (simp add: str_int_def)
    then show ?thesis using 1 by auto
  next
    case 2
    then have "nat i = nat j \<and> r = r'" using assms(1) by (intro nat) (simp add: str_int_def)
    then show ?thesis using 2 by auto
  next
    case 3
    then have "hd (cps (str_nat (nat j)) @ r') = 45" using assms(1) by (simp add: str_int_def) (metis list.sel(1))
    then show ?thesis using hd [of "nat j" r'] minus by simp
  next
    case 4
    then have "hd (cps (str_nat (nat i)) @ r) = 45" using assms(1) by (simp add: str_int_def)
    then show ?thesis using hd [of "nat i" r] minus by simp
  qed
qed

lemma join_Cons: "join sep (x # xs) = x @ concat (map (\<lambda>y. sep @ y) xs)"
  by (induction xs arbitrary: x) auto

lemma tail_inj:
  assumes "\<And>x y r r'. x \<in> set xs \<Longrightarrow> y \<in> set ys \<Longrightarrow> stops r \<Longrightarrow> stops r' \<Longrightarrow> f x @ r = f y @ r' \<Longrightarrow> x = y \<and> r = r'"
    and "c \<noteq> 44" and "\<not> is_digit_cp c"
    and "concat (map (\<lambda>y. 44 # f y) xs) @ c # r = concat (map (\<lambda>y. 44 # f y) ys) @ c # r'"
  shows "xs = ys \<and> r = r'"
  using assms(1,4)
proof (induction xs arbitrary: ys)
  case Nil
  then show ?case using assms(2) by (cases ys) auto
next
  case (Cons x xs)
  obtain y ys' where ys: "ys = y # ys'" using Cons.prems(2) assms(2) by (cases ys) auto
  have stop: "stops (concat (map (\<lambda>y. 44 # f y) zs) @ c # q)" for zs q
    using assms(3) by (cases zs) (simp_all add: stops_def is_digit_cp_def)
  have "f x @ concat (map (\<lambda>y. 44 # f y) xs) @ c # r = f y @ concat (map (\<lambda>y. 44 # f y) ys') @ c # r'"
    using Cons.prems(2) ys by simp
  then have "x = y \<and> concat (map (\<lambda>y. 44 # f y) xs) @ c # r = concat (map (\<lambda>y. 44 # f y) ys') @ c # r'"
    using Cons.prems(1) [OF _ _ stop stop, of x y] ys by simp
  moreover from this have "xs = ys' \<and> r = r'"
    by (intro Cons.IH) (use Cons.prems(1) ys in auto)
  ultimately show ?case using ys by simp
qed

lemma joined_inj:
  assumes dec: "\<And>x y r r'. x \<in> set xs \<Longrightarrow> y \<in> set ys \<Longrightarrow> stops r \<Longrightarrow> stops r' \<Longrightarrow> f x @ r = f y @ r' \<Longrightarrow> x = y \<and> r = r'"
    and hd: "\<And>y. y \<in> set xs \<union> set ys \<Longrightarrow> f y \<noteq> [] \<and> hd (f y) \<noteq> c"
    and c: "c \<noteq> 44" "\<not> is_digit_cp c"
    and eq: "join [44] (map f xs) @ c # r = join [44] (map f ys) @ c # r'"
  shows "xs = ys \<and> r = r'"
proof -
  have clash: "zs = []" if zs: "set zs \<subseteq> set xs \<union> set ys" "c # q = join [44] (map f zs) @ q'" for zs q q'
  proof (cases zs)
    case z: (Cons z zs')
    then obtain h t where "f z = h # t" "h \<noteq> c" using hd [of z] zs(1) by (cases "f z") auto
    with zs(2) show ?thesis by (simp add: z join_Cons)
  qed
  show ?thesis
  proof (cases "xs = [] \<or> ys = []")
    case True
    then have "xs = []" and "ys = []" using eq clash [of xs r' "c # r"] clash [of ys r "c # r'"] by auto
    then show ?thesis using eq by simp
  next
    case False
    then obtain x xs' y ys' where l: "xs = x # xs'" "ys = y # ys'" by (metis neq_Nil_conv)
    have "concat (map (\<lambda>y. 44 # f y) (x # xs')) @ c # r = concat (map (\<lambda>y. 44 # f y) (y # ys')) @ c # r'"
      using eq by (simp add: l join_Cons comp_def)
    from tail_inj [OF dec c this] show ?thesis unfolding l by blast
  qed
qed

text \<open>The first character tells the kind of value.\<close>

definition starts_like :: "jval \<Rightarrow> cp \<Rightarrow> bool" where
  "starts_like v c =
     (case v of
        JNull \<Rightarrow> c = 110 | JBool b \<Rightarrow> c = (if b then 116 else 102) | JInt i \<Rightarrow> c = 45 \<or> is_digit_cp c
      | JFloat r \<Rightarrow> False | JStr s \<Rightarrow> c = 34 | JArr xs \<Rightarrow> c = 91 | JObj ms \<Rightarrow> c = 123)"

lemma ser0_starts: "accepted v \<Longrightarrow> \<exists>c t. ser0 v = c # t \<and> starts_like v c"
proof (cases v)
  case (JInt i)
  have "\<exists>c t. cps (str_nat n) = c # t \<and> is_digit_cp c" for n
    using cps_str_nat [of n] by (cases "cps (str_nat n)") auto
  from this [of "nat i"] show ?thesis using JInt by (auto simp: str_int_def starts_like_def)
qed (auto simp: jcs_str_def starts_like_def)

lemma starts_like_kind:
  "starts_like v c \<Longrightarrow> starts_like w c \<Longrightarrow>
     (v = JNull \<and> w = JNull) \<or> (\<exists>b. v = JBool b \<and> w = JBool b) \<or> (\<exists>i j. v = JInt i \<and> w = JInt j) \<or>
     (\<exists>s t. v = JStr s \<and> w = JStr t) \<or> (\<exists>xs ys. v = JArr xs \<and> w = JArr ys) \<or> (\<exists>ms ns. v = JObj ms \<and> w = JObj ns)"
  by (cases v; cases w) (auto simp: starts_like_def is_digit_cp_def split: if_splits)

lemma same_kind:
  assumes "accepted v" and "accepted w" and "ser0 v @ r = ser0 w @ r'"
  shows "(v = JNull \<and> w = JNull) \<or> (\<exists>b. v = JBool b \<and> w = JBool b) \<or> (\<exists>i j. v = JInt i \<and> w = JInt j) \<or>
     (\<exists>s t. v = JStr s \<and> w = JStr t) \<or> (\<exists>xs ys. v = JArr xs \<and> w = JArr ys) \<or> (\<exists>ms ns. v = JObj ms \<and> w = JObj ns)"
proof -
  obtain c t d u where v: "ser0 v = c # t" "starts_like v c" and w: "ser0 w = d # u" "starts_like w d"
    using ser0_starts [OF assms(1)] ser0_starts [OF assms(2)] by blast
  then have "c = d" using assms(3) by simp
  with v w show ?thesis by (intro starts_like_kind) simp_all
qed

lemma ser0_inj:
  "accepted v \<Longrightarrow> accepted w \<Longrightarrow> stops r \<Longrightarrow> stops r' \<Longrightarrow> ser0 v @ r = ser0 w @ r' \<Longrightarrow> v = w \<and> r = r'"
proof (induction v arbitrary: w r r' rule: ser0.induct)
  case 1
  then have "w = JNull" using same_kind [of JNull w r r'] by auto
  then show ?case using 1 by simp
next
  case (2 b)
  then have "w = JBool b" using same_kind [of "JBool b" w r r'] by auto
  then show ?case using 2 by simp
next
  case (3 i)
  then obtain j where "w = JInt j"
    using same_kind [of "JInt i" w r r'] by auto
  then show ?case using 3 str_int_inj [of i r j r'] by simp
next
  case (5 s)
  then obtain t where "w = JStr t"
    using same_kind [of "JStr s" w r r'] by auto
  then show ?case using 5 jcs_str_inj [of s r t r'] by simp
next
  case (6 xs)
  then obtain ys where w: "w = JArr ys"
    using same_kind [of "JArr xs" w r r'] by auto
  have hd: "ser0 y \<noteq> [] \<and> hd (ser0 y) \<noteq> 93" if "y \<in> set xs \<union> set ys" for y
  proof -
    have "accepted y" using that 6 w by (auto simp: list_all_iff)
    from ser0_starts [OF this] obtain c t where "ser0 y = c # t" "starts_like y c" by blast
    then show ?thesis by (cases y) (auto simp: starts_like_def is_digit_cp_def)
  qed
  have "xs = ys \<and> r = r'"
  proof (rule joined_inj [where f = ser0 and c = 93])
    show "join [44] (map ser0 xs) @ 93 # r = join [44] (map ser0 ys) @ 93 # r'" using 6 w by simp
  qed (use 6 w hd in \<open>auto simp: list_all_iff is_digit_cp_def\<close>)
  then show ?case using w by simp
next
  case (7 ms)
  then obtain ns where w: "w = JObj ns"
    using same_kind [of "JObj ms" w r r'] by auto
  let ?f = "\<lambda>(k, v). jcs_str k @ cps '':'' @ ser0 v"
  have dec: "x = y \<and> q = q'" if xy: "x \<in> set ms" "y \<in> set ns" and st: "stops q" "stops q'" and eq: "?f x @ q = ?f y @ q'"
    for x y q q'
  proof -
    obtain k v l u where p: "x = (k, v)" "y = (l, u)" by (cases x, cases y)
    then have "jcs_str k @ cps '':'' @ ser0 v @ q = jcs_str l @ cps '':'' @ ser0 u @ q'" using eq by simp
    from jcs_str_inj [OF this] have kl: "k = l" and rest: "ser0 v @ q = ser0 u @ q'" by auto
    have "accepted v" "accepted u" using "7.prems"(1,2) w xy p by (auto simp: list_all_iff)
    then show ?thesis using "7.IH" [of x k v] xy p kl rest st by simp
  qed
  have "ms = ns \<and> r = r'"
  proof (rule joined_inj [where f = ?f and c = 125])
    show "join [44] (map ?f ms) @ 125 # r = join [44] (map ?f ns) @ 125 # r'" using 7 w by simp
  qed (use dec in \<open>auto simp: is_digit_cp_def jcs_str_def\<close>)
  then show ?case using w by simp
qed simp

section \<open>Order of members\<close>

text \<open>Two dictionaries with the same members in any order: their sorted members agree, because the sort
  keys of different names differ.\<close>

lemma sorted_members_perm:
  assumes "mset ms = mset ns" and "distinct (map fst ms)" and "\<forall>(k, v) \<in> set ms. encodable k"
  shows "sorted_members ms = sorted_members ns"
proof -
  let ?key = "\<lambda>kv. utf16_key (fst kv)"
  have "inj_on ?key (set ms)"
  proof (rule inj_onI)
    fix x y
    assume xy: "x \<in> set ms" "y \<in> set ms" "?key x = ?key y"
    then have "fst x = fst y" using assms(3) utf16_key_inj [of "fst x" "fst y"] by (simp add: case_prod_beta)
    then show "x = y" using xy assms(2) by (metis distinct_map inj_on_def)
  qed
  then show ?thesis
    unfolding sorted_members_def using assms(1) by (intro sort_key_inj_key_eq) simp_all
qed

section \<open>UTF-8\<close>

definition utf8_decode :: "nat list \<Rightarrow> cp" where
  "utf8_decode b =
     (if b ! 0 < 128 then b ! 0
      else if b ! 0 < 224 then (b ! 0 - 192) * 64 + (b ! 1 - 128)
      else if b ! 0 < 240 then (b ! 0 - 224) * 4096 + (b ! 1 - 128) * 64 + (b ! 2 - 128)
      else (b ! 0 - 240) * 262144 + (b ! 1 - 128) * 4096 + (b ! 2 - 128) * 64 + (b ! 3 - 128))"

lemma split3: "c div 4096 * 4096 + c div 64 mod 64 * 64 + c mod 64 = (c :: nat)"
proof -
  have "c div 64 = c div 4096 * 64 + c div 64 mod 64"
    using div_mult_mod_eq [of "c div 64" 64] by (simp add: div_mult2_eq [symmetric])
  then show ?thesis using div_mult_mod_eq [of c 64] by linarith
qed

lemma split4: "c div 262144 * 262144 + c div 4096 mod 64 * 4096 + c div 64 mod 64 * 64 + c mod 64 = (c :: nat)"
proof -
  have "c div 4096 = c div 262144 * 64 + c div 4096 mod 64"
    using div_mult_mod_eq [of "c div 4096" 64] by (simp add: div_mult2_eq [symmetric])
  then show ?thesis using split3 [of c] by linarith
qed

lemma utf8_decode_bytes: "c < 1114112 \<Longrightarrow> utf8_decode (utf8_bytes c @ r) = c"
proof -
  assume c: "c < 1114112"
  consider "c < 128" | "128 \<le> c" "c < 2048" | "2048 \<le> c" "c < 65536" | "65536 \<le> c" by linarith
  then show ?thesis
  proof cases
    case 2
    then have "c div 64 < 32" by (simp add: less_mult_imp_div_less)
    then show ?thesis using 2 by (simp add: utf8_bytes_def utf8_decode_def)
  next
    case 3
    then have "c div 4096 < 16" by (simp add: less_mult_imp_div_less)
    then show ?thesis using 3 split3 [of c] by (simp add: utf8_bytes_def utf8_decode_def)
  next
    case 4
    then show ?thesis using split4 [of c] by (simp add: utf8_bytes_def utf8_decode_def)
  qed (simp add: utf8_bytes_def utf8_decode_def)
qed

interpretation utf8: prefix_code utf8_bytes scalar
proof unfold_locales
  fix a b r r'
  assume "scalar a" "scalar b" "utf8_bytes a @ r = utf8_bytes b @ r'"
  then show "a = b" using utf8_decode_bytes [of a r] utf8_decode_bytes [of b r'] by (simp add: scalar_def)
qed (simp add: utf8_bytes_def)

lemma encode_utf8_inj: "encode_utf8 s = Inr b \<Longrightarrow> encode_utf8 t = Inr b \<Longrightarrow> s = t"
  by (rule utf8.concat_inj) (auto simp: encode_utf8_def encodable_def split: if_splits)

lemma jcs_Inr: "jcs v = Inr b \<longleftrightarrow> accepted v \<and> encode_utf8 (ser0 (canon v)) = Inr b"
  by (auto simp: jcs_def ser_Inr_iff)

lemma accepted_canon: "accepted (canon v) \<longleftrightarrow> accepted v"
  by (induction v rule: canon.induct) (auto simp: list_all_iff split: prod.splits)

lemma jcs_inj: "jcs v = Inr b \<Longrightarrow> jcs w = Inr b \<Longrightarrow> canon v = canon w"
  using ser0_inj [of "canon v" "canon w" "[]" "[]"] encode_utf8_inj [of "ser0 (canon v)" b "ser0 (canon w)"]
  by (auto simp: jcs_Inr accepted_canon stops_def)

lemma odis_str_eq: "odis_str s = jcs_str s"
proof -
  have "odis_char = jcs_char" by (rule ext) (auto simp: odis_char_def jcs_char_def)
  then show ?thesis by (simp add: odis_str_def jcs_str_def)
qed

lemma odis_ser_eq: "unique_names v \<Longrightarrow> odis_ser v = ser v"
proof (induction v rule: odis_ser.induct)
  case (6 xs)
  then have "map odis_ser xs = map ser xs" by (auto simp: list_all_iff)
  then show ?case by (simp only: odis_ser.simps ser.simps)
next
  case (7 ms)
  show ?case
  proof (cases "list_all (\<lambda>(k, v). encodable k) ms")
    case True
    have d: "distinct (map fst ms)" using "7.prems" by simp
    have ih: "odis_ser v = ser v" if "(k, v) \<in> set ms" for k v
      using "7.IH" True that "7.prems" by (auto simp: list_all_iff)
    let ?texts = "map (\<lambda>(k, v). (k, odis_ser v)) ms"
    let ?g = "\<lambda>k. bind_sum (the (map_of ?texts k)) (\<lambda>x. Inr (odis_str k @ cps '':'' @ x))"
    let ?h = "\<lambda>(k, t). bind_sum t (\<lambda>x. Inr (jcs_str k @ cps '':'' @ x))"
    have g: "?g (fst p) = ?h (fst p, ser (snd p))" if "p \<in> set ms" for p
    proof -
      have "map_of ?texts (fst p) = Some (odis_ser (snd p))"
        using that d by (intro map_of_is_SomeI) (force simp: comp_def case_prod_beta)+
      then show ?thesis using ih [of "fst p" "snd p"] that by (simp add: odis_str_eq)
    qed
    have "traverse ?g (sort_key utf16_key (map fst ms)) = traverse (\<lambda>p. ?g (fst p)) (sorted_members ms)"
      by (simp add: sort_key_map sorted_members_def traverse_map comp_def)
    also have "\<dots> = traverse (\<lambda>p. ?h (fst p, ser (snd p))) (sorted_members ms)"
      by (rule traverse_cong) (use g in auto)
    also have "\<dots> = traverse ?h (sorted_members (map (\<lambda>(k, v). (k, ser v)) ms))"
      unfolding sorted_members_map traverse_map by (simp add: case_prod_beta)
    finally show ?thesis using True by (simp add: Let_def)
  qed auto
qed (auto simp: odis_str_eq)

section \<open>Properties\<close>

text \<open>C12: canonicalisation is injective up to the order of members. Two values whose canonical bytes
  are equal have the same canonical form, so a digest over the bytes commits to the value: nothing but
  the insertion order of members can change without changing the bytes.\<close>

theorem jcs_injective:
  assumes "jcs v = Inr b"
  shows "jcs w = Inr b \<longleftrightarrow> accepted w \<and> canon v = canon w"
  using assms jcs_inj [of v b w] by (auto simp: jcs_Inr)

text \<open>The order in which members were inserted never matters: a dictionary and any reordering of it
  have the same canonical bytes or the same error.\<close>

theorem jcs_member_order:
  assumes "mset ms = mset ns" and "distinct (map fst ms)"
  shows "jcs (JObj ms) = jcs (JObj ns)"
proof (cases "\<forall>(k, v) \<in> set ms. encodable k")
  case True
  let ?f = "\<lambda>(k, v). (k, ser v)"
  have "sorted_members (map ?f ms) = sorted_members (map ?f ns)"
    by (rule sorted_members_perm) (use assms True in \<open>auto simp: comp_def case_prod_beta\<close>)
  moreover have "set ms = set ns" using assms(1) by (metis set_mset_mset)
  ultimately show ?thesis using True by (simp add: jcs_def list_all_iff)
next
  case False
  moreover have "set ms = set ns" using assms(1) by (metis set_mset_mset)
  ultimately show ?thesis by (auto simp: jcs_def list_all_iff)
qed

text \<open>The independently written canonicalisers agree. On every value without repeated names the ODIS
  adapter's and the AAT adapter's produce the same bytes or raise the same error.\<close>

theorem odis_jcs_agrees:
  assumes "unique_names v"
  shows "odis_jcs v = jcs v"
  using odis_ser_eq [OF assms] by (simp add: odis_jcs_def jcs_def)

text \<open>A record of the kind the adapters digest, and a second spelling of it.\<close>

definition sample_record :: jval where
  "sample_record = JObj [(cps ''action_type'', JStr (cps ''decision'')), (cps ''n'', JInt (-3)),
     (cps ''ok'', JBool True), (cps ''a'', JArr [JNull, JStr [10, 34, 128512]])]"

definition sample_respelled :: jval where
  "sample_respelled = JObj [(cps ''a'', JArr [JNull, JStr [10, 34, 128512]]), (cps ''ok'', JBool True),
     (cps ''n'', JInt (-3)), (cps ''action_type'', JStr (cps ''decision''))]"

theorem jcs_member_order_witness: "jcs sample_record = jcs sample_respelled"
  unfolding sample_record_def sample_respelled_def by (rule jcs_member_order) (simp_all add: add.commute add.left_commute)

theorem jcs_injective_witness:
  "canon (JObj [([98], JNull), ([97], JStr [10])]) = canon (JObj [([97], JStr [10]), ([98], JNull)])"
proof -
  let ?v = "JObj [([98], JNull), ([97], JStr [10])]" and ?w = "JObj [([97], JStr [10]), ([98], JNull)]"
  have "jcs ?v = Inr (map of_char ''{\"a\":'' @ [34, 92, 110, 34] @ map of_char '',\"b\":null}'')"
    and "jcs ?w = jcs ?v"
    by (simp_all add: jcs_def sorted_members_def utf16_key_def utf16_units_def encode_utf8_def encodable_def
        scalar_def surrogate_def jcs_str_def jcs_char_def utf8_bytes_def)
  then show ?thesis using jcs_injective [of ?v _ ?w] by simp
qed

theorem odis_jcs_agrees_witness: "odis_jcs sample_record = jcs sample_record"
  by (rule odis_jcs_agrees) (simp add: sample_record_def)

end
