(* ===== verification/Codec.thy ===== *)
theory Codec
  imports Jcs
begin

text \<open>
  What the adapters use of the standard library's byte codecs: URL-safe base64 (the encoder, and the
  decoder of \<open>binascii\<close>, which skips characters outside the alphabet and stops at a complete pad),
  hexadecimal digests, and the passage from the \<open>char\<close> strings of the record models to the code
  points the canonicaliser works on. A byte is a natural number below 256.
\<close>

type_synonym byte = nat

text \<open>A record whose strings are over \<open>char\<close> (code points below 256) as a value over code points\<close>

fun jv :: "pyval \<Rightarrow> jval" where
  "jv JNull = JNull"
| "jv (JBool b) = JBool b"
| "jv (JInt i) = JInt i"
| "jv (JFloat r) = JFloat r"
| "jv (JStr s) = JStr (cps s)"
| "jv (JArr xs) = JArr (map jv xs)"
| "jv (JObj ms) = JObj (map (\<lambda>(k, v). (cps k, jv v)) ms)"

definition ascii :: "byte list \<Rightarrow> string" where
  "ascii bs = map char_of bs"

section \<open>Texts of values\<close>

text \<open>\<open>json.dumps(v, separators=(",", ":"), ensure_ascii=False)\<close>, without and with \<open>sort_keys=True\<close> (by code
  points); \<open>fl\<close> is the text of a floating point number.\<close>

fun dumps_compact :: "(rat \<Rightarrow> cp list) \<Rightarrow> jval \<Rightarrow> cp list" where
  "dumps_compact fl JNull = cps ''null''"
| "dumps_compact fl (JBool b) = (if b then cps ''true'' else cps ''false'')"
| "dumps_compact fl (JInt i) = str_int i"
| "dumps_compact fl (JFloat r) = fl r"
| "dumps_compact fl (JStr s) = jcs_str s"
| "dumps_compact fl (JArr xs) = cps ''['' @ join (cps '','') (map (dumps_compact fl) xs) @ cps '']''"
| "dumps_compact fl (JObj ms) =
     cps ''{'' @ join (cps '','') (map (\<lambda>(k, v). jcs_str k @ cps '':'' @ dumps_compact fl v) ms) @ cps ''}''"

fun dumps_sorted :: "(rat \<Rightarrow> cp list) \<Rightarrow> jval \<Rightarrow> cp list" where
  "dumps_sorted fl JNull = cps ''null''"
| "dumps_sorted fl (JBool b) = (if b then cps ''true'' else cps ''false'')"
| "dumps_sorted fl (JInt i) = str_int i"
| "dumps_sorted fl (JFloat r) = fl r"
| "dumps_sorted fl (JStr s) = jcs_str s"
| "dumps_sorted fl (JArr xs) = cps ''['' @ join (cps '','') (map (dumps_sorted fl) xs) @ cps '']''"
| "dumps_sorted fl (JObj ms) =
     cps ''{'' @ join (cps '','') (map (\<lambda>(k, t). jcs_str k @ cps '':'' @ t)
                                     (sort_key fst (map (\<lambda>(k, v). (k, dumps_sorted fl v)) ms))) @ cps ''}''"

definition utf8_of :: "cp list \<Rightarrow> byte list" where
  "utf8_of text = concat (map utf8_bytes text)"

section \<open>Hexadecimal\<close>

definition hexdigest :: "byte list \<Rightarrow> string" where
  "hexdigest bs = ascii (concat (map (\<lambda>b. [hex (b div 16), hex (b mod 16)]) bs))"

text \<open>\<open>bytes.fromhex\<close>: white space may stand between two bytes, not inside one.\<close>

definition hex_value :: "char \<Rightarrow> nat option" where
  "hex_value c = (let n = of_char c :: nat in
     if 48 \<le> n \<and> n \<le> 57 then Some (n - 48) else if 97 \<le> n \<and> n \<le> 102 then Some (n - 87)
     else if 65 \<le> n \<and> n \<le> 70 then Some (n - 55) else None)"

definition ascii_space :: "char \<Rightarrow> bool" where
  "ascii_space c = (let n = of_char c :: nat in n = 32 \<or> 9 \<le> n \<and> n \<le> 13)"

fun fromhex_chars :: "string \<Rightarrow> byte list option" where
  "fromhex_chars [] = Some []"
| "fromhex_chars [c] = (if ascii_space c then Some [] else None)"
| "fromhex_chars (c # d # s) =
     (if ascii_space c then fromhex_chars (d # s)
      else case (hex_value c, hex_value d) of
        (Some h, Some l) \<Rightarrow> map_option ((#) (16 * h + l)) (fromhex_chars s)
      | _ \<Rightarrow> None)"

section \<open>Base64, URL-safe alphabet\<close>

definition b64_char :: "nat \<Rightarrow> nat" where
  "b64_char n =
     (if n < 26 then 65 + n else if n < 52 then 71 + n else if n < 62 then n - 4
      else if n = 62 then 45 else 95)"

definition b64_value :: "nat \<Rightarrow> nat option" where
  "b64_value c =
     (if 65 \<le> c \<and> c \<le> 90 then Some (c - 65) else if 97 \<le> c \<and> c \<le> 122 then Some (c - 71)
      else if 48 \<le> c \<and> c \<le> 57 then Some (c + 4)
      else if c = 45 \<or> c = 43 then Some 62 else if c = 95 \<or> c = 47 then Some 63 else None)"

text \<open>\<open>base64.urlsafe_b64encode\<close>\<close>

fun b64_encode :: "byte list \<Rightarrow> nat list" where
  "b64_encode [] = []"
| "b64_encode [a] = [b64_char (a div 4), b64_char (a mod 4 * 16), 61, 61]"
| "b64_encode [a, b] = [b64_char (a div 4), b64_char (a mod 4 * 16 + b div 16), b64_char (b mod 16 * 4), 61]"
| "b64_encode (a # b # c # rest) =
     b64_char (a div 4) # b64_char (a mod 4 * 16 + b div 16) # b64_char (b mod 16 * 4 + c div 64)
     # b64_char (c mod 64) # b64_encode rest"

text \<open>\<open>base64.urlsafe_b64decode\<close>: \<open>quad\<close> the position in the group of four, \<open>left\<close> the bits carried
  over, \<open>pads\<close> the padding characters just seen. The translation of the URL-safe characters before
  the decode leaves the standard ones acceptable as well.\<close>

fun b64_scan :: "nat \<Rightarrow> nat \<Rightarrow> nat \<Rightarrow> nat list \<Rightarrow> byte list option" where
  "b64_scan quad left pads [] = (if quad = 0 then Some [] else None)"
| "b64_scan quad left pads (c # cs) =
     (if c = 61 then
        (if 2 \<le> quad \<and> 4 \<le> quad + Suc pads then Some []
         else b64_scan quad left (if 2 \<le> quad then Suc pads else pads) cs)
      else case b64_value c of
        None \<Rightarrow> b64_scan quad left pads cs
      | Some v \<Rightarrow>
          (if quad = 0 then b64_scan 1 v 0 cs
           else if quad = 1 then map_option ((#) (left * 4 + v div 16)) (b64_scan 2 (v mod 16) 0 cs)
           else if quad = 2 then map_option ((#) (left * 16 + v div 4)) (b64_scan 3 (v mod 4) 0 cs)
           else map_option ((#) (left * 64 + v)) (b64_scan 0 0 0 cs)))"

definition b64_decode :: "nat list \<Rightarrow> byte list option" where
  "b64_decode cs = b64_scan 0 0 0 cs"

text \<open>Unpadded forms: \<open>b64u\<close>/\<open>b64u_encode\<close> and \<open>b64u_dec\<close>/\<open>b64u_decode\<close> of the runners\<close>

definition b64u_encode :: "byte list \<Rightarrow> nat list" where
  "b64u_encode bs = rev (dropWhile (\<lambda>c. c = 61) (rev (b64_encode bs)))"

definition b64u_decode :: "nat list \<Rightarrow> byte list option" where
  "b64u_decode s = b64_decode (s @ replicate ((4 - length s mod 4) mod 4) 61)"

section \<open>Round trips\<close>

lemma b64_value_char: "n < 64 \<Longrightarrow> b64_value (b64_char n) = Some n"
  by (auto simp: b64_value_def b64_char_def)

lemma b64_char_not_pad: "n < 64 \<Longrightarrow> b64_char n \<noteq> 61"
  by (auto simp: b64_char_def)

lemma b64_scan_char:
  "v < 64 \<Longrightarrow> b64_scan quad left pads (b64_char v # cs) =
     (if quad = 0 then b64_scan 1 v 0 cs
      else if quad = 1 then map_option ((#) (left * 4 + v div 16)) (b64_scan 2 (v mod 16) 0 cs)
      else if quad = 2 then map_option ((#) (left * 16 + v div 4)) (b64_scan 3 (v mod 4) 0 cs)
      else map_option ((#) (left * 64 + v)) (b64_scan 0 0 0 cs))"
  by (simp add: b64_value_char b64_char_not_pad)

lemma sextets:
  assumes "a < 256" "b < 256" "c < (256 :: nat)"
  shows "a div 4 < 64" "a mod 4 * 16 + b div 16 < 64" "b mod 16 * 4 + c div 64 < 64" "c mod 64 < 64"
    "a mod 4 * 16 < 64" "b mod 16 * 4 < 64"
    "(a mod 4 * 16 + b div 16) div 16 = a mod 4" "(a mod 4 * 16 + b div 16) mod 16 = b div 16"
    "(b mod 16 * 4 + c div 64) div 4 = b mod 16" "(b mod 16 * 4 + c div 64) mod 4 = c div 64"
  using assms by (simp_all add: less_mult_imp_div_less)

lemma b64_decode_encode: "list_all (\<lambda>b. b < 256) bs \<Longrightarrow> b64_decode (b64_encode bs) = Some bs"
  unfolding b64_decode_def
proof (induction bs rule: b64_encode.induct)
  case (2 a)
  then show ?case using sextets [of a 0 0] by (simp add: b64_scan_char del: b64_scan.simps(2)) simp
next
  case (3 a b)
  then show ?case using sextets [of a b 0] by (simp add: b64_scan_char del: b64_scan.simps(2)) simp
next
  case (4 a b c rest)
  then have "b div 16 < 16" by (simp add: less_mult_imp_div_less)
  then show ?case using 4 sextets [of a b c] by (simp add: b64_scan_char del: b64_scan.simps(2))
qed simp

lemma b64_char_plain: "n < 64 \<Longrightarrow> b64_char n \<noteq> 61 \<and> b64_char n < 123"
  by (auto simp: b64_char_def)

text \<open>The encoding is a text without padding characters, padded to a multiple of four.\<close>

lemma b64_encode_body:
  "list_all (\<lambda>b. b < 256) bs \<Longrightarrow>
     \<exists>body. b64_encode bs = body @ replicate ((4 - length body mod 4) mod 4) 61 \<and> list_all (\<lambda>c. c \<noteq> 61 \<and> c < 123) body"
proof (induction bs rule: b64_encode.induct)
  case (2 a)
  then show ?case using sextets [of a 0 0]
    by (intro exI [of _ "[b64_char (a div 4), b64_char (a mod 4 * 16)]"]) (simp add: b64_char_plain numeral_2_eq_2)
next
  case (3 a b)
  then show ?case using sextets [of a b 0]
    by (intro exI [of _ "[b64_char (a div 4), b64_char (a mod 4 * 16 + b div 16), b64_char (b mod 16 * 4)]"])
      (simp add: b64_char_plain)
next
  case (4 a b c rest)
  then obtain body where b: "b64_encode rest = body @ replicate ((4 - length body mod 4) mod 4) 61"
    "list_all (\<lambda>c. c \<noteq> 61 \<and> c < 123) body" by auto
  show ?case using b sextets [of a b c] "4.prems"
    by (intro exI [of _ "b64_char (a div 4) # b64_char (a mod 4 * 16 + b div 16) # b64_char (b mod 16 * 4 + c div 64)
        # b64_char (c mod 64) # body"]) (simp add: b64_char_plain)
qed simp

lemma b64u_encode_body:
  assumes "list_all (\<lambda>b. b < 256) bs"
  shows "list_all (\<lambda>c. c \<noteq> 61 \<and> c < 123) (b64u_encode bs)"
    and "b64_encode bs = b64u_encode bs @ replicate ((4 - length (b64u_encode bs) mod 4) mod 4) 61"
proof -
  obtain body k where b: "b64_encode bs = body @ replicate k 61" "k = (4 - length body mod 4) mod 4"
    "list_all (\<lambda>c. c \<noteq> 61 \<and> c < 123) body" using b64_encode_body [OF assms] by blast
  have "dropWhile (\<lambda>c. c = 61) (replicate k (61 :: nat) @ rev body) = rev body"
    using b(3) by (cases body rule: rev_cases) (simp_all add: dropWhile_append3)
  then have "b64u_encode bs = body" by (simp add: b64u_encode_def b(1))
  then show "list_all (\<lambda>c. c \<noteq> 61 \<and> c < 123) (b64u_encode bs)"
    "b64_encode bs = b64u_encode bs @ replicate ((4 - length (b64u_encode bs) mod 4) mod 4) 61" using b by simp_all
qed

lemma b64u_decode_encode: "list_all (\<lambda>b. b < 256) bs \<Longrightarrow> b64u_decode (b64u_encode bs) = Some bs"
  using b64u_encode_body(2) [of bs] b64_decode_encode [of bs] by (simp add: b64u_decode_def)

lemma b64u_text: "list_all (\<lambda>b. b < 256) bs \<Longrightarrow> map of_char (ascii (b64u_encode bs)) = b64u_encode bs"
  using b64u_encode_body(1) [of bs] by (auto simp: ascii_def list_all_iff intro!: map_idI)

end
