(* ===== verification/Python_Values.thy ===== *)
theory Python_Values
  imports Prelude
begin

text \<open>
  How Python treats JSON values it did not type check: equality across kinds, \<open>len\<close>, iteration,
  subscription, hashing into sets and dictionaries, and \<open>any\<close>/\<open>all\<close> over tests that may raise.
\<close>

datatype py_error = Type_error | Attribute_error | Key_error | Value_error | Overflow_error | Unicode_error
  | Index_error

section \<open>Python equality of JSON values\<close>

fun py_eq :: "'c json \<Rightarrow> 'c json \<Rightarrow> bool" where
  "py_eq JNull w = (w = JNull)"
| "py_eq (JBool b) w = (case w of JBool c \<Rightarrow> b = c | JInt i \<Rightarrow> i = of_bool b | JFloat r \<Rightarrow> r = of_bool b | _ \<Rightarrow> False)"
| "py_eq (JInt i) w = (case w of JBool c \<Rightarrow> i = of_bool c | JInt j \<Rightarrow> i = j | JFloat r \<Rightarrow> of_int i = r | _ \<Rightarrow> False)"
| "py_eq (JFloat q) w = (case w of JBool c \<Rightarrow> q = of_bool c | JInt j \<Rightarrow> q = of_int j | JFloat r \<Rightarrow> q = r | _ \<Rightarrow> False)"
| "py_eq (JStr s) w = (w = JStr s)"
| "py_eq (JArr xs) w =
     (case w of JArr ys \<Rightarrow> length xs = length ys \<and> list_all id (map2 (\<lambda>f y. f y) (map py_eq xs) ys) | _ \<Rightarrow> False)"
| "py_eq (JObj ms) w =
     (case w of
        JObj ns \<Rightarrow> length ms = length ns \<and>
          list_all id (map (\<lambda>(k, f). case map_of ns k of None \<Rightarrow> False | Some y \<Rightarrow> f y)
                         (map (\<lambda>(k, v). (k, py_eq v)) ms))
      | _ \<Rightarrow> False)"

lemma py_eq_JStr [simp]: "py_eq v (JStr s) \<longleftrightarrow> v = JStr s"
  by (cases v) auto

lemma py_eq_refl [simp]: "unique_names v \<Longrightarrow> py_eq v v"
proof (induction v)
  case (JArr xs)
  then show ?case by (auto simp: list_all_iff in_set_zip zip_map1 zip_map2)
next
  case (JObj ms)
  then show ?case by (fastforce simp: list_all_iff)
qed auto

text \<open>\<open>not v\<close>\<close>

fun falsy :: "'c json \<Rightarrow> bool" where
  "falsy JNull = True"
| "falsy (JBool b) = (\<not> b)"
| "falsy (JInt i) = (i = 0)"
| "falsy (JFloat r) = (r = 0)"
| "falsy (JStr s) = (s = [])"
| "falsy (JArr xs) = (xs = [])"
| "falsy (JObj ms) = (ms = [])"

section \<open>Length, iteration and subscription\<close>

fun py_len :: "'c json \<Rightarrow> py_error + nat" where
  "py_len (JArr xs) = Inr (length xs)"
| "py_len (JStr s) = Inr (length s)"
| "py_len (JObj ms) = Inr (length ms)"
| "py_len _ = Inl Type_error"

fun py_iter :: "'c json \<Rightarrow> py_error + 'c json list" where
  "py_iter (JArr xs) = Inr xs"
| "py_iter (JStr s) = Inr (map (\<lambda>c. JStr [c]) s)"
| "py_iter (JObj ms) = Inr (map (\<lambda>(k, v). JStr k) ms)"
| "py_iter _ = Inl Type_error"

text \<open>\<open>d[k]\<close> for a string \<open>k\<close>: a missing name raises \<open>KeyError\<close>, a subscript of anything but a
  dictionary raises \<open>TypeError\<close>.\<close>

definition subscript :: "'c json \<Rightarrow> 'c list \<Rightarrow> py_error + 'c json" where
  "subscript d k =
     (if \<not> is_dict d then Inl Type_error
      else case map_of (members d) k of None \<Rightarrow> Inl Key_error | Some v \<Rightarrow> Inr v)"

text \<open>\<open>any(f(x) for x in xs)\<close> and \<open>all(...)\<close>: the generator stops at the first deciding element.\<close>

fun any_of :: "('a \<Rightarrow> 'e + bool) \<Rightarrow> 'a list \<Rightarrow> 'e + bool" where
  "any_of f [] = Inr False"
| "any_of f (x # xs) = or_else (f x) (any_of f xs)"

fun all_of :: "('a \<Rightarrow> 'e + bool) \<Rightarrow> 'a list \<Rightarrow> 'e + bool" where
  "all_of f [] = Inr True"
| "all_of f (x # xs) = and_also (f x) (all_of f xs)"

lemma or_else_Inr [simp]: "or_else a b = Inr r \<longleftrightarrow> (a = Inr True \<and> r) \<or> (a = Inr False \<and> b = Inr r)"
  by (cases a) auto

lemma and_also_Inr [simp]: "and_also a b = Inr r \<longleftrightarrow> (a = Inr False \<and> \<not> r) \<or> (a = Inr True \<and> b = Inr r)"
  by (cases a) auto

lemma all_of_True: "all_of f xs = Inr True \<longleftrightarrow> (\<forall>x\<in>set xs. f x = Inr True)"
  by (induction xs) auto

lemma any_of_True: "any_of f xs = Inr True \<Longrightarrow> \<exists>x\<in>set xs. f x = Inr True"
  by (induction xs) auto

lemma any_of_total: "(\<And>x. x \<in> set xs \<Longrightarrow> f x = Inr (P x)) \<Longrightarrow> any_of f xs = Inr (list_ex P xs)"
  by (induction xs) auto

lemma all_of_total: "(\<And>x. x \<in> set xs \<Longrightarrow> f x = Inr (P x)) \<Longrightarrow> all_of f xs = Inr (list_all P xs)"
  by (induction xs) auto

section \<open>Hashing\<close>

text \<open>\<open>x in s\<close> for a set or dictionary whose keys are the values \<open>s\<close>\<close>

definition py_in :: "pyval \<Rightarrow> pyval list \<Rightarrow> py_error + bool" where
  "py_in x s = (if hashable x then Inr (list_ex (py_eq x) s) else Inl Type_error)"

text \<open>\<open>set(v)\<close> as the list of the elements hashed into it\<close>

definition py_set :: "pyval \<Rightarrow> py_error + pyval list" where
  "py_set v = bind_sum (py_iter v) (\<lambda>xs. if list_all hashable xs then Inr xs else Inl Type_error)"

text \<open>The distinct values of a list, as Python compares them, and the set of a list: \<open>set(xs)\<close>\<close>

fun py_distinct :: "pyval list \<Rightarrow> pyval list" where
  "py_distinct [] = []"
| "py_distinct (x # xs) = x # filter (\<lambda>y. \<not> py_eq y x) (py_distinct xs)"

definition hashed_set :: "pyval list \<Rightarrow> py_error + pyval list" where
  "hashed_set xs = (if list_all hashable xs then Inr (py_distinct xs) else Inl Type_error)"

text \<open>Dictionaries keyed by JSON values: keys are compared with \<open>==\<close>, an update keeps the first key.\<close>

definition dict_get :: "(pyval \<times> 'v) list \<Rightarrow> pyval \<Rightarrow> py_error + 'v option" where
  "dict_get m k = (if hashable k then Inr (map_option snd (find (\<lambda>(k', v). py_eq k k') m)) else Inl Type_error)"

fun dict_put :: "pyval \<Rightarrow> 'v \<Rightarrow> (pyval \<times> 'v) list \<Rightarrow> (pyval \<times> 'v) list" where
  "dict_put k v [] = [(k, v)]"
| "dict_put k v ((k', v') # m) = (if py_eq k k' then (k', v) # m else (k', v') # dict_put k v m)"

definition dict_set :: "pyval \<Rightarrow> 'v \<Rightarrow> (pyval \<times> 'v) list \<Rightarrow> py_error + (pyval \<times> 'v) list" where
  "dict_set k v m = (if hashable k then Inr (dict_put k v m) else Inl Type_error)"

text \<open>\<open>d.get(k)\<close> and \<open>d.get(k, default)\<close> on a value that may be no dictionary\<close>

definition mget :: "'c json \<Rightarrow> 'c list \<Rightarrow> py_error + 'c json" where
  "mget d k = (if is_dict d then Inr (get d k) else Inl Attribute_error)"

definition mget_or :: "'c json \<Rightarrow> 'c list \<Rightarrow> 'c json \<Rightarrow> py_error + 'c json" where
  "mget_or d k dflt = (if is_dict d then Inr (if has_key d k then get d k else dflt) else Inl Attribute_error)"

definition items :: "'c json \<Rightarrow> py_error + ('c list \<times> 'c json) list" where
  "items d = (if is_dict d then Inr (members d) else Inl Attribute_error)"

text \<open>\<open>a > b\<close>: numbers (booleans among them), strings and lists compare with their own kind.\<close>

fun number :: "pyval \<Rightarrow> rat option" where
  "number (JBool b) = Some (of_bool b)"
| "number (JInt i) = Some (of_int i)"
| "number (JFloat r) = Some r"
| "number _ = None"

fun py_gt :: "pyval \<Rightarrow> pyval \<Rightarrow> py_error + bool" and gt_list :: "pyval list \<Rightarrow> pyval list \<Rightarrow> py_error + bool" where
  "py_gt (JStr s) (JStr t) = Inr (s > t)"
| "py_gt (JArr xs) (JArr ys) = gt_list xs ys"
| "py_gt a b = (case (number a, number b) of (Some x, Some y) \<Rightarrow> Inr (x > y) | _ \<Rightarrow> Inl Type_error)"
| "gt_list (x # xs) (y # ys) = (if py_eq x y then gt_list xs ys else py_gt x y)"
| "gt_list xs ys = Inr (xs \<noteq> [] \<and> ys = [])"

text \<open>\<open>for x in xs: ...\<close> over a state, where the body may raise\<close>

fun loop :: "('x \<Rightarrow> 's \<Rightarrow> 'e + 's) \<Rightarrow> 'x list \<Rightarrow> 's \<Rightarrow> 'e + 's" where
  "loop f [] s = Inr s"
| "loop f (x # xs) s = bind_sum (f x s) (loop f xs)"

lemma loop_append: "loop f (xs @ ys) s = bind_sum (loop f xs s) (loop f ys)"
  by (induction xs arbitrary: s) (auto, metis bind_sum.simps sum.exhaust_sel)

text \<open>\<open>s.split(c)\<close>\<close>

fun split_on :: "'a \<Rightarrow> 'a list \<Rightarrow> 'a list list" where
  "split_on c [] = [[]]"
| "split_on c (x # xs) =
     (if x = c then [] # split_on c xs
      else case split_on c xs of [] \<Rightarrow> [[x]] | w # ws \<Rightarrow> (x # w) # ws)"

lemma split_on_not_Nil [simp]: "split_on c xs \<noteq> []"
  by (induction xs) (auto split: list.splits)

lemma join_split_on: "join [c] (split_on c xs) = xs"
proof (induction xs)
  case (Cons x xs)
  then show ?case by (cases "split_on c xs"; cases "tl (split_on c xs)") auto
qed simp

lemma split_on_free: "w \<in> set (split_on c xs) \<Longrightarrow> c \<notin> set w"
  by (induction xs arbitrary: w) (auto split: list.splits if_splits)

text \<open>\<open>c.isspace()\<close>, and the first word of \<open>s.split()\<close>\<close>

definition py_space :: "char \<Rightarrow> bool" where
  "py_space c \<longleftrightarrow> (of_char c :: nat) \<in> {9, 10, 11, 12, 13, 28, 29, 30, 31, 32, 133, 160}"

definition first_word :: "string \<Rightarrow> string" where
  "first_word s = takeWhile (\<lambda>c. \<not> py_space c) (dropWhile py_space s)"

end
