(* ===== verification/Audit_Trail.thy ===== *)
theory Audit_Trail
  imports Codec Calendar Python_Values
begin

text \<open>
  \<open>interop/sharif-aat-03/adapter/py/aat.py\<close>: the hash chain and signatures of an agent audit
  trail. SHA-256 and the ECDSA primitive are not code of the repository: \<open>sha256\<close> maps bytes to
  digest bytes, \<open>ecdsa\<close> tells whether a 64-byte \<open>r || s\<close> verifies over a digest under the supplied
  public key, \<open>sign\<close> is the private-key operation with the DER form already unpacked. A record is a
  JSON object; a finding is its kind and its record number instead of the printed sentence.
\<close>

section \<open>Hashes and signatures\<close>

datatype aat_error = Jcs_error jcs_error | TypeError

definition lift_jcs :: "jcs_error + 'a \<Rightarrow> aat_error + 'a" where
  "lift_jcs x = (case x of Inl e \<Rightarrow> Inl (Jcs_error e) | Inr y \<Rightarrow> Inr y)"

definition record_hash_hex :: "(byte list \<Rightarrow> byte list) \<Rightarrow> pyval \<Rightarrow> aat_error + string" where
  "record_hash_hex sha256 rec = bind_sum (lift_jcs (jcs (jv rec))) (\<lambda>b. Inr (hexdigest (sha256 b)))"

definition signing_preimage :: "pyval \<Rightarrow> aat_error + byte list" where
  "signing_preimage rec = lift_jcs (jcs (jv (JObj (filter (\<lambda>(k, v). k \<noteq> ''signature'') (members rec)))))"

definition sign_record ::
  "(byte list \<Rightarrow> byte list) \<Rightarrow> (byte list \<Rightarrow> byte list) \<Rightarrow> pyval \<Rightarrow> byte list option \<Rightarrow> aat_error + string" where
  "sign_record sha256 sign rec preimage_override =
     bind_sum (case preimage_override of Some p \<Rightarrow> Inr p | None \<Rightarrow> signing_preimage rec) (\<lambda>pre.
       Inr (ascii (b64_encode (sign (sha256 pre)))))"

text \<open>\<open>[A-Za-z0-9_-]{86}==\<close>\<close>

definition b64url_char :: "char \<Rightarrow> bool" where
  "b64url_char c = (let n = of_char c :: nat in
     65 \<le> n \<and> n \<le> 90 \<or> 97 \<le> n \<and> n \<le> 122 \<or> 48 \<le> n \<and> n \<le> 57 \<or> n = 95 \<or> n = 45)"

definition b64url_64bytes :: "string \<Rightarrow> bool" where
  "b64url_64bytes s = (length s = 88 \<and> list_all b64url_char (take 86 s) \<and> drop 86 s = ''=='')"

definition verify_signature ::
  "(byte list \<Rightarrow> byte list) \<Rightarrow> (byte list \<Rightarrow> byte list \<Rightarrow> bool) \<Rightarrow> pyval \<Rightarrow> aat_error + bool" where
  "verify_signature sha256 ecdsa rec =
     (case get rec ''signature'' of
        JStr sig \<Rightarrow>
          (if \<not> b64url_64bytes sig then Inr False
           else case b64_decode (cps sig) of
             None \<Rightarrow> Inr False
           | Some raw \<Rightarrow>
               (if length raw \<noteq> 64 then Inr False
                else if ascii (b64_encode raw) \<noteq> sig then Inr False
                else bind_sum (signing_preimage rec) (\<lambda>pre. Inr (ecdsa raw (sha256 pre)))))
      | _ \<Rightarrow> Inr False)"

section \<open>Phases\<close>

definition PHASE_RULES :: "((string \<times> string) \<times> string) list" where
  "PHASE_RULES =
     [((''decision'', ''denied''), ''pre_execution''),
      ((''decision'', ''escalated''), ''pre_execution''),
      ((''delegation'', ''denied''), ''pre_execution'')]"

definition phase_violation :: "pyval \<Rightarrow> aat_error + bool" where
  "phase_violation rec =
     (let a = get rec ''action_type''; b = get rec ''outcome'' in
      if \<not> hashable a \<or> \<not> hashable b then Inl TypeError
      else Inr (case (a, b) of
          (JStr x, JStr y) \<Rightarrow>
            (case map_of PHASE_RULES (x, y) of
               None \<Rightarrow> False
             | Some want \<Rightarrow> get rec ''record_phase'' \<noteq> JStr want)
        | _ \<Rightarrow> False))"

section \<open>The chain\<close>

datatype finding = Empty_session | Genesis | Chain_broken nat | Parent_mismatch nat | Timestamp_invalid nat
  | Timestamp_regression nat | No_key nat | Bad_signature nat | Phase nat

definition finding_if :: "bool \<Rightarrow> finding \<Rightarrow> finding list" where
  "finding_if b f = (if b then [f] else [])"

definition link_findings :: "(byte list \<Rightarrow> byte list) \<Rightarrow> nat \<Rightarrow> pyval \<Rightarrow> pyval \<Rightarrow> aat_error + finding list" where
  "link_findings sha256 n prev cur =
     bind_sum (record_hash_hex sha256 prev) (\<lambda>expected.
       Inr (finding_if (get cur ''prev_hash'' \<noteq> JStr expected) (Chain_broken n)
            @ finding_if (\<not> py_eq (get cur ''parent_record_id'') (get prev ''record_id'')) (Parent_mismatch n)
            @ (case (parse_rfc3339 (get prev ''timestamp''), parse_rfc3339 (get cur ''timestamp'')) of
                 (Some tp, Some tc) \<Rightarrow> finding_if (tc < tp) (Timestamp_regression n)
               | (None, _) \<Rightarrow> [Timestamp_invalid (n - 1)]
               | (Some _, None) \<Rightarrow> [Timestamp_invalid n])))"

fun links :: "(byte list \<Rightarrow> byte list) \<Rightarrow> nat \<Rightarrow> pyval list \<Rightarrow> aat_error + finding list" where
  "links sha256 n (prev # cur # rest) =
     bind_sum (link_findings sha256 n prev cur) (\<lambda>fs.
     bind_sum (links sha256 (Suc n) (cur # rest)) (\<lambda>gs. Inr (fs @ gs)))"
| "links sha256 n _ = Inr []"

definition record_findings ::
  "(byte list \<Rightarrow> byte list) \<Rightarrow> (byte list \<Rightarrow> byte list \<Rightarrow> bool) option \<Rightarrow> nat \<times> pyval \<Rightarrow> aat_error + finding list" where
  "record_findings sha256 key nr =
     (let (n, rec) = nr in
      bind_sum (if has_key rec ''signature'' then
                  (case key of
                     None \<Rightarrow> Inr [No_key n]
                   | Some ecdsa \<Rightarrow> bind_sum (verify_signature sha256 ecdsa rec) (\<lambda>ok. Inr (finding_if (\<not> ok) (Bad_signature n))))
                else Inr []) (\<lambda>fs.
      bind_sum (phase_violation rec) (\<lambda>pv. Inr (fs @ finding_if pv (Phase n)))))"

definition verify_chain ::
  "(byte list \<Rightarrow> byte list) \<Rightarrow> (byte list \<Rightarrow> byte list \<Rightarrow> bool) option \<Rightarrow> pyval list \<Rightarrow> aat_error + bool \<times> finding list" where
  "verify_chain sha256 key records =
     (case records of
        [] \<Rightarrow> Inr (False, [Empty_session])
      | g # _ \<Rightarrow>
          bind_sum (links sha256 1 records) (\<lambda>ls.
          bind_sum (traverse (record_findings sha256 key) (enumerate_from 0 records)) (\<lambda>rs.
            let fs = finding_if (get g ''parent_record_id'' \<noteq> JNull \<or> get g ''prev_hash'' \<noteq> JNull) Genesis @ ls @ concat rs
            in Inr (fs = [], fs))))"

section \<open>Signature strings\<close>

lemma ascii_cps: "ascii (cps s) = s"
  by (simp add: ascii_def comp_def)

lemma cps_inj: "cps s = cps t \<Longrightarrow> s = t"
  by (metis ascii_cps)

lemma b64_char_alphabet:
  assumes "n < 64"
  shows "b64_char n < 256" and "b64url_char (char_of (b64_char n))"
  using assms by (auto simp: b64_char_def b64url_char_def Let_def)

lemma b64_encode_shape:
  "length bs = 3 * n + 1 \<Longrightarrow> list_all (\<lambda>b. b < 256) bs \<Longrightarrow>
     \<exists>body. b64_encode bs = body @ [61, 61] \<and> length body = 4 * n + 2 \<and>
       list_all (\<lambda>c. c < 256 \<and> b64url_char (char_of c)) body"
proof (induction bs arbitrary: n rule: b64_encode.induct)
  case (2 a)
  then show ?case using sextets [of a 0 0] by (auto simp: b64_char_alphabet)
next
  case (4 a b c rest)
  then obtain m where m: "n = Suc m" by (cases n) auto
  have "length rest = 3 * m + 1" "list_all (\<lambda>b. b < 256) rest" "a < 256" "b < 256" "c < 256"
    using "4.prems" m by auto
  then obtain body where body: "b64_encode rest = body @ [61, 61]" "length body = 4 * m + 2"
    "list_all (\<lambda>c. c < 256 \<and> b64url_char (char_of c)) body" using "4.IH" by blast
  let ?q = "[b64_char (a div 4), b64_char (a mod 4 * 16 + b div 16), b64_char (b mod 16 * 4 + c div 64), b64_char (c mod 64)]"
  have "b64_encode (a # b # c # rest) = (?q @ body) @ [61, 61]" using body(1) by simp
  moreover have "length (?q @ body) = 4 * n + 2" using body(2) m by simp
  moreover have "list_all (\<lambda>c. c < 256 \<and> b64url_char (char_of c)) (?q @ body)"
    using body(3) sextets [OF \<open>a < 256\<close> \<open>b < 256\<close> \<open>c < 256\<close>] by (simp add: b64_char_alphabet)
  ultimately show ?case by blast
qed auto

lemma b64url_64bytes_encode:
  assumes "length raw = 64" and "list_all (\<lambda>b. b < 256) raw"
  shows "b64url_64bytes (ascii (b64_encode raw))" and "cps (ascii (b64_encode raw)) = b64_encode raw"
proof -
  obtain body where body: "b64_encode raw = body @ [61, 61]" "length body = 86"
    "list_all (\<lambda>c. c < 256 \<and> b64url_char (char_of c)) body"
    using b64_encode_shape [of raw 21] assms by auto
  have "of_char (CHR ''='') = (61 :: nat)" by simp
  then have "char_of (61 :: nat) = CHR ''=''" by (metis char_of_char)
  then show "b64url_64bytes (ascii (b64_encode raw))"
    using body by (simp add: b64url_64bytes_def ascii_def list_all_iff)
  show "cps (ascii (b64_encode raw)) = b64_encode raw"
    using body by (auto simp: ascii_def list_all_iff intro!: map_idI)
qed

lemma b64_value_bound: "b64_value c = Some v \<Longrightarrow> v < 64"
  by (auto simp: b64_value_def split: if_splits)

lemma b64_scan_bytes:
  "b64_scan quad left pads cs = Some bs \<Longrightarrow> (quad = 1 \<longrightarrow> left < 64) \<Longrightarrow> (quad = 2 \<longrightarrow> left < 16) \<Longrightarrow>
     (quad \<noteq> 0 \<and> quad \<noteq> 1 \<and> quad \<noteq> 2 \<longrightarrow> left < 4) \<Longrightarrow> list_all (\<lambda>b. b < 256) bs"
proof (induction quad left pads cs arbitrary: bs rule: b64_scan.induct)
  case (2 quad left pads c cs)
  show ?case
  proof (cases "c = 61")
    case True
    then show ?thesis using 2 by (auto split: if_splits)
  next
    case False
    show ?thesis
    proof (cases "b64_value c")
      case None
      then show ?thesis using 2 False by simp
    next
      case (Some v)
      then have "v < 64" by (rule b64_value_bound)
      then have "v div 16 < 4" "v div 4 < 16" "v mod 16 < 16" "v mod 4 < 4" by auto
      then show ?thesis using 2 False Some \<open>v < 64\<close> by (auto split: if_splits)
    qed
  qed
qed (auto split: if_splits)

lemma verify_signature_True:
  "verify_signature sha256 ecdsa rec = Inr True \<longleftrightarrow>
     (\<exists>raw pre. length raw = 64 \<and> list_all (\<lambda>b. b < 256) raw \<and> get rec ''signature'' = JStr (ascii (b64_encode raw)) \<and>
        signing_preimage rec = Inr pre \<and> ecdsa raw (sha256 pre))" (is "?L \<longleftrightarrow> ?R")
proof
  assume ?L
  then obtain sig raw pre where "get rec ''signature'' = JStr sig" "b64_decode (cps sig) = Some raw" "length raw = 64"
    "ascii (b64_encode raw) = sig" "signing_preimage rec = Inr pre" "ecdsa raw (sha256 pre)"
    by (auto simp: verify_signature_def split: json.splits option.splits if_splits)
  then show ?R using b64_scan_bytes [of 0 0 0 "cps sig" raw] by (auto simp: b64_decode_def)
next
  assume ?R
  then obtain raw pre where "length raw = 64" "list_all (\<lambda>b. b < 256) raw"
    "get rec ''signature'' = JStr (ascii (b64_encode raw))" "signing_preimage rec = Inr pre" "ecdsa raw (sha256 pre)"
    by auto
  then show ?L by (simp add: verify_signature_def b64url_64bytes_encode b64_decode_encode)
qed

section \<open>Links\<close>

lemma finding_if_nil [simp]: "finding_if b f = [] \<longleftrightarrow> \<not> b"
  by (simp add: finding_if_def)

lemma links_nil:
  "links sha256 n rs = Inr [] \<Longrightarrow> Suc i < length rs \<Longrightarrow> link_findings sha256 (n + i) (rs ! i) (rs ! Suc i) = Inr []"
proof (induction sha256 n rs arbitrary: i rule: links.induct)
  case (1 sha256 n prev cur rest)
  then show ?case by (cases i) auto
qed auto

lemma link_hash:
  "link_findings sha256 n prev cur = Inr [] \<Longrightarrow>
     \<exists>h. record_hash_hex sha256 prev = Inr h \<and> get cur ''prev_hash'' = JStr h"
  by (auto simp: link_findings_def)

lemma record_hash_Inr: "record_hash_hex sha256 r = Inr h \<Longrightarrow> \<exists>b. jcs (jv r) = Inr b"
  by (auto simp: record_hash_hex_def lift_jcs_def split: sum.splits)

lemma canon_jv_JStr: "canon (jv v) = JStr (cps s) \<longleftrightarrow> v = JStr s"
  by (cases v) (auto dest: cps_inj)

lemma canon_get_JStr:
  assumes eq: "canon (jv (JObj ms)) = canon (jv (JObj ns))" and "distinct (map fst ns)"
    and "get (JObj ms) k = JStr h"
  shows "get (JObj ns) k = JStr h"
proof -
  let ?c = "\<lambda>ms. map (\<lambda>(k, v). (k, canon v)) (map (\<lambda>(k, v). (cps k, jv v)) ms)"
  have "sorted_members (?c ms) = sorted_members (?c ns)" using eq by simp
  from arg_cong [OF this, of set] have set: "set (?c ms) = set (?c ns)" by (simp only: set_sorted_members)
  have "(k, JStr h) \<in> set ms" using assms(3) by (auto simp: get_def dest: map_of_SomeD split: option.splits)
  then have "(cps k, JStr (cps h)) \<in> set (?c ms)" by force
  then have "(cps k, JStr (cps h)) \<in> set (?c ns)" using set by simp
  then obtain k' v' where kv: "(k', v') \<in> set ns" "cps k' = cps k" "canon (jv v') = JStr (cps h)" by auto
  then have "(k, JStr h) \<in> set ns" using canon_jv_JStr cps_inj by metis
  then show ?thesis using assms(2) by (simp add: get_def)
qed

lemma verify_chain_ok_links:
  "verify_chain sha256 key rs = Inr (True, fs) \<Longrightarrow> links sha256 1 rs = Inr []"
  by (auto simp: verify_chain_def Let_def split: list.splits)

section \<open>Properties\<close>

text \<open>C5: the trail is tamper evident. Two audit trails of the same length that both verify and end in
  the same record (up to member order) are the same trail record by record, unless two different
  records among them have the same SHA-256 digest.\<close>

theorem audit_trail_tamper_evident:
  assumes "verify_chain sha256 key rs = Inr (True, [])" and "verify_chain sha256 key' ss = Inr (True, [])"
    and "length rs = length ss" and "list_all (\<lambda>r. is_dict r \<and> unique_names r) (rs @ ss)"
    and last: "canon (jv (last rs)) = canon (jv (last ss))"
    and no_collision: "\<forall>r \<in> set rs. \<forall>s \<in> set ss. record_hash_hex sha256 r = record_hash_hex sha256 s \<longrightarrow> jcs (jv r) = jcs (jv s)"
    and "i < length rs"
  shows "canon (jv (rs ! i)) = canon (jv (ss ! i))"
proof -
  have "canon (jv (rs ! (length rs - Suc k))) = canon (jv (ss ! (length rs - Suc k)))" if "k < length rs" for k
    using that
  proof (induction k)
    case 0
    then have "rs \<noteq> []" "ss \<noteq> []" using assms(3) by auto
    then show ?case using last assms(3) by (simp add: last_conv_nth)
  next
    case (Suc k)
    define j where "j = length rs - Suc (Suc k)"
    have j: "Suc j < length rs" "Suc j < length ss" "length rs - Suc k = Suc j"
      using Suc.prems assms(3) by (auto simp: j_def)
    obtain h h' where h: "record_hash_hex sha256 (rs ! j) = Inr h" "get (rs ! Suc j) ''prev_hash'' = JStr h"
      and h': "record_hash_hex sha256 (ss ! j) = Inr h'" "get (ss ! Suc j) ''prev_hash'' = JStr h'"
      using links_nil [OF verify_chain_ok_links [OF assms(1)] j(1)] links_nil [OF verify_chain_ok_links [OF assms(2)] j(2)]
        link_hash by meson
    have "is_dict (rs ! Suc j)" "is_dict (ss ! Suc j)" "unique_names (ss ! Suc j)"
      using assms(4) j by (simp_all add: list_all_iff)
    then obtain ms ns where r: "rs ! Suc j = JObj ms" and s: "ss ! Suc j = JObj ns" "distinct (map fst ns)"
      by (auto simp: is_dict_conv)
    have "canon (jv (JObj ms)) = canon (jv (JObj ns))" using Suc j(3) r s by simp
    then have "h = h'" using canon_get_JStr [OF _ s(2)] h(2) h'(2) r s(1) by simp
    then have "jcs (jv (rs ! j)) = jcs (jv (ss ! j))" using no_collision h(1) h'(1) j by simp
    then show ?case using record_hash_Inr [OF h(1)] jcs_inj by (metis j_def)
  qed
  from this [of "length rs - Suc i"] show ?thesis using assms(7) by simp
qed

text \<open>What a verified signature is. The signature member verifies exactly when it is the one padded
  base64url spelling of 64 bytes and those bytes verify over the digest of the record without its
  signature member; every other spelling of the same bytes is refused.\<close>

theorem verify_signature_iff:
  "verify_signature sha256 ecdsa rec = Inr True \<longleftrightarrow>
     (\<exists>raw pre. length raw = 64 \<and> list_all (\<lambda>b. b < 256) raw \<and> get rec ''signature'' = JStr (ascii (b64_encode raw)) \<and>
        signing_preimage rec = Inr pre \<and> ecdsa raw (sha256 pre))"
  by (rule verify_signature_True)

text \<open>Signing and verifying are inverse. A record signed by \<open>sign_record\<close> and stored with that
  signature verifies, whatever signature member it carried before, for every key pair whose public
  half accepts the 64-byte signatures of the private half.\<close>

theorem signed_record_verifies:
  assumes "sign_record sha256 sign rec None = Inr sig"
    and "\<forall>d. ecdsa (sign d) d \<and> length (sign d) = 64 \<and> list_all (\<lambda>b. b < 256) (sign d)"
  shows "verify_signature sha256 ecdsa (JObj (AList.update ''signature'' (JStr sig) (members rec))) = Inr True"
proof -
  let ?r = "JObj (AList.update ''signature'' (JStr sig) (members rec))"
  obtain pre where pre: "signing_preimage rec = Inr pre" and sig: "sig = ascii (b64_encode (sign (sha256 pre)))"
    using assms(1) by (auto simp: sign_record_def)
  have "filter (\<lambda>(k, v). k \<noteq> n) (AList.update n x ms) = filter (\<lambda>(k, v). k \<noteq> n) ms"
    for n :: string and x :: pyval and ms
    by (induction ms) auto
  then have "signing_preimage ?r = Inr pre" using pre by (simp add: signing_preimage_def)
  moreover have "get ?r ''signature'' = JStr sig" by (simp add: get_def AList.update_conv')
  ultimately show ?thesis using assms(2) sig unfolding verify_signature_True by blast
qed

section \<open>A two-record trail\<close>

definition genesis :: pyval where
  "genesis = JObj [(''record_id'', JStr ''r0''), (''parent_record_id'', JNull), (''prev_hash'', JNull),
     (''timestamp'', JStr ''2026-01-01T00:00:00Z'')]"

definition genesis_respelled :: pyval where
  "genesis_respelled = JObj [(''timestamp'', JStr ''2026-01-01T00:00:00Z''), (''prev_hash'', JNull),
     (''parent_record_id'', JNull), (''record_id'', JStr ''r0'')]"

definition second_record :: "string \<Rightarrow> pyval" where
  "second_record h = JObj [(''record_id'', JStr ''r1''), (''parent_record_id'', JStr ''r0''), (''prev_hash'', JStr h),
     (''timestamp'', JStr ''2026-01-01T01:00:00+00:30'')]"

definition toy_sha :: "byte list \<Rightarrow> byte list" where
  "toy_sha b = [length b mod 256]"

lemmas jcs_eval = jcs_def sorted_members_def utf16_key_def utf16_units_def encode_utf8_def encodable_def
  scalar_def surrogate_def jcs_str_def jcs_char_def utf8_bytes_def

lemma genesis_jcs: "\<exists>b. jcs (jv genesis) = Inr b \<and> length b = 94"
  by (simp add: genesis_def jcs_eval)

lemma respelled_jcs: "jcs (jv genesis_respelled) = jcs (jv genesis)"
  by (simp add: genesis_def genesis_respelled_def jcs_eval)

lemma second_jcs: "\<exists>b. jcs (jv (second_record ''5e'')) = Inr b \<and> length b = 99"
  by (simp add: second_record_def jcs_eval)

lemma genesis_hash: "record_hash_hex toy_sha genesis = Inr ''5e''"
proof -
  have "hexdigest [94] = ''5e''" by (simp add: hexdigest_def ascii_def hex_def) code_simp
  then show ?thesis using genesis_jcs by (auto simp: record_hash_hex_def lift_jcs_def toy_sha_def)
qed

lemma second_hash: "record_hash_hex toy_sha (second_record ''5e'') \<noteq> record_hash_hex toy_sha genesis"
proof -
  have "hexdigest [99] \<noteq> ''5e''" by (simp add: hexdigest_def ascii_def hex_def) code_simp
  then show ?thesis using second_jcs genesis_hash by (auto simp: record_hash_hex_def lift_jcs_def toy_sha_def)
qed

lemma toy_chain:
  "verify_chain toy_sha None [genesis, second_record ''5e''] = Inr (True, [])"
  "verify_chain toy_sha None [genesis_respelled, second_record ''5e''] = Inr (True, [])"
proof -
  have t: "parse_rfc3339 (JStr ''2026-01-01T00:00:00Z'') = Some (63955699200, 0, '''')"
    "parse_rfc3339 (JStr ''2026-01-01T01:00:00+00:30'') = Some (63955701000, 0, '''')" by code_simp+
  have "record_hash_hex toy_sha genesis_respelled = Inr ''5e''"
    using genesis_hash respelled_jcs by (simp add: record_hash_hex_def)
  then have "link_findings toy_sha 1 genesis (second_record ''5e'') = Inr []"
    "link_findings toy_sha 1 genesis_respelled (second_record ''5e'') = Inr []"
    using genesis_hash t by (simp_all add: link_findings_def genesis_def genesis_respelled_def second_record_def get_def)
  then show "verify_chain toy_sha None [genesis, second_record ''5e''] = Inr (True, [])"
    "verify_chain toy_sha None [genesis_respelled, second_record ''5e''] = Inr (True, [])"
    by (simp_all add: verify_chain_def record_findings_def has_key_def phase_violation_def hashable_def genesis_def
        genesis_respelled_def second_record_def get_def finding_if_def)
qed

theorem audit_trail_tamper_evident_witness: "canon (jv genesis) = canon (jv genesis_respelled)"
proof -
  have "\<forall>r \<in> set [genesis, second_record ''5e'']. \<forall>s \<in> set [genesis_respelled, second_record ''5e''].
      record_hash_hex toy_sha r = record_hash_hex toy_sha s \<longrightarrow> jcs (jv r) = jcs (jv s)"
    using genesis_hash second_hash respelled_jcs by (auto simp: record_hash_hex_def)
  from audit_trail_tamper_evident [OF toy_chain refl [THEN trans] _ _ this, of 0] show ?thesis
    by (simp add: genesis_def genesis_respelled_def second_record_def)
qed

theorem signed_record_verifies_witness:
  "\<exists>sig. verify_signature toy_sha (\<lambda>r d. r = replicate 64 7) (JObj (AList.update ''signature'' (JStr sig) (members genesis))) = Inr True"
proof -
  obtain b where "jcs (jv genesis) = Inr b" using genesis_jcs by blast
  then have "signing_preimage genesis = Inr b" by (simp add: signing_preimage_def genesis_def lift_jcs_def)
  then obtain sig where "sign_record toy_sha (\<lambda>d. replicate 64 7) genesis None = Inr sig"
    by (simp add: sign_record_def)
  from signed_record_verifies [OF this, of "\<lambda>r d. r = replicate 64 7"] show ?thesis by (auto simp: list_all_iff)
qed

end
