(* ===== verification/Attenuation.thy ===== *)
theory Attenuation
  imports Prelude
begin

text \<open>
  The contract every delegation checker of the suite relies on: a hop test \<open>narrower child parent\<close>
  that keeps permissions downward closed. Along a chain whose hops all pass the test, what the leaf
  permits every ancestor permits. The ODIS, VAID and envelope models interpret it on their own tests.
\<close>

text \<open>Root first, leaf last; every record passes the test against the one before it.\<close>

fun hops :: "('a \<Rightarrow> 'a \<Rightarrow> bool) \<Rightarrow> 'a list \<Rightarrow> bool" where
  "hops narrower (p # c # rest) \<longleftrightarrow> narrower c p \<and> hops narrower (c # rest)"
| "hops narrower _ \<longleftrightarrow> True"

lemma hops_append_left: "hops n (xs @ ys) \<Longrightarrow> hops n xs"
  by (induction n xs rule: hops.induct) auto

lemma hops_snoc: "hops n (xs @ [p, c]) \<longleftrightarrow> hops n (xs @ [p]) \<and> n c p"
proof (induction xs)
  case (Cons x xs)
  then show ?case by (cases xs) auto
qed simp

text \<open>Where a hop determines the parent, the leaf determines the chain.\<close>

lemma hops_determined:
  assumes "hops n xs" "hops n ys" "length xs = length ys" "xs \<noteq> []" "last xs = last ys"
    and "\<And>p q c. p \<in> set xs \<Longrightarrow> q \<in> set ys \<Longrightarrow> n c p \<Longrightarrow> n c q \<Longrightarrow> p = q"
  shows "xs = ys"
  using assms
proof (induction xs arbitrary: ys rule: rev_induct)
  case (snoc x xs)
  obtain zs where ys: "ys = zs @ [x]" "length zs = length xs"
    using snoc.prems(3,5) by (cases ys rule: rev_cases) auto
  have "xs = zs"
  proof (cases "xs = []")
    case False
    then obtain us p where xs: "xs = us @ [p]" by (cases xs rule: rev_cases) auto
    then obtain ws q where zs: "zs = ws @ [q]" using ys(2) by (cases zs rule: rev_cases) auto
    have h: "hops n xs" "n x p" "hops n zs" "n x q"
      using snoc.prems(1,2) unfolding ys(1) zs xs by (simp_all add: hops_snoc)
    have "p = q" by (rule snoc.prems(6) [OF _ _ h(2,4)]) (simp_all add: ys(1) zs xs)
    then have "last xs = last zs" by (simp add: xs zs)
    moreover have "p' = q'" if "p' \<in> set xs" "q' \<in> set zs" "n c p'" "n c q'" for p' q' c
      by (rule snoc.prems(6) [OF _ _ that(3,4)]) (simp_all add: that(1,2) ys(1))
    ultimately show ?thesis using snoc.IH [OF h(1,3) ys(2) [symmetric] False] by blast
  qed (use ys in simp)
  then show ?case by (simp add: ys)
qed simp

locale attenuation =
  fixes narrower :: "'a \<Rightarrow> 'a \<Rightarrow> bool" and permits :: "'a \<Rightarrow> 'r \<Rightarrow> bool"
  assumes keeps: "narrower c p \<Longrightarrow> permits c r \<Longrightarrow> permits p r"
begin

lemma hops_permit:
  "hops narrower xs \<Longrightarrow> xs \<noteq> [] \<Longrightarrow> permits (last xs) r \<Longrightarrow> \<forall>d\<in>set xs. permits d r"
proof (induction xs)
  case (Cons p xs)
  show ?case
  proof (cases "xs = []")
    case False
    then have hop: "hops narrower xs" "narrower (hd xs) p" "permits (last xs) r"
      using Cons.prems by (cases xs; simp)+
    note below = Cons.IH [OF hop(1) False hop(3)]
    then have "permits p r" by (intro keeps [OF hop(2)]) (simp add: False)
    with below show ?thesis by simp
  qed (use Cons.prems in simp)
qed simp

end

end
