(* ===== verification/Delegation.thy ===== *)
theory Delegation
  imports Audit_Trail Attenuation
begin

text \<open>
  \<open>interop/cosai-odis-148dc41/adapter/py/odis.py\<close>: validation of one non-root delegation record
  against the records offered as parents, failing closed on everything it cannot compare. A result is
  the check that failed, or none; \<open>narrower_under_lab_profile\<close> keeps its reason.
\<close>

section \<open>Digest and profile\<close>

definition record_digest :: "(byte list \<Rightarrow> byte list) \<Rightarrow> pyval \<Rightarrow> aat_error + string" where
  "record_digest sha256 rec = bind_sum (lift_jcs (odis_jcs (jv rec))) (\<lambda>b. Inr (''sha256:'' @ hexdigest (sha256 b)))"

definition LAB_PROFILE :: pyval where
  "LAB_PROFILE = JObj
     [(''uri'', JStr ''urn:lab:attenuation-profile:set-subset:v1''),
      (''rules'', JObj
        [(''granted_authorizations'', JStr ''string set, child subset-or-equal of parent''),
         (''resource_indicators'', JStr ''string set, child subset-or-equal of parent''),
         (''constraints'', JStr ''object; each integer member child <= parent; parent members must be present in child'')])]"

definition OAR_REQUIRED :: "string list" where
  "OAR_REQUIRED = [''issuer'', ''subject'', ''audience'', ''grant_id'', ''issued_at'', ''expires_at'']"

section \<open>Attenuation under the profile\<close>

datatype narrow = Narrower | Not_string_set string | Not_subset string | Constraints_not_objects
  | Constraint_dropped string | Constraint_not_comparable string | Constraint_looser string

definition set_field :: "pyval \<Rightarrow> pyval \<Rightarrow> string \<Rightarrow> narrow option" where
  "set_field child parent f =
     (let c = get child f; p = get parent f in
      if \<not> (is_list c \<and> is_list p) \<or> \<not> list_all is_str (elements c @ elements p) then Some (Not_string_set f)
      else if \<not> set (elements c) \<subseteq> set (elements p) then Some (Not_subset f)
      else None)"

fun is_int :: "pyval \<Rightarrow> bool" where
  "is_int (JInt i) = True"
| "is_int _ = False"

fun int_val :: "pyval \<Rightarrow> int" where
  "int_val (JInt i) = i"
| "int_val _ = 0"

definition constraint_check :: "pyval \<Rightarrow> string \<times> pyval \<Rightarrow> narrow option" where
  "constraint_check c kp =
     (let (k, pv) = kp in
      if \<not> has_key c k then Some (Constraint_dropped k)
      else if \<not> (is_int (get c k) \<and> is_int pv) then Some (Constraint_not_comparable k)
      else if int_val (get c k) > int_val pv then Some (Constraint_looser k)
      else None)"

definition narrower_under_lab_profile :: "pyval \<Rightarrow> pyval \<Rightarrow> narrow" where
  "narrower_under_lab_profile child parent =
     (case first_error [set_field child parent ''granted_authorizations'', set_field child parent ''resource_indicators''] of
        Some e \<Rightarrow> e
      | None \<Rightarrow>
          (let c = get child ''constraints''; p = get parent ''constraints'' in
           if \<not> (is_dict c \<and> is_dict p) then Constraints_not_objects
           else case first_error (map (constraint_check c) (members p)) of Some e \<Rightarrow> e | None \<Rightarrow> Narrower))"

section \<open>One record against its parents\<close>

datatype odis_check = Parent_ref | Record_shape | Parent_resolution | Parent_digest | Expiry | Profile | Attenuation_check

definition resolved_parents :: "pyval \<Rightarrow> pyval list \<Rightarrow> pyval list" where
  "resolved_parents ref parents =
     filter (\<lambda>p. py_eq (get p ''issuer'') (get ref ''issuer'') \<and> py_eq (get p ''delegation_id'') (get ref ''delegation_id'')) parents"

definition known_profile :: "(byte list \<Rightarrow> byte list) \<Rightarrow> pyval \<Rightarrow> aat_error + bool" where
  "known_profile sha256 apr =
     bind_sum (record_digest sha256 LAB_PROFILE) (\<lambda>digest.
       if \<not> hashable (get apr ''uri'') \<or> \<not> hashable (get apr ''digest'') then Inl TypeError
       else Inr (get apr ''uri'' = get LAB_PROFILE ''uri'' \<and> get apr ''digest'' = JStr digest))"

definition expiry_ok :: "pyval \<Rightarrow> pyval \<Rightarrow> bool" where
  "expiry_ok child parent =
     (case (parse_rfc3339 (get child ''expires_at''), parse_rfc3339 (get parent ''expires_at'')) of
        (Some ce, Some pe) \<Rightarrow> \<not> ce > pe
      | _ \<Rightarrow> False)"

definition validate_against :: "(byte list \<Rightarrow> byte list) \<Rightarrow> pyval \<Rightarrow> pyval \<Rightarrow> pyval \<Rightarrow> aat_error + odis_check option" where
  "validate_against sha256 child ref parent =
     bind_sum (record_digest sha256 parent) (\<lambda>digest.
       if get ref ''record_digest'' \<noteq> JStr digest then Inr (Some Parent_digest)
       else if \<not> expiry_ok child parent then Inr (Some Expiry)
       else let apr = get child ''attenuation_profile_ref'' in
         if \<not> is_dict apr then Inr (Some Profile)
         else bind_sum (known_profile sha256 apr) (\<lambda>known.
           if \<not> known then Inr (Some Profile)
           else if narrower_under_lab_profile child parent \<noteq> Narrower then Inr (Some Attenuation_check)
           else Inr None))"

definition validate_non_root :: "(byte list \<Rightarrow> byte list) \<Rightarrow> pyval \<Rightarrow> pyval list \<Rightarrow> aat_error + odis_check option" where
  "validate_non_root sha256 child parents =
     (let ref = get child ''parent_delegation_ref''; oar = get child ''originating_authorization_ref'' in
      if \<not> is_dict ref then Inr (Some Parent_ref)
      else if \<not> (is_dict oar \<and> list_all (has_key oar) OAR_REQUIRED) then Inr (Some Record_shape)
      else case resolved_parents ref parents of
             [parent] \<Rightarrow> validate_against sha256 child ref parent
           | _ \<Rightarrow> Inr (Some Parent_resolution))"

section \<open>What a record permits\<close>

text \<open>A use of a delegation: an authorization, a resource, and an amount drawn under a named limit.
  A limit a record does not state does not restrict it.\<close>

record use =
  u_authorization :: string
  u_resource :: string
  u_limit :: string
  u_amount :: int

definition permits :: "pyval \<Rightarrow> use \<Rightarrow> bool" where
  "permits d u \<longleftrightarrow>
     JStr (u_authorization u) \<in> set (elements (get d ''granted_authorizations'')) \<and>
     JStr (u_resource u) \<in> set (elements (get d ''resource_indicators'')) \<and>
     (has_key (get d ''constraints'') (u_limit u) \<longrightarrow> u_amount u \<le> int_val (get (get d ''constraints'') (u_limit u)))"

lemma constraint_narrower:
  assumes "first_error (map (constraint_check c) (members p)) = None" and "has_key p k"
  shows "has_key c k \<and> int_val (get c k) \<le> int_val (get p k)"
proof -
  obtain v where v: "map_of (members p) k = Some v" using assms(2) by (auto simp: has_key_def)
  then have "constraint_check c (k, v) = None"
    using assms(1) by (auto simp: first_error_None dest: map_of_SomeD)
  then show ?thesis using v by (auto simp: constraint_check_def get_def [of p] split: if_splits)
qed

lemma hop_errors [simp]: "constraint_check c kp \<noteq> Some Narrower" "set_field c p f \<noteq> Some Narrower"
  by (auto simp: constraint_check_def set_field_def Let_def split: prod.splits)

lemmas hop_errors' [simp] = hop_errors [symmetric]

lemma narrower_facts:
  assumes "narrower_under_lab_profile child parent = Narrower"
  shows "set (elements (get child ''granted_authorizations'')) \<subseteq> set (elements (get parent ''granted_authorizations''))"
    "set (elements (get child ''resource_indicators'')) \<subseteq> set (elements (get parent ''resource_indicators''))"
    "first_error (map (constraint_check (get child ''constraints'')) (members (get parent ''constraints''))) = None"
  using assms
  by (auto simp: narrower_under_lab_profile_def Let_def split: option.splits if_splits
      dest!: first_error_Some_in) (auto simp: set_field_def Let_def split: if_splits)

lemma narrower_permits:
  assumes n: "narrower_under_lab_profile c p = Narrower" and c: "permits c u"
  shows "permits p u"
  using narrower_facts [OF n] c constraint_narrower [OF narrower_facts(3) [OF n], of "u_limit u"]
  by (force simp: permits_def)

text \<open>\<open>child\<close> was validated and \<open>parent\<close> is the one record its reference resolved to.\<close>

definition validated_under :: "(byte list \<Rightarrow> byte list) \<Rightarrow> pyval \<Rightarrow> pyval \<Rightarrow> bool" where
  "validated_under sha256 child parent \<longleftrightarrow>
     (\<exists>parents. validate_non_root sha256 child parents = Inr None \<and>
        resolved_parents (get child ''parent_delegation_ref'') parents = [parent])"

definition unexpired :: "pyval \<Rightarrow> key \<Rightarrow> bool" where
  "unexpired d t \<longleftrightarrow> (\<exists>e. parse_rfc3339 (get d ''expires_at'') = Some e \<and> t \<le> e)"

lemma validate_against_None:
  "validate_against sha256 child ref parent = Inr None \<longleftrightarrow>
     (\<exists>digest. record_digest sha256 parent = Inr digest \<and> get ref ''record_digest'' = JStr digest) \<and>
     expiry_ok child parent \<and> is_dict (get child ''attenuation_profile_ref'') \<and>
     known_profile sha256 (get child ''attenuation_profile_ref'') = Inr True \<and>
     narrower_under_lab_profile child parent = Narrower"
  by (auto simp: validate_against_def Let_def)

lemma validate_non_root_None:
  "validate_non_root sha256 child parents = Inr None \<longleftrightarrow>
     (let ref = get child ''parent_delegation_ref''; oar = get child ''originating_authorization_ref'' in
      is_dict ref \<and> is_dict oar \<and> list_all (has_key oar) OAR_REQUIRED \<and>
      (\<exists>parent. resolved_parents ref parents = [parent] \<and> validate_against sha256 child ref parent = Inr None))"
  by (auto simp: validate_non_root_def Let_def split: list.splits)

lemma expiry_ok_iff:
  "expiry_ok c p \<longleftrightarrow> (\<exists>ce pe. parse_rfc3339 (get c ''expires_at'') = Some ce \<and>
      parse_rfc3339 (get p ''expires_at'') = Some pe \<and> ce \<le> pe)"
  by (simp add: expiry_ok_def not_less split: option.splits)

lemma expiry_unexpired: "expiry_ok c p \<Longrightarrow> unexpired c t \<Longrightarrow> unexpired p t"
  unfolding expiry_ok_iff unexpired_def by (metis option.inject order_trans)

lemma known_profile_True:
  "known_profile sha256 apr = Inr True \<longleftrightarrow>
     (\<exists>profile. record_digest sha256 LAB_PROFILE = Inr profile \<and> get apr ''uri'' = get LAB_PROFILE ''uri'' \<and>
        get apr ''digest'' = JStr profile)"
proof -
  have "hashable (get LAB_PROFILE ''uri'')" by (simp add: LAB_PROFILE_def get_def hashable_def)
  moreover have "hashable (JStr s :: pyval)" for s by (simp add: hashable_def)
  ultimately show ?thesis by (auto simp: known_profile_def)
qed

interpretation odis: attenuation "validated_under sha256" "\<lambda>d (u, t). permits d u \<and> unexpired d t" for sha256
proof unfold_locales
  fix c p ut
  assume "validated_under sha256 c p" and c: "case ut of (u, t) \<Rightarrow> permits c u \<and> unexpired c t"
  then have "expiry_ok c p" "narrower_under_lab_profile c p = Narrower"
    by (auto simp: validated_under_def validate_non_root_None validate_against_None Let_def)
  then show "case ut of (u, t) \<Rightarrow> permits p u \<and> unexpired p t"
    using c narrower_permits expiry_unexpired by (auto split: prod.splits)
qed

section \<open>Properties\<close>

text \<open>C3: delegated authority never widens. Along a chain of records (root first) in which every record
  passes \<open>validate_non_root\<close> against the record before it, whatever the last record permits at an
  instant before its expiry, every record of the chain permits and is itself unexpired at that instant.\<close>

theorem delegated_authority_never_widens:
  assumes "hops (\<lambda>child parent. \<exists>parents. validate_non_root sha256 child parents = Inr None \<and>
        resolved_parents (get child ''parent_delegation_ref'') parents = [parent]) ds"
    and "ds \<noteq> []" and "permits (last ds) u" and "unexpired (last ds) t" and "d \<in> set ds"
  shows "permits d u \<and> unexpired d t"
  using odis.hops_permit [of sha256 ds "(u, t)"] assms unfolding validated_under_def [abs_def] by simp

text \<open>Validation fails closed. A record passes exactly when it references a parent, states where its
  authority originates, resolves to one parent whose digest is the referenced one, does not outlive
  that parent, names the known profile by address and digest, and is narrower under it; anything
  else is a failed check or an exception.\<close>

theorem validate_non_root_pass_iff:
  "validate_non_root sha256 child parents = Inr None \<longleftrightarrow>
     (\<exists>parent digest profile ce pe.
        is_dict (get child ''parent_delegation_ref'') \<and>
        is_dict (get child ''originating_authorization_ref'') \<and>
        list_all (has_key (get child ''originating_authorization_ref'')) OAR_REQUIRED \<and>
        resolved_parents (get child ''parent_delegation_ref'') parents = [parent] \<and>
        record_digest sha256 parent = Inr digest \<and>
        get (get child ''parent_delegation_ref'') ''record_digest'' = JStr digest \<and>
        parse_rfc3339 (get child ''expires_at'') = Some ce \<and> parse_rfc3339 (get parent ''expires_at'') = Some pe \<and> ce \<le> pe \<and>
        is_dict (get child ''attenuation_profile_ref'') \<and>
        record_digest sha256 LAB_PROFILE = Inr profile \<and>
        get (get child ''attenuation_profile_ref'') ''uri'' = get LAB_PROFILE ''uri'' \<and>
        get (get child ''attenuation_profile_ref'') ''digest'' = JStr profile \<and>
        narrower_under_lab_profile child parent = Narrower)"
  (is "?L \<longleftrightarrow> ?R")
proof
  assume ?L
  then show ?R
    unfolding validate_non_root_None validate_against_None known_profile_True expiry_ok_iff Let_def
    by (elim conjE exE) (intro exI conjI; assumption)
next
  assume ?R
  then show ?L
    unfolding validate_non_root_None validate_against_None known_profile_True expiry_ok_iff Let_def
    by (elim conjE exE) (intro exI conjI; assumption)
qed

section \<open>A two-record chain\<close>

definition root_grant :: pyval where
  "root_grant = JObj [(''issuer'', JStr ''as''), (''delegation_id'', JStr ''d0''),
     (''granted_authorizations'', JArr [JStr ''read'', JStr ''write'']), (''resource_indicators'', JArr [JStr ''db'']),
     (''constraints'', JObj [(''max'', JInt 9)]), (''expires_at'', JStr ''2026-01-02T00:00:00Z'')]"

definition sub_grant :: pyval where
  "sub_grant = JObj [(''granted_authorizations'', JArr [JStr ''read'']), (''resource_indicators'', JArr [JStr ''db'']),
     (''constraints'', JObj [(''max'', JInt 4)]), (''expires_at'', JStr ''2026-01-01T00:00:00Z''),
     (''parent_delegation_ref'', JObj [(''issuer'', JStr ''as''), (''delegation_id'', JStr ''d0''), (''record_digest'', JStr ''sha256:'')]),
     (''originating_authorization_ref'', JObj (map (\<lambda>k. (k, JStr ''x'')) OAR_REQUIRED)),
     (''attenuation_profile_ref'', JObj [(''uri'', JStr ''urn:lab:attenuation-profile:set-subset:v1''), (''digest'', JStr ''sha256:'')])]"

lemma odis_digests:
  "record_digest (\<lambda>b. []) root_grant = Inr ''sha256:''" "record_digest (\<lambda>b. []) LAB_PROFILE = Inr ''sha256:''"
  by (simp_all add: record_digest_def root_grant_def LAB_PROFILE_def odis_jcs_def odis_str_def odis_char_def jcs_eval
      lift_jcs_def hexdigest_def ascii_def hex_def str_int_def str_nat.simps)

lemma odis_instants:
  "parse_rfc3339 (JStr ''2026-01-01T00:00:00Z'') = Some (63955699200, 0, '''')"
  "parse_rfc3339 (JStr ''2026-01-02T00:00:00Z'') = Some (63955785600, 0, '''')"
  by code_simp+

theorem delegated_authority_never_widens_witness:
  "permits root_grant \<lparr>u_authorization = ''read'', u_resource = ''db'', u_limit = ''max'', u_amount = 3\<rparr> \<and>
     unexpired root_grant (63955699200, 0, '''')" (is "permits _ ?u \<and> unexpired _ ?t")
proof -
  have r: "resolved_parents (get sub_grant ''parent_delegation_ref'') [root_grant] = [root_grant]"
    by (simp add: resolved_parents_def root_grant_def sub_grant_def get_def)
  have n: "narrower_under_lab_profile sub_grant root_grant = Narrower"
    by (simp add: narrower_under_lab_profile_def set_field_def constraint_check_def root_grant_def sub_grant_def get_def
        has_key_def)
  have v: "validate_non_root (\<lambda>b. []) sub_grant [root_grant] = Inr None"
    unfolding validate_non_root_None Let_def validate_against_None known_profile_True expiry_ok_iff
    using r n odis_digests odis_instants
    by (simp add: get_def sub_grant_def root_grant_def LAB_PROFILE_def OAR_REQUIRED_def has_key_def)
  have "permits sub_grant ?u" "unexpired sub_grant ?t"
    using odis_instants(1) by (simp_all add: permits_def unexpired_def sub_grant_def get_def has_key_def)
  with delegated_authority_never_widens [of "\<lambda>b. []" "[root_grant, sub_grant]" ?u ?t root_grant] r v
  show ?thesis by auto
qed

end
