(* ===== verification/Vaid.thy ===== *)
theory Vaid
  imports Audit_Trail Attenuation
begin

text \<open>
  \<open>interop/vaid-a2a-0.1.1-cleanroom-ca6077a2/vaid_cr.py\<close>: the verifier of VAID delegation chains.
  Documents are JSON values as parsed. The primitives outside the repository form one record:
  SHA-256, Ed25519 verification under a raw key, \<open>str()\<close> of a value that is not a string, and
  \<open>datetime.fromisoformat\<close> (whose grammar depends on the interpreter). The detail text of a verdict
  is left out; its code, step and path of steps are kept.
\<close>

datatype iso = Not_iso | Naive | Aware int | Out_of_range

record vaid_lib =
  lib_sha256 :: "byte list \<Rightarrow> byte list"
  lib_ed25519 :: "byte list \<Rightarrow> byte list \<Rightarrow> byte list \<Rightarrow> bool"
  lib_str :: "pyval \<Rightarrow> string"
  lib_fromisoformat :: "string \<Rightarrow> iso"

datatype vaid_exn = Refusal string | Raise py_error

definition raising :: "py_error + 'a \<Rightarrow> vaid_exn + 'a" where
  "raising x = (case x of Inl e \<Rightarrow> Inl (Raise e) | Inr y \<Rightarrow> Inr y)"

definition refuse_if :: "bool \<Rightarrow> string \<Rightarrow> vaid_exn + unit" where
  "refuse_if b code = (if b then Inl (Refusal code) else Inr ())"

section \<open>Parsing\<close>

text \<open>\<open>json.loads\<close> with \<open>_no_dupes\<close> as \<open>object_pairs_hook\<close>, from the tree of the text: an object is
  handed to the hook after its values have been built.\<close>

definition no_dupes :: "(string \<times> pyval) list \<Rightarrow> vaid_exn + pyval" where
  "no_dupes pairs = (if distinct (map fst pairs) then Inr (JObj pairs) else Inl (Refusal ''unparseable''))"

fun parse_strict :: "pyval \<Rightarrow> vaid_exn + pyval" where
  "parse_strict (JArr xs) = bind_sum (traverse id (map parse_strict xs)) (\<lambda>ys. Inr (JArr ys))"
| "parse_strict (JObj ms) =
     bind_sum (traverse (\<lambda>(k, m). bind_sum m (\<lambda>v. Inr (k, v))) (map (\<lambda>(k, v). (k, parse_strict v)) ms)) no_dupes"
| "parse_strict v = Inr v"

text \<open>The canonicaliser is the code of the AAT adapter, with a refusal for a float.\<close>

definition vaid_jcs :: "pyval \<Rightarrow> vaid_exn + byte list" where
  "vaid_jcs v =
     (case jcs (jv v) of
        Inl FloatError \<Rightarrow> Inl (Refusal ''unparseable'')
      | Inl UnicodeEncodeError \<Rightarrow> Inl (Raise Unicode_error)
      | Inr b \<Rightarrow> Inr b)"

section \<open>Keys\<close>

definition THUMB_PREFIX :: string where
  "THUMB_PREFIX = ''urn:ietf:params:oauth:jwk-thumbprint:sha-256:''"

definition b64u :: "byte list \<Rightarrow> string" where
  "b64u b = ascii (b64u_encode b)"

definition b64u_dec :: "string \<Rightarrow> byte list option" where
  "b64u_dec s = (if list_all (\<lambda>c. of_char c < (128 :: nat)) s then b64u_decode (cps s) else None)"

definition thumbprint_uri :: "vaid_lib \<Rightarrow> byte list \<Rightarrow> vaid_exn + string" where
  "thumbprint_uri lib raw_pub =
     bind_sum (vaid_jcs (JObj [(''crv'', JStr ''Ed25519''), (''kty'', JStr ''OKP''), (''x'', JStr (b64u raw_pub))]))
       (\<lambda>b. Inr (THUMB_PREFIX @ b64u (lib_sha256 lib b)))"

record trusted_issuer =
  ti_trust_domain :: pyval
  ti_raw_key :: "byte list"
  ti_thumb :: string

type_synonym trust = "(string \<times> trusted_issuer) list"

definition trusted_entry :: "vaid_lib \<Rightarrow> pyval \<Rightarrow> vaid_exn + trusted_issuer" where
  "trusted_entry lib e =
     bind_sum (raising (subscript e ''kernelPublicKey'')) (\<lambda>k.
       case k of
         JStr s \<Rightarrow>
           (case b64u_dec s of
              None \<Rightarrow> Inl (Raise Value_error)
            | Some raw \<Rightarrow>
                (if length raw \<noteq> 32 then Inl (Raise Value_error)
                 else bind_sum (thumbprint_uri lib raw) (\<lambda>t.
                      bind_sum (raising (subscript e ''trustDomain'')) (\<lambda>td.
                        Inr \<lparr>ti_trust_domain = td, ti_raw_key = raw, ti_thumb = t\<rparr>))))
       | _ \<Rightarrow> Inl (Raise Type_error))"

definition load_trust :: "vaid_lib \<Rightarrow> pyval \<Rightarrow> vaid_exn + trust" where
  "load_trust lib trust_config =
     bind_sum (raising (py_iter (if has_key trust_config ''trustedIssuers'' then get trust_config ''trustedIssuers'' else JArr [])))
       (\<lambda>entries. bind_sum (traverse (trusted_entry lib) entries) (\<lambda>issuers.
          Inr (fold (\<lambda>ti out. AList.update (ti_thumb ti) ti out) issuers [])))"

section \<open>Trust domains\<close>

definition label_ok :: "string \<Rightarrow> bool" where
  "label_ok lab \<longleftrightarrow> 1 \<le> length lab \<and> length lab \<le> 63 \<and> \<not> prefix ''-'' lab \<and> \<not> suffix ''-'' lab"

definition trust_domain_ok :: "pyval \<Rightarrow> bool" where
  "trust_domain_ok td =
     (case td of
        JStr s \<Rightarrow>
          1 \<le> length s \<and> length s \<le> 253 \<and>
          list_all (\<lambda>c. c \<in> set ''abcdefghijklmnopqrstuvwxyz0123456789-.'') s \<and>
          (let labels = split_on (CHR ''.'') s in
             2 \<le> length labels \<and> list_all label_ok labels \<and>
             \<not> list_all (\<lambda>c. c \<in> set ''0123456789'') (last labels))
      | _ \<Rightarrow> False)"

section \<open>Time\<close>

definition parse_ts :: "vaid_lib \<Rightarrow> pyval \<Rightarrow> vaid_exn + int" where
  "parse_ts lib s =
     (case s of
        JStr t \<Rightarrow>
          (case lib_fromisoformat lib (replace_char (CHR ''z'') ''+00:00'' (replace_char (CHR ''Z'') ''+00:00'' t)) of
             Not_iso \<Rightarrow> Inl (Refusal ''unparseable'')
           | Naive \<Rightarrow> Inl (Refusal ''unparseable'')
           | Out_of_range \<Rightarrow> Inl (Raise Overflow_error)
           | Aware us \<Rightarrow> Inr us)
      | _ \<Rightarrow> Inl (Refusal ''unparseable''))"

section \<open>Scope\<close>

definition SEPARATORS :: "string list" where
  "SEPARATORS = [''/'', ''.'']"

definition entry_contains :: "pyval \<Rightarrow> pyval \<Rightarrow> py_error + bool" where
  "entry_contains p r =
     (if p = JStr '''' then Inr True
      else if py_eq r p then Inr True
      else case (p, r) of
        (JStr ps, JStr rs) \<Rightarrow>
          Inr (list_ex (\<lambda>s. suffix s ps) SEPARATORS \<and> prefix ps rs \<or> list_ex (\<lambda>s. prefix (ps @ s) rs) SEPARATORS)
      | _ \<Rightarrow> Inl Attribute_error)"

definition boundary_contains :: "pyval \<Rightarrow> pyval \<Rightarrow> py_error + bool" where
  "boundary_contains boundary r =
     bind_sum (py_len boundary) (\<lambda>n.
       if n = 0 then Inr True
       else bind_sum (py_iter boundary) (any_of (\<lambda>p. entry_contains p r)))"

definition scope_attenuates :: "pyval \<Rightarrow> pyval \<Rightarrow> py_error + bool" where
  "scope_attenuates child parent =
     bind_sum (py_len parent) (\<lambda>np.
       if np = 0 then Inr True
       else bind_sum (py_len child) (\<lambda>nc.
         if nc = 0 then Inr False
         else bind_sum (py_iter child) (all_of (\<lambda>c. boundary_contains parent c))))"

definition caps_attenuate :: "pyval \<Rightarrow> pyval \<Rightarrow> py_error + bool" where
  "caps_attenuate child parent =
     bind_sum (py_set child) (\<lambda>cs. bind_sum (py_set parent) (\<lambda>ps.
       Inr (list_all (\<lambda>c. list_ex (py_eq c) ps) cs)))"

section \<open>Authenticity\<close>

definition REQUIRED_FIELDS :: "string list" where
  "REQUIRED_FIELDS =
     [''sig_version'', ''vaid_id'', ''agent_id'', ''agent_class'', ''version'', ''tenant_id'',
      ''issued_at'', ''expires_at'', ''public_key_der'', ''kernel_signature'', ''parent_vaid'',
      ''scope_boundary'', ''lineage_hash'', ''capability_set'', ''trust_domain'', ''kernel_key_thumbprint'']"

definition fmt :: "vaid_lib \<Rightarrow> pyval \<Rightarrow> string" where
  "fmt lib v = (case v of JStr s \<Rightarrow> s | _ \<Rightarrow> lib_str lib v)"

definition lineage_material :: "vaid_lib \<Rightarrow> pyval \<Rightarrow> string" where
  "lineage_material lib doc =
     (let parent = get doc ''parent_vaid''; agent = fmt lib (get doc ''agent_id'') in
      if parent = JNull then ''GENESIS:'' @ agent else fmt lib parent @ '':'' @ agent)"

definition utf8 :: "string \<Rightarrow> byte list" where
  "utf8 s = concat (map utf8_bytes (cps s))"

fun byte_value :: "pyval \<Rightarrow> byte option" where
  "byte_value (JInt i) = (if 0 \<le> i \<and> i \<le> 255 then Some (nat i) else None)"
| "byte_value _ = None"

definition signature_bytes :: "pyval \<Rightarrow> byte list option" where
  "signature_bytes sig =
     (if is_list sig \<and> length (elements sig) = 64 then those (map byte_value (elements sig)) else None)"

definition trusted_key :: "trust \<Rightarrow> pyval \<Rightarrow> vaid_exn + trusted_issuer" where
  "trusted_key trust thumb =
     (if \<not> hashable thumb then Inl (Raise Type_error)
      else case thumb of
        JStr t \<Rightarrow> (case map_of trust t of None \<Rightarrow> Inl (Refusal ''issuer_mismatch'') | Some ti \<Rightarrow> Inr ti)
      | _ \<Rightarrow> Inl (Refusal ''issuer_mismatch''))"

definition check_signature :: "vaid_lib \<Rightarrow> trusted_issuer \<Rightarrow> pyval \<Rightarrow> vaid_exn + unit" where
  "check_signature lib ti doc =
     (case signature_bytes (get doc ''kernel_signature'') of
        None \<Rightarrow> Inl (Refusal ''inauthentic'')
      | Some sig \<Rightarrow>
          bind_sum (vaid_jcs (JObj (AList.update ''kernel_signature'' JNull (members doc)))) (\<lambda>b.
            refuse_if (\<not> lib_ed25519 lib (ti_raw_key ti) sig (lib_sha256 lib b)) ''inauthentic''))"

definition authenticate :: "vaid_lib \<Rightarrow> trust \<Rightarrow> pyval \<Rightarrow> vaid_exn + unit" where
  "authenticate lib trust doc =
     bind_sum (refuse_if (\<not> is_dict doc) ''unparseable'') (\<lambda>_.
     bind_sum (refuse_if (\<not> list_all (has_key doc) REQUIRED_FIELDS) ''unparseable'') (\<lambda>_.
     bind_sum (case get doc ''sig_version'' of
                 JInt sv \<Rightarrow> refuse_if (sv \<noteq> 3) ''unsupported_sig_version''
               | _ \<Rightarrow> Inl (Refusal ''unparseable'')) (\<lambda>_.
     bind_sum (refuse_if (\<not> trust_domain_ok (get doc ''trust_domain'')) ''malformed_trust_domain'') (\<lambda>_.
     bind_sum (trusted_key trust (get doc ''kernel_key_thumbprint'')) (\<lambda>ti.
     bind_sum (refuse_if (\<not> py_eq (ti_trust_domain ti) (get doc ''trust_domain'')) ''issuer_mismatch'') (\<lambda>_.
     bind_sum (refuse_if (\<not> py_eq (get doc ''vaid_id'') (get doc ''agent_id'')) ''lineage_inconsistent'') (\<lambda>_.
     bind_sum (refuse_if (get doc ''lineage_hash'' \<noteq> JStr (hexdigest (lib_sha256 lib (utf8 (lineage_material lib doc)))))
                 ''lineage_inconsistent'') (\<lambda>_.
       check_signature lib ti doc))))))))"

section \<open>Revocation\<close>

type_synonym revocation = "pyval list \<Rightarrow> py_error + string"

definition NOT_REVOKED :: string where
  "NOT_REVOKED = ''not_revoked''"

definition REVOKED :: string where
  "REVOKED = ''revoked''"

definition UNAVAILABLE :: string where
  "UNAVAILABLE = ''unavailable''"

definition set_revocation :: "pyval list \<Rightarrow> bool \<Rightarrow> revocation" where
  "set_revocation revoked_ids unavailable lineage =
     (if unavailable then Inr UNAVAILABLE
      else bind_sum (any_of (\<lambda>v. py_in v revoked_ids) lineage) (\<lambda>b. Inr (if b then REVOKED else NOT_REVOKED)))"

section \<open>The procedure\<close>

record vaid_policy =
  require_chain :: bool
  leaf_only_mode :: string

record vaid_verdict =
  vv_code :: "string option"
  vv_step :: "string option"
  vv_path :: "string list"

text \<open>What ends the procedure early: a returned verdict, or an exception that leaves it.\<close>

datatype vaid_exit = Return vaid_verdict | Escape vaid_exn

definition failed :: "string \<Rightarrow> string \<Rightarrow> string list \<Rightarrow> vaid_verdict" where
  "failed code stp path = \<lparr>vv_code = Some code, vv_step = Some stp, vv_path = path\<rparr>"

definition fail_if :: "bool \<Rightarrow> string \<Rightarrow> string \<Rightarrow> string list \<Rightarrow> vaid_exit + unit" where
  "fail_if b code stp path = (if b then Inl (Return (failed code stp path)) else Inr ())"

text \<open>\<open>try: ... except Refusal as r: return refuse(step, r)\<close>, and code outside any \<open>try\<close>\<close>

definition refusing :: "string \<Rightarrow> string list \<Rightarrow> vaid_exn + 'a \<Rightarrow> vaid_exit + 'a" where
  "refusing stp path m =
     (case m of
        Inl (Refusal code) \<Rightarrow> Inl (Return (failed code stp path))
      | Inl (Raise e) \<Rightarrow> Inl (Escape (Raise e))
      | Inr x \<Rightarrow> Inr x)"

definition uncaught :: "vaid_exn + 'a \<Rightarrow> vaid_exit + 'a" where
  "uncaught m = (case m of Inl e \<Rightarrow> Inl (Escape e) | Inr x \<Rightarrow> Inr x)"

definition MAX_DEPTH :: nat where
  "MAX_DEPTH = 64"

definition path3 :: "string list" where
  "path3 = [''1'', ''2'', ''3'']"

definition path4 :: "string list" where
  "path4 = path3 @ [''4'']"

type_synonym vaid_bundle = "(pyval \<times> pyval) list"

definition lookup_py :: "vaid_bundle \<Rightarrow> pyval \<Rightarrow> pyval option" where
  "lookup_py bundle k = map_option snd (find (\<lambda>(k', d). py_eq k k') bundle)"

text \<open>The bundle of ancestors by \<open>vaid_id\<close>\<close>

fun build_bundle :: "vaid_bundle \<Rightarrow> pyval list \<Rightarrow> vaid_exit + vaid_bundle" where
  "build_bundle bundle [] = Inr bundle"
| "build_bundle bundle (d # ds) =
     bind_sum (fail_if (\<not> is_dict d \<or> \<not> has_key d ''vaid_id'') ''unparseable'' ''3'' path3) (\<lambda>_.
     bind_sum (uncaught (raising (py_in (get d ''vaid_id'') (map fst bundle)))) (\<lambda>dup.
     bind_sum (fail_if dup ''unverifiable'' ''3'' path3) (\<lambda>_.
       build_bundle (bundle @ [(get d ''vaid_id'', d)]) ds)))"

text \<open>One iteration of the climb from \<open>cur\<close>, the head of the lineage: the ancestor to add, if any\<close>

definition climb_step ::
  "vaid_lib \<Rightarrow> trust \<Rightarrow> int \<Rightarrow> vaid_bundle \<Rightarrow> pyval list \<Rightarrow> pyval list \<Rightarrow> pyval \<Rightarrow> vaid_exit + pyval" where
  "climb_step lib trust now bundle lineage seen cur =
     bind_sum (if hashable (get cur ''parent_vaid'') then Inr () else Inl (Escape (Raise Type_error))) (\<lambda>_.
     case lookup_py bundle (get cur ''parent_vaid'') of
       None \<Rightarrow> Inl (Return (failed ''unverifiable'' ''3'' path3))
     | Some p \<Rightarrow>
         bind_sum (uncaught (raising (py_in (get p ''vaid_id'') seen))) (\<lambda>cycle.
         bind_sum (fail_if (cycle \<or> length lineage > MAX_DEPTH) ''unverifiable'' ''3'' path3) (\<lambda>_.
         bind_sum (refusing ''3'' path3 (authenticate lib trust p)) (\<lambda>_.
         bind_sum (refusing ''3'' path3 (parse_ts lib (get p ''expires_at''))) (\<lambda>exp_at.
         bind_sum (fail_if (exp_at \<le> now) ''expired'' ''3'' path3) (\<lambda>_.
           Inr p))))))"

lemma climb_step_depth: "climb_step lib trust now bundle lineage seen cur = Inr p \<Longrightarrow> length lineage \<le> MAX_DEPTH"
  by (auto simp: climb_step_def fail_if_def split: option.splits if_splits)

text \<open>\<open>while cur["parent_vaid"] is not None\<close>. The source appends to the lineage and reverses it at the
  end; here the newest ancestor is the head, so the result is the reversed list.\<close>

function climb ::
  "vaid_lib \<Rightarrow> trust \<Rightarrow> int \<Rightarrow> vaid_bundle \<Rightarrow> pyval list \<Rightarrow> pyval list \<Rightarrow> pyval \<Rightarrow> vaid_exit + pyval list" where
  "climb lib trust now bundle lineage seen cur =
     (if get cur ''parent_vaid'' = JNull then Inr lineage
      else case climb_step lib trust now bundle lineage seen cur of
        Inl e \<Rightarrow> Inl e
      | Inr p \<Rightarrow> climb lib trust now bundle (p # lineage) (get p ''vaid_id'' # seen) p)"
  by pat_completeness auto

termination
  by (relation "measure (\<lambda>(lib, trust, now, bundle, lineage, seen, cur). Suc MAX_DEPTH - length lineage)")
    (auto dest!: climb_step_depth)

declare climb.simps [simp del]

definition attenuates :: "vaid_lib \<Rightarrow> pyval \<Rightarrow> pyval \<Rightarrow> vaid_exit + unit" where
  "attenuates lib parent child =
     bind_sum (uncaught (raising (scope_attenuates (get child ''scope_boundary'') (get parent ''scope_boundary'')))) (\<lambda>scope.
     bind_sum (fail_if (\<not> scope) ''not_attenuated'' ''4'' path4) (\<lambda>_.
     bind_sum (uncaught (raising (caps_attenuate (get child ''capability_set'') (get parent ''capability_set'')))) (\<lambda>caps.
     bind_sum (fail_if (\<not> caps) ''not_attenuated'' ''4'' path4) (\<lambda>_.
     bind_sum (fail_if (\<not> (py_eq (get child ''tenant_id'') (get parent ''tenant_id'') \<and>
                            py_eq (get child ''trust_domain'') (get parent ''trust_domain''))) ''not_attenuated'' ''4'' path4) (\<lambda>_.
     bind_sum (uncaught (parse_ts lib (get child ''expires_at''))) (\<lambda>ce.
     bind_sum (uncaught (parse_ts lib (get parent ''expires_at''))) (\<lambda>pe.
       fail_if (ce > pe) ''not_attenuated'' ''4'' path4)))))))"

fun attenuates_all :: "vaid_lib \<Rightarrow> pyval list \<Rightarrow> vaid_exit + unit" where
  "attenuates_all lib (parent # child # rest) =
     bind_sum (attenuates lib parent child) (\<lambda>_. attenuates_all lib (child # rest))"
| "attenuates_all lib _ = Inr ()"

text \<open>Steps 3 and 4: the lineage, root first\<close>

definition assemble ::
  "vaid_lib \<Rightarrow> trust \<Rightarrow> int \<Rightarrow> pyval \<Rightarrow> pyval list option \<Rightarrow> vaid_exit + pyval list" where
  "assemble lib trust now leaf chain =
     bind_sum (build_bundle [] (case chain of None \<Rightarrow> [] | Some ds \<Rightarrow> ds)) (\<lambda>bundle.
     bind_sum (if hashable (get leaf ''vaid_id'') then Inr () else Inl (Escape (Raise Type_error))) (\<lambda>_.
     bind_sum (climb lib trust now bundle [leaf] [get leaf ''vaid_id''] leaf) (\<lambda>lineage.
     bind_sum (attenuates_all lib lineage) (\<lambda>_. Inr lineage))))"

text \<open>Steps 5 to 7\<close>

definition conclude ::
  "revocation \<Rightarrow> pyval \<Rightarrow> string \<Rightarrow> pyval list \<Rightarrow> bool \<Rightarrow> string list \<Rightarrow> vaid_exit + vaid_verdict" where
  "conclude revocation leaf requested_action ids run_step5 path =
     (let path5 = (if run_step5 then path @ [''5''] else path); path6 = path5 @ [''6''] in
      bind_sum (if run_step5 then uncaught (raising (boundary_contains (get leaf ''scope_boundary'') (JStr requested_action)))
                else Inr True) (\<lambda>inside.
      bind_sum (fail_if (\<not> inside) ''out_of_scope'' ''5'' path5) (\<lambda>_.
      bind_sum (uncaught (raising (revocation ids))) (\<lambda>status.
      bind_sum (fail_if (status = REVOKED) ''revoked'' ''6'' path6) (\<lambda>_.
      bind_sum (fail_if (status \<noteq> NOT_REVOKED) ''revocation_unavailable'' ''6'' path6) (\<lambda>_.
        Inr \<lparr>vv_code = None, vv_step = None, vv_path = path6 @ [''7'']\<rparr>))))))"

definition verify_steps ::
  "vaid_lib \<Rightarrow> pyval \<Rightarrow> pyval list option \<Rightarrow> string \<Rightarrow> trust \<Rightarrow> revocation \<Rightarrow> int \<Rightarrow> vaid_policy \<Rightarrow> vaid_exit + vaid_verdict" where
  "verify_steps lib leaf chain requested_action trust revocation now policy =
     bind_sum (refusing ''1'' [''1''] (authenticate lib trust leaf)) (\<lambda>_.
     bind_sum (refusing ''2'' [''1'', ''2''] (parse_ts lib (get leaf ''expires_at''))) (\<lambda>exp_at.
     bind_sum (fail_if (exp_at \<le> now) ''expired'' ''2'' [''1'', ''2'']) (\<lambda>_.
       if chain \<noteq> None \<or> require_chain policy
       then bind_sum (assemble lib trust now leaf chain) (\<lambda>lineage.
              conclude revocation leaf requested_action (map (\<lambda>d. get d ''vaid_id'') lineage) True path4)
       else conclude revocation leaf requested_action [get leaf ''vaid_id'']
              (leaf_only_mode policy = ''strict'') [''1'', ''2''])))"

definition verify ::
  "vaid_lib \<Rightarrow> pyval \<Rightarrow> pyval list option \<Rightarrow> string \<Rightarrow> trust \<Rightarrow> revocation \<Rightarrow> int \<Rightarrow> vaid_policy \<Rightarrow> vaid_exn + vaid_verdict" where
  "verify lib leaf chain requested_action trust revocation now policy =
     (case verify_steps lib leaf chain requested_action trust revocation now policy of
        Inl (Return v) \<Rightarrow> Inr v
      | Inl (Escape e) \<Rightarrow> Inl e
      | Inr v \<Rightarrow> Inr v)"

end
