(* ===== verification/Vaid_Chain.thy ===== *)
theory Vaid_Chain
  imports Vaid
begin

text \<open>
  What a passing VAID verification establishes. The hop test is an instance of the attenuation
  contract, so the leaf's authority is within that of every ancestor; the climb is bounded; no
  refusal escapes the procedure.
\<close>

section \<open>Scope containment composes\<close>

lemma entry_contains_JStr:
  "entry_contains p (JStr r) = Inr True \<Longrightarrow> \<exists>ps. p = JStr ps"
  by (auto simp: entry_contains_def split: if_splits json.splits)

lemma entry_contains_str:
  "entry_contains (JStr p) (JStr r) =
     Inr (p = '''' \<or> r = p \<or> (suffix ''/'' p \<or> suffix ''.'' p) \<and> prefix p r \<or> prefix (p @ ''/'') r \<or> prefix (p @ ''.'') r)"
  by (auto simp: entry_contains_def SEPARATORS_def)

lemma entry_contains_trans:
  assumes "entry_contains (JStr p) (JStr q) = Inr True" and "entry_contains (JStr q) (JStr r) = Inr True"
  shows "entry_contains (JStr p) (JStr r) = Inr True"
  using assms unfolding entry_contains_str by (auto simp: prefix_def)

lemma any_of_entries:
  "any_of (\<lambda>p. entry_contains p (JStr c)) ps = Inr True \<Longrightarrow> entry_contains (JStr c) (JStr r) = Inr True \<Longrightarrow>
     any_of (\<lambda>p. entry_contains p (JStr r)) ps = Inr True"
proof (induction ps)
  case (Cons p ps)
  show ?case
  proof (cases "entry_contains p (JStr c) = Inr True")
    case True
    then show ?thesis using entry_contains_JStr [OF True] entry_contains_trans Cons.prems(2) by auto
  next
    case False
    then have f: "entry_contains p (JStr c) = Inr False" and "any_of (\<lambda>p. entry_contains p (JStr c)) ps = Inr True"
      using Cons.prems(1) by auto
    then have rest: "any_of (\<lambda>p. entry_contains p (JStr r)) ps = Inr True" using Cons by blast
    obtain s where "p = JStr s" using f by (cases p) (auto simp: entry_contains_def split: if_splits)
    then show ?thesis using rest by (simp add: entry_contains_str)
  qed
qed simp

lemma py_iter_len: "py_len v = Inr n \<Longrightarrow> \<exists>xs. py_iter v = Inr xs \<and> length xs = n"
  by (cases v) auto

lemma boundary_keeps:
  assumes "scope_attenuates c p = Inr True" and "boundary_contains c (JStr r) = Inr True"
  shows "boundary_contains p (JStr r) = Inr True"
proof -
  obtain np where np: "py_len p = Inr np" using assms(1) by (auto simp: scope_attenuates_def)
  show ?thesis
  proof (cases "np = 0")
    case False
    then obtain cs where cs: "py_iter c = Inr cs" "cs \<noteq> []" "\<forall>x\<in>set cs. boundary_contains p x = Inr True"
      using assms(1) np by (auto simp: scope_attenuates_def all_of_True dest: py_iter_len split: if_splits)
    then have "any_of (\<lambda>q. entry_contains q (JStr r)) cs = Inr True"
      using assms(2) by (auto simp: boundary_contains_def split: if_splits dest: py_iter_len)
    then obtain q where q: "q \<in> set cs" "entry_contains q (JStr r) = Inr True" using any_of_True by blast
    then obtain qs where qs: "q = JStr qs" using entry_contains_JStr by blast
    from q(1) cs(3) have "boundary_contains p (JStr qs) = Inr True" using qs by blast
    then show ?thesis using any_of_entries q(2) qs np False by (auto simp: boundary_contains_def)
  qed (simp add: boundary_contains_def np)
qed

section \<open>Authority of a document\<close>

record vaid_use =
  vu_action :: string
  vu_capability :: string
  vu_tenant :: string
  vu_domain :: string
  vu_instant :: int

definition vaid_permits :: "vaid_lib \<Rightarrow> pyval \<Rightarrow> vaid_use \<Rightarrow> bool" where
  "vaid_permits lib d u \<longleftrightarrow>
     boundary_contains (get d ''scope_boundary'') (JStr (vu_action u)) = Inr True \<and>
     (\<exists>cs. py_set (get d ''capability_set'') = Inr cs \<and> JStr (vu_capability u) \<in> set cs) \<and>
     get d ''tenant_id'' = JStr (vu_tenant u) \<and> get d ''trust_domain'' = JStr (vu_domain u) \<and>
     (\<exists>e. parse_ts lib (get d ''expires_at'') = Inr e \<and> vu_instant u < e)"

lemma raising_Inr [simp]: "raising m = Inr x \<longleftrightarrow> m = Inr x"
  by (simp add: raising_def split: sum.splits)

lemma uncaught_Inr [simp]: "uncaught m = Inr x \<longleftrightarrow> m = Inr x"
  by (simp add: uncaught_def split: sum.splits)

lemma refusing_Inr [simp]: "refusing s p m = Inr x \<longleftrightarrow> m = Inr x"
  by (simp add: refusing_def split: sum.splits vaid_exn.splits)

lemma fail_if_Inr [simp]: "fail_if b c s p = Inr x \<longleftrightarrow> \<not> b"
  by (simp add: fail_if_def)

lemma attenuates_facts:
  assumes "attenuates lib p c = Inr ()"
  shows "scope_attenuates (get c ''scope_boundary'') (get p ''scope_boundary'') = Inr True"
    and "caps_attenuate (get c ''capability_set'') (get p ''capability_set'') = Inr True"
    and "py_eq (get c ''tenant_id'') (get p ''tenant_id'')" and "py_eq (get c ''trust_domain'') (get p ''trust_domain'')"
    and "\<exists>ce pe. parse_ts lib (get c ''expires_at'') = Inr ce \<and> parse_ts lib (get p ''expires_at'') = Inr pe \<and> ce \<le> pe"
  using assms by (auto simp: attenuates_def not_less)

interpretation vaid: attenuation "\<lambda>c p. attenuates lib p c = Inr ()" "vaid_permits lib" for lib
proof unfold_locales
  fix c p u
  assume hop: "attenuates lib p c = Inr ()" and c: "vaid_permits lib c u"
  note f = attenuates_facts [OF hop]
  have "boundary_contains (get p ''scope_boundary'') (JStr (vu_action u)) = Inr True"
    using boundary_keeps [OF f(1)] c by (simp add: vaid_permits_def)
  moreover have "\<exists>cs. py_set (get p ''capability_set'') = Inr cs \<and> JStr (vu_capability u) \<in> set cs"
    using f(2) c by (fastforce simp: caps_attenuate_def vaid_permits_def list_all_iff list_ex_iff)
  moreover have "get p ''tenant_id'' = JStr (vu_tenant u)" "get p ''trust_domain'' = JStr (vu_domain u)"
    using f(3,4) c by (auto simp: vaid_permits_def)
  moreover have "\<exists>e. parse_ts lib (get p ''expires_at'') = Inr e \<and> vu_instant u < e"
    using f(5) c by (auto simp: vaid_permits_def)
  ultimately show "vaid_permits lib p u" by (simp add: vaid_permits_def)
qed

section \<open>The climb\<close>

text \<open>What the climb has established of the lineage so far, its newest ancestor first\<close>

definition fresh_doc :: "vaid_lib \<Rightarrow> trust \<Rightarrow> int \<Rightarrow> pyval \<Rightarrow> bool" where
  "fresh_doc lib trust now d \<longleftrightarrow>
     authenticate lib trust d = Inr () \<and> (\<exists>e. parse_ts lib (get d ''expires_at'') = Inr e \<and> now < e)"

definition climb_inv :: "vaid_lib \<Rightarrow> trust \<Rightarrow> int \<Rightarrow> pyval \<Rightarrow> pyval list \<Rightarrow> pyval list \<Rightarrow> bool" where
  "climb_inv lib trust now leaf lineage seen \<longleftrightarrow>
     lineage \<noteq> [] \<and> last lineage = leaf \<and> list_all (fresh_doc lib trust now) lineage \<and>
     seen = map (\<lambda>d. get d ''vaid_id'') lineage \<and> length lineage \<le> Suc MAX_DEPTH \<and> distinct seen"

lemma climb_step_facts:
  assumes "climb_step lib trust now bnd lineage seen cur = Inr p"
  shows "fresh_doc lib trust now p" and "length lineage \<le> MAX_DEPTH" and "\<not> list_ex (py_eq (get p ''vaid_id'')) seen"
    and "hashable (get p ''vaid_id'')"
  using assms by (auto simp: climb_step_def fresh_doc_def py_in_def not_le split: option.splits if_splits)

lemma py_eq_hashable_refl: "hashable v \<Longrightarrow> py_eq v v"
  by (cases v) (auto simp: hashable_def)

lemma climb_inv_step:
  assumes "climb_inv lib trust now leaf lineage seen" and "climb_step lib trust now bnd lineage seen cur = Inr p"
  shows "climb_inv lib trust now leaf (p # lineage) (get p ''vaid_id'' # seen)"
proof -
  note facts = climb_step_facts [OF assms(2)]
  have f: "get p ''vaid_id'' \<notin> set seen"
    using facts(3) py_eq_hashable_refl [OF facts(4)] by (auto simp: list_ex_iff)
  show ?thesis
    using assms(1) facts(1,2) f unfolding climb_inv_def by (elim conjE) simp
qed

lemma climb_result:
  "climb lib trust now bnd lineage seen cur = Inr ds \<Longrightarrow> climb_inv lib trust now leaf lineage seen \<Longrightarrow> cur = hd lineage \<Longrightarrow>
     (\<exists>seen'. climb_inv lib trust now leaf ds seen') \<and> get (hd ds) ''parent_vaid'' = JNull"
proof (induction lib trust now bnd lineage seen cur rule: climb.induct)
  case (1 lib trust now bnd lineage seen cur)
  show ?case
  proof (cases "get cur ''parent_vaid'' = JNull")
    case True
    then show ?thesis using "1.prems" by (subst (asm) climb.simps) auto
  next
    case False
    then obtain p where p: "climb_step lib trust now bnd lineage seen cur = Inr p"
      and "climb lib trust now bnd (p # lineage) (get p ''vaid_id'' # seen) p = Inr ds"
      using "1.prems"(1) by (subst (asm) climb.simps) (auto split: sum.splits)
    then show ?thesis using "1.IH" [OF False p] climb_inv_step [OF "1.prems"(2) p] by simp
  qed
qed

lemma attenuates_all_hops: "attenuates_all lib ds = Inr () \<longleftrightarrow> hops (\<lambda>c p. attenuates lib p c = Inr ()) ds"
  by (induction lib ds rule: attenuates_all.induct) auto

interpretation vaid_scope: attenuation "\<lambda>c p. attenuates lib p c = Inr ()"
  "\<lambda>d action. boundary_contains (get d ''scope_boundary'') (JStr action) = Inr True" for lib
  by unfold_locales (rule boundary_keeps [OF attenuates_facts(1)])

lemma assemble_facts:
  assumes "assemble lib trust now leaf chain = Inr lineage" and "fresh_doc lib trust now leaf"
  shows "\<exists>seen. climb_inv lib trust now leaf lineage seen" and "get (hd lineage) ''parent_vaid'' = JNull"
    and "hops (\<lambda>c p. attenuates lib p c = Inr ()) lineage"
proof -
  obtain bnd where "climb lib trust now bnd [leaf] [get leaf ''vaid_id''] leaf = Inr lineage"
    and a: "attenuates_all lib lineage = Inr ()"
    using assms(1) by (auto simp: assemble_def)
  then show "\<exists>seen. climb_inv lib trust now leaf lineage seen" "get (hd lineage) ''parent_vaid'' = JNull"
    using climb_result [of lib trust now bnd "[leaf]" "[get leaf ''vaid_id'']" leaf lineage leaf] assms(2)
    by (auto simp: climb_inv_def)
  show "hops (\<lambda>c p. attenuates lib p c = Inr ()) lineage" using a by (simp add: attenuates_all_hops)
qed

lemma conclude_Inr:
  "conclude revocation leaf action ids run5 path = Inr v \<longleftrightarrow>
     (run5 \<longrightarrow> boundary_contains (get leaf ''scope_boundary'') (JStr action) = Inr True) \<and>
     revocation ids = Inr NOT_REVOKED \<and>
     v = \<lparr>vv_code = None, vv_step = None, vv_path = path @ (if run5 then [''5''] else []) @ [''6'', ''7'']\<rparr>"
  by (auto simp: conclude_def Let_def NOT_REVOKED_def REVOKED_def)

lemma verify_steps_Inr:
  "verify_steps lib leaf chain action trust revocation now policy = Inr v \<longleftrightarrow>
     fresh_doc lib trust now leaf \<and>
     (if chain \<noteq> None \<or> require_chain policy
      then \<exists>lineage. assemble lib trust now leaf chain = Inr lineage \<and>
             conclude revocation leaf action (map (\<lambda>d. get d ''vaid_id'') lineage) True path4 = Inr v
      else conclude revocation leaf action [get leaf ''vaid_id''] (leaf_only_mode policy = ''strict'') [''1'', ''2''] = Inr v)"
  by (auto simp: verify_steps_def fresh_doc_def not_le)

section \<open>How the procedure can end early\<close>

text \<open>An early return carries a code; an exception that leaves the procedure is never a refusal; and under
  \<open>T\<close>, which will say that the documents are typed, none leaves it at all.\<close>

definition proper :: "bool \<Rightarrow> vaid_exit + 'a \<Rightarrow> bool" where
  "proper T m \<longleftrightarrow>
     (case m of
        Inl (Return v) \<Rightarrow> vv_code v \<noteq> None
      | Inl (Escape (Raise e)) \<Rightarrow> \<not> T
      | Inl (Escape (Refusal c)) \<Rightarrow> False
      | Inr x \<Rightarrow> True)"

named_theorems proper_intros

lemma proper_bind [proper_intros]: "proper T m \<Longrightarrow> (\<And>x. m = Inr x \<Longrightarrow> proper T (f x)) \<Longrightarrow> proper T (bind_sum m f)"
  by (cases m) (auto simp: proper_def)

lemma proper_basic [proper_intros]:
  "proper T (fail_if b c s p)" "proper T (Inr x)" "proper T (Inl (Return (failed c s p)))"
  by (auto simp: proper_def fail_if_def failed_def)

lemma proper_refusing [proper_intros]: "(\<And>e. T \<Longrightarrow> n \<noteq> Inl (Raise e)) \<Longrightarrow> proper T (refusing s p n)"
  by (auto simp: proper_def failed_def refusing_def split: sum.splits vaid_exn.splits)

lemma proper_raising [proper_intros]: "(T \<Longrightarrow> \<exists>x. r = Inr x) \<Longrightarrow> proper T (uncaught (raising r))"
  by (auto simp: proper_def uncaught_def raising_def split: sum.splits)

lemma proper_hash [proper_intros]: "(T \<Longrightarrow> b) \<Longrightarrow> proper T (if b then Inr () else Inl (Escape (Raise e)))"
  by (auto simp: proper_def)

lemma proper_escape [proper_intros]: "\<not> T \<Longrightarrow> proper T (Inl (Escape (Raise e)))"
  by (simp add: proper_def)

text \<open>A typed document: scope and capabilities are lists of strings, what is looked up in a dictionary
  can be hashed, and no timestamp leaves the range of \<open>datetime\<close>.\<close>

definition string_list :: "pyval \<Rightarrow> bool" where
  "string_list v \<longleftrightarrow> is_list v \<and> list_all is_str (elements v)"

definition vaid_typed :: "vaid_lib \<Rightarrow> pyval \<Rightarrow> bool" where
  "vaid_typed lib d \<longleftrightarrow>
     string_list (get d ''scope_boundary'') \<and> string_list (get d ''capability_set'') \<and>
     hashable (get d ''vaid_id'') \<and> hashable (get d ''parent_vaid'') \<and> hashable (get d ''kernel_key_thumbprint'') \<and>
     parse_ts lib (get d ''expires_at'') \<noteq> Inl (Raise Overflow_error)"

lemma string_list_conv: "string_list v \<longleftrightarrow> (\<exists>ss. v = JArr (map JStr ss))"
proof
  assume "string_list v"
  then obtain xs where "v = JArr xs" "list_all is_str xs" by (auto simp: string_list_def is_list_conv)
  moreover from this(2) have "xs = map JStr (map str_of xs)" by (induction xs) (auto simp: is_str_conv)
  ultimately show "\<exists>ss. v = JArr (map JStr ss)" by metis
qed (auto simp: string_list_def list_all_iff)

lemma boundary_typed: "string_list b \<Longrightarrow> \<exists>x. boundary_contains b (JStr r) = Inr x"
proof -
  assume "string_list b"
  then obtain ss where b: "b = JArr (map JStr ss)" by (auto simp: string_list_conv)
  have "any_of (\<lambda>p. entry_contains p (JStr r)) (map JStr ss)
      = Inr (list_ex (\<lambda>p. entry_contains p (JStr r) = Inr True) (map JStr ss))"
    by (rule any_of_total) (auto simp: entry_contains_str)
  then show ?thesis by (cases "ss = []") (auto simp: boundary_contains_def b)
qed

lemma scope_typed: "string_list c \<Longrightarrow> string_list p \<Longrightarrow> \<exists>x. scope_attenuates c p = Inr x"
proof -
  assume "string_list c" and p: "string_list p"
  then obtain ss where c: "c = JArr (map JStr ss)" by (auto simp: string_list_conv)
  have "all_of (\<lambda>x. boundary_contains p x) (map JStr ss)
      = Inr (list_all (\<lambda>x. boundary_contains p x = Inr True) (map JStr ss))"
  proof (rule all_of_total)
    fix x assume "x \<in> set (map JStr ss)"
    then obtain r where "x = JStr r" by auto
    then show "boundary_contains p x = Inr (boundary_contains p x = Inr True)" using boundary_typed [OF p, of r] by auto
  qed
  moreover from p obtain ps where "p = JArr ps" by (auto simp: string_list_conv)
  ultimately show ?thesis by (auto simp: scope_attenuates_def c simp del: bind_sum_Inr)
qed

lemma py_set_strings: "py_set (JArr (map JStr ss)) = Inr (map JStr ss)"
  by (simp add: py_set_def hashable_def list_all_iff)

lemma caps_typed: "string_list c \<Longrightarrow> string_list p \<Longrightarrow> \<exists>x. caps_attenuate c p = Inr x"
  unfolding string_list_conv by (elim exE) (simp add: caps_attenuate_def py_set_strings)

text \<open>The canonical text of a document over \<open>char\<close> can always be encoded.\<close>

lemma traverse_sum:
  "(\<And>x. x \<in> set xs \<Longrightarrow> case f x of Inl e \<Rightarrow> P e | Inr y \<Rightarrow> Q y) \<Longrightarrow>
     (case traverse f xs of Inl e \<Rightarrow> P e | Inr ys \<Rightarrow> list_all Q ys)"
proof (induction xs)
  case (Cons x xs)
  then have "case f x of Inl e \<Rightarrow> P e | Inr y \<Rightarrow> Q y" "case traverse f xs of Inl e \<Rightarrow> P e | Inr ys \<Rightarrow> list_all Q ys" by auto
  then show ?case by (cases "f x"; cases "traverse f xs") auto
qed simp

abbreviation latin :: "cp list \<Rightarrow> bool" where
  "latin s \<equiv> list_all (\<lambda>c. c < 256) s"

lemma latin_cps [simp]: "latin (cps s)"
proof -
  have "of_char c < (256 :: nat)" for c :: char by (rule nat_of_char_less_256)
  then show ?thesis by (simp add: list_all_iff)
qed

lemma latin_jcs_str: "latin s \<Longrightarrow> latin (jcs_str s)"
proof -
  assume "latin s"
  moreover have "latin (jcs_char c)" if "c < 256" for c using that by (auto simp: jcs_char_def hex_def)
  ultimately show ?thesis by (auto simp: jcs_str_def list_all_iff)
qed

lemma latin_join: "latin sep \<Longrightarrow> list_all latin ts \<Longrightarrow> latin (join sep ts)"
  by (induction sep ts rule: join.induct) auto

lemma latin_encodable: "latin s \<Longrightarrow> encodable s"
  by (auto simp: encodable_def scalar_def surrogate_def list_all_iff)

lemma ser_jv: "case ser (jv v) of Inl e \<Rightarrow> e = FloatError | Inr t \<Rightarrow> latin t"
proof (induction v)
  case (JInt i)
  then show ?case by (simp add: str_int_def)
next
  case (JStr s)
  then show ?case by (simp add: latin_jcs_str)
next
  case (JArr xs)
  then have "case traverse id (map ser (map jv xs)) of Inl e \<Rightarrow> e = FloatError | Inr ts \<Rightarrow> list_all latin ts"
    by (intro traverse_sum) auto
  then show ?case by (auto simp: latin_join split: sum.splits)
next
  case (JObj ms)
  let ?ms = "map (\<lambda>(k, v). (cps k, jv v)) ms"
  have enc: "list_all (\<lambda>(k, v). encodable k) ?ms" by (auto simp: list_all_iff latin_encodable)
  have "case traverse (\<lambda>(k, t). bind_sum t (\<lambda>x. Inr (jcs_str k @ cps '':'' @ x)))
      (sorted_members (map (\<lambda>(k, v). (k, ser v)) ?ms)) of Inl e \<Rightarrow> e = FloatError | Inr ts \<Rightarrow> list_all latin ts"
  proof (intro traverse_sum)
    fix kt assume "kt \<in> set (sorted_members (map (\<lambda>(k, v). (k, ser v)) ?ms))"
    then obtain k v where "(k, v) \<in> set ms" and kt: "kt = (cps k, ser (jv v))" by auto
    then have "case ser (jv v) of Inl e \<Rightarrow> e = FloatError | Inr t \<Rightarrow> latin t" using JObj by fastforce
    then show "case (case kt of (k, t) \<Rightarrow> bind_sum t (\<lambda>x. Inr (jcs_str k @ cps '':'' @ x))) of
        Inl e \<Rightarrow> e = FloatError | Inr t \<Rightarrow> latin t"
      by (cases "ser (jv v)") (auto simp: kt latin_jcs_str)
  qed
  then show ?case using enc by (auto simp: latin_join split: sum.splits)
qed simp_all

lemma vaid_jcs_not_Raise: "vaid_jcs v \<noteq> Inl (Raise e)"
  using ser_jv [of v] by (cases "ser (jv v)") (auto simp: vaid_jcs_def jcs_def encode_utf8_def latin_encodable)

lemma quiet_bind: "m \<noteq> Inl (Raise e) \<Longrightarrow> (\<And>x. f x \<noteq> Inl (Raise e)) \<Longrightarrow> bind_sum m f \<noteq> Inl (Raise e)"
  by (cases m) auto

lemma authenticate_typed: "hashable (get d ''kernel_key_thumbprint'') \<Longrightarrow> authenticate lib trust d \<noteq> Inl (Raise e)"
proof -
  assume h: "hashable (get d ''kernel_key_thumbprint'')"
  have "refuse_if b c \<noteq> Inl (Raise e)" for b c by (simp add: refuse_if_def)
  moreover have "check_signature lib ti d \<noteq> Inl (Raise e)" for ti
    by (auto simp: check_signature_def bind_sum_Inl vaid_jcs_not_Raise refuse_if_def split: option.splits if_splits)
  moreover have "trusted_key trust (get d ''kernel_key_thumbprint'') \<noteq> Inl (Raise e)"
    using h by (auto simp: trusted_key_def split: json.splits option.splits)
  ultimately show ?thesis unfolding authenticate_def by (intro quiet_bind) (auto split: json.splits)
qed

lemma parse_ts_Raise: "parse_ts lib v = Inl (Raise e) \<Longrightarrow> e = Overflow_error"
  by (auto simp: parse_ts_def split: json.splits iso.splits)

lemma proper_fresh [proper_intros]:
  assumes "T \<Longrightarrow> vaid_typed lib d"
  shows "proper T (refusing s p (authenticate lib trust d))" and "proper T (refusing s p (parse_ts lib (get d ''expires_at'')))"
  using assms authenticate_typed parse_ts_Raise by (auto intro!: proper_refusing simp: vaid_typed_def)

lemma proper_bundle:
  "(T \<Longrightarrow> list_all (vaid_typed lib) ds) \<Longrightarrow> proper T (build_bundle bnd ds)"
  by (induction ds arbitrary: bnd) (auto intro!: proper_intros simp: py_in_def vaid_typed_def)

lemma bundle_docs: "build_bundle bnd ds = Inr bnd' \<Longrightarrow> snd ` set bnd' \<subseteq> snd ` set bnd \<union> set ds"
proof (induction ds arbitrary: bnd)
  case (Cons d ds)
  then have "build_bundle (bnd @ [(get d ''vaid_id'', d)]) ds = Inr bnd'" by auto
  from Cons.IH [OF this] show ?case by auto
qed simp

lemma lookup_py_in: "lookup_py bnd k = Some d \<Longrightarrow> d \<in> snd ` set bnd"
  by (force simp: lookup_py_def dest: find_Some_in)

lemma proper_climb_step:
  assumes cur: "T \<Longrightarrow> vaid_typed lib cur" and bnd: "T \<Longrightarrow> \<forall>d\<in>snd ` set bnd. vaid_typed lib d"
  shows "proper T (climb_step lib trust now bnd lineage seen cur)"
proof -
  have "T \<Longrightarrow> hashable (get cur ''parent_vaid'')" using cur by (simp add: vaid_typed_def)
  moreover have typed: "T \<Longrightarrow> vaid_typed lib p" if "lookup_py bnd (get cur ''parent_vaid'') = Some p" for p
    using bnd lookup_py_in [OF that] by blast
  moreover have "T \<Longrightarrow> \<exists>x. py_in (get p ''vaid_id'') seen = Inr x"
    if "lookup_py bnd (get cur ''parent_vaid'') = Some p" for p
    using typed [OF that] by (simp add: vaid_typed_def py_in_def)
  ultimately show ?thesis unfolding climb_step_def
    by (cases "lookup_py bnd (get cur ''parent_vaid'')") (auto simp del: if_split intro!: proper_intros)
qed


lemma climb_step_in: "climb_step lib trust now bnd lineage seen cur = Inr p \<Longrightarrow> p \<in> snd ` set bnd"
  by (auto simp: climb_step_def dest: lookup_py_in split: option.splits if_splits)

lemma proper_climb:
  assumes "\<And>d. T \<Longrightarrow> d \<in> snd ` set bnd \<Longrightarrow> vaid_typed lib d" and "T \<Longrightarrow> vaid_typed lib cur"
  shows "proper T (climb lib trust now bnd lineage seen cur)"
  using assms
proof (induction lib trust now bnd lineage seen cur rule: climb.induct)
  case (1 lib trust now bnd lineage seen cur)
  have step: "proper T (climb_step lib trust now bnd lineage seen cur)"
    by (rule proper_climb_step) (use "1.prems" in auto)
  show ?case
  proof (cases "climb_step lib trust now bnd lineage seen cur")
    case (Inl e)
    then show ?thesis using step by (subst climb.simps) (auto simp: proper_def)
  next
    case (Inr p)
    have "T \<Longrightarrow> vaid_typed lib p" using "1.prems"(1) climb_step_in [OF Inr] by blast
    then have "proper T (climb lib trust now bnd (p # lineage) (get p ''vaid_id'' # seen) p)"
      if "get cur ''parent_vaid'' \<noteq> JNull"
      using "1.prems"(1) by (intro "1.IH" [OF that Inr])
    then show ?thesis by (subst climb.simps) (simp add: Inr proper_basic)
  qed
qed

lemma climb_docs: "climb lib trust now bnd lineage seen cur = Inr ds \<Longrightarrow> set ds \<subseteq> set lineage \<union> snd ` set bnd"
proof (induction lib trust now bnd lineage seen cur rule: climb.induct)
  case (1 lib trust now bnd lineage seen cur)
  show ?case
  proof (cases "get cur ''parent_vaid'' = JNull")
    case True
    then show ?thesis using "1.prems" by (subst (asm) climb.simps) auto
  next
    case False
    then obtain p where p: "climb_step lib trust now bnd lineage seen cur = Inr p"
      and "climb lib trust now bnd (p # lineage) (get p ''vaid_id'' # seen) p = Inr ds"
      using "1.prems" by (subst (asm) climb.simps) (auto split: sum.splits)
    then show ?thesis using "1.IH" [OF False p] climb_step_in [OF p] by auto
  qed
qed

lemma proper_attenuates:
  assumes "fresh_doc lib trust now p" "fresh_doc lib trust now c" and "T \<Longrightarrow> vaid_typed lib p \<and> vaid_typed lib c"
  shows "proper T (attenuates lib p c)"
proof -
  have ts: "proper T (uncaught (parse_ts lib (get d ''expires_at'')))" if "fresh_doc lib trust now d" for d
    using that by (auto simp: fresh_doc_def uncaught_def proper_def)
  show ?thesis unfolding attenuates_def
    using assms(3) by (intro proper_intros ts assms(1,2) scope_typed caps_typed) (simp_all add: vaid_typed_def)
qed

lemma proper_attenuates_all:
  "list_all (fresh_doc lib trust now) ds \<Longrightarrow> (T \<Longrightarrow> list_all (vaid_typed lib) ds) \<Longrightarrow> proper T (attenuates_all lib ds)"
  by (induction lib ds rule: attenuates_all.induct) (auto intro!: proper_intros proper_attenuates)

lemma proper_conclude:
  assumes "T \<Longrightarrow> string_list (get leaf ''scope_boundary'')" and "T \<Longrightarrow> \<exists>s. revocation ids = Inr s"
  shows "proper T (conclude revocation leaf action ids run5 path)"
  using assms boundary_typed unfolding conclude_def Let_def by (cases run5) (auto intro!: proper_intros)

lemma proper_assemble:
  assumes "fresh_doc lib trust now leaf" and typed: "T \<Longrightarrow> list_all (vaid_typed lib) (leaf # (case chain of None \<Rightarrow> [] | Some ds \<Rightarrow> ds))"
  shows "proper T (assemble lib trust now leaf chain)"
  unfolding assemble_def
proof (intro proper_bind proper_basic)
  show "proper T (build_bundle [] (case chain of None \<Rightarrow> [] | Some ds \<Rightarrow> ds))" using typed by (intro proper_bundle) auto
  show "proper T (if hashable (get leaf ''vaid_id'') then Inr () else Inl (Escape (Raise Type_error)))"
    using typed by (intro proper_hash) (simp add: vaid_typed_def)
next
  fix bnd u
  assume b: "build_bundle [] (case chain of None \<Rightarrow> [] | Some ds \<Rightarrow> ds) = Inr bnd"
  have bt: "vaid_typed lib d" if T and "d \<in> snd ` set bnd" for d
    using typed [OF that(1)] bundle_docs [OF b] that(2) by (auto simp: list_all_iff)
  show "proper T (climb lib trust now bnd [leaf] [get leaf ''vaid_id''] leaf)"
    by (rule proper_climb) (use bt typed in auto)
  fix lineage
  assume c: "climb lib trust now bnd [leaf] [get leaf ''vaid_id''] leaf = Inr lineage"
  have "list_all (fresh_doc lib trust now) lineage"
    using climb_result [OF c, of leaf] assms(1) by (auto simp: climb_inv_def)
  moreover have "list_all (vaid_typed lib) lineage" if T
    using climb_docs [OF c] bt [OF that] typed [OF that] by (auto simp: list_all_iff)
  ultimately show "proper T (attenuates_all lib lineage)" by (rule proper_attenuates_all)
qed

lemma assemble_docs:
  "assemble lib trust now leaf chain = Inr lineage \<Longrightarrow> set lineage \<subseteq> set (leaf # (case chain of None \<Rightarrow> [] | Some ds \<Rightarrow> ds))"
proof -
  assume "assemble lib trust now leaf chain = Inr lineage"
  then obtain bnd where b: "build_bundle [] (case chain of None \<Rightarrow> [] | Some ds \<Rightarrow> ds) = Inr bnd"
    and c: "climb lib trust now bnd [leaf] [get leaf ''vaid_id''] leaf = Inr lineage"
    by (auto simp: assemble_def)
  show ?thesis using climb_docs [OF c] bundle_docs [OF b] by (cases chain) auto
qed

lemma proper_verify_steps:
  assumes typed: "T \<Longrightarrow> list_all (vaid_typed lib) (leaf # (case chain of None \<Rightarrow> [] | Some ds \<Rightarrow> ds))"
    and rev: "\<And>ids. T \<Longrightarrow> list_all hashable ids \<Longrightarrow> \<exists>s. revocation ids = Inr s"
  shows "proper T (verify_steps lib leaf chain action trust revocation now policy)"
proof -
  have leaf: "T \<Longrightarrow> vaid_typed lib leaf" "T \<Longrightarrow> string_list (get leaf ''scope_boundary'')" "T \<Longrightarrow> hashable (get leaf ''vaid_id'')"
    using typed by (auto simp: vaid_typed_def)
  have ids: "\<exists>s. revocation (map (\<lambda>d. get d ''vaid_id'') lineage) = Inr s"
    if "assemble lib trust now leaf chain = Inr lineage" and T for lineage
    using assemble_docs [OF that(1)] typed [OF that(2)]
    by (intro rev [OF that(2)]) (auto simp: list_all_iff vaid_typed_def)
  show ?thesis unfolding verify_steps_def
  proof (intro proper_bind proper_fresh proper_basic leaf(1); assumption?)
    fix u e u'
    assume "refusing ''1'' [''1''] (authenticate lib trust leaf) = Inr u"
      and "refusing ''2'' [''1'', ''2''] (parse_ts lib (get leaf ''expires_at'')) = Inr e"
      and "fail_if (e \<le> now) ''expired'' ''2'' [''1'', ''2''] = Inr u'"
    then have fresh: "fresh_doc lib trust now leaf" by (simp add: fresh_doc_def)
    show "proper T (if chain \<noteq> None \<or> require_chain policy
       then bind_sum (assemble lib trust now leaf chain) (\<lambda>lineage.
              conclude revocation leaf action (map (\<lambda>d. get d ''vaid_id'') lineage) True path4)
       else conclude revocation leaf action [get leaf ''vaid_id''] (leaf_only_mode policy = ''strict'') [''1'', ''2''])"
      using proper_assemble [OF fresh typed] ids leaf rev
      by (auto intro!: proper_bind proper_conclude)
  qed
qed

lemma verify_pass:
  assumes "verify lib leaf chain action trust revocation now policy = Inr v" and "vv_code v = None"
  shows "verify_steps lib leaf chain action trust revocation now policy = Inr v"
  using assms proper_verify_steps [of False lib leaf chain revocation action trust now policy]
  by (auto simp: verify_def proper_def split: sum.splits vaid_exit.splits)

section \<open>Properties\<close>

text \<open>C4: what a pass with a chain establishes. There is a lineage from a root that names no parent to the
  leaf, of at most 65 documents with pairwise different identifiers; every document of it is authentic
  under the trusted keys and unexpired; the requested action lies in the scope of every one of them;
  every use the leaf permits (action, capability, tenant, domain, instant) each ancestor permits; and
  the revocation source answered \<open>not_revoked\<close> for exactly this lineage.\<close>

theorem vaid_pass_bounds_authority:
  assumes "verify lib leaf chain action trust revocation now policy = Inr v" and "vv_code v = None"
    and "chain \<noteq> None \<or> require_chain policy"
  shows "\<exists>lineage. lineage \<noteq> [] \<and> last lineage = leaf \<and> get (hd lineage) ''parent_vaid'' = JNull \<and>
     length lineage \<le> 65 \<and> distinct (map (\<lambda>d. get d ''vaid_id'') lineage) \<and>
     (\<forall>d\<in>set lineage. authenticate lib trust d = Inr () \<and>
        (\<exists>e. parse_ts lib (get d ''expires_at'') = Inr e \<and> now < e) \<and>
        boundary_contains (get d ''scope_boundary'') (JStr action) = Inr True \<and>
        (\<forall>u. vaid_permits lib leaf u \<longrightarrow> vaid_permits lib d u)) \<and>
     revocation (map (\<lambda>d. get d ''vaid_id'') lineage) = Inr NOT_REVOKED"
proof -
  from verify_pass [OF assms(1,2)] obtain lineage where leaf: "fresh_doc lib trust now leaf"
    and "assemble lib trust now leaf chain = Inr lineage"
    and inside: "boundary_contains (get leaf ''scope_boundary'') (JStr action) = Inr True"
    and rev: "revocation (map (\<lambda>d. get d ''vaid_id'') lineage) = Inr NOT_REVOKED"
    using assms(3) by (auto simp: verify_steps_Inr conclude_Inr)
  from assemble_facts [OF this(2) leaf] have
    inv: "lineage \<noteq> []" "last lineage = leaf" "length lineage \<le> 65" "list_all (fresh_doc lib trust now) lineage"
      "distinct (map (\<lambda>d. get d ''vaid_id'') lineage)" and root: "get (hd lineage) ''parent_vaid'' = JNull"
    and hops: "hops (\<lambda>c p. attenuates lib p c = Inr ()) lineage"
    by (auto simp: climb_inv_def MAX_DEPTH_def)
  have "\<forall>d\<in>set lineage. boundary_contains (get d ''scope_boundary'') (JStr action) = Inr True"
    using vaid_scope.hops_permit [OF hops inv(1)] inside inv(2) by simp
  moreover have "\<forall>d\<in>set lineage. vaid_permits lib d u" if "vaid_permits lib leaf u" for u
    using vaid.hops_permit [OF hops inv(1)] that inv(2) by simp
  ultimately show ?thesis
    using inv root rev by (intro exI [of _ lineage]) (auto simp: list_all_iff fresh_doc_def)
qed

text \<open>The leaf-only path. With no chain presented and none required, the verdict is a pass exactly when
  the leaf is authentic, unexpired and not revoked, and, in strict mode only, the requested action is
  within the leaf's scope; read as written, the action is not looked at.\<close>

theorem vaid_leaf_only:
  assumes "\<not> require_chain policy"
  shows "(\<exists>v. verify lib leaf None action trust revocation now policy = Inr v \<and> vv_code v = None) \<longleftrightarrow>
     authenticate lib trust leaf = Inr () \<and>
     (\<exists>e. parse_ts lib (get leaf ''expires_at'') = Inr e \<and> now < e) \<and>
     (leaf_only_mode policy = ''strict'' \<longrightarrow> boundary_contains (get leaf ''scope_boundary'') (JStr action) = Inr True) \<and>
     revocation [get leaf ''vaid_id''] = Inr NOT_REVOKED" (is "?L \<longleftrightarrow> ?R")
proof
  assume ?L
  then show ?R using verify_pass assms by (fastforce simp: verify_steps_Inr conclude_Inr fresh_doc_def)
next
  assume ?R
  then obtain v where "verify_steps lib leaf None action trust revocation now policy = Inr v" "vv_code v = None"
    using assms by (auto simp: verify_steps_Inr conclude_Inr fresh_doc_def)
  then show ?L by (auto simp: verify_def)
qed

text \<open>C29: a refusal never escapes. Whatever the documents, the procedure does not end in a \<open>Refusal\<close>
  exception: every refusal is turned into a verdict, also those of the comparison of expiry times in
  step 4, which stands outside every \<open>try\<close>.\<close>

theorem vaid_refusals_caught: "verify lib leaf chain action trust revocation now policy \<noteq> Inl (Refusal code)"
  using proper_verify_steps [of False lib leaf chain revocation action trust now policy]
  by (auto simp: verify_def proper_def split: sum.splits vaid_exit.splits vaid_exn.splits)

text \<open>C30: typed documents of encodable text are always judged. Among the documents whose strings have no code point above
  255 (the strings of this model; a lone surrogate, which is outside them, makes the canonicaliser and the lineage
  digest raise \<open>UnicodeEncodeError\<close>): if scope and capabilities are lists of strings, the values looked up in
  dictionaries can be hashed, no expiry leaves the range of \<open>datetime\<close>, and the revocation check answers for
  hashable identifiers, then verification returns a verdict, whatever the other members of the documents hold.\<close>

theorem vaid_typed_verdict:
  assumes "list_all (vaid_typed lib) (leaf # (case chain of None \<Rightarrow> [] | Some ds \<Rightarrow> ds))"
    and "\<forall>ids. list_all hashable ids \<longrightarrow> (\<exists>s. revocation ids = Inr s)"
  shows "\<exists>v. verify lib leaf chain action trust revocation now policy = Inr v"
  using proper_verify_steps [of True lib leaf chain revocation action trust now policy] assms
  by (auto simp: verify_def proper_def split: sum.splits vaid_exit.splits vaid_exn.splits)


section \<open>A chain of two\<close>

definition sample_lib :: vaid_lib where
  "sample_lib = \<lparr>lib_sha256 = (\<lambda>b. []), lib_ed25519 = (\<lambda>k s d. s = replicate 64 7), lib_str = (\<lambda>v. ''''),
     lib_fromisoformat = (\<lambda>s. if s = ''2026-01-01T00:00:00+00:00'' then Aware 100 else Not_iso)\<rparr>"

definition sample_trust :: trust where
  "sample_trust = [(''k'', \<lparr>ti_trust_domain = JStr ''a.example'', ti_raw_key = replicate 32 1, ti_thumb = ''k''\<rparr>)]"

definition sample_vaid :: "string \<Rightarrow> pyval \<Rightarrow> string \<Rightarrow> pyval" where
  "sample_vaid i parent scope = JObj
     [(''sig_version'', JInt 3), (''vaid_id'', JStr i), (''agent_id'', JStr i), (''agent_class'', JNull), (''version'', JNull),
      (''tenant_id'', JStr ''t''), (''issued_at'', JNull), (''expires_at'', JStr ''2026-01-01T00:00:00Z''),
      (''public_key_der'', JNull), (''kernel_signature'', JArr (replicate 64 (JInt 7))), (''parent_vaid'', parent),
      (''scope_boundary'', JArr [JStr scope]), (''lineage_hash'', JStr ''''), (''capability_set'', JArr [JStr ''c'']),
      (''trust_domain'', JStr ''a.example''), (''kernel_key_thumbprint'', JStr ''k'')]"

definition sample_root :: pyval where
  "sample_root = sample_vaid ''r'' JNull ''db/''"

definition sample_leaf :: pyval where
  "sample_leaf = sample_vaid ''l'' (JStr ''r'') ''db/read''"

lemmas sample_defs = sample_root_def sample_leaf_def sample_vaid_def sample_lib_def sample_trust_def

lemma sample_ts: "parse_ts sample_lib (JStr ''2026-01-01T00:00:00Z'') = Inr 100"
  by (simp add: parse_ts_def sample_lib_def replace_char_def)

lemma sample_signature: "signature_bytes (JArr (replicate 64 (JInt 7))) = Some (replicate 64 7)"
  by (simp add: signature_bytes_def numeral_eq_Suc)

lemma vaid_jcs_accepted: "accepted (jv v) \<Longrightarrow> \<exists>b. vaid_jcs v = Inr b"
  using ser_jv [of v] by (auto simp: vaid_jcs_def jcs_def ser_accepted encode_utf8_def latin_encodable)

lemma sample_authentic:
  assumes "parent = JNull \<or> is_str parent"
  shows "authenticate sample_lib sample_trust (sample_vaid i parent scope) = Inr ()"
proof -
  have td: "trust_domain_ok (JStr ''a.example'')" by code_simp
  have "accepted (jv parent)" using assms by (cases parent) auto
  then have "\<exists>b. vaid_jcs (JObj (AList.update ''kernel_signature'' JNull (members (sample_vaid i parent scope)))) = Inr b"
    by (intro vaid_jcs_accepted) (simp add: sample_vaid_def encodable_def scalar_def surrogate_def)
  then have "check_signature sample_lib (snd (hd sample_trust)) (sample_vaid i parent scope) = Inr ()"
    by (auto simp: check_signature_def sample_vaid_def get_def sample_signature refuse_if_def sample_lib_def)
  then show ?thesis
    using td by (simp add: authenticate_def REQUIRED_FIELDS_def has_key_def get_def sample_vaid_def refuse_if_def
        trusted_key_def hashable_def sample_trust_def hexdigest_def ascii_def sample_lib_def)
qed


lemma sample_hop: "attenuates sample_lib sample_root sample_leaf = Inr ()"
proof -
  have "entry_contains (JStr ''db/'') (JStr ''db/read'') = Inr True" by (simp add: entry_contains_str suffix_def)
  then show ?thesis
    using sample_ts by (auto simp: attenuates_def sample_root_def sample_leaf_def sample_vaid_def get_def
        scope_attenuates_def boundary_contains_def caps_attenuate_def py_set_def hashable_def)
qed

lemma sample_verify:
  "verify sample_lib sample_leaf (Some [sample_root]) ''db/read/x'' sample_trust (set_revocation [JStr ''q''] False) 99
     \<lparr>require_chain = True, leaf_only_mode = ''as_written''\<rparr> =
   Inr \<lparr>vv_code = None, vv_step = None, vv_path = [''1'', ''2'', ''3'', ''4'', ''5'', ''6'', ''7'']\<rparr>"
proof -
  have auth: "authenticate sample_lib sample_trust sample_leaf = Inr ()" "authenticate sample_lib sample_trust sample_root = Inr ()"
    by (simp_all add: sample_leaf_def sample_root_def sample_authentic)
  have get: "get sample_leaf ''expires_at'' = JStr ''2026-01-01T00:00:00Z''" "get sample_root ''expires_at'' = JStr ''2026-01-01T00:00:00Z''"
    "get sample_leaf ''vaid_id'' = JStr ''l''" "get sample_root ''vaid_id'' = JStr ''r''"
    "get sample_leaf ''parent_vaid'' = JStr ''r''" "get sample_root ''parent_vaid'' = JNull"
    "get sample_leaf ''scope_boundary'' = JArr [JStr ''db/read'']" "is_dict sample_root" "has_key sample_root ''vaid_id''"
    by (simp_all add: sample_leaf_def sample_root_def sample_vaid_def get_def has_key_def)
  have "climb_step sample_lib sample_trust 99 [(JStr ''r'', sample_root)] [sample_leaf] [JStr ''l''] sample_leaf = Inr sample_root"
    using auth(2) sample_ts by (simp add: climb_step_def get hashable_def lookup_py_def py_in_def MAX_DEPTH_def uncaught_def raising_def
        refusing_def fail_if_def del: bind_sum_Inr)
  then have "climb sample_lib sample_trust 99 [(JStr ''r'', sample_root)] [sample_leaf] [JStr ''l''] sample_leaf
      = Inr [sample_root, sample_leaf]"
    by (subst climb.simps) (simp add: get, subst climb.simps, simp add: get)
  then have "assemble sample_lib sample_trust 99 sample_leaf (Some [sample_root]) = Inr [sample_root, sample_leaf]"
    using sample_hop by (simp add: assemble_def get py_in_def hashable_def fail_if_def uncaught_def raising_def)
  moreover have "set_revocation [JStr ''q''] False [JStr ''r'', JStr ''l''] = Inr NOT_REVOKED"
    by (simp add: set_revocation_def py_in_def hashable_def)
  moreover have "boundary_contains (JArr [JStr ''db/read'']) (JStr ''db/read/x'') = Inr True"
    by (simp add: boundary_contains_def entry_contains_str)
  ultimately have "verify_steps sample_lib sample_leaf (Some [sample_root]) ''db/read/x'' sample_trust
      (set_revocation [JStr ''q''] False) 99 \<lparr>require_chain = True, leaf_only_mode = ''as_written''\<rparr> =
      Inr \<lparr>vv_code = None, vv_step = None, vv_path = [''1'', ''2'', ''3'', ''4'', ''5'', ''6'', ''7'']\<rparr>"
    using auth(1) sample_ts by (simp add: verify_steps_Inr conclude_Inr fresh_doc_def get path4_def path3_def)
  then show ?thesis by (simp add: verify_def)
qed

theorem vaid_pass_bounds_authority_witness:
  "\<exists>lineage. last lineage = sample_leaf \<and>
     (\<forall>d\<in>set lineage. boundary_contains (get d ''scope_boundary'') (JStr ''db/read/x'') = Inr True)"
  using vaid_pass_bounds_authority [OF sample_verify] by auto

theorem vaid_leaf_only_witness:
  "\<exists>v. verify sample_lib sample_root None ''anything'' sample_trust (set_revocation [] False) 99
     \<lparr>require_chain = False, leaf_only_mode = ''as_written''\<rparr> = Inr v \<and> vv_code v = None"
proof -
  have "authenticate sample_lib sample_trust sample_root = Inr ()" by (simp add: sample_root_def sample_authentic)
  moreover have "parse_ts sample_lib (get sample_root ''expires_at'') = Inr 100"
    using sample_ts by (simp add: sample_root_def sample_vaid_def get_def)
  moreover have "set_revocation [] False [get sample_root ''vaid_id''] = Inr NOT_REVOKED"
    by (simp add: set_revocation_def py_in_def hashable_def sample_root_def sample_vaid_def get_def)
  ultimately show ?thesis
    using vaid_leaf_only [of "\<lparr>require_chain = False, leaf_only_mode = ''as_written''\<rparr>" sample_lib sample_root
        "''anything''" sample_trust "set_revocation [] False" 99] by simp
qed

theorem vaid_typed_verdict_witness:
  "\<exists>v. verify sample_lib sample_leaf (Some [sample_root, sample_root]) ''x'' [] (set_revocation [] False) 99
     \<lparr>require_chain = True, leaf_only_mode = ''as_written''\<rparr> = Inr v"
proof -
  have "vaid_typed sample_lib (sample_vaid i p s)" if "hashable p" for i p s
    using that sample_ts by (simp add: vaid_typed_def sample_vaid_def get_def string_list_def hashable_def)
  then have "list_all (vaid_typed sample_lib) [sample_leaf, sample_root, sample_root]"
    by (simp add: sample_leaf_def sample_root_def hashable_def)
  moreover have "\<exists>s. set_revocation [] False ids = Inr s" if "list_all hashable ids" for ids
  proof -
    have "any_of (\<lambda>v. py_in v []) ids = Inr (list_ex (\<lambda>v. False) ids)"
      by (rule any_of_total) (use that in \<open>auto simp: py_in_def list_all_iff\<close>)
    then show ?thesis by (auto simp: set_revocation_def)
  qed
  ultimately show ?thesis by (intro vaid_typed_verdict) auto
qed

text \<open>The loop of the climb as the source writes it, with a bound on the number of iterations; \<open>None\<close> when
  the bound is used up before the loop is left.\<close>

fun climb_fuel ::
  "nat \<Rightarrow> vaid_lib \<Rightarrow> trust \<Rightarrow> int \<Rightarrow> vaid_bundle \<Rightarrow> pyval list \<Rightarrow> pyval list \<Rightarrow> pyval \<Rightarrow> (vaid_exit + pyval list) option" where
  "climb_fuel 0 lib trust now bnd lineage seen cur = None"
| "climb_fuel (Suc n) lib trust now bnd lineage seen cur =
     (if get cur ''parent_vaid'' = JNull then Some (Inr lineage)
      else case climb_step lib trust now bnd lineage seen cur of
        Inl e \<Rightarrow> Some (Inl e)
      | Inr p \<Rightarrow> climb_fuel n lib trust now bnd (p # lineage) (get p ''vaid_id'' # seen) p)"

lemma climb_fuel_enough:
  "Suc MAX_DEPTH < n + length lineage \<Longrightarrow>
     climb_fuel n lib trust now bnd lineage seen cur = Some (climb lib trust now bnd lineage seen cur)
     \<or> n = 0"
proof (induction n lib trust now bnd lineage seen cur rule: climb_fuel.induct)
  case (2 n lib trust now bnd lineage seen cur)
  show ?case
  proof (cases "get cur ''parent_vaid'' = JNull")
    case False
    show ?thesis
    proof (cases "climb_step lib trust now bnd lineage seen cur")
      case (Inr p)
      have "length lineage \<le> MAX_DEPTH" by (rule climb_step_depth [OF Inr])
      then have "0 < n" using "2.prems" by simp
      then show ?thesis using "2.IH" [OF False Inr] "2.prems" False Inr by (subst climb.simps) simp
    next
      case (Inl e)
      then show ?thesis using False by (subst climb.simps) simp
    qed
  next
    case True
    then show ?thesis by (subst climb.simps) simp
  qed
qed simp

lemma climb_length:
  "climb lib trust now bnd lineage seen cur = Inr ds \<Longrightarrow> length lineage \<le> Suc MAX_DEPTH \<Longrightarrow> length ds \<le> Suc MAX_DEPTH"
proof (induction lib trust now bnd lineage seen cur rule: climb.induct)
  case (1 lib trust now bnd lineage seen cur)
  show ?case
  proof (cases "get cur ''parent_vaid'' = JNull")
    case True
    then show ?thesis using "1.prems" by (subst (asm) climb.simps) auto
  next
    case False
    then obtain p where p: "climb_step lib trust now bnd lineage seen cur = Inr p"
      and "climb lib trust now bnd (p # lineage) (get p ''vaid_id'' # seen) p = Inr ds"
      using "1.prems"(1) by (subst (asm) climb.simps) (auto split: sum.splits)
    then show ?thesis using "1.IH" [OF False p] climb_step_depth [OF p] by simp
  qed
qed

text \<open>C17: the climb ends. On every bundle, cyclic or of any length, the loop that walks from the leaf to the
  root is left within 66 tests of its condition, with the result of the model, and the lineage it
  returns, if it returns one, has at most 65 documents.\<close>

theorem vaid_climb_terminates:
  "climb_fuel (MAX_DEPTH + 2) lib trust now bnd [leaf] [get leaf ''vaid_id''] leaf
     = Some (climb lib trust now bnd [leaf] [get leaf ''vaid_id''] leaf) \<and>
   (case climb lib trust now bnd [leaf] [get leaf ''vaid_id''] leaf of Inl e \<Rightarrow> True | Inr ds \<Rightarrow> length ds \<le> 65)"
  using climb_fuel_enough [of "MAX_DEPTH + 2" "[leaf]"] climb_length [of lib trust now bnd "[leaf]"]
  by (auto simp: MAX_DEPTH_def split: sum.split)

end
