(* ===== verification/Evidence_Bundle.thy ===== *)
theory Evidence_Bundle
  imports Codec Python_Values Attenuation
begin

text \<open>
  The evidence-bundle half of the attenu-guard clean-room verifiers:
  \<open>interop/attenu-guard-0.15.0-envelopes/cleanroom/verify_envelope_v1.py\<close> (functions
  \<open>scope_covers\<close> to \<open>verify_chain\<close>) and the earlier
  \<open>interop/attenu-guard-0.11.0-bundles/cleanroom/verify_bundle_v1.py\<close>. A bundle is the parsed JSON
  value, of any shape: what Python raises on a shape it does not expect is an error of the model.
  Parameters are SHA-256, HMAC-SHA-256 and the canonicaliser of the \<open>rfc8785\<close> package.
\<close>

record bundle_lib =
  bl_sha256 :: "byte list \<Rightarrow> byte list"
  bl_hmac :: "byte list \<Rightarrow> byte list \<Rightarrow> byte list"
  bl_jcs :: "pyval \<Rightarrow> py_error + byte list"

record failure =
  f_reason :: string
  f_seq :: pyval
  f_node :: pyval

abbreviation fail_at :: "string \<Rightarrow> pyval \<Rightarrow> failure" where
  "fail_at reason e \<equiv> \<lparr>f_reason = reason, f_seq = get e ''seq'', f_node = get e ''node''\<rparr>"

definition event_is :: "pyval \<Rightarrow> string \<Rightarrow> bool" where
  "event_is e ev = (get e ''event'' = JStr ev)"

section \<open>Bytes from hexadecimal\<close>

fun fromhex :: "pyval \<Rightarrow> py_error + byte list" where
  "fromhex (JStr s) = (case fromhex_chars s of None \<Rightarrow> Inl Value_error | Some b \<Rightarrow> Inr b)"
| "fromhex _ = Inl Type_error"

section \<open>Authority\<close>

definition scope_covers :: "pyval \<Rightarrow> pyval \<Rightarrow> py_error + bool" where
  "scope_covers pattern scope =
     (if py_eq pattern scope then Inr True
      else case pattern of
        JStr p \<Rightarrow>
          (if suffix ''.*'' p
           then (case scope of JStr s \<Rightarrow> Inr (prefix (take (length p - 2) p @ ''.'') s) | _ \<Rightarrow> Inl Attribute_error)
           else Inr False)
      | _ \<Rightarrow> Inl Attribute_error)"

definition scopes_of :: "pyval \<Rightarrow> py_error + pyval list" where
  "scopes_of authority = bind_sum (mget_or authority ''scopes'' (JArr [])) py_iter"

definition covered_by :: "pyval \<Rightarrow> pyval \<Rightarrow> py_error + bool" where
  "covered_by authority s = bind_sum (scopes_of authority) (any_of (\<lambda>p. scope_covers p s))"

definition constraints_of :: "pyval \<Rightarrow> py_error + pyval list" where
  "constraints_of authority = bind_sum (mget_or authority ''constraints'' (JArr [])) py_iter"

text \<open>\<open>{c['key']: c for c in ...}\<close>\<close>

definition by_key :: "pyval list \<Rightarrow> py_error + (pyval \<times> pyval) list" where
  "by_key cs = loop (\<lambda>c m. bind_sum (subscript c ''key'') (\<lambda>k. dict_set k c m)) cs []"

text \<open>\<open>k in c and k in p and c[k] > p[k]\<close>\<close>

definition exceeds :: "string \<Rightarrow> pyval \<Rightarrow> pyval \<Rightarrow> py_error + bool" where
  "exceeds k c p = (if has_key c k \<and> has_key p k then py_gt (get c k) (get p k) else Inr False)"

definition constraint_exceeds :: "(pyval \<times> pyval) list \<Rightarrow> pyval \<Rightarrow> py_error + bool" where
  "constraint_exceeds pc c =
     bind_sum (subscript c ''key'') (\<lambda>k.
     bind_sum (dict_get pc k) (\<lambda>p. case p of None \<Rightarrow> Inr False | Some p \<Rightarrow> exceeds ''max'' c p))"

definition authority_subset :: "pyval \<Rightarrow> pyval \<Rightarrow> py_error + bool" where
  "authority_subset child parent =
     bind_sum (scopes_of child) (\<lambda>ss.
     bind_sum (all_of (covered_by parent) ss) (\<lambda>ok.
       if \<not> ok then Inr False
       else bind_sum (bind_sum (constraints_of parent) by_key) (\<lambda>pc.
            bind_sum (bind_sum (constraints_of child) (any_of (constraint_exceeds pc))) (\<lambda>wide.
              if wide then Inr False
              else bind_sum (exceeds ''ttl'' child parent) (\<lambda>longer. Inr (\<not> longer))))))"

section \<open>The hash chain\<close>

definition GENESIS :: string where
  "GENESIS = replicate 64 (CHR ''0'')"

fun encode_ascii :: "pyval \<Rightarrow> py_error + byte list" where
  "encode_ascii (JStr s) = (if list_all (\<lambda>c. of_char c < (128 :: nat)) s then Inr (cps s) else Inl Unicode_error)"
| "encode_ascii _ = Inl Attribute_error"

definition entry_hash :: "bundle_lib \<Rightarrow> pyval \<Rightarrow> pyval \<Rightarrow> py_error + string" where
  "entry_hash lib prev e =
     bind_sum (items e) (\<lambda>ms.
     bind_sum (encode_ascii prev) (\<lambda>p.
     bind_sum (bl_jcs lib (JObj (filter (\<lambda>(k, v). k \<noteq> ''hash'') ms))) (\<lambda>b.
       Inr (hexdigest (bl_sha256 lib (p @ b))))))"

definition hash_or :: "pyval \<Rightarrow> pyval \<Rightarrow> pyval" where
  "hash_or e prev = (if has_key e ''hash'' then get e ''hash'' else prev)"

fun hashes_from :: "bundle_lib \<Rightarrow> pyval \<Rightarrow> pyval list \<Rightarrow> py_error + string list" where
  "hashes_from lib prev [] = Inr []"
| "hashes_from lib prev (e # es) =
     bind_sum (entry_hash lib prev e) (\<lambda>h. bind_sum (hashes_from lib (hash_or e prev) es) (\<lambda>hs. Inr (h # hs)))"

definition entry_hashes :: "bundle_lib \<Rightarrow> pyval list \<Rightarrow> py_error + string list" where
  "entry_hashes lib entries = hashes_from lib (JStr GENESIS) entries"

definition entry_intact :: "nat \<Rightarrow> pyval \<Rightarrow> pyval \<Rightarrow> string \<Rightarrow> bool" where
  "entry_intact i prev e want \<longleftrightarrow>
     py_eq (get e ''seq'') (JInt (int i)) \<and> py_eq (get e ''prev_hash'') prev \<and> get e ''hash'' = JStr want"

fun integrity :: "nat \<Rightarrow> pyval \<Rightarrow> (pyval \<times> string) list \<Rightarrow> failure list" where
  "integrity i prev [] = []"
| "integrity i prev ((e, want) # rest) =
     (if entry_intact i prev e want then [] else [fail_at ''integrity'' e]) @ integrity (Suc i) (hash_or e prev) rest"

definition last_entry :: "pyval list \<Rightarrow> pyval" where
  "last_entry entries = (if entries \<noteq> [] then last entries else JObj [])"

definition anchor_failures :: "bundle_lib \<Rightarrow> pyval \<Rightarrow> pyval \<Rightarrow> pyval list \<Rightarrow> py_error + failure list" where
  "anchor_failures lib a signer entries =
     bind_sum (items a) (\<lambda>ms.
     bind_sum (bind_sum (subscript signer ''secret_hex'') fromhex) (\<lambda>key.
     bind_sum (bl_jcs lib (JObj (filter (\<lambda>(k, v). k \<notin> {''kid'', ''sig'', ''verified''}) ms))) (\<lambda>b.
       let last = last_entry entries in
       Inr (if get a ''sig'' \<noteq> JStr (hexdigest (bl_hmac lib key b)) \<or> \<not> py_eq (get a ''seq'') (get last ''seq'')
               \<or> \<not> py_eq (get a ''head'') (get last ''hash'')
            then [\<lparr>f_reason = ''integrity(anchor)'', f_seq = JNull, f_node = JNull\<rparr>] else []))))"

section \<open>Authorities\<close>

type_synonym authorities = "(pyval \<times> pyval) list"

definition authority_of :: "authorities \<Rightarrow> pyval \<Rightarrow> py_error + pyval" where
  "authority_of auth node =
     bind_sum (dict_get auth node) (\<lambda>a. Inr (case a of None \<Rightarrow> JObj [] | Some g \<Rightarrow> g))"

definition authority_step :: "pyval \<Rightarrow> authorities \<times> failure list \<Rightarrow> py_error + authorities \<times> failure list" where
  "authority_step e st =
     (let (auth, fs) = st in
      if event_is e ''root'' then
        bind_sum (subscript e ''node'') (\<lambda>node.
        bind_sum (dict_set node (if has_key e ''authority'' then get e ''authority'' else JObj []) auth) (\<lambda>auth'.
          Inr (auth', fs)))
      else if event_is e ''spawn'' then
        (let g = (if has_key e ''granted'' then get e ''granted'' else JObj []) in
         bind_sum (authority_of auth (get e ''parent'')) (\<lambda>parent.
         bind_sum (authority_subset g parent) (\<lambda>ok.
         bind_sum (subscript e ''node'') (\<lambda>node.
         bind_sum (dict_set node g auth) (\<lambda>auth'.
           Inr (auth', fs @ (if ok then [] else [fail_at ''not_narrower'' e])))))))
      else Inr st)"

section \<open>Execution binding\<close>

definition allow_step :: "pyval \<Rightarrow> pyval list \<Rightarrow> py_error + pyval list" where
  "allow_step e ids =
     (if event_is e ''allow'' then (if hashable (get e ''call_id'') then Inr (ids @ [get e ''call_id'']) else Inl Type_error)
      else Inr ids)"

record binding_state =
  allow_by_call :: "(pyval \<times> pyval) list"
  outcome_seen :: "pyval list"
  bs_failures :: "failure list"

definition report :: "failure list \<Rightarrow> binding_state \<Rightarrow> binding_state" where
  "report fs st = st\<lparr>bs_failures := bs_failures st @ fs\<rparr>"

text \<open>Of the triple the code keeps per call only the parameter hash is read.\<close>

definition on_allow :: "authorities \<Rightarrow> pyval \<Rightarrow> binding_state \<Rightarrow> py_error + binding_state" where
  "on_allow auth e st =
     bind_sum (if get e ''scope'' = JNull then Inr True
               else bind_sum (authority_of auth (get e ''node'')) (\<lambda>a. covered_by a (get e ''scope''))) (\<lambda>inside.
     let st1 = report (if inside then [] else [fail_at ''uncontained'' e]) st; cid = get e ''call_id'' in
     bind_sum (py_in cid (map fst (allow_by_call st1))) (\<lambda>dup.
       Inr (if dup then report [fail_at ''duplicate_call_id'' e] st1
            else st1\<lparr>allow_by_call := allow_by_call st1 @ [(cid, get e ''authorized_params_hash'')]\<rparr>)))"

definition on_outcome :: "pyval list \<Rightarrow> pyval \<Rightarrow> binding_state \<Rightarrow> py_error + binding_state" where
  "on_outcome allow_ids e st =
     (let cid = get e ''call_id'' in
      bind_sum (py_in cid (outcome_seen st)) (\<lambda>dup.
        if dup then Inr (report [fail_at ''duplicate_outcome'' e] st)
        else let st1 = st\<lparr>outcome_seen := outcome_seen st @ [cid]\<rparr> in
          bind_sum (dict_get (allow_by_call st1) cid) (\<lambda>al.
            case al of
              None \<Rightarrow>
                bind_sum (py_in cid allow_ids) (\<lambda>later.
                  Inr (report [fail_at (if later then ''outcome_before_allow'' else ''outcome_without_allow'') e] st1))
            | Some params \<Rightarrow>
                Inr (report (if py_eq params (get e ''invoked_params_hash'') then [] else [fail_at ''params_mismatch'' e]) st1))))"

definition binding_step :: "authorities \<Rightarrow> pyval list \<Rightarrow> pyval \<Rightarrow> binding_state \<Rightarrow> py_error + binding_state" where
  "binding_step auth allow_ids e st =
     (if event_is e ''allow'' then on_allow auth e st
      else if event_is e ''outcome'' then on_outcome allow_ids e st
      else Inr st)"

definition binding_failures :: "authorities \<Rightarrow> pyval list \<Rightarrow> py_error + failure list" where
  "binding_failures auth entries =
     bind_sum (loop allow_step entries []) (\<lambda>ids.
     bind_sum (loop (binding_step auth ids) entries \<lparr>allow_by_call = [], outcome_seen = [], bs_failures = []\<rparr>) (\<lambda>st.
       Inr (bs_failures st)))"

section \<open>The two drivers\<close>

definition entries_of :: "pyval \<Rightarrow> py_error + pyval list" where
  "entries_of bndl = bind_sum (mget_or bndl ''entries'' (JArr [])) py_iter"

definition events_failures :: "pyval list \<Rightarrow> py_error + failure list" where
  "events_failures entries =
     bind_sum (loop authority_step entries ([], [])) (\<lambda>(auth, fs).
     bind_sum (binding_failures auth entries) (\<lambda>gs. Inr (fs @ gs)))"

definition verify_chain :: "bundle_lib \<Rightarrow> pyval \<Rightarrow> pyval \<Rightarrow> py_error + failure list" where
  "verify_chain lib bndl signer =
     bind_sum (entries_of bndl) (\<lambda>entries.
     bind_sum (entry_hashes lib entries) (\<lambda>recomputed.
     let fs = integrity 0 (JStr GENESIS) (zip entries recomputed); a = get bndl ''anchor'' in
     bind_sum (if a \<noteq> JNull \<and> signer \<noteq> JNull then anchor_failures lib a signer entries else Inr []) (\<lambda>gs.
     bind_sum (events_failures entries) (\<lambda>hs. Inr (fs @ gs @ hs)))))"

text \<open>Version 0.11 hashes and compares in one pass and always judges the anchor.\<close>

fun chain_pass :: "bundle_lib \<Rightarrow> nat \<Rightarrow> pyval \<Rightarrow> pyval list \<Rightarrow> py_error + failure list" where
  "chain_pass lib i prev [] = Inr []"
| "chain_pass lib i prev (e # es) =
     bind_sum (entry_hash lib prev e) (\<lambda>want.
     bind_sum (chain_pass lib (Suc i) (hash_or e prev) es) (\<lambda>fs.
       Inr ((if entry_intact i prev e want then [] else [fail_at ''integrity'' e]) @ fs)))"

definition verify_bundle :: "bundle_lib \<Rightarrow> pyval \<Rightarrow> pyval \<Rightarrow> py_error + bool \<times> failure list" where
  "verify_bundle lib bndl signer =
     bind_sum (entries_of bndl) (\<lambda>entries.
     bind_sum (chain_pass lib 0 (JStr GENESIS) entries) (\<lambda>fs.
     bind_sum (mget_or bndl ''anchor'' (JObj [])) (\<lambda>a.
     bind_sum (anchor_failures lib a signer entries) (\<lambda>gs.
     bind_sum (events_failures entries) (\<lambda>hs.
       let F = fs @ gs @ hs in Inr (F = [], F))))))"


section \<open>Scopes attenuate\<close>

lemma scope_covers_str:
  "scope_covers (JStr p) (JStr s) = Inr (p = s \<or> suffix ''.*'' p \<and> prefix (take (length p - 2) p @ ''.'') s)"
  by (auto simp: scope_covers_def)

lemma scope_covers_JStr: "scope_covers p (JStr s) = Inr b \<Longrightarrow> \<exists>q. p = JStr q"
  by (cases p) (auto simp: scope_covers_def split: if_splits)

lemma wildcard: "suffix ''.*'' p \<longleftrightarrow> (\<exists>q. p = q @ ''.*'')"
  by (auto simp: suffix_def)

lemma scope_covers_trans:
  assumes "scope_covers (JStr p) (JStr q) = Inr True" and "scope_covers (JStr q) (JStr r) = Inr True"
  shows "scope_covers (JStr p) (JStr r) = Inr True"
proof -
  have step: "prefix (u @ ''.'') r" if "prefix (u @ ''.'') (w @ ''.*'')" and "prefix (w @ ''.'') r" for u w
  proof -
    have "prefix (u @ ''.'') ((w @ ''.'') @ ''*'')" using that(1) by simp
    then have "prefix (u @ ''.'') (w @ ''.'')" unfolding prefix_snoc by auto
    then show ?thesis using that(2) prefix_order.trans by blast
  qed
  show ?thesis using assms step by (auto simp: scope_covers_str wildcard)
qed

lemma any_covers_trans:
  "any_of (\<lambda>p. scope_covers p (JStr q)) ps = Inr True \<Longrightarrow> scope_covers (JStr q) (JStr r) = Inr True \<Longrightarrow>
     any_of (\<lambda>p. scope_covers p (JStr r)) ps = Inr True"
proof (induction ps)
  case (Cons p ps)
  then obtain b where b: "scope_covers p (JStr q) = Inr b" by auto
  then obtain s where s: "p = JStr s" using scope_covers_JStr by blast
  show ?case
  proof (cases b)
    case True
    then show ?thesis using b s scope_covers_trans Cons.prems(2) by auto
  next
    case False
    then have "any_of (\<lambda>p. scope_covers p (JStr r)) ps = Inr True" using Cons b by simp
    then show ?thesis using s by (simp add: scope_covers_str)
  qed
qed simp

interpretation bundle_scope: attenuation "\<lambda>c p. authority_subset c p = Inr True" "\<lambda>a s. covered_by a (JStr s) = Inr True"
proof unfold_locales
  fix c p r
  assume sub: "authority_subset c p = Inr True" and c: "covered_by c (JStr r) = Inr True"
  obtain ss where ss: "scopes_of c = Inr ss" "\<forall>s\<in>set ss. covered_by p s = Inr True"
    using sub by (auto simp: authority_subset_def all_of_True split: if_splits)
  then obtain q where q: "q \<in> set ss" "scope_covers q (JStr r) = Inr True"
    using c by (auto simp: covered_by_def dest: any_of_True)
  then obtain q' where q': "q = JStr q'" using scope_covers_JStr by blast
  then have "covered_by p (JStr q') = Inr True" using ss(2) q(1) by blast
  then show "covered_by p (JStr r) = Inr True"
    using any_covers_trans q(2) q' by (auto simp: covered_by_def)
qed

text \<open>An authority is rooted in the entries when every scope it covers is covered by a root entry's authority.\<close>

definition granted_at_root :: "pyval \<Rightarrow> pyval" where
  "granted_at_root e = (if has_key e ''authority'' then get e ''authority'' else JObj [])"

definition rooted :: "pyval list \<Rightarrow> pyval \<Rightarrow> bool" where
  "rooted es a \<longleftrightarrow> (\<forall>s. covered_by a (JStr s) = Inr True \<longrightarrow>
     (\<exists>r\<in>set es. event_is r ''root'' \<and> covered_by (granted_at_root r) (JStr s) = Inr True))"

lemma dict_put_values: "a \<in> snd ` set (dict_put k v m) \<Longrightarrow> a = v \<or> a \<in> snd ` set m"
proof (induction m)
  case (Cons kv m)
  obtain k' v' where "kv = (k', v')" by (cases kv)
  then show ?case using Cons by (cases "py_eq k k'") auto
qed simp

lemma authority_of_cases: "authority_of auth n = Inr a \<Longrightarrow> a = JObj [] \<or> a \<in> snd ` set auth"
  by (force simp: authority_of_def dict_get_def split: option.splits if_splits dest: find_Some_in)

lemma rooted_empty: "rooted es (JObj [])"
  by (simp add: rooted_def covered_by_def scopes_of_def mget_or_def has_key_def)

lemma rooted_mono: "rooted es a \<Longrightarrow> set es \<subseteq> set es' \<Longrightarrow> rooted es' a"
  unfolding rooted_def by blast

lemma authority_step_rooted:
  assumes step: "authority_step e (auth, fs) = Inr (auth', [])" and inv: "\<forall>a\<in>snd ` set auth. rooted es a" and e: "e \<in> set es"
  shows "fs = [] \<and> (\<forall>a\<in>snd ` set auth'. rooted es a)"
proof -
  consider (root) "event_is e ''root''" | (spawn) "\<not> event_is e ''root''" "event_is e ''spawn''"
    | (other) "\<not> event_is e ''root''" "\<not> event_is e ''spawn''" by blast
  then show ?thesis
  proof cases
    case root
    then obtain node where "auth' = dict_put node (granted_at_root e) auth" "fs = []"
      using step by (auto simp: authority_step_def dict_set_def granted_at_root_def split: if_splits)
    moreover have "rooted es (granted_at_root e)" using root e by (auto simp: rooted_def)
    ultimately show ?thesis using inv dict_put_values [of _ node "granted_at_root e" auth] by metis
  next
    case spawn
    define g where "g = (if has_key e ''granted'' then get e ''granted'' else JObj [])"
    obtain node parent where auth': "auth' = dict_put node g auth" "fs = []"
      and p: "authority_of auth (get e ''parent'') = Inr parent" and sub: "authority_subset g parent = Inr True"
      using step spawn by (auto simp: authority_step_def dict_set_def g_def [symmetric] Let_def split: if_splits)
    have "rooted es parent" using authority_of_cases [OF p] inv rooted_empty by auto
    then have "rooted es g" using bundle_scope.keeps [OF sub] by (simp add: rooted_def)
    then show ?thesis using inv auth' dict_put_values [of _ node g auth] by metis
  next
    case other
    then show ?thesis using step inv by (simp add: authority_step_def)
  qed
qed

lemma authorities_rooted:
  "loop authority_step es (auth, fs) = Inr (auth', []) \<Longrightarrow> set es \<subseteq> set all \<Longrightarrow> \<forall>a\<in>snd ` set auth. rooted all a \<Longrightarrow>
     fs = [] \<and> (\<forall>a\<in>snd ` set auth'. rooted all a)"
proof (induction es arbitrary: auth fs)
  case (Cons e es)
  then obtain auth1 fs1 where s: "authority_step e (auth, fs) = Inr (auth1, fs1)"
    and rest: "loop authority_step es (auth1, fs1) = Inr (auth', [])" by auto
  have e: "e \<in> set all" "set es \<subseteq> set all" using Cons.prems(2) by auto
  have nil: "authority_step e (auth, fs) = Inr (auth1, fs1) \<Longrightarrow> loop authority_step es (auth1, fs1) = Inr (auth', []) \<Longrightarrow> fs1 = []"
  proof -
    assume "loop authority_step es (auth1, fs1) = Inr (auth', [])"
    have grow: "loop authority_step xs (a, f) = Inr (b, g) \<Longrightarrow> \<exists>h. g = f @ h" for xs a f b g
    proof (induction xs arbitrary: a f)
      case (Cons x xs)
      then obtain a1 f1 where "authority_step x (a, f) = Inr (a1, f1)" "loop authority_step xs (a1, f1) = Inr (b, g)" by auto
      moreover have "\<exists>h. f1 = f @ h" using calculation(1) by (auto simp: authority_step_def Let_def split: if_splits)
      ultimately show ?case using Cons.IH by (metis append.assoc)
    qed simp
    from grow [OF rest] show "fs1 = []" by simp
  qed
  then have s': "authority_step e (auth, fs) = Inr (auth1, [])" using s rest by simp
  from authority_step_rooted [OF s' Cons.prems(3) e(1)] have "fs = []" "\<forall>a\<in>snd ` set auth1. rooted all a" by auto
  moreover have "loop authority_step es (auth1, []) = Inr (auth', [])" using rest nil s by simp
  ultimately show ?case using Cons.IH [OF _ e(2)] by blast
qed simp

section \<open>Execution binding as a specification\<close>

definition authorised :: "pyval list \<Rightarrow> pyval \<Rightarrow> bool" where
  "authorised pre e =
     (case find (\<lambda>a. event_is a ''allow'' \<and> py_eq (get e ''call_id'') (get a ''call_id'')) pre of
        None \<Rightarrow> False
      | Some a \<Rightarrow> py_eq (get a ''authorized_params_hash'') (get e ''invoked_params_hash''))"

definition contained :: "authorities \<Rightarrow> pyval \<Rightarrow> bool" where
  "contained auth e \<longleftrightarrow> get e ''scope'' = JNull \<or>
     (\<exists>a. authority_of auth (get e ''node'') = Inr a \<and> covered_by a (get e ''scope'') = Inr True)"

text \<open>\<open>pre\<close> are the entries before; every allow is contained and issues a new call id, every outcome is
  the first of its call and was authorised before it with the same parameters.\<close>

fun well_bound :: "authorities \<Rightarrow> pyval list \<Rightarrow> pyval list \<Rightarrow> bool" where
  "well_bound auth pre [] \<longleftrightarrow> True"
| "well_bound auth pre (e # es) \<longleftrightarrow>
     (event_is e ''allow'' \<longrightarrow> contained auth e \<and>
        \<not> (\<exists>a\<in>set pre. event_is a ''allow'' \<and> py_eq (get e ''call_id'') (get a ''call_id''))) \<and>
     (event_is e ''outcome'' \<longrightarrow> authorised pre e \<and>
        \<not> (\<exists>o'\<in>set pre. event_is o' ''outcome'' \<and> py_eq (get e ''call_id'') (get o' ''call_id''))) \<and>
     well_bound auth (pre @ [e]) es"

definition tracks :: "pyval list \<Rightarrow> binding_state \<Rightarrow> bool" where
  "tracks pre st \<longleftrightarrow> bs_failures st = [] \<longrightarrow>
     allow_by_call st = map (\<lambda>a. (get a ''call_id'', get a ''authorized_params_hash'')) (filter (\<lambda>a. event_is a ''allow'') pre) \<and>
     outcome_seen st = map (\<lambda>o'. get o' ''call_id'') (filter (\<lambda>o'. event_is o' ''outcome'') pre)"

lemma find_map_filter: "find P (map f (filter Q xs)) = map_option f (find (\<lambda>x. Q x \<and> P (f x)) xs)"
  by (induction xs) auto

lemma report_simps [simp]:
  "bs_failures (report fs st) = bs_failures st @ fs" "allow_by_call (report fs st) = allow_by_call st"
  "outcome_seen (report fs st) = outcome_seen st"
  by (simp_all add: report_def)


lemma on_allow_tracks:
  assumes "on_allow auth e st = Inr st'" and "tracks pre st" and "event_is e ''allow''"
  shows "tracks (pre @ [e]) st'" and "bs_failures st' = [] \<longleftrightarrow> bs_failures st = [] \<and> contained auth e \<and>
     \<not> (\<exists>a\<in>set pre. event_is a ''allow'' \<and> py_eq (get e ''call_id'') (get a ''call_id''))"
proof -
  have "\<not> event_is e ''outcome''" using assms(3) by (simp add: event_is_def)
  then show "tracks (pre @ [e]) st'"
    using assms by (auto simp: on_allow_def tracks_def Let_def split: if_splits)
  show "bs_failures st' = [] \<longleftrightarrow> bs_failures st = [] \<and> contained auth e \<and>
     \<not> (\<exists>a\<in>set pre. event_is a ''allow'' \<and> py_eq (get e ''call_id'') (get a ''call_id''))"
    using assms(1,2) by (auto simp: on_allow_def tracks_def Let_def py_in_def contained_def list_ex_iff split: if_splits)
qed

lemma on_outcome_tracks:
  assumes "on_outcome ids e st = Inr st'" and "tracks pre st" and "event_is e ''outcome''"
  shows "tracks (pre @ [e]) st'" and "bs_failures st' = [] \<longleftrightarrow> bs_failures st = [] \<and> authorised pre e \<and>
     \<not> (\<exists>o'\<in>set pre. event_is o' ''outcome'' \<and> py_eq (get e ''call_id'') (get o' ''call_id''))"
proof -
  have "\<not> event_is e ''allow''" using assms(3) by (simp add: event_is_def)
  then show "tracks (pre @ [e]) st'"
    using assms by (auto simp: on_outcome_def tracks_def Let_def split: if_splits option.splits)
  show "bs_failures st' = [] \<longleftrightarrow> bs_failures st = [] \<and> authorised pre e \<and>
     \<not> (\<exists>o'\<in>set pre. event_is o' ''outcome'' \<and> py_eq (get e ''call_id'') (get o' ''call_id''))"
    using assms(1,2)
    by (auto simp: on_outcome_def tracks_def Let_def py_in_def authorised_def dict_get_def list_ex_iff find_map_filter
        split: if_splits option.splits)
qed

lemma binding_loop:
  "loop (binding_step auth ids) es st = Inr st' \<Longrightarrow> tracks pre st \<Longrightarrow>
     bs_failures st' = [] \<longleftrightarrow> bs_failures st = [] \<and> well_bound auth pre es"
proof (induction es arbitrary: pre st)
  case (Cons e es)
  then obtain st1 where s: "binding_step auth ids e st = Inr st1" and rest: "loop (binding_step auth ids) es st1 = Inr st'"
    by auto
  have excl: "\<not> (event_is e ''allow'' \<and> event_is e ''outcome'')" by (simp add: event_is_def)
  have "tracks (pre @ [e]) st1 \<and> (bs_failures st1 = [] \<longleftrightarrow> bs_failures st = [] \<and> well_bound auth pre [e])"
  proof (cases "event_is e ''allow''")
    case True
    then show ?thesis using s on_allow_tracks [OF _ Cons.prems(2) True] excl by (auto simp: binding_step_def)
  next
    case False
    show ?thesis
    proof (cases "event_is e ''outcome''")
      case True
      then show ?thesis using s False on_outcome_tracks [OF _ Cons.prems(2) True] by (auto simp: binding_step_def)
    next
      case False
      then show ?thesis using s \<open>\<not> event_is e ''allow''\<close> Cons.prems(2) by (auto simp: binding_step_def tracks_def)
    qed
  qed
  then show ?case using Cons.IH [OF rest, of "pre @ [e]"] by auto
qed simp

lemma binding_failures_nil:
  assumes "binding_failures auth es = Inr fs"
  shows "fs = [] \<longleftrightarrow> well_bound auth [] es"
proof -
  obtain ids st where "loop (binding_step auth ids) es \<lparr>allow_by_call = [], outcome_seen = [], bs_failures = []\<rparr> = Inr st"
    and "fs = bs_failures st"
    using assms by (auto simp: binding_failures_def)
  then show ?thesis using binding_loop [of auth ids es _ st "[]"] by (simp add: tracks_def)
qed

lemma well_bound_contained: "well_bound auth pre es \<Longrightarrow> e \<in> set es \<Longrightarrow> event_is e ''allow'' \<Longrightarrow> contained auth e"
  by (induction auth pre es rule: well_bound.induct) auto

lemma verify_chain_nil:
  assumes "verify_chain lib bndl signer = Inr []"
  obtains es auth where "entries_of bndl = Inr es" "loop authority_step es ([], []) = Inr (auth, [])"
    "binding_failures auth es = Inr []" "\<exists>hs. entry_hashes lib es = Inr hs \<and> integrity 0 (JStr GENESIS) (zip es hs) = []"
  using assms by (auto simp: verify_chain_def events_failures_def Let_def split: prod.splits)

lemma chain_pass_integrity:
  "chain_pass lib i prev es = bind_sum (hashes_from lib prev es) (\<lambda>hs. Inr (integrity i prev (zip es hs)))"
proof (induction es arbitrary: i prev)
  case (Cons e es)
  show ?case
    by (cases "entry_hash lib prev e"; cases "hashes_from lib (hash_or e prev) es") (simp_all add: Cons)
qed simp

section \<open>Properties\<close>

text \<open>C7: execution binding. On a bundle the events of which can be judged, no binding failure is reported
  exactly when every allow is contained in its node's authority and issues a new call id, and every
  outcome is the first of its call, comes after the allow that issued the call id, and carries the
  parameter hash that allow authorised.\<close>

theorem execution_binding:
  assumes "binding_failures auth entries = Inr failures"
  shows "failures = [] \<longleftrightarrow> well_bound auth [] entries"
  by (rule binding_failures_nil [OF assms])

text \<open>C8: authority is rooted. In a bundle that verifies, the scope of every allow is covered by the
  authority of a root entry of the bundle: no chain of spawns adds a scope.\<close>

theorem accepted_scope_is_rooted:
  assumes "verify_chain lib bndl signer = Inr []" and "entries_of bndl = Inr entries"
    and "e \<in> set entries" and "event_is e ''allow''" and "get e ''scope'' = JStr s"
  shows "\<exists>r\<in>set entries. event_is r ''root'' \<and>
     covered_by (if has_key r ''authority'' then get r ''authority'' else JObj []) (JStr s) = Inr True"
proof -
  obtain auth where a: "loop authority_step entries ([], []) = Inr (auth, [])" and "binding_failures auth entries = Inr []"
    using verify_chain_nil [OF assms(1)] assms(2) by auto
  then have "contained auth e" using binding_failures_nil well_bound_contained assms(3,4) by blast
  then obtain g where g: "authority_of auth (get e ''node'') = Inr g" "covered_by g (JStr s) = Inr True"
    using assms(5) by (auto simp: contained_def)
  moreover have "\<forall>x\<in>snd ` set auth. rooted entries x" using authorities_rooted [OF a subset_refl] by simp
  ultimately have "rooted entries g" using authority_of_cases [OF g(1)] rooted_empty by metis
  then show ?thesis using g(2) unfolding rooted_def granted_at_root_def by blast
qed

text \<open>C31: the one-pass verifier of version 0.11 and the two-pass verifier of version 0.15 agree. On every
  bundle with an anchor, and any signer, they report the same failures in the same order, or raise the
  same exception.\<close>

theorem bundle_verifiers_agree:
  assumes "get bndl ''anchor'' \<noteq> JNull" and "signer \<noteq> JNull"
  shows "verify_bundle lib bndl signer = bind_sum (verify_chain lib bndl signer) (\<lambda>F. Inr (F = [], F))"
proof -
  have a: "mget_or bndl ''anchor'' (JObj []) = Inr (get bndl ''anchor'')"
    using get_not_null [OF assms(1)] by (simp add: mget_or_def)
  show ?thesis
  proof (cases "entries_of bndl")
    case (Inr es)
    then show ?thesis
      using assms a unfolding verify_bundle_def verify_chain_def entry_hashes_def chain_pass_integrity Let_def
      by (cases "hashes_from lib (JStr GENESIS) es"; cases "anchor_failures lib (get bndl ''anchor'') signer es";
          cases "events_failures es") simp_all
  qed (simp add: verify_bundle_def verify_chain_def)
qed

text \<open>A child authority that drops its parent's constraint passes the subset test, although the delegation
  profile of \<open>odis.py\<close> calls the same step a widening.\<close>

lemma dropped_constraint_accepted:
  "authority_subset (JObj [(''scopes'', JArr [JStr ''pay.*''])])
     (JObj [(''scopes'', JArr [JStr ''pay.*'']), (''constraints'', JArr [JObj [(''key'', JStr ''amount''), (''max'', JInt 10)]]),
            (''ttl'', JInt 60)]) = Inr True"
  by (auto simp: authority_subset_def scopes_of_def constraints_of_def mget_or_def has_key_def get_def covered_by_def
      scope_covers_def by_key_def subscript_def dict_set_def hashable_def exceeds_def simp del: bind_sum_Inr)

section \<open>A bundle of three entries\<close>

definition sample_entries :: "pyval list" where
  "sample_entries =
     [JObj [(''seq'', JInt 0), (''prev_hash'', JStr GENESIS), (''hash'', JStr ''''), (''event'', JStr ''root''),
            (''node'', JStr ''n0''), (''authority'', JObj [(''scopes'', JArr [JStr ''pay.*''])])],
      JObj [(''seq'', JInt 1), (''prev_hash'', JStr ''''), (''hash'', JStr ''''), (''event'', JStr ''allow''),
            (''node'', JStr ''n0''), (''scope'', JStr ''pay.small''), (''call_id'', JStr ''c1''), (''authorized_params_hash'', JStr ''p'')],
      JObj [(''seq'', JInt 2), (''prev_hash'', JStr ''''), (''hash'', JStr ''''), (''event'', JStr ''outcome''),
            (''node'', JStr ''n0''), (''call_id'', JStr ''c1''), (''invoked_params_hash'', JStr ''p'')]]"

definition sample_bundle :: pyval where
  "sample_bundle = JObj [(''entries'', JArr sample_entries),
     (''anchor'', JObj [(''sig'', JStr ''''), (''seq'', JInt 2), (''head'', JStr '''')])]"

definition sample_bundle_lib :: bundle_lib where
  "sample_bundle_lib = \<lparr>bl_sha256 = (\<lambda>b. []), bl_hmac = (\<lambda>k b. []), bl_jcs = (\<lambda>v. Inr [])\<rparr>"

definition sample_signer :: pyval where
  "sample_signer = JObj [(''secret_hex'', JStr ''0aFF'')]"

lemma sample_covers: "covered_by (JObj [(''scopes'', JArr [JStr ''pay.*''])]) (JStr ''pay.small'') = Inr True"
  by (simp add: covered_by_def scopes_of_def mget_or_def has_key_def get_def scope_covers_str suffix_def del: bind_sum_Inr)

lemma sample_events:
  "loop authority_step sample_entries ([], []) = Inr ([(JStr ''n0'', JObj [(''scopes'', JArr [JStr ''pay.*''])])], [])"
  "binding_failures [(JStr ''n0'', JObj [(''scopes'', JArr [JStr ''pay.*''])])] sample_entries = Inr []"
  using sample_covers
  by (simp_all add: sample_entries_def authority_step_def event_is_def get_def has_key_def subscript_def dict_set_def hashable_def
      binding_failures_def allow_step_def binding_step_def on_allow_def on_outcome_def authority_of_def dict_get_def
      py_in_def report_def Let_def del: bind_sum_Inr)


lemma sample_chain: "verify_chain sample_bundle_lib sample_bundle sample_signer = Inr []"
proof -
  have "entries_of sample_bundle = Inr sample_entries" "get sample_bundle ''anchor'' \<noteq> JNull" "sample_signer \<noteq> JNull"
    by (simp_all add: entries_of_def mget_or_def sample_bundle_def sample_signer_def has_key_def get_def)
  moreover have "entry_hashes sample_bundle_lib sample_entries = Inr ['''', '''', '''']"
    by (simp add: entry_hashes_def entry_hash_def items_def sample_entries_def GENESIS_def sample_bundle_lib_def hash_or_def
        has_key_def get_def hexdigest_def ascii_def list_all_iff del: bind_sum_Inr)
  moreover have "integrity 0 (JStr GENESIS) (zip sample_entries ['''', '''', '''']) = []"
    by (simp add: sample_entries_def entry_intact_def hash_or_def has_key_def get_def)
  moreover have "anchor_failures sample_bundle_lib (get sample_bundle ''anchor'') sample_signer sample_entries = Inr []"
    by (simp add: anchor_failures_def items_def sample_bundle_def sample_signer_def subscript_def get_def hex_value_def
        ascii_space_def sample_bundle_lib_def hexdigest_def ascii_def last_entry_def sample_entries_def del: bind_sum_Inr)
  ultimately show ?thesis
    using sample_events by (simp add: verify_chain_def events_failures_def Let_def del: bind_sum_Inr)
qed

theorem execution_binding_witness:
  "well_bound [(JStr ''n0'', JObj [(''scopes'', JArr [JStr ''pay.*''])])] [] sample_entries"
  using execution_binding [OF sample_events(2)] by simp

theorem accepted_scope_is_rooted_witness:
  "\<exists>r\<in>set sample_entries. event_is r ''root'' \<and>
     covered_by (if has_key r ''authority'' then get r ''authority'' else JObj []) (JStr ''pay.small'') = Inr True"
proof (rule accepted_scope_is_rooted [OF sample_chain])
  show "entries_of sample_bundle = Inr sample_entries"
    by (simp add: entries_of_def mget_or_def sample_bundle_def has_key_def get_def)
  show "sample_entries ! 1 \<in> set sample_entries" by (simp add: sample_entries_def)
  show "event_is (sample_entries ! 1) ''allow''" "get (sample_entries ! 1) ''scope'' = JStr ''pay.small''"
    by (simp_all add: sample_entries_def event_is_def get_def)
qed

theorem bundle_verifiers_agree_witness: "verify_bundle sample_bundle_lib sample_bundle sample_signer = Inr (True, [])"
  by (subst bundle_verifiers_agree) (simp_all add: sample_chain, simp_all add: sample_bundle_def sample_signer_def get_def)

end
