(* ===== verification/Envelope.thy ===== *)
theory Envelope
  imports Evidence_Bundle
begin

text \<open>
  The observer-envelope half of
  \<open>interop/attenu-guard-0.15.0-envelopes/cleanroom/verify_envelope_v1.py\<close> (\<open>load_trust_set\<close> to
  \<open>verify\<close>): which entries of a bundle count as witness-signed. Beside the parameters of the bundle
  half: Ed25519 verification and key loading, the JSON reader, and \<open>str()\<close> of a value that is neither
  an integer nor a string. An \<open>except Exception\<close> is the error branch of the value it guards.
\<close>

record envelope_lib =
  el_bundle :: bundle_lib
  el_ed25519 :: "byte list \<Rightarrow> byte list \<Rightarrow> byte list \<Rightarrow> bool"
  el_valid_key :: "byte list \<Rightarrow> bool"
  el_loads :: "byte list \<Rightarrow> pyval option"
  el_str :: "pyval \<Rightarrow> string"

definition TYP :: string where
  "TYP = ''delegation-event-observation''"

definition ENVELOPE_MEMBERS :: "string list" where
  "ENVELOPE_MEMBERS = [''v'', ''typ'', ''subject'', ''observed'', ''witness'', ''sig'']"

definition SUBJECT_SPAWN :: "string list" where
  "SUBJECT_SPAWN = [''chain_id'', ''node'', ''seq'', ''entry_hash'', ''event'']"

definition SUBJECT_ALLOW :: "string list" where
  "SUBJECT_ALLOW = SUBJECT_SPAWN @ [''call_id'']"

definition SUBJECT_BY_EVENT :: "(string \<times> string list) list" where
  "SUBJECT_BY_EVENT = [(''spawn'', SUBJECT_SPAWN), (''allow'', SUBJECT_ALLOW)]"

definition OBSERVED_MEMBERS :: "string list" where
  "OBSERVED_MEMBERS = [''result'', ''at'', ''method'']"

definition WITNESS_MEMBERS :: "string list" where
  "WITNESS_MEMBERS = [''kid'', ''alg'']"

section \<open>The trust set\<close>

type_synonym trust_set = "(string \<times> byte list) list"

definition trust_row :: "envelope_lib \<Rightarrow> pyval \<Rightarrow> trust_set \<Rightarrow> py_error + trust_set" where
  "trust_row lib row trusted =
     bind_sum (mget row ''kid'') (\<lambda>kid.
       case kid of
         JStr k \<Rightarrow>
           (if get row ''alg'' \<noteq> JStr ''EdDSA'' then Inl Value_error
            else case bind_sum (subscript row ''public_key_hex'') fromhex of
              Inl e \<Rightarrow> Inl Value_error
            | Inr raw \<Rightarrow> if el_valid_key lib raw then Inr (AList.update k raw trusted) else Inl Value_error)
       | _ \<Rightarrow> Inl Value_error)"

text \<open>\<open>witness_keys or []\<close>\<close>

definition load_trust_set :: "envelope_lib \<Rightarrow> pyval \<Rightarrow> py_error + trust_set" where
  "load_trust_set lib witness_keys =
     bind_sum (case witness_keys of
                 JNull \<Rightarrow> Inr [] | JBool False \<Rightarrow> Inr [] | JInt i \<Rightarrow> (if i = 0 then Inr [] else Inl Type_error)
               | JFloat r \<Rightarrow> (if r = 0 then Inr [] else Inl Type_error)
               | _ \<Rightarrow> py_iter witness_keys) (\<lambda>rows.
       loop (trust_row lib) rows [])"

section \<open>One envelope\<close>

definition keys_of :: "pyval \<Rightarrow> string set" where
  "keys_of d = set (map fst (members d))"

definition allowed_subject :: "pyval \<Rightarrow> string list option" where
  "allowed_subject subject =
     (if is_dict subject then (case get subject ''event'' of JStr ev \<Rightarrow> map_of SUBJECT_BY_EVENT ev | _ \<Rightarrow> None) else None)"

text \<open>\<open>xs[v]\<close> for a list: an integer (a boolean is one) counts from either end.\<close>

definition index_list :: "'a list \<Rightarrow> pyval \<Rightarrow> py_error + 'a" where
  "index_list xs v =
     (let pick = (\<lambda>i. if 0 \<le> i \<and> i < int (length xs) then Inr (xs ! nat i)
                    else if - int (length xs) \<le> i \<and> i < 0 then Inr (xs ! nat (i + int (length xs)))
                    else Inl Index_error) in
      case v of JInt i \<Rightarrow> pick i | JBool b \<Rightarrow> pick (of_bool b) | _ \<Rightarrow> Inl Type_error)"

definition is_int_value :: "pyval \<Rightarrow> bool" where
  "is_int_value v = (case v of JInt i \<Rightarrow> True | _ \<Rightarrow> False)"

definition subject_ok :: "pyval \<Rightarrow> pyval option \<Rightarrow> string list \<Rightarrow> string list option \<Rightarrow> py_error + bool" where
  "subject_ok subject found recomputed allowed =
     (case (allowed, found) of
        (Some names, Some e) \<Rightarrow>
          (if \<not> is_dict subject \<or> keys_of subject \<subset> set names \<or> \<not> is_int_value (get subject ''seq'') then Inr False
           else bind_sum (bind_sum (subscript e ''seq'') (index_list recomputed)) (\<lambda>h.
             Inr (get subject ''entry_hash'' = JStr h \<and>
                  list_all (\<lambda>locator. locator \<in> set names \<longrightarrow> py_eq (get subject locator) (get e locator)) [''chain_id'', ''node''] \<and>
                  py_eq (get subject ''event'') (get e ''event'') \<and>
                  (''call_id'' \<in> set names \<longrightarrow> py_eq (get subject ''call_id'') (get e ''call_id'')))))
      | _ \<Rightarrow> Inr False)"

definition added_members :: "pyval \<Rightarrow> bool" where
  "added_members env =
     (let subject = get env ''subject'' in
      \<not> keys_of env \<subseteq> set ENVELOPE_MEMBERS \<or>
      (case allowed_subject subject of None \<Rightarrow> False | Some names \<Rightarrow> \<not> keys_of subject \<subseteq> set names) \<or>
      \<not> keys_of (get env ''observed'') \<subseteq> set OBSERVED_MEMBERS \<or>
      \<not> keys_of (get env ''witness'') \<subseteq> set WITNESS_MEMBERS)"

definition canonical_bytes :: "envelope_lib \<Rightarrow> pyval \<Rightarrow> bool" where
  "canonical_bytes lib raw_hex =
     (case fromhex raw_hex of
        Inl e \<Rightarrow> False
      | Inr received \<Rightarrow>
          (case el_loads lib received of
             None \<Rightarrow> False
           | Some v \<Rightarrow> (case bl_jcs (el_bundle lib) v of Inl e \<Rightarrow> False | Inr b \<Rightarrow> received = b)))"

definition witness_key :: "trust_set \<Rightarrow> pyval \<Rightarrow> byte list option" where
  "witness_key trusted env =
     (let witness = get env ''witness'' in
      case get witness ''kid'' of
        JStr kid \<Rightarrow> if get witness ''alg'' = JStr ''EdDSA'' then map_of trusted kid else None
      | _ \<Rightarrow> None)"

definition signature_ok :: "envelope_lib \<Rightarrow> byte list \<Rightarrow> byte list \<Rightarrow> pyval \<Rightarrow> bool" where
  "signature_ok lib public preimage sig =
     (case fromhex sig of Inl e \<Rightarrow> False | Inr raw_sig \<Rightarrow> el_ed25519 lib public raw_sig preimage)"

definition unsigned :: "pyval \<Rightarrow> pyval" where
  "unsigned env = JObj (filter (\<lambda>(k, v). k \<noteq> ''sig'') (members env))"

text \<open>The reasons reported, in order; the envelope is bad exactly when there is one.\<close>

definition judge_envelope ::
  "envelope_lib \<Rightarrow> pyval \<Rightarrow> pyval option \<Rightarrow> string list \<Rightarrow> trust_set \<Rightarrow> pyval \<Rightarrow> py_error + string list" where
  "judge_envelope lib env found recomputed trusted raw_hex =
     (if \<not> is_dict env then Inr [''envelope_unknown_member'']
      else
        (let raw = (if raw_hex \<noteq> JNull \<and> \<not> canonical_bytes lib raw_hex then [''envelope_non_canonical''] else []) in
         case bl_jcs (el_bundle lib) (unsigned env) of
           Inl e \<Rightarrow> Inr (raw @ [''envelope_non_canonical''])
         | Inr preimage \<Rightarrow>
             (if \<not> py_eq (get env ''v'') (JInt 1) \<or> get env ''typ'' \<noteq> JStr TYP then Inr (raw @ [''envelope_unknown_version''])
              else
                (let subject = get env ''subject'';
                     added = (if added_members env then [''envelope_unknown_member''] else []) in
                 bind_sum (subject_ok subject found recomputed (allowed_subject subject)) (\<lambda>ok.
                   let so_far = raw @ added @ (if ok then [] else [''envelope_subject_mismatch'']) in
                   Inr (case witness_key trusted env of
                          None \<Rightarrow> so_far @ [''envelope_unknown_witness'']
                        | Some public \<Rightarrow>
                            so_far @ (if signature_ok lib public preimage (get env ''sig'') then [] else [''envelope_bad_signature''])))))))"

section \<open>All envelopes of a bundle\<close>

datatype env_state = Process_asserted | Witness_signed
datatype claim_key = Located pyval | Unlocated nat

record envelope_run =
  er_states :: "(string \<times> env_state) list"
  er_results :: "(string \<times> pyval) list"
  er_claimed :: "claim_key list"
  er_failures :: "failure list"

definition py_str :: "envelope_lib \<Rightarrow> pyval \<Rightarrow> string" where
  "py_str lib v = (case v of JStr s \<Rightarrow> s | JInt i \<Rightarrow> ascii (str_int i) | _ \<Rightarrow> el_str lib v)"

definition located :: "pyval list \<Rightarrow> pyval \<Rightarrow> pyval option" where
  "located entries seq =
     (case seq of JInt i \<Rightarrow> if 0 \<le> i \<and> i < int (length entries) then Some (entries ! nat i) else None | _ \<Rightarrow> None)"

definition is_claimed :: "claim_key \<Rightarrow> claim_key list \<Rightarrow> py_error + bool" where
  "is_claimed key claimed =
     (case key of
        Located v \<Rightarrow>
          if hashable v then Inr (list_ex (\<lambda>k. case k of Located w \<Rightarrow> py_eq v w | Unlocated n \<Rightarrow> False) claimed)
          else Inl Type_error
      | Unlocated n \<Rightarrow> Inr (key \<in> set claimed))"

definition observed_result :: "pyval \<Rightarrow> py_error + pyval" where
  "observed_result env =
     (case get env ''observed'' of
        JObj ms \<Rightarrow> Inr (get (JObj ms) ''result'')
      | v \<Rightarrow> if v \<in> {JNull, JBool False, JInt 0, JFloat 0, JStr '''', JArr []} then Inr JNull else Inl Attribute_error)"

definition envelope_step ::
  "envelope_lib \<Rightarrow> pyval list \<Rightarrow> string list \<Rightarrow> trust_set \<Rightarrow> pyval \<Rightarrow> nat \<times> pyval \<Rightarrow> envelope_run \<Rightarrow> py_error + envelope_run" where
  "envelope_step lib entries recomputed trusted raw_hex ie st =
     (let (index, env) = ie;
          seq = get (get env ''subject'') ''seq'';
          found = located entries seq;
          at_seq = (case found of Some e \<Rightarrow> get e ''seq''
                                | None \<Rightarrow> (case seq of JInt i \<Rightarrow> seq | JBool b \<Rightarrow> seq | _ \<Rightarrow> JNull));
          at_node = (case found of Some e \<Rightarrow> get e ''node'' | None \<Rightarrow> JNull);
          failing = map (\<lambda>reason. \<lparr>f_reason = reason, f_seq = at_seq, f_node = at_node\<rparr>);
          key = (if found \<noteq> None then Located at_seq else Unlocated index) in
      bind_sum (is_claimed key (er_claimed st)) (\<lambda>dup.
        if dup then
          (let st1 = st\<lparr>er_failures := er_failures st @ failing [''envelope_duplicate_subject'']\<rparr> in
           case found of
             None \<Rightarrow> Inr st1
           | Some e \<Rightarrow>
               bind_sum (subscript e ''seq'') (\<lambda>s.
                 Inr (st1\<lparr>er_states := AList.update (py_str lib s) Process_asserted (er_states st1),
                          er_results := AList.delete (py_str lib s) (er_results st1)\<rparr>)))
        else
          bind_sum (judge_envelope lib env found recomputed trusted raw_hex) (\<lambda>reasons.
            let st1 = st\<lparr>er_claimed := er_claimed st @ [key], er_failures := er_failures st @ failing reasons\<rparr> in
            case found of
              Some e \<Rightarrow>
                (if reasons \<noteq> [] then Inr st1
                 else bind_sum (subscript e ''seq'') (\<lambda>s.
                      bind_sum (observed_result env) (\<lambda>r.
                        Inr (st1\<lparr>er_states := AList.update (py_str lib s) Witness_signed (er_states st1),
                                 er_results := AList.update (py_str lib s) r (er_results st1)\<rparr>))))
            | None \<Rightarrow> Inr st1)))"

definition fresh_run :: "pyval list \<Rightarrow> envelope_run" where
  "fresh_run entries =
     \<lparr>er_states = map (\<lambda>i. (str_nat i, Process_asserted)) [0..<length entries], er_results = [], er_claimed = [], er_failures = []\<rparr>"

definition verify_envelopes :: "envelope_lib \<Rightarrow> pyval \<Rightarrow> pyval \<Rightarrow> pyval \<Rightarrow> py_error + envelope_run" where
  "verify_envelopes lib bndl witness_keys raw_hex =
     bind_sum (entries_of bndl) (\<lambda>entries.
     bind_sum (entry_hashes (el_bundle lib) entries) (\<lambda>recomputed.
       let envelopes = get bndl ''envelopes'' in
       if envelopes = JNull then Inr (fresh_run entries)
       else bind_sum (load_trust_set lib witness_keys) (\<lambda>trusted.
            bind_sum (py_iter envelopes) (\<lambda>envs.
              loop (envelope_step lib entries recomputed trusted raw_hex) (enumerate_from 0 envs) (fresh_run entries)))))"

record envelope_report =
  accepted :: bool
  rp_failures :: "failure list"
  rp_states :: "(string \<times> env_state) list"
  rp_results :: "(string \<times> pyval) list"

definition verify :: "envelope_lib \<Rightarrow> pyval \<Rightarrow> py_error + envelope_report" where
  "verify lib case_doc =
     bind_sum (subscript case_doc ''bundle'') (\<lambda>bndl.
     bind_sum (verify_chain (el_bundle lib) bndl (get case_doc ''signer'')) (\<lambda>fs.
     bind_sum (verify_envelopes lib bndl (get case_doc ''witness_keys'') (get case_doc ''raw_hex'')) (\<lambda>run.
       let failures = fs @ er_failures run in
       Inr \<lparr>accepted = (failures = []), rp_failures = failures, rp_states = er_states run, rp_results = er_results run\<rparr>)))"


section \<open>Which entries are witness-signed\<close>

lemma str_nat_inj: "str_nat m = str_nat n \<Longrightarrow> m = n"
  using str_int_inj [of "int m" "[]" "int n" "[]"] by (simp add: str_int_def stops_def)

lemma py_str_int [simp]: "py_str lib (JInt (int i)) = str_nat i"
  by (simp add: py_str_def str_int_def ascii_def comp_def)

abbreviation subject_seq :: "pyval \<Rightarrow> pyval" where
  "subject_seq env \<equiv> get (get env ''subject'') ''seq''"

definition naming :: "nat \<Rightarrow> pyval list \<Rightarrow> pyval list" where
  "naming i envs = filter (\<lambda>env. subject_seq env = JInt (int i)) envs"

definition numbered :: "pyval list \<Rightarrow> bool" where
  "numbered entries \<longleftrightarrow> (\<forall>i<length entries. get (entries ! i) ''seq'' = JInt (int i))"

definition clean ::
  "envelope_lib \<Rightarrow> pyval list \<Rightarrow> string list \<Rightarrow> trust_set \<Rightarrow> pyval \<Rightarrow> nat \<Rightarrow> pyval list \<Rightarrow> bool" where
  "clean lib entries recomputed trusted raw_hex i envs \<longleftrightarrow>
     (\<exists>env. naming i envs = [env] \<and> judge_envelope lib env (Some (entries ! i)) recomputed trusted raw_hex = Inr [])"

definition envelope_inv ::
  "envelope_lib \<Rightarrow> pyval list \<Rightarrow> string list \<Rightarrow> trust_set \<Rightarrow> pyval \<Rightarrow> pyval list \<Rightarrow> envelope_run \<Rightarrow> bool" where
  "envelope_inv lib entries recomputed trusted raw_hex pre st \<longleftrightarrow>
     (\<forall>i<length entries. map_of (er_states st) (str_nat i) =
        Some (if clean lib entries recomputed trusted raw_hex i pre then Witness_signed else Process_asserted)) \<and>
     (\<forall>v. Located v \<in> set (er_claimed st) \<longleftrightarrow> (\<exists>i<length entries. v = JInt (int i) \<and> naming i pre \<noteq> []))"

lemma naming_snoc:
  "naming i (pre @ [env]) = naming i pre @ (if subject_seq env = JInt (int i) then [env] else [])"
  by (simp add: naming_def)

lemma located_cases:
  obtains "located entries v = None" "\<forall>i<length entries. v \<noteq> JInt (int i)"
  | i where "i < length entries" "v = JInt (int i)" "located entries v = Some (entries ! i)"
proof (cases "\<exists>i<length entries. v = JInt (int i)")
  case True
  then show thesis using that(2) by (auto simp: located_def)
next
  case False
  have "located entries v = None"
  proof (cases v)
    case (JInt i)
    have "\<not> (0 \<le> i \<and> i < int (length entries))"
    proof
      assume "0 \<le> i \<and> i < int (length entries)"
      then have "nat i < length entries" "v = JInt (int (nat i))" using JInt by auto
      then show False using False by blast
    qed
    then show ?thesis by (simp add: located_def JInt)
  qed (simp_all add: located_def)
  then show thesis using that(1) False by blast
qed

lemma naming_snoc_other: "subject_seq env \<noteq> JInt (int i) \<Longrightarrow> naming i (pre @ [env]) = naming i pre"
  by (simp add: naming_snoc)

lemma clean_snoc_other:
  "subject_seq env \<noteq> JInt (int i) \<Longrightarrow>
     clean lib entries recomputed trusted raw_hex i (pre @ [env]) = clean lib entries recomputed trusted raw_hex i pre"
  by (simp add: clean_def naming_snoc)

lemma envelope_step_inv:
  assumes step: "envelope_step lib entries recomputed trusted raw_hex (index, env) st = Inr st'"
    and inv: "envelope_inv lib entries recomputed trusted raw_hex pre st" and num: "numbered entries"
  shows "envelope_inv lib entries recomputed trusted raw_hex (pre @ [env]) st'"
proof (cases rule: located_cases [of entries "subject_seq env"])
  case 1
  then have "er_states st' = er_states st"
    and "\<And>v. Located v \<in> set (er_claimed st') \<longleftrightarrow> Located v \<in> set (er_claimed st)"
    using step by (auto simp: envelope_step_def Let_def split: if_splits)
  moreover have "\<forall>i<length entries. naming i (pre @ [env]) = naming i pre \<and>
      clean lib entries recomputed trusted raw_hex i (pre @ [env]) = clean lib entries recomputed trusted raw_hex i pre"
    using 1(2) by (simp add: naming_snoc_other clean_snoc_other)
  ultimately show ?thesis using inv unfolding envelope_inv_def by (simp cong: conj_cong)
next
  case (2 i)
  have seq: "get (entries ! i) ''seq'' = JInt (int i)" using num 2(1) by (simp add: numbered_def)
  then have sub: "subscript (entries ! i) ''seq'' = Inr (JInt (int i))"
    using get_not_null [of "entries ! i" "''seq''"] by (auto simp: subscript_def get_def has_key_def)
  have claimed: "is_claimed (Located (JInt (int i))) (er_claimed st) = Inr (naming i pre \<noteq> [])"
  proof -
    have L: "Located v \<in> set (er_claimed st) \<longleftrightarrow> (\<exists>i<length entries. v = JInt (int i) \<and> naming i pre \<noteq> [])" for v
      using inv unfolding envelope_inv_def by blast
    have "list_ex (\<lambda>k. case k of Located w \<Rightarrow> py_eq (JInt (int i)) w | Unlocated n \<Rightarrow> False) (er_claimed st)
        \<longleftrightarrow> (\<exists>w. Located w \<in> set (er_claimed st) \<and> py_eq (JInt (int i)) w)"
      unfolding list_ex_iff by (metis (no_types, lifting) claim_key.exhaust claim_key.simps(5,6))
    also have "\<dots> \<longleftrightarrow> naming i pre \<noteq> []" unfolding L using 2(1) by auto
    finally show ?thesis by (simp add: is_claimed_def hashable_def)
  qed
  have other: "map_of (AList.update (str_nat i) x m) (str_nat j) = (if j = i then Some x else map_of m (str_nat j))"
    for x :: env_state and m j
    using str_nat_inj by (auto simp: AList.update_conv')
  show ?thesis
  proof (cases "naming i pre = []")
    case False
    then have st': "er_states st' = AList.update (str_nat i) Process_asserted (er_states st)" "er_claimed st' = er_claimed st"
      using step 2 seq sub claimed by (auto simp: envelope_step_def Let_def)
    have "\<not> clean lib entries recomputed trusted raw_hex i (pre @ [env])" using False 2(2) by (simp add: clean_def naming_snoc)
    then show ?thesis using inv st' 2 False
      by (auto simp: envelope_inv_def other clean_snoc_other naming_snoc)
  next
    case True
    then obtain reasons where j: "judge_envelope lib env (Some (entries ! i)) recomputed trusted raw_hex = Inr reasons"
      using step 2 seq sub claimed by (cases "judge_envelope lib env (Some (entries ! i)) recomputed trusted raw_hex")
        (auto simp: envelope_step_def Let_def)
    have st': "er_claimed st' = er_claimed st @ [Located (JInt (int i))] \<and>
        er_states st' = (if reasons = [] then AList.update (str_nat i) Witness_signed (er_states st) else er_states st)"
      using step 2 seq sub claimed True j by (cases "reasons = []") (auto simp: envelope_step_def Let_def)
    have "clean lib entries recomputed trusted raw_hex i (pre @ [env]) \<longleftrightarrow> reasons = []"
      using True 2(2) j by (simp add: clean_def naming_snoc)
    then have now: "clean lib entries recomputed trusted raw_hex j (pre @ [env]) \<longleftrightarrow>
        (if j = i then reasons = [] else clean lib entries recomputed trusted raw_hex j pre)" for j
      using 2(2) by (simp add: clean_snoc_other)
    have "\<not> clean lib entries recomputed trusted raw_hex i pre" using True by (simp add: clean_def)
    then show ?thesis using inv st' 2 True
      by (auto simp: envelope_inv_def other now naming_snoc)
  qed
qed


lemma envelope_loop_inv:
  "loop (envelope_step lib entries recomputed trusted raw_hex) (enumerate_from k envs) st = Inr st' \<Longrightarrow>
     envelope_inv lib entries recomputed trusted raw_hex pre st \<Longrightarrow> numbered entries \<Longrightarrow>
     envelope_inv lib entries recomputed trusted raw_hex (pre @ envs) st'"
proof (induction envs arbitrary: k st pre)
  case (Cons env envs)
  then obtain st1 where "envelope_step lib entries recomputed trusted raw_hex (k, env) st = Inr st1"
    and rest: "loop (envelope_step lib entries recomputed trusted raw_hex) (enumerate_from (Suc k) envs) st1 = Inr st'" by auto
  from envelope_step_inv [OF this(1) Cons.prems(2,3)] Cons.IH [OF rest] Cons.prems(3)
  show ?case by fastforce
qed simp

lemma fresh_run_inv: "envelope_inv lib entries recomputed trusted raw_hex [] (fresh_run entries)"
proof -
  have "map_of (map (\<lambda>i. (str_nat i, Process_asserted)) ns) (str_nat i) = Some Process_asserted" if "i \<in> set ns" for i ns
    using that str_nat_inj by (induction ns) auto
  then show ?thesis by (simp add: envelope_inv_def fresh_run_def clean_def naming_def)
qed

section \<open>Properties\<close>

text \<open>C15: which entries are witness-signed. In a bundle whose entries carry their positions, and whose
  envelopes are a list, an entry is reported witness-signed exactly when one envelope, and only one,
  names its position and that envelope passes every check against the entry; every other entry is
  reported process-asserted.\<close>

theorem witness_signed_iff:
  assumes "verify_envelopes lib bndl witness_keys raw_hex = Inr run" and "entries_of bndl = Inr entries"
    and "entry_hashes (el_bundle lib) entries = Inr recomputed"
    and "get bndl ''envelopes'' = JArr envs" and "load_trust_set lib witness_keys = Inr trusted"
    and "numbered entries" and "i < length entries"
  shows "map_of (er_states run) (str_nat i) =
     Some (if \<exists>env. naming i envs = [env] \<and> judge_envelope lib env (Some (entries ! i)) recomputed trusted raw_hex = Inr []
           then Witness_signed else Process_asserted)"
proof -
  have "loop (envelope_step lib entries recomputed trusted raw_hex) (enumerate_from 0 envs) (fresh_run entries) = Inr run"
    using assms(1-5) by (simp add: verify_envelopes_def)
  from envelope_loop_inv [OF this fresh_run_inv assms(6)] show ?thesis
    using assms(7) by (simp add: envelope_inv_def clean_def)
qed

text \<open>What passing every check means. An envelope is judged without a failure exactly when it is an
  object of version 1 and the known type with no added member, its received bytes (if any) are
  canonical, its subject matches the located entry, and its signature over the canonical bytes of the
  envelope without \<open>sig\<close> verifies under the trusted key that its witness names.\<close>

theorem judged_clean_iff:
  "judge_envelope lib env found recomputed trusted raw_hex = Inr [] \<longleftrightarrow>
     is_dict env \<and> (raw_hex = JNull \<or> canonical_bytes lib raw_hex) \<and>
     py_eq (get env ''v'') (JInt 1) \<and> get env ''typ'' = JStr TYP \<and> \<not> added_members env \<and>
     subject_ok (get env ''subject'') found recomputed (allowed_subject (get env ''subject'')) = Inr True \<and>
     (\<exists>preimage kid key sig. bl_jcs (el_bundle lib) (unsigned env) = Inr preimage \<and>
        get (get env ''witness'') ''kid'' = JStr kid \<and> get (get env ''witness'') ''alg'' = JStr ''EdDSA'' \<and>
        map_of trusted kid = Some key \<and> fromhex (get env ''sig'') = Inr sig \<and> el_ed25519 lib key sig preimage)"
  by (auto simp: judge_envelope_def Let_def witness_key_def signature_ok_def split: sum.splits if_splits option.splits json.splits)


section \<open>One entry, one envelope\<close>

definition sample_env_lib :: envelope_lib where
  "sample_env_lib = \<lparr>el_bundle = sample_bundle_lib, el_ed25519 = (\<lambda>k s m. k = [1] \<and> s = [2]), el_valid_key = (\<lambda>k. True),
     el_loads = (\<lambda>b. None), el_str = (\<lambda>v. '''')\<rparr>"

definition observed_entry :: pyval where
  "observed_entry = JObj [(''seq'', JInt 0), (''hash'', JStr ''''), (''event'', JStr ''spawn''), (''chain_id'', JStr ''x''),
     (''node'', JStr ''n'')]"

definition sample_envelope :: pyval where
  "sample_envelope = JObj [(''v'', JInt 1), (''typ'', JStr TYP),
     (''subject'', JObj [(''chain_id'', JStr ''x''), (''node'', JStr ''n''), (''seq'', JInt 0), (''entry_hash'', JStr ''''),
        (''event'', JStr ''spawn'')]),
     (''witness'', JObj [(''kid'', JStr ''w''), (''alg'', JStr ''EdDSA'')]), (''sig'', JStr ''02'')]"

definition enveloped_bundle :: pyval where
  "enveloped_bundle = JObj [(''entries'', JArr [observed_entry]), (''envelopes'', JArr [sample_envelope])]"

definition sample_witness_keys :: pyval where
  "sample_witness_keys = JArr [JObj [(''kid'', JStr ''w''), (''alg'', JStr ''EdDSA''), (''public_key_hex'', JStr ''01'')]]"

lemma sample_trusted: "load_trust_set sample_env_lib sample_witness_keys = Inr [(''w'', [1])]"
  by (simp add: load_trust_set_def sample_witness_keys_def trust_row_def mget_def get_def subscript_def hex_value_def
      ascii_space_def sample_env_lib_def Let_def del: bind_sum_Inr)

lemma sample_hash: "entry_hashes (el_bundle sample_env_lib) [observed_entry] = Inr ['''']"
  by (simp add: entry_hashes_def entry_hash_def items_def observed_entry_def GENESIS_def sample_bundle_lib_def sample_env_lib_def
      hexdigest_def ascii_def list_all_iff del: bind_sum_Inr)

lemma sample_judged:
  "judge_envelope sample_env_lib sample_envelope (Some observed_entry) [''''] [(''w'', [1])] JNull = Inr []"
  unfolding judged_clean_iff
  by (auto simp: sample_envelope_def observed_entry_def get_def added_members_def allowed_subject_def SUBJECT_BY_EVENT_def
      SUBJECT_SPAWN_def keys_of_def ENVELOPE_MEMBERS_def OBSERVED_MEMBERS_def WITNESS_MEMBERS_def subject_ok_def
      is_int_value_def subscript_def index_list_def sample_env_lib_def sample_bundle_lib_def hex_value_def ascii_space_def Let_def)

lemma sample_run: "\<exists>run. verify_envelopes sample_env_lib enveloped_bundle sample_witness_keys JNull = Inr run"
proof -
  have e: "entries_of enveloped_bundle = Inr [observed_entry]" "get enveloped_bundle ''envelopes'' = JArr [sample_envelope]"
    by (simp_all add: entries_of_def mget_or_def enveloped_bundle_def has_key_def get_def)
  have l: "located [observed_entry] (subject_seq sample_envelope) = Some observed_entry" "get observed_entry ''seq'' = JInt 0"
    "subscript observed_entry ''seq'' = Inr (JInt 0)" "observed_result sample_envelope = Inr JNull"
    by (simp_all add: sample_envelope_def get_def located_def observed_entry_def subscript_def observed_result_def)
  have "\<exists>run. envelope_step sample_env_lib [observed_entry] [''''] [(''w'', [1])] JNull (0, sample_envelope)
      (fresh_run [observed_entry]) = Inr run"
    using l sample_judged by (simp add: envelope_step_def is_claimed_def hashable_def fresh_run_def Let_def del: bind_sum_Inr)
  then show ?thesis
    using e sample_hash sample_trusted by (auto simp: verify_envelopes_def Let_def simp del: bind_sum_Inr)
qed

theorem witness_signed_iff_witness:
  "\<exists>run. verify_envelopes sample_env_lib enveloped_bundle sample_witness_keys JNull = Inr run \<and>
     map_of (er_states run) (str_nat 0) = Some Witness_signed"
proof -
  obtain run where run: "verify_envelopes sample_env_lib enveloped_bundle sample_witness_keys JNull = Inr run"
    using sample_run by blast
  have "entries_of enveloped_bundle = Inr [observed_entry]" "get enveloped_bundle ''envelopes'' = JArr [sample_envelope]"
    by (simp_all add: entries_of_def mget_or_def enveloped_bundle_def has_key_def get_def)
  from witness_signed_iff [OF run this(1) sample_hash this(2) sample_trusted, of 0]
  have "map_of (er_states run) (str_nat 0) =
     Some (if \<exists>env. naming 0 [sample_envelope] = [env] \<and>
        judge_envelope sample_env_lib env (Some ([observed_entry] ! 0)) [''''] [(''w'', [1])] JNull = Inr []
           then Witness_signed else Process_asserted)"
    by (simp add: numbered_def observed_entry_def get_def)
  moreover have "naming 0 [sample_envelope] = [sample_envelope]" by (simp add: naming_def sample_envelope_def get_def)
  ultimately show ?thesis using run sample_judged by auto
qed

end
