(* ===== verification/Gateway_Canonical.thy ===== *)
theory Gateway_Canonical
  imports Jcs Codec Python_Values
begin

text \<open>
  The serialisation half of \<open>interop/mcp-audit-gateway-v0.6-cleanroom-a0f14a0/recompute.py\<close>: compact
  JSON text, the tagged canonical form of a value, the tuple array of an audit record, and the checks
  of one published vector. Strings are code points, lone surrogates included. Parameters: SHA-256 and
  the text of a floating point number. A reported check is its kind and its status.
\<close>

record gateway_lib =
  gl_sha256 :: "byte list \<Rightarrow> byte list"
  gl_float :: "rat \<Rightarrow> cp list"

datatype gw_error = Canon_error | Py py_error | Not_modelled

definition py :: "py_error + 'a \<Rightarrow> gw_error + 'a" where
  "py x = (case x of Inl e \<Rightarrow> Inl (Py e) | Inr y \<Rightarrow> Inr y)"

lemma py_Inr [simp]: "py m = Inr x \<longleftrightarrow> m = Inr x"
  by (simp add: py_def split: sum.splits)

section \<open>Serialisation\<close>

text \<open>\<open>json.dumps(value, separators=(",", ":"), ensure_ascii=False)\<close>: the escapes are those of the
  canonicaliser of \<open>Jcs\<close>, members stay in insertion order.\<close>

fun compact :: "gateway_lib \<Rightarrow> jval \<Rightarrow> cp list" where
  "compact lib JNull = cps ''null''"
| "compact lib (JBool b) = (if b then cps ''true'' else cps ''false'')"
| "compact lib (JInt i) = str_int i"
| "compact lib (JFloat r) = gl_float lib r"
| "compact lib (JStr s) = jcs_str s"
| "compact lib (JArr xs) = cps ''['' @ join (cps '','') (map (compact lib) xs) @ cps '']''"
| "compact lib (JObj ms) =
     cps ''{'' @ join (cps '','') (map (\<lambda>(k, v). jcs_str k @ cps '':'' @ compact lib v) ms) @ cps ''}''"

fun sha256_hex :: "gateway_lib \<Rightarrow> jval \<Rightarrow> gw_error + cp list" where
  "sha256_hex lib (JStr s) =
     (case encode_utf8 s of Inl e \<Rightarrow> Inl (Py Unicode_error) | Inr b \<Rightarrow> Inr (cps (hexdigest (gl_sha256 lib b))))"
| "sha256_hex lib _ = Inl (Py Type_error)"

definition code_units :: "cp list \<Rightarrow> nat list" where
  "code_units s = concat (map utf16_units s)"

definition has_lone_surrogate :: "cp list \<Rightarrow> bool" where
  "has_lone_surrogate s = list_ex surrogate s"

definition SAFE_MAX :: int where
  "SAFE_MAX = 2 ^ 53 - 1"

text \<open>\<open>sorted(v.keys(), key=utf16_key)\<close>, each name with what the recursion gives for its value\<close>

definition by_units :: "(cp list \<times> 'a) list \<Rightarrow> (cp list \<times> 'a) list" where
  "by_units ms = sort_key (\<lambda>kv. code_units (fst kv)) ms"

fun canonicalize_value :: "jval \<Rightarrow> gw_error + jval" where
  "canonicalize_value JNull = Inr JNull"
| "canonicalize_value (JBool b) = Inr (JBool b)"
| "canonicalize_value (JInt i) = (if \<not> (- SAFE_MAX \<le> i \<and> i \<le> SAFE_MAX) then Inl Canon_error else Inr (JInt i))"
| "canonicalize_value (JFloat r) = Inl Canon_error"
| "canonicalize_value (JStr s) = (if has_lone_surrogate s then Inl Canon_error else Inr (JStr s))"
| "canonicalize_value (JArr xs) =
     bind_sum (traverse id (map canonicalize_value xs)) (\<lambda>ys. Inr (JArr [JStr (cps ''L''), JArr ys]))"
| "canonicalize_value (JObj ms) =
     bind_sum (traverse (\<lambda>(k, r). if has_lone_surrogate k then Inl Canon_error
                                   else bind_sum r (\<lambda>v. Inr (JArr [JStr k, v])))
                (by_units (map (\<lambda>(k, v). (k, canonicalize_value v)) ms)))
       (\<lambda>ps. Inr (JArr [JStr (cps ''M''), JArr ps]))"

section \<open>Tuple arrays\<close>

text \<open>\<open>rec.get(f, None)\<close> for a JSON value \<open>f\<close>: only a string can be a member name.\<close>

definition field :: "jval \<Rightarrow> jval \<Rightarrow> py_error + jval" where
  "field rec f =
     (if \<not> is_dict rec then Inl Attribute_error
      else if \<not> hashable f then Inl Type_error
      else Inr (case f of JStr k \<Rightarrow> get rec k | _ \<Rightarrow> JNull))"

definition field_pair :: "jval \<Rightarrow> jval \<Rightarrow> gw_error + jval" where
  "field_pair rec f = bind_sum (py (field rec f)) (\<lambda>v. Inr (JArr [f, v]))"

definition optional_pair :: "jval \<Rightarrow> string \<Rightarrow> jval list" where
  "optional_pair rec k = (if get rec (cps k) \<noteq> JNull then [JArr [JStr (cps k), get rec (cps k)]] else [])"

definition record_tuple_array :: "jval \<Rightarrow> jval list \<Rightarrow> gw_error + jval" where
  "record_tuple_array rec field_order =
     bind_sum (traverse (field_pair rec) (filter (\<lambda>f. f \<noteq> JStr (cps ''previousHash'')) field_order)) (\<lambda>head.
     if \<not> is_dict rec then Inl (Py Attribute_error)
     else
       bind_sum (if get rec (cps ''aiInvocation'') \<noteq> JNull
                 then bind_sum (canonicalize_value (get rec (cps ''aiInvocation''))) (\<lambda>v. Inr [JArr [JStr (cps ''aiInvocation''), v]])
                 else Inr []) (\<lambda>ai.
         Inr (JArr (head @ optional_pair rec ''decisionContextDigest''
                    @ [JArr [JStr (cps ''previousHash''), get rec (cps ''previousHash'')]]
                    @ optional_pair rec ''extensionsDigest'' @ ai @ optional_pair rec ''parties''))))"

definition checkpoint_tuple_array :: "jval \<Rightarrow> jval list \<Rightarrow> gw_error + jval" where
  "checkpoint_tuple_array rec field_order =
     bind_sum (traverse (field_pair rec) field_order) (\<lambda>pairs.
       if \<not> is_dict rec then Inl (Py Attribute_error) else Inr (JArr (pairs @ optional_pair rec ''parties'')))"

section \<open>Checks of one vector\<close>

datatype gw_status = PASS | FAIL | DIVERGE | UNSPECIFIED | NOT_CHECKED

datatype gw_check = Canonical_bytes | Sha256_canonical | Record_hash | Reserialized | Genesis_link | Link
  | Canonical_hashes_match | Chain_hashes_differ | Mutation | Canonical_form | Digest | Derives | Rejects | No_input
  | Low_surrogate | Rotation | Break_bytes | Break_sha256 | Break_link | Truncation | Truncation_code
  | Complete_chain | Regression | Regression_code | Count_mismatch

type_synonym gw_result = "gw_check \<times> gw_status"

definition verdict :: "gw_check \<Rightarrow> bool \<Rightarrow> gw_result" where
  "verdict c ok = (c, if ok then PASS else FAIL)"

text \<open>\<open>try: ... except CanonError: FAIL\<close>\<close>

definition or_canon_fail :: "gw_check \<Rightarrow> gw_error + bool \<Rightarrow> gw_error + gw_result list" where
  "or_canon_fail c m =
     (case m of Inl Canon_error \<Rightarrow> Inr [(c, FAIL)] | Inl e \<Rightarrow> Inl e | Inr ok \<Rightarrow> Inr [verdict c ok])"

type_synonym builder = "jval \<Rightarrow> jval list \<Rightarrow> gw_error + jval"

definition check_record_vector :: "gateway_lib \<Rightarrow> jval \<Rightarrow> jval list \<Rightarrow> builder \<Rightarrow> gw_error + gw_result list" where
  "check_record_vector lib entry field_order build =
     (if \<not> is_dict entry \<or> \<not> has_key entry (cps ''record'') then Inr []
      else
        let rec = get entry (cps ''record'') in
        bind_sum (if has_key entry (cps ''canonical'')
                  then or_canon_fail Canonical_bytes
                         (bind_sum (build rec field_order) (\<lambda>t. Inr (get entry (cps ''canonical'') = JStr (compact lib t))))
                  else Inr []) (\<lambda>r1.
        bind_sum (if has_key entry (cps ''sha256_canonical'')
                  then or_canon_fail Sha256_canonical
                         (bind_sum (build rec field_order) (\<lambda>t.
                          bind_sum (sha256_hex lib (JStr (compact lib t))) (\<lambda>h.
                            Inr (get entry (cps ''sha256_canonical'') = JStr h))))
                  else Inr []) (\<lambda>r2.
        bind_sum (if has_key entry (cps ''full_record_json'') \<and> has_key entry (cps ''record_hash'')
                  then bind_sum (sha256_hex lib (get entry (cps ''full_record_json''))) (\<lambda>h.
                         Inr [verdict Record_hash (get entry (cps ''record_hash'') = JStr h)])
                  else Inr []) (\<lambda>r3.
          Inr (r1 @ r2 @ r3)))))"

text \<open>The record's members in the stated key order, then the others in their own\<close>

definition reorder :: "jval \<Rightarrow> jval list \<Rightarrow> jval" where
  "reorder rec chain_key_order =
     (let named = concat (map (\<lambda>k. case k of JStr s \<Rightarrow> if has_key rec s then [s] else [] | _ \<Rightarrow> []) chain_key_order);
          first = rev (remdups (rev named))
      in JObj (map (\<lambda>k. (k, get rec k)) first @ filter (\<lambda>(k, v). k \<notin> set first) (members rec)))"

definition check_chain_json_diagnostic :: "gateway_lib \<Rightarrow> jval \<Rightarrow> jval list \<Rightarrow> gw_error + gw_result list" where
  "check_chain_json_diagnostic lib entry chain_key_order =
     (if \<not> is_dict entry \<or> \<not> has_key entry (cps ''full_record_json'') then Inr []
      else
        let rec = get entry (cps ''record'') in
        if rec = JNull then Inr []
        else if \<not> is_dict rec then Inl Not_modelled
        else if \<not> list_all hashable chain_key_order then Inl (Py Type_error)
        else Inr [(Reserialized,
              if get entry (cps ''full_record_json'') = JStr (compact lib (reorder rec chain_key_order)) then PASS else DIVERGE)])"

section \<open>Linkage\<close>

definition link_result :: "nat \<Rightarrow> jval \<Rightarrow> jval \<Rightarrow> jval \<Rightarrow> gw_result" where
  "link_result i genesis_seed prev_hash got =
     (if i = 0 then
        (Genesis_link, if genesis_seed = JNull then UNSPECIFIED else if py_eq got genesis_seed then PASS else FAIL)
      else (Link, if prev_hash = JNull then UNSPECIFIED else if py_eq got prev_hash then PASS else FAIL))"

fun linkage_from :: "jval \<Rightarrow> nat \<Rightarrow> jval \<Rightarrow> jval list \<Rightarrow> gw_error + gw_result list" where
  "linkage_from genesis_seed i prev_hash [] = Inr []"
| "linkage_from genesis_seed i prev_hash (entry # rest) =
     (let rec = get entry (cps ''record'') in
      if rec = JNull then linkage_from genesis_seed (Suc i) prev_hash rest
      else bind_sum (py (mget rec (cps ''previousHash''))) (\<lambda>got.
           bind_sum (linkage_from genesis_seed (Suc i) (get entry (cps ''record_hash'')) rest) (\<lambda>rs.
             Inr (link_result i genesis_seed prev_hash got # rs))))"

definition check_linkage :: "jval list \<Rightarrow> jval \<Rightarrow> gw_error + gw_result list" where
  "check_linkage records genesis_seed = linkage_from genesis_seed 0 JNull records"


section \<open>The canonical form as a specification\<close>

fun representable :: "jval \<Rightarrow> bool" where
  "representable (JInt i) \<longleftrightarrow> \<bar>i\<bar> < 2 ^ 53"
| "representable (JFloat r) \<longleftrightarrow> False"
| "representable (JStr s) \<longleftrightarrow> list_all (\<lambda>c. \<not> surrogate c) s"
| "representable (JArr xs) \<longleftrightarrow> list_all representable xs"
| "representable (JObj ms) \<longleftrightarrow> list_all (\<lambda>(k, v). list_all (\<lambda>c. \<not> surrogate c) k \<and> representable v) ms"
| "representable v \<longleftrightarrow> True"

fun tagged :: "jval \<Rightarrow> jval" where
  "tagged (JArr xs) = JArr [JStr (cps ''L''), JArr (map tagged xs)]"
| "tagged (JObj ms) =
     JArr [JStr (cps ''M''), JArr (map (\<lambda>(k, v). JArr [JStr k, v]) (by_units (map (\<lambda>(k, v). (k, tagged v)) ms)))]"
| "tagged v = v"

text \<open>A value with the members of every object in code-unit order: values that differ only in the order
  of members have the same one.\<close>

fun ordered :: "jval \<Rightarrow> jval" where
  "ordered (JArr xs) = JArr (map ordered xs)"
| "ordered (JObj ms) = JObj (by_units (map (\<lambda>(k, v). (k, ordered v)) ms))"
| "ordered v = v"

lemma surrogate_free: "has_lone_surrogate s \<longleftrightarrow> \<not> list_all (\<lambda>c. \<not> surrogate c) s"
  by (simp add: has_lone_surrogate_def list_ex_iff list_all_iff)

lemma by_units_map: "by_units (map (\<lambda>(k, v). (k, g v)) ms) = map (\<lambda>(k, v). (k, g v)) (by_units ms)"
  unfolding by_units_def sort_key_map by (simp add: comp_def case_prod_beta)

lemma set_by_units [simp]: "set (by_units ms) = set ms"
  by (simp add: by_units_def)

lemma traverse_all:
  "(\<And>x. x \<in> set xs \<Longrightarrow> f x = (if P x then Inr (g x) else Inl e)) \<Longrightarrow>
     traverse f xs = (if list_all P xs then Inr (map g xs) else Inl e)"
  by (induction xs) auto

lemma canonicalize_value_eq: "canonicalize_value v = (if representable v then Inr (tagged v) else Inl Canon_error)"
proof (induction v rule: canonicalize_value.induct)
  case (3 i)
  then show ?case by (auto simp: SAFE_MAX_def)
next
  case (5 s)
  then show ?case by (simp add: surrogate_free)
next
  case (6 xs)
  have "traverse id (map canonicalize_value xs) = traverse canonicalize_value xs" by (simp add: traverse_map)
  also have "\<dots> = (if list_all representable xs then Inr (map tagged xs) else Inl Canon_error)"
    by (rule traverse_all) (rule "6.IH")
  finally show ?case by simp
next
  case (7 ms)
  let ?f = "\<lambda>(k, r). if has_lone_surrogate k then Inl Canon_error else bind_sum r (\<lambda>v. Inr (JArr [JStr k, v]))"
  have "traverse ?f (by_units (map (\<lambda>(k, v). (k, canonicalize_value v)) ms))
      = traverse (\<lambda>(k, v). ?f (k, canonicalize_value v)) (by_units ms)"
    unfolding by_units_map traverse_map by (simp add: case_prod_beta)
  also have "\<dots> = (if list_all (\<lambda>(k, v). list_all (\<lambda>c. \<not> surrogate c) k \<and> representable v) (by_units ms)
      then Inr (map (\<lambda>(k, v). JArr [JStr k, tagged v]) (by_units ms)) else Inl Canon_error)"
  proof (rule traverse_all)
    fix kv assume "kv \<in> set (by_units ms)"
    then have "canonicalize_value (snd kv) = (if representable (snd kv) then Inr (tagged (snd kv)) else Inl Canon_error)"
      by (intro "7.IH" [of kv]) (auto simp: prod_eq_iff)
    then show "(case kv of (k, v) \<Rightarrow> ?f (k, canonicalize_value v)) =
        (if case kv of (k, v) \<Rightarrow> list_all (\<lambda>c. \<not> surrogate c) k \<and> representable v
         then Inr (case kv of (k, v) \<Rightarrow> JArr [JStr k, tagged v]) else Inl Canon_error)"
      by (auto simp: surrogate_free split: prod.splits)
  qed
  finally show ?case
    by (auto simp: by_units_map list_all_iff comp_def case_prod_beta)
qed auto

lemma map_eq_by:
  "map f xs = map f ys \<Longrightarrow> (\<And>x y. x \<in> set xs \<Longrightarrow> y \<in> set ys \<Longrightarrow> f x = f y \<Longrightarrow> g x = g y) \<Longrightarrow> map g xs = map g ys"
proof (induction xs arbitrary: ys)
  case (Cons x xs)
  then obtain y zs where "ys = y # zs" by (cases ys) auto
  then show ?case using Cons by auto
qed simp

lemma tagged_ordered: "tagged v = tagged w \<longleftrightarrow> ordered v = ordered w"
proof (induction v arbitrary: w)
  case (JArr xs)
  show ?case
  proof (cases w)
    case (JArr ys)
    have "map tagged xs = map tagged ys \<longleftrightarrow> map ordered xs = map ordered ys"
      using map_eq_by [of tagged xs ys ordered] map_eq_by [of ordered xs ys tagged] JArr.IH by blast
    then show ?thesis using \<open>w = JArr ys\<close> by simp
  qed auto
next
  case (JObj ms)
  show ?case
  proof (cases w)
    case (JObj ns)
    let ?t = "\<lambda>(k, v). (k, tagged v)" and ?o = "\<lambda>(k, v). (k, ordered v)"
    have step: "?t x = ?t y \<longleftrightarrow> ?o x = ?o y" if "x \<in> set (by_units ms)" for x y
      using JObj.IH [of x "snd x" "snd y"] that by (cases x; cases y) auto
    have "map ?t (by_units ms) = map ?t (by_units ns) \<longleftrightarrow> map ?o (by_units ms) = map ?o (by_units ns)"
      using map_eq_by [of ?t "by_units ms" "by_units ns" ?o] map_eq_by [of ?o "by_units ms" "by_units ns" ?t] step by blast
    moreover have "map (\<lambda>(k, v). JArr [JStr k, v]) as = map (\<lambda>(k, v). JArr [JStr k, v]) bs \<longleftrightarrow> as = bs" for as bs :: "(cp list \<times> jval) list"
      by (rule inj_map_eq_map) (auto simp: inj_def)
    ultimately show ?thesis using \<open>w = JObj ns\<close> by (simp add: by_units_map del: map_map)
  qed auto
qed (case_tac w; simp)+

lemma tagged_accepted: "representable v \<Longrightarrow> accepted (tagged v)"
proof (induction v rule: tagged.induct)
  case (2 ms)
  then show ?case by (fastforce simp: list_all_iff by_units_map)
qed (auto simp: list_all_iff)

lemma compact_tagged: "representable v \<Longrightarrow> compact lib (tagged v) = ser0 (tagged v)"
proof (induction v rule: tagged.induct)
  case (1 xs)
  then have "map (compact lib) (map tagged xs) = map ser0 (map tagged xs)" by (auto simp: list_all_iff)
  then show ?case by (simp only: tagged.simps compact.simps ser0.simps list.map)
next
  case (2 ms)
  let ?ps = "map (\<lambda>(k, v). JArr [JStr k, v]) (by_units (map (\<lambda>(k, v). (k, tagged v)) ms))"
  have "compact lib x = ser0 x" if "x \<in> set ?ps" for x
    using that 2 by (fastforce simp: list_all_iff by_units_map)
  then have "map (compact lib) ?ps = map ser0 ?ps" by (rule map_cong [OF refl])
  then show ?case by (simp only: tagged.simps compact.simps ser0.simps list.map)
qed auto

section \<open>What a tuple array determines\<close>

lemma traverse_all2: "traverse f xs = Inr ys \<longleftrightarrow> list_all2 (\<lambda>x y. f x = Inr y) xs ys"
proof (induction xs arbitrary: ys)
  case (Cons x xs)
  then show ?case by (cases ys) auto
qed auto

lemma field_pairs_inj:
  assumes "list_all2 (\<lambda>f p. field_pair rec f = Inr p) fo ps" and "list_all2 (\<lambda>f p. field_pair rec' f = Inr p) fo ps"
    and "JStr k \<in> set fo"
  shows "get rec k = get rec' k"
  using assms
proof (induction fo arbitrary: ps)
  case (Cons f fo)
  then show ?case by (cases ps) (auto simp: field_pair_def field_def hashable_def split: if_splits)
qed simp

text \<open>An optional pair can be read back from the front of a list that has no pair of its name.\<close>

definition opt :: "cp list \<Rightarrow> jval \<Rightarrow> jval list" where
  "opt k v = (if v \<noteq> JNull then [JArr [JStr k, v]] else [])"

definition lacks :: "cp list \<Rightarrow> jval list \<Rightarrow> bool" where
  "lacks k ps \<longleftrightarrow> (\<forall>v. JArr [JStr k, v] \<notin> set ps)"

lemma lacks_simps [simp]:
  "lacks k []" "lacks k (ps @ qs) \<longleftrightarrow> lacks k ps \<and> lacks k qs"
  "lacks k (JArr [JStr k', v] # ps) \<longleftrightarrow> k \<noteq> k' \<and> lacks k ps" "k \<noteq> k' \<Longrightarrow> lacks k (opt k' v)"
  by (auto simp: lacks_def opt_def)

lemma opt_append_inj:
  "opt k v @ ps = opt k w @ qs \<Longrightarrow> lacks k ps \<Longrightarrow> lacks k qs \<Longrightarrow> v = w \<and> ps = qs"
  by (auto simp: opt_def lacks_def split: if_splits)

lemma optional_pair_opt: "optional_pair rec k = opt (cps k) (get rec (cps k))"
  by (simp add: optional_pair_def opt_def)

definition record_tail :: "jval \<Rightarrow> jval \<Rightarrow> jval list" where
  "record_tail rec ai =
     optional_pair rec ''decisionContextDigest'' @ JArr [JStr (cps ''previousHash''), get rec (cps ''previousHash'')]
     # optional_pair rec ''extensionsDigest'' @ opt (cps ''aiInvocation'') ai @ optional_pair rec ''parties''"

lemma tagged_not_null: "representable v \<Longrightarrow> v \<noteq> JNull \<longleftrightarrow> tagged v \<noteq> JNull"
  by (cases v) auto

lemma record_tuple_arrayE:
  assumes "record_tuple_array rec fo = Inr t"
  obtains ps where "t = JArr (ps @ record_tail rec (tagged (get rec (cps ''aiInvocation''))))"
    "list_all2 (\<lambda>f p. field_pair rec f = Inr p) (filter (\<lambda>f. f \<noteq> JStr (cps ''previousHash'')) fo) ps"
proof -
  obtain ps where ps: "traverse (field_pair rec) (filter (\<lambda>f. f \<noteq> JStr (cps ''previousHash'')) fo) = Inr ps"
    using assms by (auto simp: record_tuple_array_def simp del: list.map)
  let ?ai = "get rec (cps ''aiInvocation'')"
  have "t = JArr (ps @ record_tail rec (tagged ?ai))"
  proof (cases "?ai = JNull")
    case True
    then have "tagged ?ai = JNull" by (simp only: tagged.simps)
    then show ?thesis using assms ps True unfolding record_tuple_array_def record_tail_def opt_def
      by (simp del: list.map split: if_splits)
  next
    case False
    then have "representable ?ai" "t = JArr (ps @ optional_pair rec ''decisionContextDigest''
        @ [JArr [JStr (cps ''previousHash''), get rec (cps ''previousHash'')]]
        @ optional_pair rec ''extensionsDigest'' @ [JArr [JStr (cps ''aiInvocation''), tagged ?ai]] @ optional_pair rec ''parties'')"
      using assms ps unfolding record_tuple_array_def canonicalize_value_eq
      by (simp_all del: list.map split: if_splits)
    then show ?thesis using False tagged_not_null [of ?ai] unfolding record_tail_def opt_def by (simp del: list.map)
  qed
  then show thesis using that ps by (simp add: traverse_all2 del: list.map)
qed

lemma record_tail_inj:
  assumes "record_tail rec ai = record_tail rec' ai'"
  shows "get rec (cps ''decisionContextDigest'') = get rec' (cps ''decisionContextDigest'')"
    and "get rec (cps ''previousHash'') = get rec' (cps ''previousHash'')"
    and "get rec (cps ''extensionsDigest'') = get rec' (cps ''extensionsDigest'')"
    and "ai = ai'" and "get rec (cps ''parties'') = get rec' (cps ''parties'')"
proof -
  let ?o = "\<lambda>rec k. opt (cps k) (get rec (cps k))"
  let ?p = "\<lambda>rec. JArr [JStr (cps ''previousHash''), get rec (cps ''previousHash'')]"
  let ?t3 = "\<lambda>rec ai. opt (cps ''aiInvocation'') ai @ ?o rec ''parties''"
  let ?t2 = "\<lambda>rec ai. ?o rec ''extensionsDigest'' @ ?t3 rec ai"
  have "?o rec ''decisionContextDigest'' @ ?p rec # ?t2 rec ai = ?o rec' ''decisionContextDigest'' @ ?p rec' # ?t2 rec' ai'"
    using assms unfolding record_tail_def optional_pair_opt .
  from opt_append_inj [OF this] have 1: "get rec (cps ''decisionContextDigest'') = get rec' (cps ''decisionContextDigest'')"
    "?p rec # ?t2 rec ai = ?p rec' # ?t2 rec' ai'" by simp_all
  then have 2: "get rec (cps ''previousHash'') = get rec' (cps ''previousHash'')" "?t2 rec ai = ?t2 rec' ai'" by simp_all
  from opt_append_inj [OF 2(2)] have 3: "get rec (cps ''extensionsDigest'') = get rec' (cps ''extensionsDigest'')"
    "?t3 rec ai = ?t3 rec' ai'" by simp_all
  from opt_append_inj [OF 3(2)] have 4: "ai = ai'" "?o rec ''parties'' = ?o rec' ''parties''" by simp_all
  from opt_append_inj [of "cps ''parties''" _ "[]" _ "[]"] 4(2) have "get rec (cps ''parties'') = get rec' (cps ''parties'')"
    by simp
  then show "get rec (cps ''decisionContextDigest'') = get rec' (cps ''decisionContextDigest'')"
    "get rec (cps ''previousHash'') = get rec' (cps ''previousHash'')"
    "get rec (cps ''extensionsDigest'') = get rec' (cps ''extensionsDigest'')"
    "ai = ai'" "get rec (cps ''parties'') = get rec' (cps ''parties'')"
    using 1(1) 2(1) 3(1) 4(1) by blast+
qed

section \<open>Linkage of a chain\<close>

text \<open>What entry \<open>j\<close> of a chain must name as its previous hash: the seed, or the hash published with the
  entry before it.\<close>

definition expected_previous :: "jval \<Rightarrow> jval list \<Rightarrow> nat \<Rightarrow> jval" where
  "expected_previous seed entries j = (if j = 0 then seed else get (entries ! (j - 1)) (cps ''record_hash''))"

definition names_previous :: "jval \<Rightarrow> jval \<Rightarrow> bool" where
  "names_previous want e \<longleftrightarrow> want \<noteq> JNull \<and> py_eq (get (get e (cps ''record'')) (cps ''previousHash'')) want"

fun names_from :: "jval \<Rightarrow> jval list \<Rightarrow> bool" where
  "names_from want [] \<longleftrightarrow> True"
| "names_from want (e # es) \<longleftrightarrow> names_previous want e \<and> names_from (get e (cps ''record_hash'')) es"

lemma names_from_nth:
  "names_from want es \<longleftrightarrow> (\<forall>j<length es. names_previous (expected_previous want es j) (es ! j))"
proof (induction es arbitrary: want)
  case (Cons e es)
  have "expected_previous want (e # es) (Suc j) = expected_previous (get e (cps ''record_hash'')) es j" for j
    by (cases j) (simp_all add: expected_previous_def)
  then show ?case unfolding list.size add_Suc_right All_less_Suc2
    by (simp add: Cons expected_previous_def [of want _ 0])
qed simp

lemma linkage_from_pass:
  "linkage_from seed i prev entries = Inr rs \<Longrightarrow> list_all (\<lambda>e. get e (cps ''record'') \<noteq> JNull) entries \<Longrightarrow>
     list_all (\<lambda>r. snd r = PASS) rs \<longleftrightarrow> names_from (if i = 0 then seed else prev) entries"
proof (induction entries arbitrary: i prev rs)
  case (Cons e es)
  define got where "got = get (get e (cps ''record'')) (cps ''previousHash'')"
  obtain rs' where rest: "linkage_from seed (Suc i) (get e (cps ''record_hash'')) es = Inr rs'"
    and rs: "rs = link_result i seed prev got # rs'"
    using Cons.prems by (auto simp: mget_def Let_def got_def split: if_splits)
  have "snd (link_result i seed prev got) = PASS \<longleftrightarrow> names_previous (if i = 0 then seed else prev) e"
    by (simp add: link_result_def names_previous_def got_def)
  then show ?case using Cons.IH [OF rest] Cons.prems(2) by (simp add: rs)
qed simp

section \<open>Properties\<close>

text \<open>C13: the canonical text identifies the value. For values the canonical form accepts, the compact
  texts of their canonical forms are equal exactly when the values are equal up to the order of
  members: the tags keep lists and objects apart, and no two values share a text.\<close>

theorem canonical_text_identifies_value:
  assumes "canonicalize_value v = Inr x" and "canonicalize_value w = Inr y"
  shows "compact lib x = compact lib y \<longleftrightarrow> ordered v = ordered w"
proof -
  have r: "representable v" "representable w" and x: "x = tagged v" "y = tagged w"
    using assms by (auto simp: canonicalize_value_eq split: if_splits)
  have "compact lib x = compact lib y \<longleftrightarrow> ser0 (tagged v) = ser0 (tagged w)" using r x by (simp add: compact_tagged)
  also have "\<dots> \<longleftrightarrow> tagged v = tagged w"
    using ser0_inj [of "tagged v" "tagged w" "[]" "[]"] tagged_accepted r by (auto simp: stops_def)
  finally show ?thesis by (simp add: tagged_ordered)
qed

text \<open>What the canonical form rejects. A value is rejected, with \<open>CanonError\<close> and nothing else, exactly
  when somewhere in it there is an integer of magnitude \<open>2 ^ 53\<close> or more, a floating point number, or a
  lone surrogate in a string or a member name.\<close>

theorem canonicalize_value_domain:
  "canonicalize_value v = Inl e \<longleftrightarrow> \<not> representable v \<and> e = Canon_error"
  by (auto simp: canonicalize_value_eq)


text \<open>What the canonical bytes of a record cover. If two audit records have the same tuple array, they
  agree on every field of the stated order, on the previous hash, on the decision-context and extension
  digests and on the parties, absent and null being the same; and their invocation blocks are equal up
  to the order of members.\<close>

theorem tuple_array_covers_fields:
  assumes "record_tuple_array rec fo = Inr t" and "record_tuple_array rec' fo = Inr t"
    and "JStr k \<in> set fo \<or> k \<in> cps ` {''previousHash'', ''decisionContextDigest'', ''extensionsDigest'', ''parties''}"
  shows "get rec k = get rec' k \<and> ordered (get rec (cps ''aiInvocation'')) = ordered (get rec' (cps ''aiInvocation''))"
proof -
  let ?fo = "filter (\<lambda>f. f \<noteq> JStr (cps ''previousHash'')) fo" and ?ai = "\<lambda>rec. tagged (get rec (cps ''aiInvocation''))"
  obtain ps where ps: "t = JArr (ps @ record_tail rec (?ai rec))" "list_all2 (\<lambda>f p. field_pair rec f = Inr p) ?fo ps"
    using record_tuple_arrayE [OF assms(1)] .
  obtain qs where qs: "t = JArr (qs @ record_tail rec' (?ai rec'))" "list_all2 (\<lambda>f p. field_pair rec' f = Inr p) ?fo qs"
    using record_tuple_arrayE [OF assms(2)] .
  have "length ps = length qs" using ps(2) qs(2) by (metis list_all2_lengthD)
  then have eq: "ps = qs" "record_tail rec (?ai rec) = record_tail rec' (?ai rec')" using ps(1) qs(1) by auto
  note tail = record_tail_inj [OF eq(2)]
  have "get rec k = get rec' k"
  proof (cases "JStr k \<in> set ?fo")
    case True
    then show ?thesis using field_pairs_inj [OF ps(2)] qs(2) eq(1) by blast
  next
    case False
    then have "k \<in> cps ` {''previousHash'', ''decisionContextDigest'', ''extensionsDigest'', ''parties''}"
      using assms(3) unfolding set_filter by blast
    then show ?thesis using tail by blast
  qed
  then show ?thesis using tail(4) tagged_ordered by blast
qed

text \<open>Linkage. Over entries that all carry a record, every linkage check passes exactly when the first
  record names the genesis seed and each later record names the hash published with the entry before
  it, none of these being absent.\<close>

theorem linkage_passes_iff:
  assumes "check_linkage entries genesis_seed = Inr results" and "list_all (\<lambda>e. get e (cps ''record'') \<noteq> JNull) entries"
  shows "list_all (\<lambda>r. snd r = PASS) results \<longleftrightarrow>
     (\<forall>j<length entries. names_previous (expected_previous genesis_seed entries j) (entries ! j))"
  using linkage_from_pass [of genesis_seed 0 JNull entries results] assms by (simp add: check_linkage_def names_from_nth)

section \<open>Instances\<close>

definition sample_gateway :: gateway_lib where
  "sample_gateway = \<lparr>gl_sha256 = (\<lambda>b. []), gl_float = (\<lambda>r. [])\<rparr>"

definition sample_value :: jval where
  "sample_value = JObj [(cps ''b'', JArr [JInt 1]), (cps ''a'', JNull)]"

definition sample_value' :: jval where
  "sample_value' = JObj [(cps ''a'', JNull), (cps ''b'', JArr [JInt 1])]"

theorem canonical_text_identifies_value_witness:
  "\<exists>x y. canonicalize_value sample_value = Inr x \<and> canonicalize_value sample_value' = Inr y \<and>
     compact sample_gateway x = compact sample_gateway y"
proof -
  have v: "canonicalize_value sample_value = Inr (tagged sample_value)" "canonicalize_value sample_value' = Inr (tagged sample_value')"
    by (simp_all add: canonicalize_value_eq sample_value_def sample_value'_def surrogate_def)
  moreover have "ordered sample_value = ordered sample_value'"
    by (simp add: sample_value_def sample_value'_def by_units_def code_units_def utf16_units_def)
  ultimately show ?thesis using canonical_text_identifies_value [OF v, of sample_gateway] by blast
qed

definition sample_link :: "string \<Rightarrow> string \<Rightarrow> jval" where
  "sample_link prev h = JObj [(cps ''record'', JObj [(cps ''previousHash'', JStr (cps prev))]), (cps ''record_hash'', JStr (cps h))]"

theorem linkage_passes_iff_witness:
  "\<exists>results. check_linkage [sample_link ''s'' ''h1'', sample_link ''h1'' ''h2''] (JStr (cps ''s'')) = Inr results \<and>
     list_all (\<lambda>r. snd r = PASS) results"
proof -
  let ?es = "[sample_link ''s'' ''h1'', sample_link ''h1'' ''h2'']"
  have "\<exists>results. check_linkage ?es (JStr (cps ''s'')) = Inr results"
    by (simp add: check_linkage_def sample_link_def get_def mget_def py_def del: bind_sum_Inr)
  then obtain results where r: "check_linkage ?es (JStr (cps ''s'')) = Inr results" by blast
  moreover have "list_all (\<lambda>e. get e (cps ''record'') \<noteq> JNull) ?es" by (simp add: sample_link_def get_def)
  moreover have "names_previous (expected_previous (JStr (cps ''s'')) ?es j) (?es ! j)" if "j < 2" for j
    using that by (auto simp: less_2_cases_iff names_previous_def expected_previous_def sample_link_def get_def)
  ultimately show ?thesis using linkage_passes_iff [of ?es "JStr (cps ''s'')" results] by auto
qed

theorem tuple_array_covers_fields_witness:
  "get sample_value (cps ''a'') = get sample_value' (cps ''a'')"
proof -
  have "record_tuple_array sample_value [JStr (cps ''a'')] =
      Inr (JArr [JArr [JStr (cps ''a''), JNull], JArr [JStr (cps ''previousHash''), JNull]])"
    "record_tuple_array sample_value' [JStr (cps ''a'')] =
      Inr (JArr [JArr [JStr (cps ''a''), JNull], JArr [JStr (cps ''previousHash''), JNull]])"
    by (simp_all add: record_tuple_array_def sample_value_def sample_value'_def field_pair_def field_def hashable_def get_def
        optional_pair_def py_def del: bind_sum_Inr)
  from tuple_array_covers_fields [OF this, of "cps ''a''"] show ?thesis by simp
qed

end
