(* ===== verification/Gateway_Recompute.thy ===== *)
theory Gateway_Recompute
  imports Gateway_Canonical
begin

text \<open>
  The driver of \<open>interop/mcp-audit-gateway-v0.6-cleanroom-a0f14a0/recompute.py\<close>: from the two parsed
  vector files to the list of checks and the exit status. Reading the files, printing and writing
  \<open>results.json\<close> are left out; a list that the driver indexes is expected to be a list.
\<close>

section \<open>Access\<close>

definition sub :: "jval \<Rightarrow> string \<Rightarrow> gw_error + jval" where
  "sub d k = py (subscript d (cps k))"

definition attr :: "jval \<Rightarrow> string \<Rightarrow> gw_error + jval" where
  "attr d k = py (mget d (cps k))"

definition attr_or_empty :: "jval \<Rightarrow> string \<Rightarrow> gw_error + jval" where
  "attr_or_empty d k = py (mget_or d (cps k) (JObj []))"

definition iter :: "jval \<Rightarrow> gw_error + jval list" where
  "iter v = py (py_iter v)"

definition as_list :: "jval \<Rightarrow> gw_error + jval list" where
  "as_list v = (case v of JArr xs \<Rightarrow> Inr xs | _ \<Rightarrow> Inl Not_modelled)"

fun truthy :: "jval \<Rightarrow> bool" where
  "truthy JNull = False"
| "truthy (JBool b) = b"
| "truthy (JInt i) = (i \<noteq> 0)"
| "truthy (JFloat r) = (r \<noteq> 0)"
| "truthy (JStr s) = (s \<noteq> [])"
| "truthy (JArr xs) = (xs \<noteq> [])"
| "truthy (JObj ms) = (ms \<noteq> [])"

definition has :: "jval \<Rightarrow> string \<Rightarrow> bool" where
  "has d k = has_key d (cps k)"

definition for_each :: "('a \<Rightarrow> gw_error + gw_result list) \<Rightarrow> 'a list \<Rightarrow> gw_error + gw_result list" where
  "for_each f xs = bind_sum (traverse f xs) (\<lambda>rss. Inr (concat rss))"

definition both :: "gw_error + gw_result list \<Rightarrow> gw_error + gw_result list \<Rightarrow> gw_error + gw_result list" where
  "both a b = bind_sum a (\<lambda>xs. bind_sum b (\<lambda>ys. Inr (xs @ ys)))"

section \<open>The canonicalization file\<close>

text \<open>A vector whose label calls \<open>v.get("name", i)\<close>\<close>

definition named_vector :: "gateway_lib \<Rightarrow> jval list \<Rightarrow> builder \<Rightarrow> jval \<Rightarrow> gw_error + gw_result list" where
  "named_vector lib order build v =
     (if is_dict v then check_record_vector lib v order build else Inl (Py Attribute_error))"

definition vectors_block :: "gateway_lib \<Rightarrow> jval list \<Rightarrow> builder \<Rightarrow> jval \<Rightarrow> gw_error + gw_result list" where
  "vectors_block lib order build vs = bind_sum (iter vs) (for_each (named_vector lib order build))"

definition chain_block :: "gateway_lib \<Rightarrow> jval list \<Rightarrow> jval list \<Rightarrow> jval \<Rightarrow> gw_error + gw_result list" where
  "chain_block lib field_order chain_key_order chain =
     bind_sum (bind_sum (sub chain ''records'') iter) (\<lambda>records.
       both (for_each (\<lambda>v. both (check_record_vector lib v field_order record_tuple_array)
                                (check_chain_json_diagnostic lib v chain_key_order)) records)
            (check_linkage records (get chain (cps ''genesis_seed''))))"

definition record_digests :: "gateway_lib \<Rightarrow> jval list \<Rightarrow> jval \<Rightarrow> gw_error + cp list" where
  "record_digests lib field_order entry =
     bind_sum (sub entry ''record'') (\<lambda>rec.
     bind_sum (record_tuple_array rec field_order) (\<lambda>t. sha256_hex lib (JStr (compact lib t))))"

definition dual_hash_block :: "gateway_lib \<Rightarrow> jval list \<Rightarrow> jval list \<Rightarrow> jval \<Rightarrow> gw_error + gw_result list" where
  "dual_hash_block lib field_order chain_key_order dh =
     both (for_each (\<lambda>key. bind_sum (sub dh key) (\<lambda>v.
             both (check_record_vector lib v field_order record_tuple_array) (check_chain_json_diagnostic lib v chain_key_order)))
             [''record_a'', ''record_b''])
       (bind_sum (sub dh ''record_a'') (\<lambda>a. bind_sum (sub dh ''record_b'') (\<lambda>b.
        bind_sum (record_digests lib field_order a) (\<lambda>ca.
        bind_sum (record_digests lib field_order b) (\<lambda>cb.
        bind_sum (bind_sum (sub a ''full_record_json'') (sha256_hex lib)) (\<lambda>ha.
        bind_sum (bind_sum (sub b ''full_record_json'') (sha256_hex lib)) (\<lambda>hb.
        bind_sum (attr_or_empty dh ''assertions'') (\<lambda>asserts.
        bind_sum (attr asserts ''canonical_hashes_match'') (\<lambda>want_c.
        bind_sum (attr asserts ''chain_hashes_differ'') (\<lambda>want_h.
          Inr [verdict Canonical_hashes_match (py_eq (JBool (ca = cb)) want_c),
               verdict Chain_hashes_differ (py_eq (JBool (ha \<noteq> hb)) want_h)]))))))))))"

definition party_block :: "gateway_lib \<Rightarrow> jval list \<Rightarrow> jval \<Rightarrow> gw_error + gw_result list" where
  "party_block lib field_order pa =
     both (bind_sum (sub pa ''vectors'') (vectors_block lib field_order record_tuple_array))
       (bind_sum (sub pa ''chain_with_parties'') (\<lambda>cwp.
        bind_sum (bind_sum (sub cwp ''records'') iter) (\<lambda>records.
          both (for_each (\<lambda>v. check_record_vector lib v field_order record_tuple_array) records)
               (check_linkage records (get cwp (cps ''genesis_seed''))))))"

definition value_digest :: "gateway_lib \<Rightarrow> jval \<Rightarrow> gw_error + cp list" where
  "value_digest lib v = bind_sum (canonicalize_value v) (\<lambda>cv. sha256_hex lib (JStr (compact lib cv)))"

definition mutation_check :: "gateway_lib \<Rightarrow> jval \<Rightarrow> gw_error + gw_result list" where
  "mutation_check lib mut =
     (if is_dict mut \<and> has mut ''original'' \<and> has mut ''mutated'' then
        or_canon_fail Mutation
          (bind_sum (value_digest lib (get mut (cps ''original''))) (\<lambda>o'.
           bind_sum (value_digest lib (get mut (cps ''mutated''))) (\<lambda>m.
             Inr (py_eq (JBool (o' \<noteq> m)) (if has mut ''digests_differ'' then get mut (cps ''digests_differ'') else JBool True)))))
      else Inr [])"

definition ai_block :: "gateway_lib \<Rightarrow> jval list \<Rightarrow> jval \<Rightarrow> gw_error + gw_result list" where
  "ai_block lib field_order ai =
     both (bind_sum (sub ai ''vectors'') (vectors_block lib field_order record_tuple_array))
          (bind_sum (attr ai ''mutation_negative'') (mutation_check lib))"

section \<open>The checkpoint file\<close>

definition checkpoint_chain_block :: "gateway_lib \<Rightarrow> jval list \<Rightarrow> jval list \<Rightarrow> jval \<Rightarrow> gw_error + gw_result list" where
  "checkpoint_chain_block lib field_order ckpt_order cc =
     bind_sum (bind_sum (sub cc ''records'') iter) (\<lambda>records.
       both (for_each (\<lambda>v.
               bind_sum (attr_or_empty v ''record'') (\<lambda>rec.
               bind_sum (attr rec ''type'') (\<lambda>ty.
                 if truthy ty then check_record_vector lib v ckpt_order checkpoint_tuple_array
                 else check_record_vector lib v field_order record_tuple_array))) records)
            (check_linkage records (get cc (cps ''genesis_seed''))))"

definition extension_records_block :: "gateway_lib \<Rightarrow> jval list \<Rightarrow> jval \<Rightarrow> gw_error + gw_result list" where
  "extension_records_block lib field_order ed =
     bind_sum (attr_or_empty ed ''record_canonicalization'') (\<lambda>rc.
       if \<not> is_dict rc then Inl Not_modelled
       else for_each (\<lambda>key. if has rc key then check_record_vector lib (get rc (cps key)) field_order record_tuple_array else Inr [])
              [''with_extensions_digest'', ''without_extensions_digest''])"

definition check_cv :: "gateway_lib \<Rightarrow> jval \<Rightarrow> jval \<Rightarrow> jval \<Rightarrow> gw_error + gw_result list" where
  "check_cv lib value want_canonical want_digest =
     (case canonicalize_value value of
        Inl Canon_error \<Rightarrow> Inr [(Derives, FAIL)]
      | Inl e \<Rightarrow> Inl e
      | Inr cv \<Rightarrow>
          let d = compact lib cv in
          both (Inr (if want_canonical \<noteq> JNull then [verdict Canonical_form (want_canonical = JStr d)] else []))
               (if want_digest \<noteq> JNull
                then bind_sum (sha256_hex lib (JStr d)) (\<lambda>h. Inr [verdict Digest (want_digest = JStr h)]) else Inr []))"

text \<open>A value that must be rejected\<close>

definition check_rejects :: "gw_check \<Rightarrow> jval \<Rightarrow> gw_error + gw_result list" where
  "check_rejects c probe =
     (case canonicalize_value probe of Inl Canon_error \<Rightarrow> Inr [(c, PASS)] | Inl e \<Rightarrow> Inl e | Inr cv \<Rightarrow> Inr [(c, FAIL)])"

definition value_vector :: "gateway_lib \<Rightarrow> jval \<Rightarrow> gw_error + gw_result list" where
  "value_vector lib v =
     (let g = (\<lambda>k. get v (cps k)) in
      if \<not> is_dict v then Inl (Py Attribute_error)
      else if has v ''expected_error'' then check_rejects Rejects (if has v ''construct'' then JStr [55296] else g ''input'')
      else if has v ''input_a'' \<and> has v ''input_b'' then
        (if has v ''canonical_a'' \<or> has v ''digest_a''
         then both (check_cv lib (g ''input_a'') (g ''canonical_a'') (g ''digest_a''))
                   (check_cv lib (g ''input_b'') (g ''canonical_b'') (g ''digest_b''))
         else both (check_cv lib (g ''input_a'') (g ''canonical_form'') (g ''digest''))
                   (check_cv lib (g ''input_b'') (g ''canonical_form'') (g ''digest'')))
      else if has v ''input'' then check_cv lib (g ''input'') (g ''canonical_form'') (g ''digest'')
      else Inr [(No_input, UNSPECIFIED)])"

definition extension_vector :: "gateway_lib \<Rightarrow> jval \<Rightarrow> gw_error + gw_result list" where
  "extension_vector lib v =
     (let g = (\<lambda>k. get v (cps k)) in
      if \<not> is_dict v then Inl (Py Attribute_error)
      else if has v ''expected_error'' then check_rejects Rejects (g ''extensions'')
      else if has v ''extensions'' then check_cv lib (g ''extensions'') (g ''canonical_form'') (g ''digest'')
      else Inr [(No_input, UNSPECIFIED)])"

text \<open>A published hash and the previous hash that must name it\<close>

definition published_link :: "gw_check \<Rightarrow> jval \<Rightarrow> jval \<Rightarrow> gw_result" where
  "published_link c base succ =
     (c, if base = JNull \<or> succ = JNull then UNSPECIFIED else if py_eq succ base then PASS else FAIL)"

definition previous_of :: "jval \<Rightarrow> gw_error + jval" where
  "previous_of v = bind_sum (attr_or_empty v ''record'') (\<lambda>rec. attr rec ''previousHash'')"

definition rotation_block :: "jval \<Rightarrow> gw_error + gw_result list" where
  "rotation_block rb =
     bind_sum (bind_sum (sub rb ''file_1_records'') as_list) (\<lambda>f1.
     bind_sum (bind_sum (sub rb ''file_2_records'') as_list) (\<lambda>f2.
     bind_sum (if f1 \<noteq> [] then attr (last f1) ''record_hash'' else Inr JNull) (\<lambda>last_f1.
     bind_sum (if f2 \<noteq> [] then previous_of (hd f2) else Inr JNull) (\<lambda>first_f2.
       Inr [published_link Rotation last_f1 first_f2]))))"

definition break_record :: "gateway_lib \<Rightarrow> jval list \<Rightarrow> jval \<Rightarrow> jval \<Rightarrow> gw_error + gw_result list" where
  "break_record lib field_order cb v =
     bind_sum (attr_or_empty v ''record'') (\<lambda>rec.
     bind_sum (attr rec ''type'') (\<lambda>ty.
       if ty = JStr (cps ''chain_break'') \<and> has v ''canonical'' then
         bind_sum (bind_sum (sub cb ''canonical_field_order'') iter) (\<lambda>order.
         bind_sum (traverse (field_pair rec) order) (\<lambda>pairs.
           let d = compact lib (JArr pairs) in
           both (Inr [verdict Break_bytes (get v (cps ''canonical'') = JStr d)])
                (if has v ''sha256_canonical''
                 then bind_sum (sha256_hex lib (JStr d)) (\<lambda>h. Inr [verdict Break_sha256 (get v (cps ''sha256_canonical'') = JStr h)])
                 else Inr [])))
       else check_record_vector lib v field_order record_tuple_array))"

definition break_block :: "gateway_lib \<Rightarrow> jval list \<Rightarrow> jval \<Rightarrow> gw_error + gw_result list" where
  "break_block lib field_order cb =
     bind_sum (bind_sum (sub cb ''records'') as_list) (\<lambda>records.
       both (for_each (break_record lib field_order cb) records)
         (case records of
            v0 # v1 # _ \<Rightarrow>
              bind_sum (attr v0 ''record_hash'') (\<lambda>base. bind_sum (previous_of v1) (\<lambda>succ. Inr [published_link Break_link base succ]))
          | _ \<Rightarrow> Inr []))"

section \<open>Truncation and regression\<close>

definition as_record :: "jval \<Rightarrow> jval" where
  "as_record x =
     (if is_dict x then (if has x ''record'' \<and> is_dict (get x (cps ''record'')) then get x (cps ''record'') else x) else JObj [])"

definition is_the_checkpoint :: "jval \<Rightarrow> jval \<Rightarrow> bool" where
  "is_the_checkpoint ext r \<longleftrightarrow>
     list_all (\<lambda>k. py_eq (get r (cps k)) (get ext (cps k))) [''previousHash'', ''sequence'', ''recordCount'']"

text \<open>\<open>isinstance(v, int)\<close> with the integer it is; a boolean is one.\<close>

definition int_value :: "jval \<Rightarrow> int option" where
  "int_value v = (case v of JInt i \<Rightarrow> Some i | JBool b \<Rightarrow> Some (of_bool b) | _ \<Rightarrow> None)"

definition sequence_of :: "jval \<Rightarrow> int option" where
  "sequence_of r = (if get r (cps ''type'') = JStr (cps ''checkpoint'') then int_value (get r (cps ''sequence'')) else None)"

definition later_checkpoint :: "jval \<Rightarrow> jval \<Rightarrow> bool" where
  "later_checkpoint ext r \<longleftrightarrow>
     (case (sequence_of r, int_value (get ext (cps ''sequence''))) of (Some s, Some t) \<Rightarrow> s > t | _ \<Rightarrow> False)"

definition derived_truncated :: "jval \<Rightarrow> jval list \<Rightarrow> bool" where
  "derived_truncated ext delivered \<longleftrightarrow>
     \<not> list_ex (\<lambda>x. is_the_checkpoint ext (as_record x)) delivered \<and>
     length (filter (\<lambda>x. later_checkpoint ext (as_record x)) delivered) = 0"

definition code_agrees :: "gw_check \<Rightarrow> jval \<Rightarrow> bool \<Rightarrow> string \<Rightarrow> gw_result" where
  "code_agrees c stated derived code =
     (c, if stated = (if derived then JStr (cps code) else JNull) then PASS else DIVERGE)"

definition truncation_block :: "jval \<Rightarrow> gw_error + gw_result list" where
  "truncation_block td =
     bind_sum (sub td ''external_checkpoint'') (\<lambda>ext.
     bind_sum (sub td ''truncated_chain'') (\<lambda>tc.
     bind_sum (bind_sum (py (mget_or tc (cps ''records_delivered'') (JArr []))) iter) (\<lambda>delivered.
       if delivered \<noteq> [] \<and> \<not> is_dict ext then Inl (Py Attribute_error)
       else
         let truncated = derived_truncated ext delivered; stated = get tc (cps ''detection_result'');
             cc = (if has td ''complete_chain_result'' then get td (cps ''complete_chain_result'') else JObj [])
         in Inr ([(Truncation, if \<not> is_str stated then UNSPECIFIED
                                else if truncated = (stated = JStr (cps ''truncated'')) then PASS else FAIL),
                  code_agrees Truncation_code (get tc (cps ''failureCode'')) truncated ''head_missing'']
                 @ (if is_dict cc \<and> has cc ''truncated'' then [(Complete_chain, UNSPECIFIED)] else [])))))"

definition sequences :: "jval list \<Rightarrow> int list" where
  "sequences xs = List.map_filter (\<lambda>x. sequence_of (as_record x)) xs"

definition regressed :: "int list \<Rightarrow> bool" where
  "regressed seqs \<longleftrightarrow> list_ex (\<lambda>i. seqs ! i \<le> seqs ! (i - 1)) [1..<length seqs]"

definition regression_block :: "jval \<Rightarrow> gw_error + gw_result list" where
  "regression_block sr =
     bind_sum (bind_sum (sub sr ''chain'') iter) (\<lambda>chain.
       let r = regressed (sequences chain);
           pub = (if has sr ''detection_result'' then get sr (cps ''detection_result'') else JObj []);
           stated = (if is_dict pub then get pub (cps ''truncated'') else JBool (pub = JStr (cps ''truncated'')));
           code = (if is_dict pub then get pub (cps ''failureCode'') else get sr (cps ''failure_code''))
       in Inr [(Regression, if stated = JNull then UNSPECIFIED else if py_eq (JBool r) stated then PASS else FAIL),
               code_agrees Regression_code code r ''sequence_regression''])"

section \<open>The whole run\<close>

definition canonicalization_file :: "gateway_lib \<Rightarrow> jval \<Rightarrow> jval list \<Rightarrow> jval list \<Rightarrow> gw_error + gw_result list" where
  "canonicalization_file lib C field_order chain_key_order =
     both (bind_sum (sub C ''canonicalization'') (vectors_block lib field_order record_tuple_array))
    (both (bind_sum (sub C ''chain'') (chain_block lib field_order chain_key_order))
    (both (bind_sum (sub C ''dual_hash_demo'') (dual_hash_block lib field_order chain_key_order))
    (both (bind_sum (sub C ''party_attribution'') (party_block lib field_order))
    (both (bind_sum (sub C ''ai_invocation_signing'') (ai_block lib field_order))
          (bind_sum (bind_sum (sub C ''extensions_digest_base'') (\<lambda>e. sub e ''vectors''))
             (vectors_block lib field_order record_tuple_array))))))"

definition checkpoint_file :: "gateway_lib \<Rightarrow> jval \<Rightarrow> jval list \<Rightarrow> jval list \<Rightarrow> gw_error + gw_result list" where
  "checkpoint_file lib K field_order ckpt_order =
     both (bind_sum (sub K ''checkpoint_canonicalization'') (vectors_block lib ckpt_order checkpoint_tuple_array))
    (both (bind_sum (sub K ''checkpoint_chain'') (checkpoint_chain_block lib field_order ckpt_order))
    (both (bind_sum (sub K ''extensions_digest'') (extension_records_block lib field_order))
    (both (bind_sum (bind_sum (bind_sum (sub K ''canonicalize_value'') (\<lambda>c. sub c ''vectors'')) iter) (for_each (value_vector lib)))
    (both (bind_sum (bind_sum (bind_sum (sub K ''extensions_digest'') (\<lambda>c. sub c ''vectors'')) iter) (for_each (extension_vector lib)))
    (both (check_rejects Low_surrogate (JStr [56320]))
    (both (bind_sum (sub K ''rotation_boundary'') rotation_block)
    (both (bind_sum (sub K ''chain_break'') (break_block lib field_order))
    (both (bind_sum (sub K ''truncation_detection'') truncation_block)
    (both (bind_sum (sub K ''sequence_regression'') regression_block)
          (Inr [(Count_mismatch, NOT_CHECKED)]))))))))))"

definition recompute_main :: "gateway_lib \<Rightarrow> jval \<Rightarrow> jval \<Rightarrow> gw_error + gw_result list \<times> nat" where
  "recompute_main lib C K =
     bind_sum (bind_sum (sub C ''field_order'') iter) (\<lambda>field_order.
     bind_sum (bind_sum (bind_sum (sub C ''chain'') (\<lambda>c. sub c ''chain_key_order'')) iter) (\<lambda>chain_key_order.
     bind_sum (bind_sum (sub K ''checkpoint_field_order'') iter) (\<lambda>ckpt_order.
     bind_sum (both (canonicalization_file lib C field_order chain_key_order) (checkpoint_file lib K field_order ckpt_order)) (\<lambda>results.
       Inr (results, if list_ex (\<lambda>r. snd r = FAIL) results then 1 else 0)))))"


section \<open>Results of a run\<close>

definition no_fail :: "gw_result list \<Rightarrow> bool" where
  "no_fail rs \<longleftrightarrow> list_all (\<lambda>r. snd r \<noteq> FAIL) rs"

lemma no_fail_simps [simp]:
  "no_fail []" "no_fail (rs @ ss) \<longleftrightarrow> no_fail rs \<and> no_fail ss" "no_fail (r # rs) \<longleftrightarrow> snd r \<noteq> FAIL \<and> no_fail rs"
  "snd (verdict c b) = FAIL \<longleftrightarrow> \<not> b"
  by (auto simp: no_fail_def verdict_def)

lemma both_Inr: "both a b = Inr rs \<longleftrightarrow> (\<exists>xs ys. a = Inr xs \<and> b = Inr ys \<and> rs = xs @ ys)"
  by (auto simp: both_def)

lemma for_each_no_fail: "for_each f xs = Inr rs \<Longrightarrow> no_fail rs \<Longrightarrow> x \<in> set xs \<Longrightarrow> \<exists>ys. f x = Inr ys \<and> no_fail ys"
proof (induction xs arbitrary: rs)
  case (Cons y ys)
  then obtain r rss where "f y = Inr r" "traverse f ys = Inr rss" "rs = r @ concat rss"
    by (auto simp: for_each_def)
  then show ?case using Cons by (auto simp: for_each_def)
qed simp

lemma or_canon_fail_no_fail: "or_canon_fail c m = Inr rs \<Longrightarrow> no_fail rs \<Longrightarrow> m = Inr True"
  by (auto simp: or_canon_fail_def split: sum.splits gw_error.splits)

lemma check_record_vector_canonical:
  assumes "check_record_vector lib v order build = Inr rs" and "no_fail rs" and "is_dict v"
    and "has_key v (cps ''record'')" and "has_key v (cps ''canonical'')"
  shows "\<exists>t. build (get v (cps ''record'')) order = Inr t \<and> get v (cps ''canonical'') = JStr (compact lib t)"
proof -
  let ?m = "bind_sum (build (get v (cps ''record'')) order) (\<lambda>t. Inr (get v (cps ''canonical'') = JStr (compact lib t)))"
  obtain r1 r2 where "or_canon_fail Canonical_bytes ?m = Inr r1" and "rs = r1 @ r2"
    using assms(1,3,4,5) unfolding check_record_vector_def Let_def by (auto simp del: list.map)
  then have "?m = Inr True" using or_canon_fail_no_fail assms(2) by auto
  then show ?thesis by (auto simp del: list.map)
qed

lemma check_rejects_no_fail: "check_rejects c v = Inr rs \<Longrightarrow> no_fail rs \<Longrightarrow> \<not> representable v"
  by (auto simp: check_rejects_def canonicalize_value_eq split: if_splits)

lemma recompute_zero:
  assumes "recompute_main lib C K = Inr (results, 0)"
  obtains fo ck co rs ss where "bind_sum (sub C ''field_order'') iter = Inr fo" "no_fail rs" "no_fail ss"
    "canonicalization_file lib C fo ck = Inr rs" "checkpoint_file lib K fo co = Inr ss"
proof -
  obtain fo ck co where f: "bind_sum (sub C ''field_order'') iter = Inr fo"
    and b: "both (canonicalization_file lib C fo ck) (checkpoint_file lib K fo co) = Inr results"
    and z: "\<not> list_ex (\<lambda>r. snd r = FAIL) results"
    using assms unfolding recompute_main_def by (auto split: if_splits)
  have "no_fail results" using z by (auto simp: no_fail_def list_all_iff list_ex_iff)
  then show thesis using that f b by (auto simp: both_Inr)
qed

section \<open>Properties\<close>

text \<open>Exit status zero is meaningful. If the run ends with status 0, every canonicalization vector that
  states a record and its canonical text states the text the model recomputes, and every value vector
  that expects an error states an input the canonical form cannot represent (or asks for a constructed
  one).\<close>

theorem recompute_zero_sound:
  assumes "recompute_main lib C K = Inr (results, 0)"
  shows "\<exists>fo vs ws. bind_sum (sub C ''field_order'') iter = Inr fo \<and> bind_sum (sub C ''canonicalization'') iter = Inr vs \<and>
     bind_sum (bind_sum (sub K ''canonicalize_value'') (\<lambda>c. sub c ''vectors'')) iter = Inr ws \<and>
     (\<forall>v\<in>set vs. has_key v (cps ''record'') \<and> has_key v (cps ''canonical'') \<longrightarrow>
        (\<exists>t. record_tuple_array (get v (cps ''record'')) fo = Inr t \<and> get v (cps ''canonical'') = JStr (compact lib t))) \<and>
     (\<forall>w\<in>set ws. has w ''expected_error'' \<and> \<not> has w ''construct'' \<longrightarrow> \<not> representable (get w (cps ''input'')))"
proof -
  obtain fo ck co rs ss where fo: "bind_sum (sub C ''field_order'') iter = Inr fo" and nf: "no_fail rs" "no_fail ss"
    and c: "canonicalization_file lib C fo ck = Inr rs" and k: "checkpoint_file lib K fo co = Inr ss"
    using recompute_zero [OF assms] .
  obtain r1 where "bind_sum (sub C ''canonicalization'') (vectors_block lib fo record_tuple_array) = Inr r1" and r1: "no_fail r1"
    using c nf(1) unfolding canonicalization_file_def both_Inr by auto
  then obtain vs where vs: "bind_sum (sub C ''canonicalization'') iter = Inr vs"
    and fe: "for_each (named_vector lib fo record_tuple_array) vs = Inr r1"
    by (auto simp: vectors_block_def)
  obtain r2 where "bind_sum (bind_sum (bind_sum (sub K ''canonicalize_value'') (\<lambda>c. sub c ''vectors'')) iter)
      (for_each (value_vector lib)) = Inr r2" and r2: "no_fail r2"
    using k nf(2) unfolding checkpoint_file_def both_Inr by auto
  then obtain ws where ws: "bind_sum (bind_sum (sub K ''canonicalize_value'') (\<lambda>c. sub c ''vectors'')) iter = Inr ws"
    and fw: "for_each (value_vector lib) ws = Inr r2" by auto
  have "\<exists>t. record_tuple_array (get v (cps ''record'')) fo = Inr t \<and> get v (cps ''canonical'') = JStr (compact lib t)"
    if v: "v \<in> set vs" "has_key v (cps ''record'')" "has_key v (cps ''canonical'')" for v
  proof -
    obtain ys where ys: "named_vector lib fo record_tuple_array v = Inr ys" "no_fail ys"
      using for_each_no_fail [OF fe r1 v(1)] by blast
    then have "is_dict v" "check_record_vector lib v fo record_tuple_array = Inr ys"
      by (auto simp: named_vector_def split: if_splits)
    then show ?thesis using check_record_vector_canonical ys(2) v(2,3) by blast
  qed
  moreover have "\<not> representable (get w (cps ''input''))"
    if w: "w \<in> set ws" "has w ''expected_error''" "\<not> has w ''construct''" for w
  proof -
    obtain ys where "value_vector lib w = Inr ys" "no_fail ys" using for_each_no_fail [OF fw r2 w(1)] by blast
    then show ?thesis using w(2,3) check_rejects_no_fail unfolding value_vector_def Let_def by (auto split: if_splits)
  qed
  ultimately show ?thesis using fo vs ws by blast
qed

text \<open>Sequence regression. The check fires exactly when the sequence numbers of the checkpoints, in the
  order delivered, are not strictly increasing.\<close>

theorem regressed_iff: "regressed seqs \<longleftrightarrow> \<not> sorted_wrt (<) seqs"
proof -
  have "sorted_wrt (<) seqs \<longleftrightarrow> (\<forall>i. Suc i < length seqs \<longrightarrow> seqs ! i < seqs ! Suc i)"
    by (rule sorted_wrt_iff_nth_Suc_transp) (auto simp: transp_def)
  moreover have "regressed seqs \<longleftrightarrow> (\<exists>i. Suc i < length seqs \<and> seqs ! Suc i \<le> seqs ! i)"
  proof
    assume "regressed seqs"
    then obtain j where "1 \<le> j" "j < length seqs" "seqs ! j \<le> seqs ! (j - 1)" by (auto simp: regressed_def list_ex_iff)
    then show "\<exists>i. Suc i < length seqs \<and> seqs ! Suc i \<le> seqs ! i" by (intro exI [of _ "j - 1"]) auto
  next
    assume "\<exists>i. Suc i < length seqs \<and> seqs ! Suc i \<le> seqs ! i"
    then obtain i where "Suc i < length seqs" "seqs ! Suc i \<le> seqs ! i" by blast
    then show "regressed seqs" unfolding regressed_def list_ex_iff by (intro bexI [of _ "Suc i"]) auto
  qed
  ultimately show ?thesis by (auto simp: not_less)
qed

section \<open>A small pair of files\<close>

abbreviation ob :: "(string \<times> jval) list \<Rightarrow> jval" where
  "ob ms \<equiv> JObj (map (\<lambda>(k, v). (cps k, v)) ms)"

definition plain_record :: jval where
  "plain_record = ob [(''record'', ob []), (''full_record_json'', JStr []),
     (''canonical'', JStr (cps ''[['' @ [34] @ cps ''previousHash'' @ [34] @ cps '',null]]''))]"

definition small_C :: jval where
  "small_C = ob [(''field_order'', JArr []), (''canonicalization'', JArr [plain_record]),
     (''chain'', ob [(''chain_key_order'', JArr []), (''records'', JArr [])]),
     (''dual_hash_demo'', ob [(''record_a'', plain_record), (''record_b'', plain_record),
        (''assertions'', ob [(''canonical_hashes_match'', JBool True), (''chain_hashes_differ'', JBool False)])]),
     (''party_attribution'', ob [(''vectors'', JArr []), (''chain_with_parties'', ob [(''records'', JArr [])])]),
     (''ai_invocation_signing'', ob [(''vectors'', JArr [])]), (''extensions_digest_base'', ob [(''vectors'', JArr [])])]"

definition small_K :: jval where
  "small_K = ob [(''checkpoint_field_order'', JArr []), (''checkpoint_canonicalization'', JArr []),
     (''checkpoint_chain'', ob [(''records'', JArr [])]), (''extensions_digest'', ob [(''vectors'', JArr [])]),
     (''canonicalize_value'', ob [(''vectors'', JArr [ob [(''expected_error'', JNull), (''input'', JFloat (1 / 2))]])]),
     (''rotation_boundary'', ob [(''file_1_records'', JArr []), (''file_2_records'', JArr [])]),
     (''chain_break'', ob [(''records'', JArr [])]),
     (''truncation_detection'', ob [(''external_checkpoint'', ob [(''sequence'', JInt 2)]),
        (''truncated_chain'', ob [(''records_delivered'', JArr [ob [(''sequence'', JInt 1)]]), (''detection_result'', JStr (cps ''truncated''))])]),
     (''sequence_regression'', ob [(''chain'', JArr []), (''detection_result'', ob [(''truncated'', JBool False)])])]"

lemmas gateway_access = sub_def attr_def attr_or_empty_def iter_def as_list_def py_def subscript_def mget_def mget_or_def
  has_def has_key_def get_def for_each_def both_def hashable_def

lemma plain_tuple:
  "record_tuple_array (ob []) [] = Inr (JArr [JArr [JStr (cps ''previousHash''), JNull]])"
  by (simp add: record_tuple_array_def get_def optional_pair_def)

lemma plain_vector: "check_record_vector sample_gateway plain_record [] record_tuple_array = Inr [(Canonical_bytes, PASS)]"
  by (simp add: check_record_vector_def plain_record_def has_key_def get_def plain_tuple [simplified] or_canon_fail_def verdict_def
      jcs_str_def jcs_char_def)


lemma plain_diagnostic: "check_chain_json_diagnostic sample_gateway plain_record [] = Inr [(Reserialized, DIVERGE)]"
  by (simp add: check_chain_json_diagnostic_def plain_record_def has_key_def get_def reorder_def Let_def)

lemma plain_digest: "record_digests sample_gateway [] plain_record = Inr []"
  "bind_sum (sub plain_record ''full_record_json'') (sha256_hex sample_gateway) = Inr []"
proof -
  have r: "sub plain_record ''record'' = Inr (ob [])" "sub plain_record ''full_record_json'' = Inr (JStr [])"
    by (simp_all add: sub_def py_def subscript_def plain_record_def)
  have "encode_utf8 (compact sample_gateway (JArr [JArr [JStr (cps ''previousHash''), JNull]])) \<noteq> Inl UnicodeEncodeError"
    by (simp add: encode_utf8_def encodable_def scalar_def surrogate_def jcs_str_def jcs_char_def)
  then show "record_digests sample_gateway [] plain_record = Inr []"
    using r(1) plain_tuple by (cases "encode_utf8 (compact sample_gateway (JArr [JArr [JStr (cps ''previousHash''), JNull]]))")
      (auto simp: record_digests_def sample_gateway_def hexdigest_def ascii_def encode_utf8_def simp del: list.map bind_sum_Inr split: if_splits)
  show "bind_sum (sub plain_record ''full_record_json'') (sha256_hex sample_gateway) = Inr []"
    by (simp add: r sample_gateway_def hexdigest_def ascii_def encode_utf8_def encodable_def del: bind_sum_Inr)
qed

lemma small_C_blocks:
  "sub small_C ''canonicalization'' = Inr (JArr [plain_record])"
  "sub small_C ''chain'' = Inr (ob [(''chain_key_order'', JArr []), (''records'', JArr [])])"
  "sub small_C ''dual_hash_demo'' = Inr (ob [(''record_a'', plain_record), (''record_b'', plain_record),
        (''assertions'', ob [(''canonical_hashes_match'', JBool True), (''chain_hashes_differ'', JBool False)])])"
  "sub small_C ''party_attribution'' = Inr (ob [(''vectors'', JArr []), (''chain_with_parties'', ob [(''records'', JArr [])])])"
  "sub small_C ''ai_invocation_signing'' = Inr (ob [(''vectors'', JArr [])])"
  "sub small_C ''extensions_digest_base'' = Inr (ob [(''vectors'', JArr [])])"
  "sub small_C ''field_order'' = Inr (JArr [])"
  by (simp_all add: sub_def py_def subscript_def small_C_def)

lemma dual_blocks:
  "sub (ob [(''record_a'', plain_record), (''record_b'', plain_record), x]) ''record_a'' = Inr plain_record"
  "sub (ob [(''record_a'', plain_record), (''record_b'', plain_record), x]) ''record_b'' = Inr plain_record"
  by (simp_all add: sub_def py_def subscript_def)

lemma small_dual: "\<exists>rs. dual_hash_block sample_gateway [] [] (ob [(''record_a'', plain_record), (''record_b'', plain_record),
        (''assertions'', ob [(''canonical_hashes_match'', JBool True), (''chain_hashes_differ'', JBool False)])]) = Inr rs \<and> no_fail rs"
  unfolding dual_hash_block_def for_each_def both_def traverse.simps dual_blocks plain_vector plain_diagnostic bind_sum.simps plain_digest
  by (simp add: attr_or_empty_def attr_def py_def mget_or_def mget_def has_key_def get_def verdict_def del: bind_sum_Inr)

lemma iter_JArr: "iter (JArr xs) = Inr xs"
  by (simp add: iter_def py_def)

lemma empty_blocks:
  "vectors_block lib order build (JArr []) = Inr []"
  "chain_block lib fo ck (ob [(''chain_key_order'', JArr []), (''records'', JArr [])]) = Inr []"
  "party_block lib fo (ob [(''vectors'', JArr []), (''chain_with_parties'', ob [(''records'', JArr [])])]) = Inr []"
  "ai_block lib fo (ob [(''vectors'', JArr [])]) = Inr []"
  "sub (ob [(''vectors'', JArr [])]) ''vectors'' = Inr (JArr [])"
  by (simp_all add: vectors_block_def iter_JArr for_each_def chain_block_def both_def sub_def subscript_def py_def check_linkage_def
      party_block_def ai_block_def attr_def mget_def get_def mutation_check_def del: bind_sum_Inr)

lemma plain_vectors_block: "vectors_block sample_gateway [] record_tuple_array (JArr [plain_record]) = Inr [(Canonical_bytes, PASS)]"
proof -
  have "is_dict plain_record" by (simp add: plain_record_def)
  then show ?thesis by (simp add: vectors_block_def iter_JArr for_each_def named_vector_def plain_vector del: bind_sum_Inr)
qed

lemma small_C_run: "\<exists>rs. canonicalization_file sample_gateway small_C [] [] = Inr rs \<and> no_fail rs"
proof -
  obtain rs where d: "dual_hash_block sample_gateway [] [] (ob [(''record_a'', plain_record), (''record_b'', plain_record),
        (''assertions'', ob [(''canonical_hashes_match'', JBool True), (''chain_hashes_differ'', JBool False)])]) = Inr rs" "no_fail rs"
    using small_dual by blast
  have "canonicalization_file sample_gateway small_C [] [] = Inr ((Canonical_bytes, PASS) # rs)"
    unfolding canonicalization_file_def small_C_blocks bind_sum.simps empty_blocks plain_vectors_block d(1) both_def by simp
  then show ?thesis using d(2) by simp
qed

lemma small_K_run: "\<exists>rs. checkpoint_file sample_gateway small_K [] [] = Inr rs \<and> no_fail rs"
  by (simp add: checkpoint_file_def gateway_access small_K_def vectors_block_def checkpoint_chain_block_def check_linkage_def
      extension_records_block_def value_vector_def check_rejects_def has_lone_surrogate_def surrogate_def rotation_block_def
      published_link_def break_block_def truncation_block_def derived_truncated_def is_the_checkpoint_def as_record_def
      later_checkpoint_def sequence_of_def code_agrees_def regression_block_def sequences_def map_filter_def regressed_def Let_def
      del: bind_sum_Inr)

theorem recompute_zero_sound_witness:
  "\<exists>results. recompute_main sample_gateway small_C small_K = Inr (results, 0) \<and>
     \<not> representable (JFloat (1 / 2)) \<and>
     (\<exists>t. record_tuple_array (ob []) [] = Inr t \<and> get plain_record (cps ''canonical'') = JStr (compact sample_gateway t))"
proof -
  obtain rs ss where rs: "canonicalization_file sample_gateway small_C [] [] = Inr rs" "no_fail rs"
    and ss: "checkpoint_file sample_gateway small_K [] [] = Inr ss" "no_fail ss"
    using small_C_run small_K_run by blast
  have "bind_sum (bind_sum (sub small_C ''chain'') (\<lambda>c. sub c ''chain_key_order'')) iter = Inr []"
    "bind_sum (sub small_K ''checkpoint_field_order'') iter = Inr []"
    by (simp_all add: small_C_def small_K_def sub_def subscript_def py_def iter_def del: bind_sum_Inr)
  moreover have fo: "bind_sum (sub small_C ''field_order'') iter = Inr []" "bind_sum (sub small_C ''canonicalization'') iter = Inr [plain_record]"
    by (simp_all add: small_C_blocks iter_def py_def del: bind_sum_Inr)
  moreover have "\<not> list_ex (\<lambda>r. snd r = FAIL) (rs @ ss)"
    using rs(2) ss(2) by (auto simp: no_fail_def list_all_iff list_ex_iff)
  ultimately have run: "recompute_main sample_gateway small_C small_K = Inr (rs @ ss, 0)"
    using rs(1) ss(1) unfolding recompute_main_def by (simp add: both_def del: bind_sum_Inr)
  have "has_key plain_record (cps ''record'')" "has_key plain_record (cps ''canonical'')" "get plain_record (cps ''record'') = ob []"
    by (simp_all add: plain_record_def has_key_def get_def)
  then show ?thesis using recompute_zero_sound [OF run] run fo by auto
qed

end
