(* ===== verification/Token_Runner.thy ===== *)
theory Token_Runner
  imports Codec Python_Values
begin

text \<open>
  \<open>runners/aat_runner.py\<close>: the standing runner for signed-token fixtures. Parameters, one record:
  SHA-256, Ed25519, the JSON reader, NFC normalisation, the text of a float, \<open>fromisoformat\<close>,
  \<open>fromtimestamp\<close> (instants are microseconds), and the network fetch of a key set. Documents are JSON
  values. The ISO texts and the seconds-before-iat diagnostic of a record, and the environment part of
  a run (user, host, clock, paths), are left out.
\<close>

datatype stamp = Naive_stamp | Aware_stamp int

record runner_lib =
  rl_sha256 :: "byte list \<Rightarrow> byte list"
  rl_ed25519 :: "byte list \<Rightarrow> byte list \<Rightarrow> byte list \<Rightarrow> bool"
  rl_loads :: "byte list \<Rightarrow> pyval option"
  rl_nfc :: "cp list \<Rightarrow> cp list"
  rl_float :: "rat \<Rightarrow> cp list"
  rl_fromisoformat :: "string \<Rightarrow> stamp option"
  rl_fromtimestamp :: "pyval \<Rightarrow> py_error + int"
  rl_fetch :: "pyval \<Rightarrow> py_error + pyval"

datatype run_error = Raised py_error | System_exit

definition rz :: "py_error + 'a \<Rightarrow> run_error + 'a" where
  "rz x = (case x of Inl e \<Rightarrow> Inl (Raised e) | Inr y \<Rightarrow> Inr y)"

lemma rz_Inr [simp]: "rz m = Inr x \<longleftrightarrow> m = Inr x"
  by (simp add: rz_def split: sum.splits)

section \<open>Base64, instants, canonical JSON\<close>

definition decode_segment :: "pyval \<Rightarrow> py_error + byte list" where
  "decode_segment v =
     (case v of
        JStr s \<Rightarrow>
          (if list_all (\<lambda>c. of_char c < (128 :: nat)) s
           then (case b64u_decode (cps s) of None \<Rightarrow> Inl Value_error | Some b \<Rightarrow> Inr b) else Inl Value_error)
      | _ \<Rightarrow> Inl Type_error)"

definition parse_instant :: "runner_lib \<Rightarrow> pyval \<Rightarrow> py_error + stamp" where
  "parse_instant lib v =
     (case v of
        JStr s \<Rightarrow> (case rl_fromisoformat lib (replace_char (CHR ''Z'') ''+00:00'' s) of None \<Rightarrow> Inl Value_error | Some t \<Rightarrow> Inr t)
      | _ \<Rightarrow> Inl Attribute_error)"

text \<open>Members are sorted by their names as given and written with the names normalised.\<close>

fun canonicalize_jcs :: "runner_lib \<Rightarrow> jval \<Rightarrow> py_error + cp list" where
  "canonicalize_jcs lib JNull = Inr (cps ''null'')"
| "canonicalize_jcs lib (JBool b) = Inr (if b then cps ''true'' else cps ''false'')"
| "canonicalize_jcs lib (JStr s) = Inr (jcs_str (rl_nfc lib s))"
| "canonicalize_jcs lib (JInt i) = Inr (str_int i)"
| "canonicalize_jcs lib (JFloat r) = Inr (rl_float lib r)"
| "canonicalize_jcs lib (JArr xs) =
     bind_sum (traverse id (map (canonicalize_jcs lib) xs)) (\<lambda>ts. Inr (cps ''['' @ join (cps '','') ts @ cps '']''))"
| "canonicalize_jcs lib (JObj ms) =
     (if \<not> list_all (\<lambda>(k, v). encodable k) ms then Inl Unicode_error
      else bind_sum (traverse (\<lambda>(k, t). bind_sum t (\<lambda>x. Inr (jcs_str (rl_nfc lib k) @ cps '':'' @ x)))
                       (sorted_members (map (\<lambda>(k, v). (k, canonicalize_jcs lib v)) ms)))
             (\<lambda>ts. Inr (cps ''{'' @ join (cps '','') ts @ cps ''}'')))"

definition act_binding_digest :: "runner_lib \<Rightarrow> jval \<Rightarrow> py_error + string" where
  "act_binding_digest lib preimage =
     bind_sum (canonicalize_jcs lib preimage) (\<lambda>canonical.
       case encode_utf8 canonical of
         Inl e \<Rightarrow> Inl Unicode_error
       | Inr b \<Rightarrow> Inr (''sha256:'' @ ascii (b64u_encode (rl_sha256 lib b))))"

section \<open>Keys\<close>

type_synonym key_set = "(pyval \<times> pyval) list"

definition index_keys :: "pyval \<Rightarrow> py_error + key_set" where
  "index_keys document =
     bind_sum (bind_sum (mget_or document ''keys'' (JArr [])) py_iter) (\<lambda>ks.
       loop (\<lambda>k m. bind_sum (subscript k ''kid'') (\<lambda>kid. dict_set kid k m)) ks [])"

definition resolve_keys :: "runner_lib \<Rightarrow> pyval \<Rightarrow> run_error + key_set" where
  "resolve_keys lib issuer =
     bind_sum (rz (mget issuer ''jwks_inline'')) (\<lambda>inline.
       if inline \<noteq> JNull then rz (index_keys inline)
       else let url = get issuer ''jwks_url'' in
         if falsy url then Inl System_exit
         else bind_sum (rz (rl_fetch lib url)) (\<lambda>document. rz (index_keys document)))"

section \<open>Windows and identifiers\<close>

datatype window = Inside | Not_yet_valid | Window_expired

definition classify_window :: "int \<Rightarrow> int \<Rightarrow> int \<Rightarrow> window" where
  "classify_window verification_time issued_at expires_at =
     (if verification_time < issued_at then Not_yet_valid
      else if verification_time > expires_at then Window_expired
      else Inside)"

definition B58 :: string where
  "B58 = ''123456789ABCDEFGHJKLMNPQRSTUVWXYZabcdefghijkmnopqrstuvwxyz''"

fun index_in :: "'a \<Rightarrow> 'a list \<Rightarrow> nat option" where
  "index_in x [] = None"
| "index_in x (y # ys) = (if x = y then Some 0 else map_option Suc (index_in x ys))"

fun b58_value :: "nat \<Rightarrow> string \<Rightarrow> nat option" where
  "b58_value n [] = Some n"
| "b58_value n (ch # s) = (case index_in ch B58 of None \<Rightarrow> None | Some d \<Rightarrow> b58_value (n * 58 + d) s)"

text \<open>\<open>n.to_bytes((n.bit_length() + 7) // 8, "big")\<close>: the shortest big-endian bytes\<close>

fun big_endian :: "nat \<Rightarrow> byte list" where
  "big_endian n = (if n = 0 then [] else big_endian (n div 256) @ [n mod 256])"

declare big_endian.simps [simp del]

definition b58_decode :: "string \<Rightarrow> byte list option" where
  "b58_decode s = map_option (\<lambda>n. replicate (length (takeWhile (\<lambda>c. c = CHR ''1'') s)) 0 @ big_endian n) (b58_value 0 s)"

definition did_prefix :: string where
  "did_prefix = ''did:key:z''"

definition did_key_wellformed :: "pyval \<Rightarrow> bool" where
  "did_key_wellformed did =
     (case did of
        JStr s \<Rightarrow>
          prefix did_prefix s \<and>
          (case b58_decode (drop (length did_prefix) s) of
             None \<Rightarrow> False
           | Some raw \<Rightarrow> take 2 raw = [237, 1] \<and> length raw - 2 = 32)
      | _ \<Rightarrow> False)"

definition utf8_text :: "string \<Rightarrow> byte list" where
  "utf8_text s = concat (map utf8_bytes (cps s))"

definition token_fingerprint :: "runner_lib \<Rightarrow> string \<Rightarrow> nat \<times> string" where
  "token_fingerprint lib token = (length token, hexdigest (rl_sha256 lib (utf8_text token)))"

definition quarantine_entry :: "pyval \<Rightarrow> pyval \<Rightarrow> py_error + pyval option" where
  "quarantine_entry quarantine vector_id =
     bind_sum (bind_sum (mget_or quarantine ''entries'' (JArr [])) py_iter) (\<lambda>entries.
       loop (\<lambda>e found. case found of
               Some f \<Rightarrow> Inr found
             | None \<Rightarrow> bind_sum (mget e ''vector_id'') (\<lambda>i. Inr (if py_eq i vector_id then Some e else None))) entries None)"

section \<open>One vector\<close>

datatype signature_state = No_key_for_kid | Signature_valid | Signature_invalid
datatype act_binding = Absent | Claim_present_no_preimage | Act_match | Act_mismatch

definition VALID :: string where
  "VALID = ''valid''"

definition NBF_REJECT :: string where
  "NBF_REJECT = ''nbf_reject''"

definition EXP_REJECT :: string where
  "EXP_REJECT = ''exp_reject''"

definition SIG_REJECT :: string where
  "SIG_REJECT = ''sig_reject''"

record vector_record =
  vr_id :: pyval
  vr_expected :: pyval
  vr_signature :: signature_state
  vr_unattributable :: bool
  vr_fingerprint_match :: "bool option"
  vr_al_nid_wellformed :: "bool option"
  vr_window :: window
  vr_act_binding :: act_binding
  vr_computed :: string
  vr_match :: bool
  vr_quarantine :: "(pyval \<times> pyval \<times> pyval) option"

definition split_token :: "pyval \<Rightarrow> py_error + string \<times> string \<times> string" where
  "split_token token =
     (case token of
        JStr s \<Rightarrow> (case split_on (CHR ''.'') s of [h, p, g] \<Rightarrow> Inr (h, p, g) | _ \<Rightarrow> Inl Value_error)
      | _ \<Rightarrow> Inl Attribute_error)"

definition loads_segment :: "runner_lib \<Rightarrow> string \<Rightarrow> py_error + pyval" where
  "loads_segment lib s =
     bind_sum (decode_segment (JStr s)) (\<lambda>b. case rl_loads lib b of None \<Rightarrow> Inl Value_error | Some v \<Rightarrow> Inr v)"

definition signature_state_of ::
  "runner_lib \<Rightarrow> key_set \<Rightarrow> pyval \<Rightarrow> string \<Rightarrow> string \<Rightarrow> byte list \<Rightarrow> py_error + signature_state" where
  "signature_state_of lib keys header header_b64 payload_b64 signature =
     bind_sum (dict_get keys (get header ''kid'')) (\<lambda>found.
       case found of
         None \<Rightarrow> Inr No_key_for_kid
       | Some key \<Rightarrow>
           bind_sum (bind_sum (subscript key ''x'') decode_segment) (\<lambda>raw.
             if length raw \<noteq> 32 then Inl Value_error
             else Inr (if rl_ed25519 lib raw signature (cps (header_b64 @ ''.'' @ payload_b64))
                       then Signature_valid else Signature_invalid)))"

definition fingerprint_match :: "runner_lib \<Rightarrow> pyval \<Rightarrow> string \<Rightarrow> bool \<Rightarrow> bool \<times> bool option" where
  "fingerprint_match lib vector token convention_declared =
     (let (len, sha) = token_fingerprint lib token;
          declared_len = get vector ''token_len''; declared_sha = get vector ''token_sha256'' in
      if declared_len = JNull \<and> declared_sha = JNull then (True, if convention_declared then Some False else None)
      else (False, Some ((declared_len = JNull \<or> py_eq declared_len (JInt (int len))) \<and>
                         (declared_sha = JNull \<or> declared_sha = JStr sha))))"

definition window_of :: "runner_lib \<Rightarrow> pyval \<Rightarrow> pyval \<Rightarrow> bool \<Rightarrow> py_error + window" where
  "window_of lib vector payload check_lower_bound =
     bind_sum (bind_sum (subscript vector ''verification_time'') (parse_instant lib)) (\<lambda>vt.
     bind_sum (bind_sum (subscript payload ''iat'') (rl_fromtimestamp lib)) (\<lambda>issued_at.
     bind_sum (bind_sum (subscript payload ''exp'') (rl_fromtimestamp lib)) (\<lambda>expires_at.
       case vt of
         Naive_stamp \<Rightarrow> Inl Type_error
       | Aware_stamp t \<Rightarrow>
           Inr (if check_lower_bound then classify_window t issued_at expires_at
                else if t > expires_at then Window_expired else Inside))))"

definition act_binding_of :: "runner_lib \<Rightarrow> pyval \<Rightarrow> pyval \<Rightarrow> py_error + act_binding" where
  "act_binding_of lib vector payload =
     (let claim = get payload ''urn:dashclaw:act-binding'';
          flat = get vector ''act_binding_preimage''; nested = get vector ''act_binding'';
          preimage = (if flat = JNull \<and> is_dict nested then get nested ''preimage'' else flat) in
      if claim = JNull then Inr Absent
      else if preimage = JNull then bind_sum (mget claim ''hash'') (\<lambda>_. Inr Claim_present_no_preimage)
      else bind_sum (act_binding_digest lib (jv preimage)) (\<lambda>computed.
           bind_sum (mget claim ''hash'') (\<lambda>claimed.
             Inr (if claimed = JStr computed then Act_match else Act_mismatch))))"

definition outcome_of :: "signature_state \<Rightarrow> window \<Rightarrow> string" where
  "outcome_of sg w =
     (if sg \<noteq> Signature_valid then SIG_REJECT
      else case w of Not_yet_valid \<Rightarrow> NBF_REJECT | Window_expired \<Rightarrow> EXP_REJECT | Inside \<Rightarrow> VALID)"

definition quarantine_fields :: "pyval \<Rightarrow> pyval \<Rightarrow> py_error + (pyval \<times> pyval \<times> pyval) option" where
  "quarantine_fields quarantine vector_id =
     bind_sum (quarantine_entry quarantine vector_id) (\<lambda>entry.
       case entry of
         None \<Rightarrow> Inr None
       | Some e \<Rightarrow>
           bind_sum (subscript e ''state'') (\<lambda>st. bind_sum (subscript e ''reason'') (\<lambda>rs. bind_sum (subscript e ''pending'') (\<lambda>p.
             Inr (Some (st, rs, p))))))"

definition evaluate_vector ::
  "runner_lib \<Rightarrow> pyval \<Rightarrow> pyval \<Rightarrow> key_set \<Rightarrow> bool \<Rightarrow> bool \<Rightarrow> py_error + vector_record" where
  "evaluate_vector lib quarantine vector keys check_lower_bound convention_declared =
     bind_sum (subscript vector ''aat'') (\<lambda>token.
     bind_sum (split_token token) (\<lambda>(header_b64, payload_b64, signature_b64).
     bind_sum (loads_segment lib header_b64) (\<lambda>header.
     bind_sum (loads_segment lib payload_b64) (\<lambda>payload.
     bind_sum (decode_segment (JStr signature_b64)) (\<lambda>signature.
     bind_sum (subscript vector ''id'') (\<lambda>vid.
     if \<not> is_dict header \<or> \<not> is_dict payload then Inl Attribute_error
     else
     bind_sum (subscript vector ''expected_result'') (\<lambda>expected.
     bind_sum (signature_state_of lib keys header header_b64 payload_b64 signature) (\<lambda>sg.
     let (unattributable, fp) = fingerprint_match lib vector (str_of token) convention_declared;
         al_nid = get payload ''al_nid'' in
     bind_sum (window_of lib vector payload check_lower_bound) (\<lambda>w.
     bind_sum (act_binding_of lib vector payload) (\<lambda>ab.
     let outcome = outcome_of sg w in
     bind_sum (quarantine_fields quarantine vid) (\<lambda>q.
       Inr \<lparr>vr_id = vid, vr_expected = expected, vr_signature = sg, vr_unattributable = unattributable,
            vr_fingerprint_match = fp,
            vr_al_nid_wellformed = (if al_nid = JNull then None else Some (did_key_wellformed al_nid)),
            vr_window = w, vr_act_binding = ab, vr_computed = outcome, vr_match = (expected = JStr outcome),
            vr_quarantine = q\<rparr>)))))))))))"

section \<open>Observations\<close>

text \<open>\<open>sorted(set(...))\<close> raises unless the elements can be compared: all strings, all numbers, or at most one.\<close>

definition sortable :: "pyval list \<Rightarrow> bool" where
  "sortable xs \<longleftrightarrow> length xs \<le> 1 \<or> list_all is_str xs \<or> list_all (\<lambda>v. number v \<noteq> None) xs"

definition sorted_set :: "pyval list \<Rightarrow> py_error + pyval list" where
  "sorted_set xs = bind_sum (hashed_set xs) (\<lambda>ys. if sortable ys then Inr ys else Inl Type_error)"

record observations =
  ob_subjects :: "pyval list"
  ob_single_subject :: bool
  ob_al_names :: "pyval list"
  ob_single_al_name :: bool
  ob_jti_total :: nat
  ob_jti_distinct :: nat
  ob_jti_repeated :: "pyval list"

definition payload_of :: "runner_lib \<Rightarrow> pyval \<Rightarrow> py_error + pyval" where
  "payload_of lib vector =
     bind_sum (subscript vector ''aat'') (\<lambda>token.
       case token of
         JStr s \<Rightarrow>
           (case split_on (CHR ''.'') s of
              h # p # _ \<Rightarrow> bind_sum (loads_segment lib p) (\<lambda>v. if is_dict v then Inr v else Inl Attribute_error)
            | _ \<Rightarrow> Inl Index_error)
       | _ \<Rightarrow> Inl Attribute_error)"

definition observe_vectors :: "runner_lib \<Rightarrow> pyval list \<Rightarrow> py_error + observations" where
  "observe_vectors lib vectors =
     bind_sum (traverse (payload_of lib) vectors) (\<lambda>payloads.
     let subs = map (\<lambda>p. get p ''sub'') payloads; names = map (\<lambda>p. get p ''al_name'') payloads; jtis = map (\<lambda>p. get p ''jti'') payloads in
     bind_sum (sorted_set (filter (\<lambda>j. 1 < length (filter (\<lambda>k. py_eq k j) jtis)) jtis)) (\<lambda>repeated.
     bind_sum (sorted_set subs) (\<lambda>subjects.
     bind_sum (sorted_set (filter (\<lambda>n. n \<noteq> JNull) names)) (\<lambda>al_names.
     bind_sum (hashed_set names) (\<lambda>nameset.
     bind_sum (hashed_set jtis) (\<lambda>jtiset.
       Inr \<lparr>ob_subjects = subjects, ob_single_subject = (length subjects = 1), ob_al_names = al_names,
            ob_single_al_name = (length nameset = 1), ob_jti_total = length jtis, ob_jti_distinct = length jtiset,
            ob_jti_repeated = repeated\<rparr>))))))"

section \<open>A fixture\<close>

record fixture_result =
  fx_records :: "vector_record list"
  fx_observations :: observations
  fx_matched :: nat
  fx_failing :: "pyval list"
  fx_quarantined :: "(pyval \<times> pyval \<times> pyval) list"
  fx_unattributable :: "pyval list"
  fx_integrity_anomalies :: "(pyval \<times> bool option \<times> bool option) list"
  fx_signature_anomalies :: "(pyval \<times> signature_state) list"

definition failing :: "vector_record \<Rightarrow> bool" where
  "failing r \<longleftrightarrow> (\<not> vr_match r \<or> vr_fingerprint_match r = Some False) \<and> vr_quarantine r = None"

definition summarise :: "vector_record list \<Rightarrow> observations \<Rightarrow> fixture_result" where
  "summarise records obs =
     \<lparr>fx_records = records, fx_observations = obs,
      fx_matched = length (filter vr_match records),
      fx_failing = map vr_id (filter failing records),
      fx_quarantined = concat (map (\<lambda>r. case vr_quarantine r of None \<Rightarrow> [] | Some (st, rs, p) \<Rightarrow> [(vr_id r, st, p)]) records),
      fx_unattributable = map vr_id (filter vr_unattributable records),
      fx_integrity_anomalies =
        map (\<lambda>r. (vr_id r, vr_al_nid_wellformed r, vr_fingerprint_match r))
          (filter (\<lambda>r. vr_al_nid_wellformed r = Some False \<or> vr_fingerprint_match r = Some False) records),
      fx_signature_anomalies =
        map (\<lambda>r. (vr_id r, vr_signature r)) (filter (\<lambda>r. vr_signature r \<noteq> Signature_valid) records)\<rparr>"

definition run_fixture :: "runner_lib \<Rightarrow> pyval \<Rightarrow> pyval \<Rightarrow> pyval \<Rightarrow> bool \<Rightarrow> run_error + fixture_result" where
  "run_fixture lib quarantine fixture issuer check_lower_bound =
     bind_sum (rz (mget fixture ''schema'')) (\<lambda>schema.
     if schema \<noteq> JStr ''aat-pair-v1'' then Inl System_exit
     else
       bind_sum (resolve_keys lib issuer) (\<lambda>keys.
       bind_sum (rz (bind_sum (subscript fixture ''vectors'') py_iter)) (\<lambda>vectors.
       bind_sum (rz (traverse (\<lambda>v. evaluate_vector lib quarantine v keys check_lower_bound
                                     (\<not> falsy (get fixture ''integrity_convention''))) vectors)) (\<lambda>records.
       bind_sum (rz (subscript issuer ''kid'')) (\<lambda>pinned.
       if \<not> sortable (map fst keys) then Inl (Raised Type_error)
       else bind_sum (rz (observe_vectors lib vectors)) (\<lambda>obs. Inr (summarise records obs)))))))"

definition runner_main :: "runner_lib \<Rightarrow> pyval \<Rightarrow> pyval \<Rightarrow> pyval \<Rightarrow> bool \<Rightarrow> run_error + nat" where
  "runner_main lib quarantine fixture issuer no_lower_bound =
     bind_sum (run_fixture lib quarantine fixture issuer (\<not> no_lower_bound)) (\<lambda>r.
       Inr (if length (fx_failing r) = 0 then 0 else 1))"

end
