(* ===== verification/Token_Checks.thy ===== *)
theory Token_Checks
  imports Token_Runner
begin

text \<open>
  Properties of the token runner: what a run with exit status 0 establishes, what the omitted lower
  bound would hide, and how far the \<open>did:key\<close> shape check detects a lost character.
\<close>

section \<open>Well-formed identifiers\<close>

definition be_value :: "byte list \<Rightarrow> nat" where
  "be_value bs = foldl (\<lambda>a b. a * 256 + b) 0 bs"

lemma foldl_be: "foldl (\<lambda>a b. a * 256 + b) a bs = a * 256 ^ length bs + foldl (\<lambda>a b. a * 256 + b) (0 :: nat) bs"
proof (induction bs arbitrary: a)
  case (Cons b bs)
  have "foldl (\<lambda>a b. a * 256 + b) (a * 256 + b) bs = (a * 256 + b) * 256 ^ length bs + be_value bs"
    using Cons [of "a * 256 + b"] by (simp add: be_value_def)
  moreover have "foldl (\<lambda>a b. a * 256 + b) b bs = b * 256 ^ length bs + be_value bs"
    using Cons [of b] by (simp add: be_value_def)
  ultimately show ?case by (simp add: algebra_simps)
qed simp

lemma be_value_append: "be_value (xs @ ys) = be_value xs * 256 ^ length ys + be_value ys"
  unfolding be_value_def foldl_append by (rule foldl_be)

lemma be_value_less: "list_all (\<lambda>b. b < 256) bs \<Longrightarrow> be_value bs < 256 ^ length bs"
proof (induction bs rule: rev_induct)
  case (snoc b bs)
  then have "be_value bs + 1 \<le> 256 ^ length bs" "b < 256" by auto
  then have "(be_value bs + 1) * 256 \<le> 256 ^ length bs * 256" by (intro mult_right_mono) auto
  then show ?case using \<open>b < 256\<close> by (simp add: be_value_append) (simp add: be_value_def)
qed (simp add: be_value_def)

lemma big_endian_value: "be_value (big_endian n) = n \<and> list_all (\<lambda>b. b < 256) (big_endian n)"
proof (induction n rule: big_endian.induct)
  case (1 n)
  show ?case
  proof (cases "n = 0")
    case False
    then show ?thesis using 1 by (subst (1 2) big_endian.simps) (simp add: be_value_append be_value_def [of "[n mod 256]"])
  qed (simp add: big_endian.simps be_value_def)
qed

lemma index_in_less: "index_in x xs = Some d \<Longrightarrow> d < length xs"
  by (induction xs arbitrary: d) (auto split: if_splits)

lemma b58_value_bounds:
  "b58_value m s = Some n \<Longrightarrow> m * 58 ^ length s \<le> n \<and> n < (m + 1) * 58 ^ length s"
proof (induction s arbitrary: m)
  case (Cons ch s)
  then obtain d where d: "index_in ch B58 = Some d" and "b58_value (m * 58 + d) s = Some n" by (auto split: option.splits)
  then have n: "(m * 58 + d) * 58 ^ length s \<le> n" "n < (m * 58 + d + 1) * 58 ^ length s" using Cons.IH by blast+
  have "d < 58" using index_in_less [OF d] by (simp add: B58_def)
  then have "(m * 58 + d + 1) * 58 ^ length s \<le> ((m + 1) * 58) * 58 ^ length s" by (intro mult_right_mono) auto
  moreover have "(m * 58) * 58 ^ length s \<le> (m * 58 + d) * 58 ^ length s" by (intro mult_right_mono) auto
  ultimately have "m * 58 * 58 ^ length s \<le> n" "n < (m + 1) * 58 * 58 ^ length s" using n by linarith+
  then show ?case by (simp add: algebra_simps)
qed simp

lemma wellformed_value:
  assumes "did_key_wellformed (JStr (did_prefix @ body))"
  shows "\<exists>n. b58_value 0 body = Some n \<and> 60673 * 256 ^ 32 \<le> n \<and> n < 60674 * 256 ^ 32 \<and> (\<exists>c s. body = c # s \<and> c \<noteq> CHR ''1'')"
proof -
  obtain n where n: "b58_value 0 body = Some n"
    and raw: "take 2 (replicate (length (takeWhile (\<lambda>c. c = CHR ''1'') body)) 0 @ big_endian n) = [237, 1]"
      "length (replicate (length (takeWhile (\<lambda>c. c = CHR ''1'') body)) 0 @ big_endian n) - 2 = 32"
    using assms by (auto simp: did_key_wellformed_def b58_decode_def split: option.splits)
  have z: "takeWhile (\<lambda>c. c = CHR ''1'') body = []"
    using raw(1) by (cases "takeWhile (\<lambda>c. c = CHR ''1'') body") (auto simp: numeral_2_eq_2)
  define r where "r = drop 2 (big_endian n)"
  have be: "big_endian n = [237, 1] @ r" "length r = 32"
    using raw z append_take_drop_id [of 2 "big_endian n"] by (simp_all add: r_def)
  have "n = be_value ([237, 1] @ r)" using big_endian_value [of n] be(1) by simp
  then have "n = 60673 * 256 ^ 32 + be_value r" unfolding be_value_append by (simp add: be(2) be_value_def [of "[237, Suc 0]"])
  moreover have "be_value r < 256 ^ 32" using be_value_less [of r] big_endian_value [of n] be by simp
  moreover have "\<exists>c s. body = c # s \<and> c \<noteq> CHR ''1''"
  proof (cases body)
    case Nil
    then have "n = 0" using n by simp
    then show ?thesis using be(1) by (simp add: big_endian.simps)
  next
    case (Cons c s)
    then show ?thesis using z by (auto split: if_splits)
  qed
  ultimately show ?thesis using n by auto
qed

lemma wellformed_length:
  assumes "did_key_wellformed (JStr (did_prefix @ body))"
  shows "length body = 47"
proof -
  obtain n c s where n: "b58_value 0 body = Some n" "60673 * 256 ^ 32 \<le> n" "n < 60674 * 256 ^ 32"
    and b: "body = c # s" "c \<noteq> CHR ''1''"
    using wellformed_value [OF assms] by blast
  obtain d where d: "index_in c B58 = Some d" "b58_value d s = Some n" using n(1) b(1) by (auto split: option.splits)
  have "d \<noteq> 0" using d(1) b(2) by (auto simp: B58_def split: if_splits)
  then have low: "58 ^ length s \<le> n" using b58_value_bounds [OF d(2)]
    by (metis One_nat_def Suc_leI le_trans mult.commute mult_le_mono2 mult_numeral_1_right neq0_conv numeral_1_eq_Suc_0)
  have high: "n < 58 ^ length body" using b58_value_bounds [OF n(1)] by simp
  have "(58 :: nat) ^ 46 < 60673 * 256 ^ 32" "60674 * 256 ^ 32 < (58 :: nat) ^ 47" by simp_all
  then have p: "(58 :: nat) ^ 46 < 58 ^ length body" "(58 :: nat) ^ length s < 58 ^ 47" using low high n by linarith+
  have "46 < length body" by (rule power_less_imp_less_exp [OF _ p(1)]) simp
  moreover have "length s < 47" by (rule power_less_imp_less_exp [OF _ p(2)]) simp
  ultimately show ?thesis using b(1) by simp
qed

section \<open>What a record says\<close>

lemma evaluate_vector_record:
  assumes "evaluate_vector lib quarantine vector keys lower convention = Inr r"
  obtains token h p g header payload signature where
    "subscript vector ''aat'' = Inr (JStr token)" "split_on (CHR ''.'') token = [h, p, g]"
    "loads_segment lib h = Inr header" "loads_segment lib p = Inr payload" "decode_segment (JStr g) = Inr signature"
    "signature_state_of lib keys header h p signature = Inr (vr_signature r)"
    "window_of lib vector payload lower = Inr (vr_window r)"
    "vr_computed r = outcome_of (vr_signature r) (vr_window r)"
    "subscript vector ''expected_result'' = Inr (vr_expected r)"
    "vr_match r = (vr_expected r = JStr (vr_computed r))"
    "vr_fingerprint_match r = snd (fingerprint_match lib vector token convention)"
    "subscript vector ''id'' = Inr (vr_id r)"
    "quarantine_fields quarantine (vr_id r) = Inr (vr_quarantine r)"
  using assms
  by (auto simp: evaluate_vector_def split_token_def Let_def split: if_splits json.splits prod.splits list.splits)

lemma outcome_valid: "outcome_of sg w = VALID \<longleftrightarrow> sg = Signature_valid \<and> w = Inside"
  by (cases w) (auto simp: outcome_of_def VALID_def NBF_REJECT_def EXP_REJECT_def SIG_REJECT_def)

lemma window_inside:
  assumes "window_of lib vector payload True = Inr Inside"
  obtains v t iat exp where "subscript vector ''verification_time'' = Inr v" "parse_instant lib v = Inr (Aware_stamp t)"
    "bind_sum (subscript payload ''iat'') (rl_fromtimestamp lib) = Inr iat"
    "bind_sum (subscript payload ''exp'') (rl_fromtimestamp lib) = Inr exp" "iat \<le> t" "t \<le> exp"
proof -
  obtain v vt iat i exp e where v: "subscript vector ''verification_time'' = Inr v" "parse_instant lib v = Inr vt"
    and i: "subscript payload ''iat'' = Inr i" "rl_fromtimestamp lib i = Inr iat"
    and e: "subscript payload ''exp'' = Inr e" "rl_fromtimestamp lib e = Inr exp"
    and w: "(case vt of Naive_stamp \<Rightarrow> Inl Type_error | Aware_stamp t \<Rightarrow> Inr (classify_window t iat exp)) = Inr Inside"
    using assms unfolding window_of_def if_True by auto
  obtain t where "vt = Aware_stamp t" "iat \<le> t" "t \<le> exp"
    using w by (auto simp: classify_window_def split: stamp.splits if_splits)
  then show ?thesis using that [of v t iat exp] v i e by simp
qed

lemma signature_valid:
  "signature_state_of lib keys header h p sg = Inr Signature_valid \<longleftrightarrow>
     (\<exists>key raw. dict_get keys (get header ''kid'') = Inr (Some key) \<and>
       bind_sum (subscript key ''x'') decode_segment = Inr raw \<and> length raw = 32 \<and>
       rl_ed25519 lib raw sg (cps (h @ ''.'' @ p)))"
  by (auto simp: signature_state_of_def split: option.splits if_splits)

lemma traverse_member: "traverse f xs = Inr ys \<Longrightarrow> x \<in> set xs \<Longrightarrow> \<exists>y\<in>set ys. f x = Inr y"
  by (induction xs arbitrary: ys) auto

lemma run_fixture_record:
  assumes "run_fixture lib quarantine fixture issuer lower = Inr res"
    and "subscript fixture ''vectors'' = Inr (JArr vectors)" "vector \<in> set vectors"
  obtains keys r where "resolve_keys lib issuer = Inr keys"
    "evaluate_vector lib quarantine vector keys lower (\<not> falsy (get fixture ''integrity_convention'')) = Inr r"
    "failing r \<Longrightarrow> fx_failing res \<noteq> []"
proof -
  let ?f = "\<lambda>keys v. evaluate_vector lib quarantine v keys lower (\<not> falsy (get fixture ''integrity_convention''))"
  obtain keys records obs where k: "resolve_keys lib issuer = Inr keys"
    and t: "traverse (?f keys) vectors = Inr records" and res: "res = summarise records obs"
    using assms(1,2) by (auto simp: run_fixture_def split: if_splits)
  obtain r where "r \<in> set records" "?f keys vector = Inr r" using traverse_member [OF t assms(3)] by blast
  then show ?thesis using that [OF k] res by (auto simp: summarise_def filter_empty_conv)
qed

section \<open>Properties\<close>

text \<open>The shape check detects a lost character. A \<open>did:key\<close> that is well formed as an Ed25519 key has
  exactly 47 base58 characters after its prefix, so removing any one of them makes it ill formed.\<close>

theorem did_key_detects_lost_character:
  assumes "did_key_wellformed (JStr (did_prefix @ before @ lost # after))"
  shows "length (before @ lost # after) = 47 \<and> \<not> did_key_wellformed (JStr (did_prefix @ before @ after))"
  using wellformed_length [OF assms] wellformed_length [of "before @ after"] by auto

lemma did_key_detects_lost_character_witness:
  "length (''6MkeTG'' @ CHR ''w'' # ''HmLmuCmgg4ABYhzWVh6ZX7hTwWt8gguAretUfc9c'') = 47 \<and>
   \<not> did_key_wellformed (JStr (did_prefix @ ''6MkeTG'' @ ''HmLmuCmgg4ABYhzWVh6ZX7hTwWt8gguAretUfc9c''))"
  by (rule did_key_detects_lost_character)
    (simp add: did_key_wellformed_def did_prefix_def b58_decode_def B58_def big_endian.simps)

text \<open>C6: what exit status 0 establishes. When a run with the lower bound checked exits with 0, every vector
  of the fixture that expects \<open>valid\<close> and is not quarantined carries a three-part token whose Ed25519
  signature verifies under the 32-byte key the issuer publishes for the key id of the token's header,
  and the vector's verification time lies between the token's issue and expiry times, both included.\<close>

theorem exit_zero_attributes_valid_tokens:
  assumes "runner_main lib quarantine fixture issuer False = Inr 0"
    and "subscript fixture ''vectors'' = Inr (JArr vectors)" "vector \<in> set vectors"
    and "get vector ''expected_result'' = JStr VALID" "quarantine_fields quarantine (get vector ''id'') = Inr None"
  shows "\<exists>keys token h p g header payload signature key raw v t iat exp.
     resolve_keys lib issuer = Inr keys \<and> subscript vector ''aat'' = Inr (JStr token) \<and>
     split_on (CHR ''.'') token = [h, p, g] \<and>
     loads_segment lib h = Inr header \<and> loads_segment lib p = Inr payload \<and> decode_segment (JStr g) = Inr signature \<and>
     dict_get keys (get header ''kid'') = Inr (Some key) \<and> bind_sum (subscript key ''x'') decode_segment = Inr raw \<and>
     length raw = 32 \<and> rl_ed25519 lib raw signature (cps (h @ ''.'' @ p)) \<and>
     subscript vector ''verification_time'' = Inr v \<and> parse_instant lib v = Inr (Aware_stamp t) \<and>
     bind_sum (subscript payload ''iat'') (rl_fromtimestamp lib) = Inr iat \<and>
     bind_sum (subscript payload ''exp'') (rl_fromtimestamp lib) = Inr exp \<and> iat \<le> t \<and> t \<le> exp"
proof -
  obtain res where res: "run_fixture lib quarantine fixture issuer True = Inr res" "fx_failing res = []"
    using assms(1) by (auto simp: runner_main_def split: if_splits)
  obtain keys r where k: "resolve_keys lib issuer = Inr keys"
    and ev: "evaluate_vector lib quarantine vector keys True (\<not> falsy (get fixture ''integrity_convention'')) = Inr r"
    and f: "\<not> failing r"
    using run_fixture_record [OF res(1) assms(2,3)] res(2) by metis
  obtain token h p g header payload signature where tk: "subscript vector ''aat'' = Inr (JStr token)"
      "split_on (CHR ''.'') token = [h, p, g]" "loads_segment lib h = Inr header" "loads_segment lib p = Inr payload"
      "decode_segment (JStr g) = Inr signature"
    and sg: "signature_state_of lib keys header h p signature = Inr (vr_signature r)"
    and w: "window_of lib vector payload True = Inr (vr_window r)"
    and c: "vr_computed r = outcome_of (vr_signature r) (vr_window r)"
      "subscript vector ''expected_result'' = Inr (vr_expected r)" "vr_match r = (vr_expected r = JStr (vr_computed r))"
      "subscript vector ''id'' = Inr (vr_id r)" "quarantine_fields quarantine (vr_id r) = Inr (vr_quarantine r)"
    by (rule evaluate_vector_record [OF ev])
  have "vr_expected r = JStr VALID" "vr_id r = get vector ''id''"
    using c(2,4) assms(4) by (auto simp: subscript_def get_def split: json.splits option.splits if_splits)
  then have "vr_computed r = VALID" using f c(3,5) assms(5) by (simp add: failing_def)
  then have "vr_signature r = Signature_valid" "vr_window r = Inside" using c(1) by (simp_all add: outcome_valid)
  then obtain key raw v t iat exp where
      "dict_get keys (get header ''kid'') = Inr (Some key)" "bind_sum (subscript key ''x'') decode_segment = Inr raw"
      "length raw = 32" "rl_ed25519 lib raw signature (cps (h @ ''.'' @ p))"
    and "subscript vector ''verification_time'' = Inr v" "parse_instant lib v = Inr (Aware_stamp t)"
      "bind_sum (subscript payload ''iat'') (rl_fromtimestamp lib) = Inr iat"
      "bind_sum (subscript payload ''exp'') (rl_fromtimestamp lib) = Inr exp" "iat \<le> t" "t \<le> exp"
    using sg w signature_valid [of lib keys header h p signature] window_inside [of lib vector payload] by metis
  then show ?thesis using k tk by blast
qed

definition token_lib :: runner_lib where
  "token_lib =
     \<lparr>rl_sha256 = (\<lambda>_. []), rl_ed25519 = (\<lambda>k s m. s = [2]),
      rl_loads = (\<lambda>b. Some (if b = [0] then JObj [(''kid'', JStr ''k1'')] else JObj [(''iat'', JInt 100), (''exp'', JInt 200)])),
      rl_nfc = (\<lambda>s. s), rl_float = (\<lambda>_. []), rl_fromisoformat = (\<lambda>_. Some (Aware_stamp 150)),
      rl_fromtimestamp = (\<lambda>v. case v of JInt i \<Rightarrow> Inr i | _ \<Rightarrow> Inl Type_error), rl_fetch = (\<lambda>_. Inl Value_error)\<rparr>"

definition token_vector :: pyval where
  "token_vector =
     JObj [(''id'', JStr ''v1''), (''aat'', JStr ''AA.AQ.Ag''), (''expected_result'', JStr ''valid''),
           (''verification_time'', JStr ''2026-07-01T00:00:00Z'')]"

definition token_issuer :: pyval where
  "token_issuer =
     JObj [(''jwks_inline'', JObj [(''keys'', JArr [JObj [(''kid'', JStr ''k1''),
              (''x'', JStr ''AAAAAAAAAAAAAAAAAAAAAAAAAAAAAAAAAAAAAAAAAAA'')]])]), (''kid'', JStr ''k1'')]"

definition token_fixture :: pyval where
  "token_fixture = JObj [(''schema'', JStr ''aat-pair-v1''), (''vectors'', JArr [token_vector])]"

lemma token_run: "runner_main token_lib (JObj []) token_fixture token_issuer False = Inr 0"
  by code_simp

lemma exit_zero_attributes_valid_tokens_witness:
  "\<exists>keys token h p g header payload signature key raw v t iat exp.
     resolve_keys token_lib token_issuer = Inr keys \<and> subscript token_vector ''aat'' = Inr (JStr token) \<and>
     split_on (CHR ''.'') token = [h, p, g] \<and>
     loads_segment token_lib h = Inr header \<and> loads_segment token_lib p = Inr payload \<and>
     decode_segment (JStr g) = Inr signature \<and>
     dict_get keys (get header ''kid'') = Inr (Some key) \<and> bind_sum (subscript key ''x'') decode_segment = Inr raw \<and>
     length raw = 32 \<and> rl_ed25519 token_lib raw signature (cps (h @ ''.'' @ p)) \<and>
     subscript token_vector ''verification_time'' = Inr v \<and> parse_instant token_lib v = Inr (Aware_stamp t) \<and>
     bind_sum (subscript payload ''iat'') (rl_fromtimestamp token_lib) = Inr iat \<and>
     bind_sum (subscript payload ''exp'') (rl_fromtimestamp token_lib) = Inr exp \<and> iat \<le> t \<and> t \<le> exp"
proof (rule exit_zero_attributes_valid_tokens [OF token_run])
  show "subscript token_fixture ''vectors'' = Inr (JArr [token_vector])"
    by (simp add: token_fixture_def subscript_def)
  show "get token_vector ''expected_result'' = JStr VALID" by (simp add: token_vector_def get_def VALID_def)
  show "quarantine_fields (JObj []) (get token_vector ''id'') = Inr None"
    by (simp add: quarantine_fields_def quarantine_entry_def mget_or_def has_key_def)
qed simp

lemma rel_bind:
  "rel_sum (=) Q m n \<Longrightarrow> (\<And>x y. Q x y \<Longrightarrow> rel_sum (=) R (f x) (g y)) \<Longrightarrow> rel_sum (=) R (bind_sum m f) (bind_sum n g)"
  by (cases m; cases n) auto

lemma rel_bind_same:
  "(\<And>x. m = Inr x \<Longrightarrow> rel_sum (=) R (f x) (g x)) \<Longrightarrow> rel_sum (=) R (bind_sum m f) (bind_sum m g)"
  by (cases m) auto

lemma rel_if:
  "(c \<Longrightarrow> rel_sum E R a a') \<Longrightarrow> (\<not> c \<Longrightarrow> rel_sum E R b b') \<Longrightarrow> rel_sum E R (if c then a else b) (if c then a' else b')"
  by simp

lemma windows_related:
  "rel_sum (=) (\<lambda>w w'. w' \<noteq> Not_yet_valid \<and> (w = Not_yet_valid \<or> w' = w))
     (window_of lib vector payload True) (window_of lib vector payload False)"
  unfolding window_of_def
  by (intro rel_bind_same) (auto simp: classify_window_def split: stamp.splits)

text \<open>What the omitted lower bound hides. A run of a vector without the lower bound stops where the full run
  stops, with the same error, and otherwise finds the same signature state and never computes
  \<open>nbf_reject\<close>; its outcome is the full run's except where that is \<open>nbf_reject\<close>, which becomes \<open>valid\<close>, or
  \<open>exp_reject\<close> when the validity interval is empty.\<close>

theorem lower_bound_needed:
  "rel_sum (=)
     (\<lambda>full upper. vr_signature upper = vr_signature full \<and> vr_computed upper \<noteq> NBF_REJECT \<and>
        (if vr_computed full = NBF_REJECT then vr_computed upper \<in> {VALID, EXP_REJECT}
         else vr_computed upper = vr_computed full))
     (evaluate_vector lib quarantine vector keys True convention)
     (evaluate_vector lib quarantine vector keys False convention)"
proof -
  define R where "R = (\<lambda>(full :: vector_record) (upper :: vector_record). vr_signature upper = vr_signature full \<and> vr_computed upper \<noteq> NBF_REJECT \<and>
        (if vr_computed full = NBF_REJECT then vr_computed upper \<in> {VALID, EXP_REJECT} else vr_computed upper = vr_computed full))"
  have "rel_sum (=) R (evaluate_vector lib quarantine vector keys True convention)
      (evaluate_vector lib quarantine vector keys False convention)"
    unfolding evaluate_vector_def Let_def split_beta
    by (intro rel_bind_same rel_if rel_bind [OF windows_related])
      (auto simp: R_def outcome_of_def VALID_def NBF_REJECT_def EXP_REJECT_def SIG_REJECT_def split: window.splits)
  then show ?thesis unfolding R_def .
qed

end
