(* ===== verification/Lease_Rev2.thy ===== *)
theory Lease_Rev2
  imports Lease_Corpus
begin

text \<open>
  The runner for revision 2 of the lease-revocation-axes vectors
  (\<open>interop/rttp-iqa-lra-runner-lease-revocation-axes-8cb2e24/lra_runner.py\<close>), the program the
  revision-3 runner grew from. Its status source, its caches and the branches of its verifier are the
  ones of \<open>Lease_Verifier\<close>; its answers, its comparisons, its records and its replay are modelled here.
  The revision-3 runner claims that it leaves revision-2 runs unchanged: with its revision-3 fields
  switched off it refines this program.
\<close>

section \<open>The verifier of revision 2\<close>

record answer2 =
  a2_binding :: binding
  a2_freshness :: freshness
  a2_observation :: "observation option"
  a2_authority :: validity
  a2_current :: validity
  a2_accepted :: bool
  a2_action :: decision

definition answer_of2 ::
  "mutant \<Rightarrow> lease_decl \<Rightarrow> bool \<Rightarrow> bool \<Rightarrow> observation option \<Rightarrow> call \<Rightarrow> evidence \<Rightarrow> answer2" where
  "answer_of2 mu d bound fresh ob c e =
     \<lparr>a2_binding = (if bound then Matched else Mismatch),
      a2_freshness = (if fresh then Fresh else Expired),
      a2_observation = ob,
      a2_authority = scoped_answer ob,
      a2_current = validity_at c ob,
      a2_accepted = (bound \<and> fresh \<and> scoped_answer ob = Valid),
      a2_action = decide_action mu d bound fresh (validity_at c ob) c e\<rparr>"

definition verifier_call2 ::
  "mutant \<Rightarrow> lease_decl \<Rightarrow> verifier \<Rightarrow> source \<Rightarrow> downstream \<Rightarrow> call \<Rightarrow> evidence
   \<Rightarrow> lra_error + answer2 \<times> verifier \<times> source \<times> downstream" where
  "verifier_call2 mu d v s down c e =
     (let bound = bound_to mu c e in
      bind_sum (prefetch mu (d_mode d) bound c s) (\<lambda>(prefetched, s1).
        let fresh = renewed_fresh prefetched (lease_fresh mu (d_boundary d) v c e) c e in
        bind_sum (observe mu (d_mode d) v fresh bound c e prefetched s1) (\<lambda>(ob, v2, s2).
          let v3 = v2\<lparr>previous_use := (previous_use v2)(ev_id e \<mapsto> at_ms c)\<rparr>;
              ans = answer_of2 mu d bound fresh ob c e in
          Inr (ans, v3, s2, if dispatches mu (a2_action ans) then execute down (call_id c) else down))))"

section \<open>Grading one call\<close>

record graded2 =
  h_call :: call
  h_evidence :: evidence
  h_mode :: mode
  h_expired :: bool
  h_answer :: answer2
  h_reads :: "read_event list"
  h_truth :: status
  h_down :: downstream
  h_expected :: expected

definition rejected_input2 :: "graded2 \<Rightarrow> bool" where
  "rejected_input2 h = (h_expired h \<or> grant (h_call h) \<noteq> ev_grant (h_evidence h))"

definition diagnostic2 :: "graded2 \<Rightarrow> bool" where
  "diagnostic2 h = (rejected_input2 h \<and> a2_observation (h_answer h) \<noteq> None)"

definition mismatch2 :: "graded2 \<Rightarrow> bool" where
  "mismatch2 h = (case a2_observation (h_answer h) of None \<Rightarrow> False | Some ob \<Rightarrow> ob_status ob \<noteq> h_truth h)"

definition source_checks2 :: "graded2 \<Rightarrow> checks" where
  "source_checks2 h =
     (if \<not> rejected_input2 h then
        (''source_read_contract'', length (h_reads h) = (if h_mode h = Live_standing_read then 1 else 0))
        # (if h_mode h = Live_standing_read \<and> length (h_reads h) = 1
           then [(''source_observation_binding'', a2_observation (h_answer h) = re_observation (hd (h_reads h)))]
           else [])
      else [])
     @ concat (map (\<lambda>r. [(''source_read_worker'', re_worker r = worker (h_call h)),
                         (''source_read_grant'', re_grant r = grant (h_call h)),
                         (''source_read_time'', re_at_ms r = at_ms (h_call h))]) (h_reads h))
     @ (if diagnostic2 h
        then [(''diagnostic_observation_provenance'',
               list_ex (\<lambda>r. re_observation r = a2_observation (h_answer h)) (h_reads h))]
        else [])"

definition binding_checks2 :: "graded2 \<Rightarrow> checks" where
  "binding_checks2 h = [(''evidence_binding'', a2_binding (h_answer h) = x_binding (h_expected h))]"

definition authority_checks2 :: "graded2 \<Rightarrow> checks" where
  "authority_checks2 h =
     (let a = h_answer h; x = h_expected h in
      if diagnostic2 h then
        (let ob = the (a2_observation a); state = validity_of (ob_status ob) in
         [(''diagnostic_scoped_answer'', a2_authority a = state),
          (''diagnostic_current_validity'', a2_current a =
             (if as_of_ms ob = at_ms (h_call h) then state else Not_established_validity))])
      else
        [(''observation'', a2_observation a = x_observation x),
         (''scoped_answer'', a2_authority a = x_authority_answer x),
         (''current_validity'', a2_current a = x_current_validity x),
         (''answer_differs_from_truth'', mismatch2 h = x_differs_from_truth x)])"

definition action_checks2 :: "graded2 \<Rightarrow> checks" where
  "action_checks2 h =
     [(''action_decision'', a2_action (h_answer h) = x_action_decision (h_expected h)),
      (''downstream_reached'', reached (h_down h) (call_id (h_call h)) = x_downstream_reached (h_expected h))]"

definition axis_checks2 :: "graded2 \<Rightarrow> support \<Rightarrow> axis \<Rightarrow> checks" where
  "axis_checks2 h spt axis =
     (case spt of
        Axis_not_claimed \<Rightarrow>
          (if axis = Action_authorization
           then [(''unclaimed_action'', a2_action (h_answer h) = Not_claimed),
                 (''unclaimed_dispatch'', \<not> reached (h_down h) (call_id (h_call h)))]
           else [])
      | Axis_not_supported \<Rightarrow>
          [(''unsupported_mapping_answer'', a2_action (h_answer h) = Not_supported),
           (''unsupported_dispatch'', \<not> reached (h_down h) (call_id (h_call h)))]
      | Supported \<Rightarrow>
          (case axis of
             Evidence_freshness \<Rightarrow>
               [(''evidence_freshness'', a2_freshness (h_answer h) = x_freshness (h_expected h))]
           | Authority_validity \<Rightarrow> authority_checks2 h
           | Action_authorization \<Rightarrow> action_checks2 h))"

definition composite_checks2 :: "axis list \<Rightarrow> graded2 \<Rightarrow> checks" where
  "composite_checks2 claimed h =
     (if Evidence_freshness \<in> set claimed \<and> Authority_validity \<in> set claimed
      then [(''verification_accepted'', a2_accepted (h_answer h) = x_verification_accepted (h_expected h))]
      else [])"

definition call_checks2 :: "axis list \<Rightarrow> string \<Rightarrow> graded2 \<Rightarrow> checks" where
  "call_checks2 claimed policy h =
     source_checks2 h @ binding_checks2 h
     @ concat (map (\<lambda>axis. axis_checks2 h (axis_mapping claimed policy axis) axis) AXES)
     @ composite_checks2 claimed h"

definition assess_call2 :: "axis list \<Rightarrow> string \<Rightarrow> graded2 \<Rightarrow> assessment" where
  "assess_call2 claimed policy h =
     \<lparr>source_contract = assess_checks (source_checks2 h),
      as_binding = assess_checks (binding_checks2 h),
      as_axis = (\<lambda>axis. case axis_mapping claimed policy axis of
         Axis_not_claimed \<Rightarrow> A_not_claimed
       | Axis_not_supported \<Rightarrow> A_not_supported
       | Supported \<Rightarrow>
           (if axis = Authority_validity \<and> assess_checks (source_checks2 h) = A_failed then A_failed
            else assess_checks (axis_checks2 h Supported axis))),
      verification_outcome =
        (if Evidence_freshness \<in> set claimed \<and> Authority_validity \<in> set claimed
         then assess_checks (composite_checks2 claimed h) else A_not_claimed)\<rparr>"

section \<open>The replay\<close>

record call_record2 =
  q_call :: call
  q_evidence_id :: string
  q_claim_scope :: claim_scope
  q_truth :: status
  q_answer :: answer2
  q_observation_age_ms :: "int option"
  q_differs :: bool
  q_downstream_reached :: bool
  q_reads :: "read_event list"
  q_assessment :: assessment

record run_state2 =
  ru_source :: source
  ru_down :: downstream
  ru_workers :: "(string \<times> verifier) list"
  ru_failures :: "(string \<times> string) list"
  ru_records :: "call_record2 list"
  ru_scored :: nat
  ru_composite :: nat
  ru_not_claimed :: nat
  ru_not_supported :: nat
  ru_last_ms :: int

record run_config2 =
  kc_profile :: profile
  kc_mode :: mode
  kc_boundary :: boundary
  kc_mutant :: mutant
  kc_claimed :: "axis list"
  kc_policy :: string

definition decl_of2 :: "run_config2 \<Rightarrow> lease_decl" where
  "decl_of2 k = \<lparr>d_mode = kc_mode k, d_boundary = kc_boundary k, claimed_axes = kc_claimed k,
                 action_policy = kc_policy k\<rparr>"

definition count_support2 :: "run_config2 \<Rightarrow> support \<Rightarrow> nat" where
  "count_support2 k spt = length (filter (\<lambda>a. axis_mapping (kc_claimed k) (kc_policy k) a = spt) AXES)"

definition call_record_of :: "run_config2 \<Rightarrow> graded2 \<Rightarrow> call_record2" where
  "call_record_of k h =
     \<lparr>q_call = h_call h, q_evidence_id = ev_id (h_evidence h),
      q_claim_scope =
        (if kc_mode k = Cached_lease \<and> \<not> diagnostic2 h
         then Bounded_observation (lease_ms (kc_profile k)) (lease_anchor (kc_profile k))
         else Current_observation (current_observation_max_age_ms (kc_profile k))),
      q_truth = h_truth h, q_answer = h_answer h,
      q_observation_age_ms = map_option (\<lambda>ob. at_ms (h_call h) - as_of_ms ob) (a2_observation (h_answer h)),
      q_differs = mismatch2 h, q_downstream_reached = reached (h_down h) (call_id (h_call h)),
      q_reads = h_reads h, q_assessment = assess_call2 (kc_claimed k) (kc_policy k) h\<rparr>"

definition record_call2 :: "run_config2 \<Rightarrow> run_state2 \<Rightarrow> source \<Rightarrow> string \<Rightarrow> verifier \<Rightarrow> graded2 \<Rightarrow> run_state2" where
  "record_call2 k ru src w v h =
     ru\<lparr>ru_source := src, ru_down := h_down h,
        ru_workers := AList.update w v (ru_workers ru),
        ru_failures := ru_failures ru @ sponge (call_id (h_call h)) (call_checks2 (kc_claimed k) (kc_policy k) h),
        ru_records := ru_records ru @ [call_record_of k h],
        ru_scored := ru_scored ru + count_support2 k Supported,
        ru_not_claimed := ru_not_claimed ru + count_support2 k Axis_not_claimed,
        ru_not_supported := ru_not_supported ru + count_support2 k Axis_not_supported,
        ru_composite := ru_composite ru +
          (if Evidence_freshness \<in> set (kc_claimed k) \<and> Authority_validity \<in> set (kc_claimed k) then 1 else 0)\<rparr>"

definition call_expired2 :: "run_config2 \<Rightarrow> call \<Rightarrow> evidence \<Rightarrow> bool" where
  "call_expired2 k c e =
     (case kc_boundary k of Exclusive \<Rightarrow> expires_at_ms e \<le> at_ms c | Inclusive \<Rightarrow> expires_at_ms e < at_ms c)"

definition step_call2 :: "run_config2 \<Rightarrow> run_state2 \<Rightarrow> call_event \<Rightarrow> lra_error + run_state2" where
  "step_call2 k ru ev =
     (let c = ce_call ev in
      case select_evidence (kc_profile k) ev of
        None \<Rightarrow> Inl (AssertionError (''no evidence for call '' @ call_id c))
      | Some e \<Rightarrow>
          let expired = call_expired2 k c e;
              verifier = (case map_of (ru_workers ru) (worker c) of None \<Rightarrow> new_verifier | Some v \<Rightarrow> v) in
          bind_sum (begin_call (ru_source ru) c (expired \<or> grant c \<noteq> ev_grant e)) (\<lambda>s1.
          bind_sum (verifier_call2 (kc_mutant k) (decl_of2 k) verifier s1 (ru_down ru) c e) (\<lambda>(ans, v', s2, down').
            case states s2 (grant c) of
              None \<Rightarrow> Inl (KeyError (grant c))
            | Some truth \<Rightarrow>
                if truth \<noteq> ce_truth ev then Inl (AssertionError ''authored truth disagrees with timeline'')
                else
                  let h = \<lparr>h_call = c, h_evidence = e, h_mode = kc_mode k, h_expired = expired, h_answer = ans,
                           h_reads = drop (length (reads (ru_source ru))) (reads s2), h_truth = ce_truth ev,
                           h_down = down', h_expected = ce_expected ev (kc_mode k) (kc_boundary k)\<rparr> in
                  Inr (record_call2 k ru (end_call s2) (worker c) v' h))))"

definition step2 :: "run_config2 \<Rightarrow> run_state2 \<Rightarrow> event \<Rightarrow> lra_error + run_state2" where
  "step2 k ru ev =
     (if event_at ev < ru_last_ms ru then Inl (AssertionError ''nonmonotonic clock'')
      else
        (let ru' = ru\<lparr>ru_last_ms := event_at ev\<rparr>; src = ru_source ru' in
         case ev of
           Revoke t g \<Rightarrow>
             (if states src g = None then Inl (AssertionError ''revoke of an unknown grant'')
              else Inr (ru'\<lparr>ru_source := src\<lparr>states := (states src)(g \<mapsto> Revoked)\<rparr>\<rparr>))
         | Availability t a \<Rightarrow> Inr (ru'\<lparr>ru_source := src\<lparr>available := a\<rparr>\<rparr>)
         | Call_event ce \<Rightarrow> step_call2 k ru' ce))"

fun steps2 :: "run_config2 \<Rightarrow> run_state2 \<Rightarrow> event list \<Rightarrow> lra_error + run_state2" where
  "steps2 k ru [] = Inr ru"
| "steps2 k ru (ev # evs) = bind_sum (step2 k ru ev) (\<lambda>ru'. steps2 k ru' evs)"

definition initial_run2 :: "run_config2 \<Rightarrow> run_state2" where
  "initial_run2 k =
     \<lparr>ru_source = \<lparr>states = map_of (map (\<lambda>e. (ev_grant e, Active)) (initial_evidence (kc_profile k))),
                  available = True, reads = [], current = None\<rparr>,
      ru_down = {}, ru_workers = [], ru_failures = [], ru_records = [], ru_scored = 0,
      ru_composite = 0, ru_not_claimed = 0, ru_not_supported = 0, ru_last_ms = -1\<rparr>"

definition status_of2 :: "run_state2 \<Rightarrow> run_status" where
  "status_of2 ru =
     (if ru_failures ru \<noteq> [] then Run_failed
      else if ru_scored ru = 0 then No_scored_coverage
      else if ru_not_supported ru > 0 then Partial_coverage
      else Run_matched)"

definition run_case2 :: "run_config2 \<Rightarrow> event list \<Rightarrow> lra_error + run_status \<times> run_state2" where
  "run_case2 k timeline =
     bind_sum (steps2 k (initial_run2 k) timeline) (\<lambda>ru. Inr (status_of2 ru, ru))"

section \<open>What revision 3 adds\<close>

definition answer_abs :: "answer \<Rightarrow> answer2" where
  "answer_abs a = \<lparr>a2_binding = evidence_binding a, a2_freshness = evidence_freshness a, a2_observation = an_observation a,
     a2_authority = authority_answer a, a2_current = current_validity a, a2_accepted = verification_accepted a,
     a2_action = action_decision a\<rparr>"

definition graded_abs :: "graded \<Rightarrow> graded2" where
  "graded_abs g = \<lparr>h_call = g_call g, h_evidence = g_evidence g, h_mode = g_mode g, h_expired = g_expired g,
     h_answer = answer_abs (g_answer g), h_reads = g_reads g, h_truth = g_truth g, h_down = g_down g,
     h_expected = g_expected g\<rparr>"

definition record_abs :: "call_record \<Rightarrow> call_record2" where
  "record_abs r = \<lparr>q_call = r_call r, q_evidence_id = r_evidence_id r, q_claim_scope = r_claim_scope r,
     q_truth = r_truth r, q_answer = answer_abs (r_answer r), q_observation_age_ms = r_observation_age_ms r,
     q_differs = r_differs r, q_downstream_reached = r_downstream_reached r, q_reads = r_reads r,
     q_assessment = r_assessment r\<rparr>"

definition run_abs :: "run_state \<Rightarrow> run_state2" where
  "run_abs rs = \<lparr>ru_source = rs_source rs, ru_down = rs_down rs, ru_workers = rs_workers rs,
     ru_failures = rs_failures rs, ru_records = map record_abs (rs_records rs), ru_scored = rs_scored rs,
     ru_composite = rs_composite rs, ru_not_claimed = rs_not_claimed rs, ru_not_supported = rs_not_supported rs,
     ru_last_ms = rs_last_ms rs\<rparr>"

definition as_revision3 :: "run_config2 \<Rightarrow> run_config" where
  "as_revision3 k = \<lparr>rc_profile = kc_profile k, rc_mode = kc_mode k, rc_boundary = kc_boundary k,
     rc_mutant = kc_mutant k, rc_claimed = kc_claimed k, rc_policy = kc_policy k, rc_extras = False\<rparr>"

lemma as_revision3_simps [simp]:
  "rc_profile (as_revision3 k) = kc_profile k" "rc_mode (as_revision3 k) = kc_mode k"
  "rc_boundary (as_revision3 k) = kc_boundary k" "rc_mutant (as_revision3 k) = kc_mutant k"
  "rc_claimed (as_revision3 k) = kc_claimed k" "rc_policy (as_revision3 k) = kc_policy k"
  "\<not> rc_extras (as_revision3 k)" "decl_of (as_revision3 k) = decl_of2 k"
  by (simp_all add: as_revision3_def decl_of_def decl_of2_def)

lemma answer_of_abs: "answer_abs (answer_of mu d extras bound fresh ob c e) = answer_of2 mu d bound fresh ob c e"
  by (simp add: answer_abs_def answer_of_def answer_of2_def Let_def)

lemma action_abs [simp]: "a2_action (answer_abs a) = action_decision a"
  by (simp add: answer_abs_def)

lemma verifier_call_abs:
  "verifier_call2 mu d v s down c e =
     bind_sum (verifier_call mu d extras v s down c e) (\<lambda>(a, v', s', down'). Inr (answer_abs a, v', s', down'))"
proof (cases "prefetch mu (d_mode d) (bound_to mu c e) c s")
  case (Inr p)
  obtain pre s1 where p: "p = (pre, s1)" by (cases p)
  let ?fresh = "renewed_fresh pre (lease_fresh mu (d_boundary d) v c e) c e"
  show ?thesis
    using Inr p answer_of_abs [of mu d extras "bound_to mu c e" ?fresh _ c e, symmetric]
    by (cases "observe mu (d_mode d) v ?fresh (bound_to mu c e) c e pre s1")
      (auto simp: verifier_call_def verifier_call2_def Let_def)
qed (simp add: verifier_call_def verifier_call2_def Let_def)

lemma answer_abs_simps [simp]:
  "a2_binding (answer_abs a) = evidence_binding a" "a2_freshness (answer_abs a) = evidence_freshness a"
  "a2_observation (answer_abs a) = an_observation a" "a2_authority (answer_abs a) = authority_answer a"
  "a2_current (answer_abs a) = current_validity a" "a2_accepted (answer_abs a) = verification_accepted a"
  by (simp_all add: answer_abs_def)

lemma graded_abs_simps [simp]:
  "h_call (graded_abs g) = g_call g" "h_evidence (graded_abs g) = g_evidence g" "h_mode (graded_abs g) = g_mode g"
  "h_expired (graded_abs g) = g_expired g" "h_answer (graded_abs g) = answer_abs (g_answer g)"
  "h_reads (graded_abs g) = g_reads g" "h_truth (graded_abs g) = g_truth g" "h_down (graded_abs g) = g_down g"
  "h_expected (graded_abs g) = g_expected g"
  by (simp_all add: graded_abs_def)

lemma judgements_abs [simp]:
  "rejected_input2 (graded_abs g) = rejected_input g" "diagnostic2 (graded_abs g) = diagnostic g"
  "mismatch2 (graded_abs g) = mismatch g"
  by (simp_all add: rejected_input_def rejected_input2_def diagnostic_def diagnostic2_def mismatch_def mismatch2_def split: option.split)

lemma source_checks_abs [simp]: "source_checks2 (graded_abs g) = source_checks g"
  by (simp add: source_checks_def source_checks2_def)

lemma binding_checks_abs [simp]: "binding_checks2 (graded_abs g) = binding_checks g"
  by (simp add: binding_checks_def binding_checks2_def)

lemma axis_checks_abs: "\<not> g_extras g \<Longrightarrow> axis_checks2 (graded_abs g) = axis_checks g"
  by (intro ext) (simp add: axis_checks_def axis_checks2_def authority_checks_def authority_checks2_def
      action_checks_def action_checks2_def Let_def split: support.split axis.split)

lemma composite_checks_abs [simp]: "composite_checks2 claimed (graded_abs g) = composite_checks claimed g"
  by (simp add: composite_checks_def composite_checks2_def composite_claimed_def)

lemma call_checks_abs: "\<not> g_extras g \<Longrightarrow> call_checks2 claimed policy (graded_abs g) = call_checks claimed policy g"
  by (simp add: call_checks_def call_checks2_def axis_checks_abs)

lemma assess_call_abs: "\<not> g_extras g \<Longrightarrow> assess_call2 claimed policy (graded_abs g) = assess_call claimed policy g"
  unfolding assess_call_def assess_call2_def source_checks_abs binding_checks_abs composite_checks_abs composite_claimed_def
  by (subst axis_checks_abs) simp_all

lemma record_call_abs:
  assumes "\<not> g_extras g"
  shows "record_call2 k (run_abs rs) src w v (graded_abs g) = run_abs (record_call (as_revision3 k) rs src w v g)"
  using assms
  by (simp add: record_call2_def run_abs_def call_record_of_def record_abs_def call_checks_abs assess_call_abs
      scope_of_def count_support_def count_support2_def composite_claimed_def)

lemma call_expired_abs: "call_expired2 k c e = call_expired (as_revision3 k) c e"
  by (auto simp: call_expired2_def call_expired_def lease_within_def split: boundary.split)

lemma step_call_abs: "step_call2 k (run_abs rs) ev = bind_sum (step_call (as_revision3 k) rs ev) (\<lambda>r. Inr (run_abs r))"
proof -
  have run: "ru_source (run_abs rs) = rs_source rs" "ru_workers (run_abs rs) = rs_workers rs" "ru_down (run_abs rs) = rs_down rs"
    by (simp_all add: run_abs_def)
  show ?thesis
  proof (cases "select_evidence (kc_profile k) ev")
    case (Some e)
    define x where "x = call_expired (as_revision3 k) (ce_call ev) e"
    have rec: "record_call2 k (run_abs rs) src w v (graded_abs (graded_of (as_revision3 k) rs ev e ans s2 down')) =
        run_abs (record_call (as_revision3 k) rs src w v (graded_of (as_revision3 k) rs ev e ans s2 down'))"
      for src w v ans s2 down'
      by (rule record_call_abs) (simp add: graded_of_def)
    have gr: "graded_abs (graded_of (as_revision3 k) rs ev e ans s2 down') =
        \<lparr>h_call = ce_call ev, h_evidence = e, h_mode = kc_mode k, h_expired = x, h_answer = answer_abs ans,
         h_reads = drop (length (reads (rs_source rs))) (reads s2), h_truth = ce_truth ev,
         h_down = down', h_expected = ce_expected ev (kc_mode k) (kc_boundary k)\<rparr>" for ans s2 down'
      by (simp add: graded_of_def graded_abs_def x_def)
    show ?thesis
    proof (cases "begin_call (rs_source rs) (ce_call ev) (x \<or> grant (ce_call ev) \<noteq> ev_grant e)")
      case (Inr s1)
      let ?v = "verifier_call (kc_mutant k) (decl_of2 k) False (worker_of rs (worker (ce_call ev))) s1 (rs_down rs) (ce_call ev) e"
      show ?thesis
        using Some Inr
        by (cases ?v)
          (auto simp: step_call2_def step_call_def Let_def run call_expired_abs x_def [symmetric] worker_of_def [symmetric]
            verifier_call_abs [where extras = False] gr [symmetric] rec split: option.splits)
    qed (use Some in \<open>simp add: step_call2_def step_call_def Let_def run call_expired_abs x_def\<close>)
  qed (simp add: step_call2_def step_call_def Let_def)
qed

lemma step_abs: "step2 k (run_abs rs) ev = bind_sum (step (as_revision3 k) rs ev) (\<lambda>r. Inr (run_abs r))"
proof -
  have "rs_last_ms rs = ru_last_ms (run_abs rs)" "(run_abs rs)\<lparr>ru_last_ms := t\<rparr> = run_abs (rs\<lparr>rs_last_ms := t\<rparr>)" for t
    by (simp_all add: run_abs_def)
  then show ?thesis
    by (cases ev) (simp_all add: step2_def step_def Let_def step_call_abs, auto simp: run_abs_def)
qed

lemma steps_abs: "steps2 k (run_abs rs) evs = bind_sum (steps (as_revision3 k) rs evs) (\<lambda>r. Inr (run_abs r))"
proof (induction evs arbitrary: rs)
  case (Cons ev evs)
  then show ?case by (cases "step (as_revision3 k) rs ev") (simp_all add: step_abs)
qed simp

section \<open>Properties\<close>

text \<open>C9: the revision-3 runner with its new fields switched off refines the revision-2 runner. On every profile, mode,
  boundary, defective variant, claim set, policy and timeline the two stop with the same error, or return the
  same status and, field by field, the same final state: the same source and worker memories, dispatches,
  failures in the same order, counters, and call records up to the two fields revision 3 adds to an answer.\<close>

theorem revision3_refines_revision2:
  "run_case2 k timeline =
     bind_sum (run_case (as_revision3 k) timeline) (\<lambda>(status, rs). Inr (status, run_abs rs))"
proof -
  have "initial_run2 k = run_abs (initial_run (as_revision3 k))"
    by (simp add: initial_run_def initial_run2_def run_abs_def)
  moreover have "status_of2 (run_abs rs) = status_of rs" for rs
    by (simp add: status_of_def status_of2_def run_abs_def)
  ultimately show ?thesis
    by (cases "steps (as_revision3 k) (initial_run (as_revision3 k)) timeline")
      (simp_all add: run_case2_def run_case_def steps_abs)
qed

end
