(* ===== verification/Receipts.thy ===== *)
theory Receipts
  imports Codec Python_Values
begin

text \<open>
  \<open>runners/aeoess_receipt_runner.py\<close>: the runner for signed receipts: closed-schema validation, the
  receipt id, the signatures, and the grading of a vector file. Parameters: SHA-256, Ed25519 under a
  raw key, and the text of a floating point number. A receipt that is a string or a list, and a list
  in the place of an evidence reference or a signature whose elements are not all strings, end in
  \<open>Unmodelled\<close>; the text of an error keeps its label.
\<close>

record receipt_lib =
  cl_sha256 :: "byte list \<Rightarrow> byte list"
  cl_ed25519 :: "byte list \<Rightarrow> byte list \<Rightarrow> byte list \<Rightarrow> bool"
  cl_float :: "rat \<Rightarrow> cp list"

datatype receipt_exn = Rx py_error | Unmodelled

definition rx :: "py_error + 'a \<Rightarrow> receipt_exn + 'a" where
  "rx x = (case x of Inl e \<Rightarrow> Inl (Rx e) | Inr y \<Rightarrow> Inr y)"

lemma rx_Inr [simp]: "rx m = Inr x \<longleftrightarrow> m = Inr x"
  by (simp add: rx_def split: sum.splits)

section \<open>Serialisation\<close>

definition RECEIPT_ID_TAG :: "byte list" where
  "RECEIPT_ID_TAG = cps ''APS-RECEIPT-ID-V1''"

definition RECEIPT_SIG_TAG :: "byte list" where
  "RECEIPT_SIG_TAG = cps ''APS-RECEIPT-SIG-V1''"

definition receipt_jcs :: "receipt_lib \<Rightarrow> jval \<Rightarrow> cp list" where
  "receipt_jcs lib obj = dumps_sorted (cl_float lib) obj"

definition receipt_compact :: "receipt_lib \<Rightarrow> jval \<Rightarrow> cp list" where
  "receipt_compact lib obj = dumps_compact (cl_float lib) obj"

definition ascii_str :: "string \<Rightarrow> bool" where
  "ascii_str s = list_all (\<lambda>c. of_char c < (128 :: nat)) s"

fun all_ascii :: "pyval \<Rightarrow> bool" where
  "all_ascii (JStr s) = ascii_str s"
| "all_ascii (JObj ms) = list_all (\<lambda>(k, v). ascii_str k \<and> all_ascii v) ms"
| "all_ascii (JArr xs) = list_all all_ascii xs"
| "all_ascii _ = True"

definition assert_ascii :: "pyval \<Rightarrow> py_error + unit" where
  "assert_ascii obj = (if all_ascii obj then Inr () else Inl Value_error)"

definition receipt_sha256_hex :: "receipt_lib \<Rightarrow> byte list \<Rightarrow> string" where
  "receipt_sha256_hex lib data = hexdigest (cl_sha256 lib data)"

definition is_hex :: "pyval \<Rightarrow> nat \<Rightarrow> bool" where
  "is_hex v n = (case v of JStr s \<Rightarrow> length s = n \<and> list_all (\<lambda>c. c \<in> set ''0123456789abcdef'') s | _ \<Rightarrow> False)"

section \<open>Validation\<close>

definition RECEIPT_ALLOWED :: "string list" where
  "RECEIPT_ALLOWED = [''profile'', ''receipt_id'', ''receipt_type'', ''issuer'', ''subject_agent'',
     ''action_ref'', ''delegation_ref'', ''decision_ref'', ''issued_at'', ''evidence_refs'', ''result'', ''prev'', ''signatures'']"

definition RECEIPT_REQUIRED :: "string list" where
  "RECEIPT_REQUIRED = [''profile'', ''receipt_id'', ''receipt_type'', ''issuer'', ''subject_agent'',
     ''action_ref'', ''delegation_ref'', ''issued_at'', ''evidence_refs'', ''result'', ''signatures'']"

definition SIG_KEYS :: "string list" where
  "SIG_KEYS = [''signer'', ''key_id'', ''alg'', ''value'']"

definition EVIDENCE_KEYS :: "string list" where
  "EVIDENCE_KEYS = [''artifact_type'', ''sha256'']"

datatype receipt_error = Unknown_field string | Missing_field string | Bad_field string
  | Evidence_value | Duplicate_evidence | Evidence_unsorted
  | Signature_value | Duplicate_signature | Signatures_unsorted | Issuer_signature_missing
  | Receipt_id_mismatch | Signature_invalid_error

definition error_if :: "bool \<Rightarrow> receipt_error \<Rightarrow> receipt_error list" where
  "error_if b e = (if b then [e] else [])"

definition field_errors :: "pyval \<Rightarrow> receipt_error list" where
  "field_errors r =
     map (\<lambda>(k, v). Unknown_field k) (filter (\<lambda>(k, v). k \<notin> set RECEIPT_ALLOWED) (members r))
     @ map Missing_field (filter (\<lambda>k. \<not> has_key r k) RECEIPT_REQUIRED)"

definition timestamp_ok :: "pyval \<Rightarrow> bool" where
  "timestamp_ok ts =
     (case ts of
        JStr t \<Rightarrow> length t = 24 \<and> t ! 4 = CHR ''-'' \<and> t ! 7 = CHR ''-'' \<and> t ! 10 = CHR ''T'' \<and> t ! 13 = CHR '':''
          \<and> t ! 16 = CHR '':'' \<and> t ! 19 = CHR ''.'' \<and> t ! 23 = CHR ''Z''
      | _ \<Rightarrow> False)"

definition scalar_errors :: "pyval \<Rightarrow> receipt_error list" where
  "scalar_errors r =
     error_if (\<not> py_eq (get r ''profile'') (JStr ''aps-receipt-v1'')) (Bad_field ''profile'')
     @ error_if (falsy (get r ''receipt_type'') \<or> falsy (get r ''issuer'') \<or> falsy (get r ''subject_agent'')
                 \<or> falsy (get r ''delegation_ref'')) (Bad_field ''empty identifier'')
     @ error_if (\<not> is_hex (get r ''receipt_id'') 64) (Bad_field ''receipt_id'')
     @ error_if (\<not> is_hex (get r ''action_ref'') 64) (Bad_field ''action_ref'')
     @ error_if (has_key r ''decision_ref'' \<and> \<not> is_hex (get r ''decision_ref'') 64) (Bad_field ''decision_ref'')
     @ error_if (has_key r ''prev'' \<and> \<not> is_hex (get r ''prev'') 64) (Bad_field ''prev'')
     @ error_if (\<not> timestamp_ok (get r ''issued_at'')) (Bad_field ''issued_at'')
     @ error_if (\<not> is_dict (get r ''result'')) (Bad_field ''result'')"

text \<open>\<open>sorted(x) == sorted(keys)\<close>, and what a later subscript makes of a list that passes the test\<close>

definition has_shape :: "string list \<Rightarrow> pyval \<Rightarrow> receipt_exn + bool" where
  "has_shape keys x =
     (case x of
        JObj ms \<Rightarrow> Inr (sort (map fst ms) = sort keys)
      | JStr s \<Rightarrow> Inr (sort (map (\<lambda>c. [c]) s) = sort keys)
      | JArr xs \<Rightarrow>
          (if \<not> list_all is_str xs then Inl Unmodelled
           else if sort (map str_of xs) = sort keys then Inl (Rx Type_error) else Inr False)
      | _ \<Rightarrow> Inl (Rx Type_error))"

definition encode_field :: "pyval \<Rightarrow> py_error + string" where
  "encode_field v = (case v of JStr s \<Rightarrow> Inr s | _ \<Rightarrow> Inl Attribute_error)"

type_synonym sort_pair = "string \<times> string"

record order_state =
  os_seen :: "sort_pair list"
  os_prev :: "sort_pair option"
  os_errs :: "receipt_error list"

definition order_step :: "receipt_error \<Rightarrow> receipt_error \<Rightarrow> receipt_error list \<Rightarrow> sort_pair \<Rightarrow> order_state \<Rightarrow> order_state" where
  "order_step dup unsorted value_errs key st =
     st\<lparr>os_errs := os_errs st @ value_errs @ error_if (key \<in> set (os_seen st)) dup
          @ error_if (case os_prev st of None \<Rightarrow> False | Some p \<Rightarrow> p \<ge> key) unsorted,
        os_seen := key # os_seen st, os_prev := Some key\<rparr>"

definition evidence_step :: "pyval \<Rightarrow> order_state \<Rightarrow> receipt_exn + order_state" where
  "evidence_step ref st =
     bind_sum (has_shape EVIDENCE_KEYS ref) (\<lambda>ok.
       if \<not> ok then Inr (st\<lparr>os_errs := os_errs st @ [Evidence_value]\<rparr>)
       else
         bind_sum (rx (encode_field (get ref ''artifact_type''))) (\<lambda>t.
         bind_sum (rx (encode_field (get ref ''sha256''))) (\<lambda>h.
           Inr (order_step Duplicate_evidence Evidence_unsorted
                  (error_if (falsy (get ref ''artifact_type'') \<or> \<not> is_hex (get ref ''sha256'') 64) Evidence_value) (t, h) st))))"

definition signature_step :: "pyval \<Rightarrow> order_state \<Rightarrow> receipt_exn + order_state" where
  "signature_step p st =
     bind_sum (has_shape SIG_KEYS p) (\<lambda>ok.
       if \<not> ok then Inr (st\<lparr>os_errs := os_errs st @ [Signature_value]\<rparr>)
       else
         bind_sum (rx (encode_field (get p ''signer''))) (\<lambda>s.
         bind_sum (rx (encode_field (get p ''key_id''))) (\<lambda>k.
           Inr (order_step Duplicate_signature Signatures_unsorted
                  (error_if (falsy (get p ''signer'') \<or> falsy (get p ''key_id'') \<or> \<not> py_eq (get p ''alg'') (JStr ''Ed25519'')
                             \<or> \<not> is_hex (get p ''value'') 128) Signature_value) (s, k) st))))"

definition fresh_order :: "receipt_error list \<Rightarrow> order_state" where
  "fresh_order errs = \<lparr>os_seen = [], os_prev = None, os_errs = errs\<rparr>"

definition validate_receipt :: "pyval \<Rightarrow> receipt_exn + receipt_error list" where
  "validate_receipt r =
     (case r of
        JObj ms \<Rightarrow>
          (if field_errors r \<noteq> [] then Inr (field_errors r)
           else
             let errs = scalar_errors r; refs = get r ''evidence_refs''; sigs = get r ''signatures'' in
             if \<not> is_list refs \<or> \<not> is_list sigs then Inr (errs @ [Bad_field ''arrays''])
             else
               bind_sum (loop evidence_step (elements refs) (fresh_order errs)) (\<lambda>st.
               bind_sum (loop signature_step (elements sigs) (fresh_order (os_errs st))) (\<lambda>st2.
               bind_sum (rx (any_of (\<lambda>p. bind_sum (mget p ''signer'') (\<lambda>s. Inr (py_eq s (get r ''issuer'')))) (elements sigs)))
                 (\<lambda>signed. Inr (os_errs st2 @ error_if (\<not> signed) Issuer_signature_missing)))))
      | JStr s \<Rightarrow> Inl Unmodelled
      | JArr xs \<Rightarrow> Inl Unmodelled
      | _ \<Rightarrow> Inl (Rx Type_error))"

section \<open>Payloads and verification\<close>

definition without :: "string list \<Rightarrow> pyval \<Rightarrow> pyval" where
  "without ks r = JObj (filter (\<lambda>(k, v). k \<notin> set ks) (members r))"

definition receipt_id_payload :: "receipt_lib \<Rightarrow> pyval \<Rightarrow> byte list" where
  "receipt_id_payload lib r =
     RECEIPT_ID_TAG @ [0] @ utf8_of (receipt_jcs lib (jv (without [''receipt_id'', ''signatures''] r)))"

definition signature_payload :: "receipt_lib \<Rightarrow> pyval \<Rightarrow> pyval \<Rightarrow> byte list" where
  "signature_payload lib r descriptor =
     RECEIPT_SIG_TAG @ [0] @
     utf8_of (receipt_jcs lib (jv (JObj [(''receipt'', without [''signatures''] r), (''signer'', descriptor)])))"

definition hex_digit :: "char \<Rightarrow> nat option" where
  "hex_digit c =
     (let n = of_char c in
      if 48 \<le> n \<and> n \<le> 57 then Some (n - 48) else if 97 \<le> n \<and> n \<le> 102 then Some (n - 87)
      else if 65 \<le> n \<and> n \<le> 70 then Some (n - 55) else None)"

text \<open>\<open>bytes.fromhex\<close>: white space is skipped between bytes\<close>

fun fromhex :: "string \<Rightarrow> byte list option" where
  "fromhex [] = Some []"
| "fromhex [c] = (if of_char c \<in> {9, 10, 11, 12, 13, 32 :: nat} then Some [] else None)"
| "fromhex (c # d # s) =
     (if of_char c \<in> {9, 10, 11, 12, 13, 32 :: nat} then fromhex (d # s)
      else case (hex_digit c, hex_digit d) of
        (Some a, Some b) \<Rightarrow> map_option ((#) (a * 16 + b)) (fromhex s)
      | _ \<Rightarrow> None)"

type_synonym key_table = "((pyval \<times> pyval) \<times> pyval) list"

definition key_of :: "key_table \<Rightarrow> pyval \<Rightarrow> pyval \<Rightarrow> pyval" where
  "key_of table signer key_id =
     (case find (\<lambda>((s, k), pub). py_eq signer s \<and> py_eq key_id k) (rev table) of None \<Rightarrow> JNull | Some (sk, pub) \<Rightarrow> pub)"

datatype sig_outcome = Sig_valid | Key_unresolved | Sig_invalid | Sig_value_error

definition descriptor_of :: "pyval \<Rightarrow> pyval" where
  "descriptor_of p = JObj [(''signer'', get p ''signer''), (''key_id'', get p ''key_id''), (''alg'', get p ''alg'')]"

definition check_receipt_signature :: "receipt_lib \<Rightarrow> key_table \<Rightarrow> pyval \<Rightarrow> pyval \<Rightarrow> py_error + sig_outcome" where
  "check_receipt_signature lib table r p =
     (case key_of table (get p ''signer'') (get p ''key_id'') of
        JNull \<Rightarrow> Inr Key_unresolved
      | JStr pub \<Rightarrow>
          (case fromhex pub of
             None \<Rightarrow> Inr Sig_value_error
           | Some raw \<Rightarrow>
               (if length raw \<noteq> 32 then Inr Sig_value_error
                else case fromhex (str_of (get p ''value'')) of
                  None \<Rightarrow> Inr Sig_value_error
                | Some sig \<Rightarrow>
                    Inr (if cl_ed25519 lib raw sig (signature_payload lib r (descriptor_of p)) then Sig_valid else Sig_invalid)))
      | _ \<Rightarrow> Inl Type_error)"

record receipt_verdict =
  rv_valid :: bool
  rv_errors :: "receipt_error list"
  rv_stage :: string
  rv_signatures :: "(pyval \<times> sig_outcome) list"

definition verify_receipt :: "receipt_lib \<Rightarrow> pyval \<Rightarrow> key_table \<Rightarrow> receipt_exn + receipt_verdict" where
  "verify_receipt lib receipt table =
     bind_sum (rx (assert_ascii receipt)) (\<lambda>_.
     bind_sum (validate_receipt receipt) (\<lambda>schema_errs.
       if schema_errs \<noteq> []
       then Inr \<lparr>rv_valid = False, rv_errors = schema_errs, rv_stage = ''schema'', rv_signatures = []\<rparr>
       else
         let mismatch = (JStr (receipt_sha256_hex lib (receipt_id_payload lib receipt)) \<noteq> get receipt ''receipt_id'') in
         bind_sum (rx (traverse (\<lambda>p. bind_sum (check_receipt_signature lib table receipt p) (\<lambda>o'. Inr (get p ''key_id'', o')))
                    (elements (get receipt ''signatures'')))) (\<lambda>sig_detail.
           let bad = list_ex (\<lambda>(k, o'). o' \<noteq> Sig_valid) sig_detail in
           Inr \<lparr>rv_valid = (\<not> mismatch \<and> \<not> bad),
                rv_errors = error_if mismatch Receipt_id_mismatch @ error_if bad Signature_invalid_error,
                rv_stage = (if mismatch then ''receipt_id'' else if bad then ''signature'' else ''''),
                rv_signatures = sig_detail\<rparr>)))"

section \<open>A vector file\<close>

fun error_text :: "receipt_error \<Rightarrow> string" where
  "error_text (Unknown_field k) = ''ReceiptV1: unknown field '' @ k"
| "error_text (Missing_field k) = ''ReceiptV1: missing field '' @ k"
| "error_text (Bad_field k) = ''ReceiptV1: '' @ k"
| "error_text Evidence_value = ''EvidenceRefV1: value''"
| "error_text Duplicate_evidence = ''ReceiptV1: duplicate evidence_ref''"
| "error_text Evidence_unsorted = ''ReceiptV1: evidence_refs not sorted''"
| "error_text Signature_value = ''ReceiptSignatureV1: value''"
| "error_text Duplicate_signature = ''ReceiptV1: duplicate signature''"
| "error_text Signatures_unsorted = ''ReceiptV1: signatures not sorted''"
| "error_text Issuer_signature_missing = ''ReceiptV1: issuer signature missing''"
| "error_text Receipt_id_mismatch = ''receipt_id_mismatch''"
| "error_text Signature_invalid_error = ''signature_invalid''"

definition key_row :: "pyval \<Rightarrow> key_table \<Rightarrow> py_error + key_table" where
  "key_row k table =
     bind_sum (subscript k ''signer'') (\<lambda>s. bind_sum (subscript k ''key_id'') (\<lambda>i.
     bind_sum (subscript k ''public_key_hex'') (\<lambda>pub.
       if hashable s \<and> hashable i then Inr (table @ [((s, i), pub)]) else Inl Type_error)))"

definition key_table_of :: "pyval \<Rightarrow> py_error + key_table" where
  "key_table_of d =
     bind_sum (subscript d ''profile'') (\<lambda>p. bind_sum (subscript p ''keys'') (\<lambda>ks.
     bind_sum (py_iter ks) (\<lambda>rows. loop key_row rows [])))"

definition integrity_ok :: "receipt_lib \<Rightarrow> pyval \<Rightarrow> py_error + bool" where
  "integrity_ok lib v =
     bind_sum (subscript v ''receipt'') (\<lambda>r.
     let b = utf8_of (receipt_compact lib (jv r)) in
     bind_sum (subscript v ''receipt_len'') (\<lambda>len.
     bind_sum (subscript v ''receipt_sha256'') (\<lambda>sha.
     bind_sum (subscript v ''id'') (\<lambda>_.
       Inr (py_eq (JInt (int (length b))) len \<and> JStr (receipt_sha256_hex lib b) = sha)))))"

definition chain_root_ok :: "receipt_lib \<Rightarrow> pyval \<Rightarrow> py_error + bool" where
  "chain_root_ok lib v =
     (if \<not> has_key v ''delegation_chain'' then Inr True
      else
        let got = JStr (receipt_sha256_hex lib (utf8_of (receipt_jcs lib (jv (get v ''delegation_chain''))))) in
        bind_sum (subscript v ''delegation_chain_root'') (\<lambda>declared.
          if got = declared then Inr True else if is_str declared then Inr False else Inl Type_error))"

definition vector_matches :: "receipt_lib \<Rightarrow> key_table \<Rightarrow> pyval \<Rightarrow> receipt_exn + bool" where
  "vector_matches lib table v =
     bind_sum (rx (subscript v ''receipt'')) (\<lambda>r.
     bind_sum (verify_receipt lib r table) (\<lambda>rv.
     bind_sum (rx (subscript v ''expected_result'')) (\<lambda>exp_res.
     let exp_errs = (if has_key v ''expected_errors'' then get v ''expected_errors'' else JArr []);
         exp_stage = (if has_key v ''expected_failure_stage'' then get v ''expected_failure_stage'' else JStr '''') in
     if \<not> is_list exp_errs \<or> \<not> list_all is_str (elements exp_errs) then Inl Unmodelled
     else
       Inr (exp_res = JStr (if rv_valid rv then ''valid'' else ''invalid'')
            \<and> sort (map error_text (rv_errors rv)) = sort (map str_of (elements exp_errs))
            \<and> (falsy exp_stage \<or> exp_stage = JStr (rv_stage rv))))))"

definition receipts_main :: "receipt_lib \<Rightarrow> pyval \<Rightarrow> receipt_exn + nat" where
  "receipts_main lib d =
     bind_sum (rx (key_table_of d)) (\<lambda>table.
     bind_sum (rx (bind_sum (subscript d ''vectors'') py_iter)) (\<lambda>vecs.
     bind_sum (rx (traverse (integrity_ok lib) vecs)) (\<lambda>integrity.
     bind_sum (rx (traverse (chain_root_ok lib) vecs)) (\<lambda>chains.
     bind_sum (traverse (vector_matches lib table) vecs) (\<lambda>rows.
       let total_fail = length (filter Not rows) + length (filter Not integrity) + length (filter Not chains) in
       Inr (if total_fail = 0 then 0 else 1))))))"

section \<open>The sorted text on ASCII strings\<close>

fun float_free :: "'c json \<Rightarrow> bool" where
  "float_free (JFloat r) = False"
| "float_free (JArr xs) = list_all float_free xs"
| "float_free (JObj ms) = list_all (\<lambda>(k, v). float_free v) ms"
| "float_free _ = True"

lemma utf16_key_ascii: "c < 128 \<Longrightarrow> utf16_key (c # s) = 0 # c # utf16_key s"
  by (simp add: utf16_key_def utf16_units_def)

lemma utf16_order_ascii:
  "list_all (\<lambda>c. c < 128) s \<Longrightarrow> list_all (\<lambda>c. c < 128) t \<Longrightarrow> utf16_key s \<le> utf16_key t \<longleftrightarrow> s \<le> t"
proof (induction s arbitrary: t)
  case Nil
  then show ?case by (simp add: utf16_key_def)
next
  case (Cons c s)
  show ?case
  proof (cases t)
    case Nil
    then show ?thesis using Cons.prems by (simp add: utf16_key_ascii) (simp add: utf16_key_def)
  next
    case (Cons d t')
    then show ?thesis using Cons.prems Cons.IH [of t'] by (simp add: utf16_key_ascii)
  qed
qed

lemma sort_key_order_cong:
  "(\<And>x y. x \<in> set xs \<Longrightarrow> y \<in> set xs \<Longrightarrow> f x \<le> f y \<longleftrightarrow> g x \<le> g y) \<Longrightarrow> sort_key f xs = sort_key g xs"
proof (induction xs)
  case (Cons x xs)
  have "insort_key f x ys = insort_key g x ys" if "set ys \<subseteq> set xs" for ys
    using that Cons.prems by (induction ys) auto
  moreover have "sort_key f xs = sort_key g xs" using Cons by simp
  ultimately show ?case by simp
qed simp

lemma ascii_str_cps: "ascii_str s \<longleftrightarrow> list_all (\<lambda>c. c < 128) (cps s)"
  by (simp add: ascii_str_def list_all_iff)

lemma dumps_sorted_ser0: "all_ascii v \<Longrightarrow> float_free v \<Longrightarrow> dumps_sorted fl (jv v) = ser0 (canon (jv v))"
proof (induction v)
  case (JArr xs)
  then have "map (dumps_sorted fl) (map jv xs) = map ser0 (map canon (map jv xs))"
    by (auto simp: list_all_iff)
  then show ?case by (simp only: jv.simps dumps_sorted.simps canon.simps ser0.simps)
next
  case (JObj ms)
  let ?ms = "map (\<lambda>(k, v). (cps k, jv v)) ms"
  have IH: "dumps_sorted fl (jv v) = ser0 (canon (jv v))" "ascii_str k" if "(k, v) \<in> set ms" for k v
    using JObj that by (fastforce simp: list_all_iff)+
  have t: "map (\<lambda>(k, v). (k, dumps_sorted fl v)) ?ms = map (\<lambda>(k, v). (k, ser0 (canon v))) ?ms"
    using IH(1) by auto
  have "sort_key fst (map (\<lambda>(k, v). (k, ser0 (canon v))) ?ms) = sorted_members (map (\<lambda>(k, v). (k, ser0 (canon v))) ?ms)"
    unfolding sorted_members_def
    by (rule sort_key_order_cong) (use IH(2) in \<open>auto simp: ascii_str_cps utf16_order_ascii\<close>)
  then show ?case
    by (simp only: jv.simps dumps_sorted.simps canon.simps ser0.simps t sorted_members_map)
      (simp add: sorted_members_def sort_key_map comp_def case_prod_beta)
qed auto

end
