(* ===== verification/Receipt_Checks.thy ===== *)
theory Receipt_Checks
  imports Receipts
begin

text \<open>
  What a receipt verdict of \<open>valid\<close> establishes, and that a receipt id determines the content it was
  computed from.
\<close>

section \<open>Texts of ASCII values\<close>

abbreviation all_below_128 :: "nat list \<Rightarrow> bool" where
  "all_below_128 \<equiv> list_all (\<lambda>c. c < 128)"

lemma jcs_str_ascii: "all_below_128 s \<Longrightarrow> all_below_128 (jcs_str s)"
  by (induction s) (auto simp: jcs_str_def jcs_char_def hex_def)

lemma str_nat_ascii: "all_below_128 (cps (str_nat n))"
proof (induction n rule: str_nat.induct)
  case (1 n)
  have "n mod 10 < 80" by (rule less_trans [of _ 10]) simp_all
  then show ?case using 1 by (subst str_nat.simps) (simp add: of_char_digit list_all_iff)
qed

lemma str_int_ascii: "all_below_128 (str_int i)"
  using str_nat_ascii by (simp add: str_int_def)

lemma join_ascii: "all_below_128 sep \<Longrightarrow> list_all all_below_128 xs \<Longrightarrow> all_below_128 (join sep xs)"
  by (induction sep xs rule: join.induct) auto

lemma dumps_sorted_ascii: "all_ascii v \<Longrightarrow> float_free v \<Longrightarrow> all_below_128 (dumps_sorted fl (jv v))"
proof (induction v)
  case (JArr xs)
  then have "list_all all_below_128 (map (dumps_sorted fl) (map jv xs))" by (auto simp: list_all_iff)
  then show ?case using join_ascii [of "cps '',''"] by simp
next
  case (JObj ms)
  let ?ts = "sort_key fst (map (\<lambda>(k, v). (k, dumps_sorted fl v)) (map (\<lambda>(k, v). (cps k, jv v)) ms))"
  have "all_below_128 (jcs_str (cps k))" "all_below_128 (dumps_sorted fl (jv v))" if "(k, v) \<in> set ms" for k v
    using JObj.IH [OF that] bspec [OF JObj.prems(1) [unfolded all_ascii.simps list_all_iff] that]
      bspec [OF JObj.prems(2) [unfolded float_free.simps list_all_iff] that] jcs_str_ascii [of "cps k"]
    by (simp_all add: ascii_str_cps)
  then have "list_all all_below_128 (map (\<lambda>(k, t). jcs_str k @ cps '':'' @ t) ?ts)"
    by (force simp: list.pred_set)
  then show ?case using join_ascii [of "cps '',''"] by simp
next
  case (JStr s)
  then show ?case by (simp add: jcs_str_ascii ascii_str_cps)
qed (auto simp: str_int_ascii)

lemma utf8_of_ascii: "all_below_128 s \<Longrightarrow> utf8_of s = s"
  by (induction s) (auto simp: utf8_of_def utf8_bytes_def)

lemma accepted_jv: "all_ascii v \<Longrightarrow> float_free v \<Longrightarrow> accepted (jv v)"
proof (induction v)
  case (JObj ms)
  have "encodable (cps k) \<and> accepted (jv v)" if "(k, v) \<in> set ms" for k v
    using JObj that by (fastforce simp: list_all_iff ascii_str_def encodable_def scalar_def surrogate_def)
  then show ?case by (auto simp: list_all_iff)
qed (auto simp: list_all_iff)

lemma dumps_sorted_inj:
  assumes "all_ascii v" "float_free v" "all_ascii w" "float_free w"
    and "utf8_of (dumps_sorted fl (jv v)) = utf8_of (dumps_sorted fl (jv w))"
  shows "canon (jv v) = canon (jv w)"
proof -
  have "dumps_sorted fl (jv v) = dumps_sorted fl (jv w)"
    using assms(5) by (simp add: utf8_of_ascii dumps_sorted_ascii assms(1-4))
  then have "ser0 (canon (jv v)) = ser0 (canon (jv w))"
    by (simp add: dumps_sorted_ser0 assms(1-4))
  then show ?thesis
    using ser0_inj [of "canon (jv v)" "canon (jv w)" "[]" "[]"] assms
    by (simp add: accepted_canon accepted_jv stops_def)
qed

lemma without_closed:
  assumes "all_ascii r" "float_free r"
  shows "all_ascii (without ks r)" "float_free (without ks r)"
  using assms by (cases r; auto simp: without_def list_all_iff)+

section \<open>What validation accepts\<close>

definition sig_pair :: "pyval \<Rightarrow> string \<times> string" where
  "sig_pair p = (str_of (get p ''signer''), str_of (get p ''key_id''))"

definition sig_ok :: "pyval \<Rightarrow> bool" where
  "sig_ok p \<longleftrightarrow> is_str (get p ''signer'') \<and> is_str (get p ''key_id'') \<and> get p ''alg'' = JStr ''Ed25519'' \<and> is_hex (get p ''value'') 128"

lemma error_if_Nil [simp]: "error_if b e = [] \<longleftrightarrow> \<not> b"
  by (simp add: error_if_def)

lemma signature_step_errs:
  assumes "signature_step p st = Inr st'"
  shows "os_errs st' = [] \<Longrightarrow> os_errs st = []"
    and "os_errs st' = [] \<Longrightarrow> sig_ok p \<and> os_prev st' = Some (sig_pair p) \<and> (case os_prev st of None \<Rightarrow> True | Some q \<Rightarrow> q < sig_pair p)"
  using assms
  by (auto simp: signature_step_def order_step_def encode_field_def sig_ok_def sig_pair_def not_le
      split: if_splits json.splits option.splits)

lemma signature_loop_errs: "loop signature_step ps st = Inr st' \<Longrightarrow> os_errs st' = [] \<Longrightarrow> os_errs st = []"
  by (induction ps arbitrary: st) (auto dest: signature_step_errs(1))

lemma signature_loop:
  "loop signature_step ps st = Inr st' \<Longrightarrow> os_errs st' = [] \<Longrightarrow>
     list_all sig_ok ps \<and> sorted_wrt (<) (map sig_pair ps) \<and>
     (case os_prev st of None \<Rightarrow> True | Some q \<Rightarrow> list_all (\<lambda>p. q < sig_pair p) ps)"
proof (induction ps arbitrary: st)
  case (Cons p ps)
  then obtain s1 where s1: "signature_step p st = Inr s1" "loop signature_step ps s1 = Inr st'" by auto
  have e: "os_errs s1 = []" by (rule signature_loop_errs [OF s1(2) Cons.prems(2)])
  note p = signature_step_errs(2) [OF s1(1) e]
  have "list_all sig_ok ps \<and> sorted_wrt (<) (map sig_pair ps) \<and> list_all (\<lambda>x. sig_pair p < sig_pair x) ps"
    using Cons.IH [OF s1(2) Cons.prems(2)] p by simp
  moreover have "list_all (\<lambda>x. q < sig_pair x) ps" if "q < sig_pair p" "list_all (\<lambda>x. sig_pair p < sig_pair x) ps" for q
    using that by (auto simp: list_all_iff intro: less_trans)
  ultimately show ?case using p by (auto simp: list_all_iff split: option.splits)
qed (simp split: option.splits)

lemma evidence_step_errs: "evidence_step p st = Inr st' \<Longrightarrow> os_errs st' = [] \<Longrightarrow> os_errs st = []"
  by (auto simp: evidence_step_def order_step_def split: if_splits)

lemma evidence_loop_errs: "loop evidence_step ps st = Inr st' \<Longrightarrow> os_errs st' = [] \<Longrightarrow> os_errs st = []"
  by (induction ps arbitrary: st) (auto dest: evidence_step_errs)

lemma validate_clean:
  assumes "validate_receipt r = Inr []"
  shows "is_dict r" "is_list (get r ''signatures'')" "list_all sig_ok (elements (get r ''signatures''))"
    "sorted_wrt (<) (map sig_pair (elements (get r ''signatures'')))"
    "\<exists>p\<in>set (elements (get r ''signatures'')). get p ''signer'' = get r ''issuer''"
    "set (map fst (members r)) \<subseteq> set RECEIPT_ALLOWED"
proof -
  obtain ms where r: "r = JObj ms" using assms by (cases r) (auto simp: validate_receipt_def)
  have f: "field_errors r = []" using assms r by (auto simp: validate_receipt_def split: if_splits)
  obtain st st2 :: order_state where l: "is_list (get r ''signatures'')"
    and l2: "loop signature_step (elements (get r ''signatures'')) (fresh_order (os_errs st)) = Inr st2" "os_errs st2 = []"
    and a: "any_of (\<lambda>p. bind_sum (mget p ''signer'') (\<lambda>s. Inr (py_eq s (get r ''issuer'')))) (elements (get r ''signatures'')) = Inr True"
    using assms f r by (auto simp: validate_receipt_def Let_def split: if_splits)
  note s = signature_loop [OF l2]
  show "is_dict r" "is_list (get r ''signatures'')" "list_all sig_ok (elements (get r ''signatures''))"
    "sorted_wrt (<) (map sig_pair (elements (get r ''signatures'')))"
    using r l s by auto
  obtain p where p: "p \<in> set (elements (get r ''signatures''))" "py_eq (get p ''signer'') (get r ''issuer'')"
    using any_of_True [OF a] by (auto simp: mget_def split: if_splits)
  then have "is_str (get p ''signer'')" using s by (auto simp: list_all_iff sig_ok_def)
  then have "get p ''signer'' = get r ''issuer''" using p(2) by (auto simp: is_str_conv)
  then show "\<exists>p\<in>set (elements (get r ''signatures'')). get p ''signer'' = get r ''issuer''" using p(1) by blast
  show "set (map fst (members r)) \<subseteq> set RECEIPT_ALLOWED"
    using f by (force simp: field_errors_def filter_empty_conv)
qed

lemma verify_valid:
  assumes "verify_receipt lib r table = Inr v" "rv_valid v"
  shows "all_ascii r" "validate_receipt r = Inr []"
    "get r ''receipt_id'' = JStr (receipt_sha256_hex lib (receipt_id_payload lib r))"
    "\<forall>p\<in>set (elements (get r ''signatures'')). check_receipt_signature lib table r p = Inr Sig_valid"
proof -
  obtain detail where a: "all_ascii r" "validate_receipt r = Inr []"
    and d: "traverse (\<lambda>p. bind_sum (check_receipt_signature lib table r p) (\<lambda>o'. Inr (get p ''key_id'', o')))
              (elements (get r ''signatures'')) = Inr detail"
    and ok: "list_all (\<lambda>x. snd x = Sig_valid) detail"
    and i: "get r ''receipt_id'' = JStr (receipt_sha256_hex lib (receipt_id_payload lib r))"
    using assms by (auto simp: verify_receipt_def assert_ascii_def Let_def list_all_iff list_ex_iff case_prod_beta split: if_splits)
  show "all_ascii r" "validate_receipt r = Inr []"
    "get r ''receipt_id'' = JStr (receipt_sha256_hex lib (receipt_id_payload lib r))" by fact+
  have "traverse f xs = Inr ys \<Longrightarrow> \<forall>x\<in>set xs. \<exists>y\<in>set ys. f x = Inr y" for f :: "pyval \<Rightarrow> py_error + pyval \<times> sig_outcome" and xs ys
    by (induction xs arbitrary: ys) auto
  from this [OF d] show "\<forall>p\<in>set (elements (get r ''signatures'')). check_receipt_signature lib table r p = Inr Sig_valid"
    using ok by (fastforce simp: list_all_iff)
qed

lemma signature_verifies:
  "check_receipt_signature lib table r p = Inr Sig_valid \<longleftrightarrow>
     (\<exists>pub raw sig. key_of table (get p ''signer'') (get p ''key_id'') = JStr pub \<and> fromhex pub = Some raw \<and>
        length raw = 32 \<and> fromhex (str_of (get p ''value'')) = Some sig \<and>
        cl_ed25519 lib raw sig (signature_payload lib r (descriptor_of p)))"
  by (auto simp: check_receipt_signature_def split: json.splits option.splits if_splits)

section \<open>Malformed receipts\<close>

text \<open>A signature entry that is a string is reported and then makes the search for the issuer's signature
  raise; the shape test of \<open>issued_at\<close> looks at the separators only.\<close>

lemma string_signature_raises:
  assumes "field_errors (JObj ms) = []" "get (JObj ms) ''evidence_refs'' = JArr []" "get (JObj ms) ''signatures'' = JArr [JStr s]"
  shows "validate_receipt (JObj ms) = Inl (Rx Attribute_error)"
proof -
  have "sort (map (\<lambda>c. [c]) s) \<noteq> sort SIG_KEYS"
  proof
    assume "sort (map (\<lambda>c. [c]) s) = sort SIG_KEYS"
    then have "set (map (\<lambda>c. [c]) s) = set SIG_KEYS" by (metis set_sort)
    moreover have "''alg'' \<in> set SIG_KEYS" by (simp add: SIG_KEYS_def)
    ultimately have "''alg'' \<in> set (map (\<lambda>c. [c]) s)" by simp
    then show False by auto
  qed
  then show ?thesis
    using assms by (simp add: validate_receipt_def Let_def signature_step_def has_shape_def mget_def or_else_def rx_def del: bind_sum_Inr)
qed

lemma issued_at_without_digits: "timestamp_ok (JStr ''yyyy-mm-ddThh:mm:ss.sssZ'')"
  by (simp add: timestamp_ok_def)

section \<open>Properties\<close>

text \<open>C32: what a valid receipt attests. The stated id is the digest of the receipt's content under the id tag; the
  signatures are strictly ordered by signer and key id, so none counts twice; every one of them verifies, over the
  content and its own descriptor, under the 32-byte key the table has for its signer and key id; one of
  them is the issuer's; and the receipt has no field outside the profile.\<close>

theorem valid_receipt_attested:
  assumes "verify_receipt lib r table = Inr v" "rv_valid v"
  shows "get r ''receipt_id'' = JStr (receipt_sha256_hex lib (receipt_id_payload lib r)) \<and>
    sorted_wrt (<) (map sig_pair (elements (get r ''signatures''))) \<and>
    (\<forall>p\<in>set (elements (get r ''signatures'')). get p ''alg'' = JStr ''Ed25519'' \<and>
       (\<exists>pub raw sig. key_of table (get p ''signer'') (get p ''key_id'') = JStr pub \<and> fromhex pub = Some raw \<and>
          length raw = 32 \<and> fromhex (str_of (get p ''value'')) = Some sig \<and>
          cl_ed25519 lib raw sig (signature_payload lib r (descriptor_of p)))) \<and>
    (\<exists>p\<in>set (elements (get r ''signatures'')). get p ''signer'' = get r ''issuer'') \<and>
    set (map fst (members r)) \<subseteq> set RECEIPT_ALLOWED"
proof (intro conjI ballI)
  note v = verify_valid [OF assms] and c = validate_clean [OF verify_valid(2) [OF assms]]
  show "get r ''receipt_id'' = JStr (receipt_sha256_hex lib (receipt_id_payload lib r))" by (rule v(3))
  show "sorted_wrt (<) (map sig_pair (elements (get r ''signatures'')))" by (rule c(4))
  show "\<exists>p\<in>set (elements (get r ''signatures'')). get p ''signer'' = get r ''issuer''" by (rule c(5))
  show "set (map fst (members r)) \<subseteq> set RECEIPT_ALLOWED" by (rule c(6))
  fix p assume p: "p \<in> set (elements (get r ''signatures''))"
  show "get p ''alg'' = JStr ''Ed25519''" using c(3) p by (simp add: list_all_iff sig_ok_def)
  show "\<exists>pub raw sig. key_of table (get p ''signer'') (get p ''key_id'') = JStr pub \<and> fromhex pub = Some raw \<and>
          length raw = 32 \<and> fromhex (str_of (get p ''value'')) = Some sig \<and>
          cl_ed25519 lib raw sig (signature_payload lib r (descriptor_of p))"
    using v(4) p signature_verifies by blast
qed

text \<open>C33: a receipt id determines the content. Two receipts without floating point numbers that are both valid, under whatever
  key tables, and carry the same id have the same members apart from \<open>receipt_id\<close> and \<open>signatures\<close>, up to the
  order of members, if the digest has no collision on their two tagged texts.\<close>

theorem receipt_id_binds_content:
  assumes "verify_receipt lib r table = Inr v" "rv_valid v" "verify_receipt lib s table' = Inr w" "rv_valid w"
    and "get r ''receipt_id'' = get s ''receipt_id''" "float_free r" "float_free s"
    and no_collision: "receipt_sha256_hex lib (receipt_id_payload lib r) = receipt_sha256_hex lib (receipt_id_payload lib s)
      \<Longrightarrow> receipt_id_payload lib r = receipt_id_payload lib s"
  shows "canon (jv (without [''receipt_id'', ''signatures''] r)) = canon (jv (without [''receipt_id'', ''signatures''] s))"
proof (rule dumps_sorted_inj)
  note r = verify_valid [OF assms(1,2)] and s = verify_valid [OF assms(3,4)]
  have "receipt_id_payload lib r = receipt_id_payload lib s" using no_collision assms(5) r(3) s(3) by simp
  then show "utf8_of (dumps_sorted (cl_float lib) (jv (without [''receipt_id'', ''signatures''] r)))
      = utf8_of (dumps_sorted (cl_float lib) (jv (without [''receipt_id'', ''signatures''] s)))"
    by (simp add: receipt_id_payload_def receipt_jcs_def)
qed (use assms(6,7) verify_valid(1) [OF assms(1,2)] verify_valid(1) [OF assms(3,4)] in \<open>simp_all add: without_closed\<close>)

section \<open>A sample receipt\<close>

definition receipt_sample_lib :: receipt_lib where
  "receipt_sample_lib = \<lparr>cl_sha256 = (\<lambda>_. replicate 32 0), cl_ed25519 = (\<lambda>_ _ _. True), cl_float = (\<lambda>_. [])\<rparr>"

definition zeros :: "nat \<Rightarrow> pyval" where
  "zeros n = JStr (replicate n (CHR ''0''))"

definition receipt_members :: "(string \<times> pyval) list" where
  "receipt_members =
     [(''profile'', JStr ''aps-receipt-v1''), (''receipt_id'', zeros 64), (''receipt_type'', JStr ''t''), (''issuer'', JStr ''i''),
      (''subject_agent'', JStr ''a''), (''action_ref'', zeros 64), (''delegation_ref'', JStr ''d''),
      (''issued_at'', JStr ''2026-08-05T00:00:00.000Z''), (''evidence_refs'', JArr []), (''result'', JObj []),
      (''signatures'', JArr [JObj [(''signer'', JStr ''i''), (''key_id'', JStr ''k''), (''alg'', JStr ''Ed25519''), (''value'', zeros 128)]])]"

definition sample_table :: key_table where
  "sample_table = [((JStr ''i'', JStr ''k''), zeros 64)]"

definition valid_verdict :: receipt_verdict where
  "valid_verdict = \<lparr>rv_valid = True, rv_errors = [], rv_stage = '''', rv_signatures = [(JStr ''k'', Sig_valid)]\<rparr>"

lemma fromhex_zeros: "fromhex (replicate (2 * n) (CHR ''0'')) = Some (replicate n 0)"
  by (induction n) (simp_all add: hex_digit_def)

lemma hexdigest_zeros: "hexdigest (replicate n 0) = replicate (2 * n) (CHR ''0'')"
proof -
  have z: "char_of (48 :: nat) = CHR ''0''" by code_simp
  show ?thesis by (induction n) (simp_all add: hexdigest_def ascii_def hex_def z)
qed

lemma sample_receipts:
  "verify_receipt receipt_sample_lib (JObj receipt_members) sample_table = Inr valid_verdict"
  "verify_receipt receipt_sample_lib (JObj (rev receipt_members)) sample_table = Inr valid_verdict"
proof -
  have w: "fromhex (replicate 64 (CHR ''0'')) = Some (replicate 32 0)" "fromhex (replicate 128 (CHR ''0'')) = Some (replicate 64 0)"
    using fromhex_zeros [of 32] fromhex_zeros [of 64] by simp_all
  have h: "receipt_sha256_hex receipt_sample_lib b = replicate 64 (CHR ''0'')" for b
    using hexdigest_zeros [of 32] by (simp add: receipt_sha256_hex_def receipt_sample_lib_def)
  have a: "all_ascii (JObj receipt_members)"
    by (simp add: receipt_members_def zeros_def ascii_str_def list_all_iff)
  have f: "field_errors (JObj receipt_members) = []" "field_errors (JObj (rev receipt_members)) = []"
    by (simp_all add: field_errors_def receipt_members_def RECEIPT_ALLOWED_def RECEIPT_REQUIRED_def has_key_def)
  have g: "get (JObj (rev receipt_members)) = get (JObj receipt_members)" "has_key (JObj (rev receipt_members)) = has_key (JObj receipt_members)"
    by (intro ext, simp add: get_def has_key_def receipt_members_def)+
  define sg where "sg = JObj [(''signer'', JStr ''i''), (''key_id'', JStr ''k''), (''alg'', JStr ''Ed25519''), (''value'', zeros 128)]"
  have get: "get (JObj receipt_members) ''signatures'' = JArr [sg]" "get (JObj receipt_members) ''evidence_refs'' = JArr []"
    "get (JObj receipt_members) ''issuer'' = JStr ''i''" "get (JObj receipt_members) ''receipt_id'' = zeros 64"
    "get sg ''signer'' = JStr ''i''" "get sg ''key_id'' = JStr ''k''" "get sg ''alg'' = JStr ''Ed25519''" "get sg ''value'' = zeros 128"
    "is_dict sg" "has_shape SIG_KEYS sg = Inr True"
    by (simp_all add: receipt_members_def get_def sg_def has_shape_def SIG_KEYS_def)
  have hex: "is_hex (zeros n) n" for n by (simp add: is_hex_def zeros_def list_all_iff)
  have sc: "scalar_errors (JObj receipt_members) = []"
    using hex [of 64]
    by (simp add: scalar_errors_def receipt_members_def get_def has_key_def error_if_def timestamp_ok_def)
  have sc2: "scalar_errors (JObj (rev receipt_members)) = []" using sc unfolding scalar_errors_def g .
  have ef: "error_if False e = []" for e by (simp add: error_if_def)
  have v: "validate_receipt (JObj receipt_members) = Inr []" "validate_receipt (JObj (rev receipt_members)) = Inr []"
    using f sc sc2 get hex [of 128]
    by (simp_all add: validate_receipt_def Let_def fresh_order_def signature_step_def encode_field_def order_step_def ef g
        mget_def rx_def del: bind_sum_Inr)
  have c: "check_receipt_signature receipt_sample_lib sample_table r sg = Inr Sig_valid" for r
    using w get by (simp add: check_receipt_signature_def key_of_def sample_table_def zeros_def receipt_sample_lib_def)
  show "verify_receipt receipt_sample_lib (JObj receipt_members) sample_table = Inr valid_verdict"
    "verify_receipt receipt_sample_lib (JObj (rev receipt_members)) sample_table = Inr valid_verdict"
    using a v c h get
    by (simp_all add: verify_receipt_def assert_ascii_def zeros_def ef valid_verdict_def g rx_def list_all_iff del: bind_sum_Inr)
qed

theorem valid_receipt_attested_witness:
  "sorted_wrt (<) (map sig_pair (elements (get (JObj receipt_members) ''signatures''))) \<and>
   (\<exists>p\<in>set (elements (get (JObj receipt_members) ''signatures'')). get p ''signer'' = get (JObj receipt_members) ''issuer'')"
  using valid_receipt_attested [OF sample_receipts(1)] by (simp add: valid_verdict_def)

theorem receipt_id_binds_content_witness:
  "canon (jv (without [''receipt_id'', ''signatures''] (JObj receipt_members)))
     = canon (jv (without [''receipt_id'', ''signatures''] (JObj (rev receipt_members))))"
proof (rule receipt_id_binds_content [OF sample_receipts(1) _ sample_receipts(2)])
  show "receipt_id_payload receipt_sample_lib (JObj receipt_members) = receipt_id_payload receipt_sample_lib (JObj (rev receipt_members))"
    by code_simp
qed (simp_all add: valid_verdict_def receipt_members_def get_def zeros_def)

end
