(* ===== verification/Composition.thy ===== *)
theory Composition
  imports Codec Python_Values
begin

text \<open>
  \<open>interop/mih-sato-composition-00/adapter/py/run.py\<close>: the fourteen join checks of the cross-slot
  composition pack, their aggregation, and the comparison with the pack's expectations. Parameters:
  SHA-256 and the text of a floating point number. A check is its id and its status; the detail texts
  are left out, except where building one raises. A digest context that is no object ends in
  \<open>Not_covered\<close>.
\<close>

record composition_lib =
  pl_sha256 :: "byte list \<Rightarrow> byte list"
  pl_float :: "rat \<Rightarrow> cp list"

datatype composition_exn = Px py_error | Not_covered

definition px :: "py_error + 'a \<Rightarrow> composition_exn + 'a" where
  "px x = (case x of Inl e \<Rightarrow> Inl (Px e) | Inr y \<Rightarrow> Inr y)"

lemma px_Inr [simp]: "px m = Inr x \<longleftrightarrow> m = Inr x"
  by (simp add: px_def split: sum.splits)

section \<open>Texts and digests\<close>

definition VOCABULARY :: "string list" where
  "VOCABULARY = [''pass'', ''fail'', ''not_evaluated'', ''unsupported'', ''indeterminate'']"

definition canonical :: "composition_lib \<Rightarrow> pyval \<Rightarrow> byte list" where
  "canonical lib v = utf8_of (dumps_sorted (pl_float lib) (jv v))"

definition sha256_tagged :: "composition_lib \<Rightarrow> byte list \<Rightarrow> pyval" where
  "sha256_tagged lib b = JStr (''sha256:'' @ hexdigest (pl_sha256 lib b))"

definition b64u_bytes :: "pyval \<Rightarrow> py_error + byte list" where
  "b64u_bytes v =
     (case v of
        JStr s \<Rightarrow>
          (if list_all (\<lambda>c. of_char c < (128 :: nat)) s
           then (case b64u_decode (cps s) of None \<Rightarrow> Inl Value_error | Some b \<Rightarrow> Inr b) else Inl Value_error)
      | _ \<Rightarrow> Inl Type_error)"

fun path_of :: "pyval \<Rightarrow> string list \<Rightarrow> py_error + pyval" where
  "path_of v [] = Inr v"
| "path_of v (k # ks) = bind_sum (subscript v k) (\<lambda>w. path_of w ks)"

text \<open>\<open>b["slots"].items()\<close>, and \<open>any(... for ... in b["slots"].items())\<close>\<close>

definition slots_of :: "pyval \<Rightarrow> py_error + (string \<times> pyval) list" where
  "slots_of b = bind_sum (subscript b ''slots'') items"

definition any_slot :: "pyval \<Rightarrow> (string \<Rightarrow> pyval \<Rightarrow> py_error + bool) \<Rightarrow> py_error + bool" where
  "any_slot b f = bind_sum (slots_of b) (any_of (\<lambda>(name, e). f name e))"

section \<open>The fourteen join checks\<close>

type_synonym join_result = "string \<times> string"

definition failing_if :: "string \<Rightarrow> string \<Rightarrow> bool \<Rightarrow> join_result" where
  "failing_if cid status bad = (cid, if bad then status else ''pass'')"

definition slot_bytes_bad :: "composition_lib \<Rightarrow> pyval \<Rightarrow> py_error + bool" where
  "slot_bytes_bad lib e =
     bind_sum (bind_sum (path_of e [''artifact'', ''bytes_b64u'']) b64u_bytes) (\<lambda>raw.
     bind_sum (path_of e [''artifact'', ''sha256'']) (\<lambda>pinned. Inr (\<not> py_eq (sha256_tagged lib raw) pinned)))"

definition artifact_bytes :: "composition_lib \<Rightarrow> pyval \<Rightarrow> py_error + join_result" where
  "artifact_bytes lib b =
     bind_sum (slots_of b) (\<lambda>slots.
     bind_sum (traverse (\<lambda>(n, e). slot_bytes_bad lib e) slots) (\<lambda>bad.
       Inr (failing_if ''bundle.artifact_bytes'' ''fail'' (list_ex id bad))))"

definition subject_bytes :: "composition_lib \<Rightarrow> pyval \<Rightarrow> py_error + join_result" where
  "subject_bytes lib b =
     bind_sum (bind_sum (path_of b [''subject'', ''action_artifact'', ''bytes_b64u'']) b64u_bytes) (\<lambda>raw.
     bind_sum (path_of b [''subject'', ''action_digest'']) (\<lambda>pinned.
     bind_sum (path_of b [''subject'', ''action'']) (\<lambda>action.
       Inr (failing_if ''subject.action_bytes'' ''fail''
              (\<not> (py_eq (sha256_tagged lib raw) pinned \<and> raw = canonical lib action))))))"

text \<open>\<open>copy = dict(v); copy.pop("representation", None); canonical(copy)\<close>\<close>

definition compatible :: "composition_lib \<Rightarrow> pyval \<Rightarrow> composition_exn + byte list" where
  "compatible lib v =
     (if is_dict v then Inr (canonical lib (JObj (AList.delete ''representation'' (members v)))) else Inl Not_covered)"

definition digest_context :: "composition_lib \<Rightarrow> pyval \<Rightarrow> composition_exn + join_result" where
  "digest_context lib b =
     bind_sum (bind_sum (px (path_of b [''subject'', ''digest_context''])) (compatible lib)) (\<lambda>expected.
     bind_sum (px (slots_of b)) (\<lambda>slots.
     bind_sum (traverse (\<lambda>(n, e). bind_sum (px (path_of e [''subject'', ''digest_context''])) (compatible lib)) slots) (\<lambda>texts.
       Inr (failing_if ''join.digest_context'' ''indeterminate'' (list_ex (\<lambda>t. t \<noteq> expected) texts)))))"

definition representation :: "pyval \<Rightarrow> py_error + join_result" where
  "representation b =
     bind_sum (path_of b [''subject'', ''digest_context'', ''representation'']) (\<lambda>expected.
     bind_sum (any_slot b (\<lambda>n e. bind_sum (path_of e [''subject'', ''digest_context'', ''representation''])
                                   (\<lambda>x. Inr (\<not> py_eq x expected)))) (\<lambda>mismatch.
       Inr (failing_if ''join.digest_representation'' ''fail'' mismatch)))"

definition reference_bad :: "(string \<times> pyval) list \<Rightarrow> pyval \<Rightarrow> py_error + bool" where
  "reference_bad slots e =
     bind_sum (subscript e ''protected_cross_reference'') (\<lambda>ref.
     bind_sum (subscript ref ''target_slot'') (\<lambda>slot.
       if \<not> hashable slot then Inl Type_error
       else
         let target = (case slot of JStr s \<Rightarrow> get (JObj slots) s | _ \<Rightarrow> JNull) in
         if target = JNull then Inr True
         else bind_sum (path_of target [''artifact'', ''sha256'']) (\<lambda>h.
              bind_sum (subscript ref ''artifact_digest'') (\<lambda>d. Inr (\<not> py_eq h d)))))"

definition cross_references :: "pyval \<Rightarrow> py_error + join_result" where
  "cross_references b =
     bind_sum (slots_of b) (\<lambda>slots.
     bind_sum (traverse (\<lambda>(n, e). reference_bad slots e) slots) (\<lambda>bad.
       Inr (failing_if ''join.protected_cross_reference'' ''fail'' (list_ex id bad))))"

text \<open>\<open>[x for e in b["slots"].values() for x in e["additional_bindings"]]\<close>\<close>

definition bindings_of :: "pyval \<Rightarrow> py_error + pyval list" where
  "bindings_of b =
     bind_sum (slots_of b) (\<lambda>slots.
     bind_sum (traverse (\<lambda>(n, e). bind_sum (subscript e ''additional_bindings'') py_iter) slots) (\<lambda>xss. Inr (concat xss)))"

definition incomplete_binding :: "pyval \<Rightarrow> py_error + bool" where
  "incomplete_binding x =
     (if \<not> is_dict x then Inl Attribute_error
      else Inr (\<not> is_str (get x ''purpose'') \<or> \<not> is_str (get x ''context'') \<or> \<not> is_str (get x ''digest'')))"

definition additional_binding_context :: "pyval \<Rightarrow> py_error + join_result" where
  "additional_binding_context b =
     bind_sum (bind_sum (bindings_of b) (any_of incomplete_binding)) (\<lambda>incomplete.
       Inr (failing_if ''join.additional_binding_context'' ''fail'' incomplete))"

definition purpose_unmet :: "pyval list \<Rightarrow> pyval \<Rightarrow> py_error + bool" where
  "purpose_unmet bindings purpose =
     bind_sum (traverse (\<lambda>x. mget x ''purpose'') bindings) (\<lambda>ps.
       Inr (list_all (\<lambda>(x, p). py_eq p purpose \<longrightarrow> get x ''understood'' \<noteq> JBool True) (zip bindings ps)))"

definition binding_semantics :: "pyval \<Rightarrow> py_error + join_result" where
  "binding_semantics b =
     bind_sum (bindings_of b) (\<lambda>bindings.
     bind_sum (bind_sum (path_of b [''policy'', ''required_binding_purposes'']) py_iter) (\<lambda>purposes.
     bind_sum (traverse (purpose_unmet bindings) purposes) (\<lambda>unmet.
       Inr (failing_if ''policy.binding_semantics'' ''unsupported'' (list_ex id unmet)))))"

definition missing_basis :: "pyval \<Rightarrow> py_error + bool" where
  "missing_basis f = bind_sum (mget f ''basis'') (\<lambda>s. Inr (\<not> is_str s \<or> str_of s = []))"

definition field_basis :: "pyval \<Rightarrow> py_error + join_result" where
  "field_basis b =
     bind_sum (any_slot b (\<lambda>n e. bind_sum (bind_sum (subscript e ''fields'') items) (any_of (\<lambda>(k, f). missing_basis f))))
       (\<lambda>missing. Inr (failing_if ''join.field_basis'' ''indeterminate'' missing))"

definition add_basis :: "pyval \<Rightarrow> pyval list \<Rightarrow> py_error + pyval list" where
  "add_basis e bases =
     bind_sum (path_of e [''fields'', ''amount'', ''basis'']) (\<lambda>v.
       Inr (if list_ex (\<lambda>w. py_eq w v) bases then bases else bases @ [v]))"

definition mapping_covers :: "pyval list \<Rightarrow> pyval \<Rightarrow> py_error + bool" where
  "mapping_covers bases m =
     bind_sum (subscript m ''from_basis'') (\<lambda>f. bind_sum (subscript m ''to_basis'') (\<lambda>t.
       if hashable f \<and> hashable t \<and> list_all hashable bases then Inr (list_all (\<lambda>v. py_eq v f \<or> py_eq v t) bases)
       else Inl Type_error))"

definition field_mapping :: "pyval \<Rightarrow> join_result \<Rightarrow> py_error + join_result" where
  "field_mapping b basis =
     (if snd basis \<noteq> ''pass'' then Inr (''join.field_mapping'', ''not_evaluated'')
      else
        bind_sum (slots_of b) (\<lambda>slots.
        bind_sum (loop (\<lambda>(n, e). add_basis e) slots []) (\<lambda>bases.
          if length bases \<le> 1 then Inr (''join.field_mapping'', ''pass'')
          else
            bind_sum (bind_sum (bind_sum (subscript b ''mappings'') py_iter) (any_of (mapping_covers bases))) (\<lambda>mapped.
              Inr (failing_if ''join.field_mapping'' ''indeterminate'' (\<not> mapped))))))"

definition result_separation :: "pyval \<Rightarrow> py_error + join_result" where
  "result_separation b =
     bind_sum (path_of b [''reporting'', ''native_results_separate'']) (\<lambda>x.
       Inr (failing_if ''report.result_separation'' ''fail'' (x \<noteq> JBool True)))"

definition result_preservation :: "pyval \<Rightarrow> py_error + join_result" where
  "result_preservation b =
     bind_sum (path_of b [''reporting'', ''composition_overrides_native'']) (\<lambda>x.
       Inr (failing_if ''report.result_preservation'' ''fail'' (x \<noteq> JBool False)))"

definition exact_action :: "pyval \<Rightarrow> py_error + join_result" where
  "exact_action b =
     bind_sum (any_slot b (\<lambda>n e. bind_sum (path_of e [''subject'', ''action_digest'']) (\<lambda>x.
                                 bind_sum (path_of b [''subject'', ''action_digest'']) (\<lambda>y. Inr (\<not> py_eq x y))))) (\<lambda>mismatch.
       Inr (failing_if ''join.exact_action'' ''fail'' mismatch))"

definition reported_of :: "pyval \<Rightarrow> string \<Rightarrow> py_error + pyval" where
  "reported_of b name = bind_sum (path_of b [''reporting'', ''reported_native_results'']) (\<lambda>r. mget r name)"

definition relabelled :: "pyval \<Rightarrow> string \<Rightarrow> pyval \<Rightarrow> py_error + bool" where
  "relabelled b name e =
     bind_sum (subscript e ''native_result'') (\<lambda>x.
       if x \<noteq> JStr ''not_evaluated'' then Inr False
       else bind_sum (reported_of b name) (\<lambda>r. Inr (r \<noteq> JStr ''not_evaluated'')))"

definition not_evaluated_preservation :: "pyval \<Rightarrow> py_error + join_result" where
  "not_evaluated_preservation b =
     bind_sum (any_slot b (relabelled b)) (\<lambda>mismatch.
       Inr (failing_if ''report.not_evaluated_preservation'' ''fail'' mismatch))"

definition required_profiles :: "pyval \<Rightarrow> py_error + join_result" where
  "required_profiles b =
     bind_sum (bind_sum (path_of b [''policy'', ''supported_profiles'']) py_set) (\<lambda>supported.
     bind_sum (bind_sum (path_of b [''policy'', ''required_profiles'']) py_iter) (\<lambda>required.
     bind_sum (traverse (\<lambda>p. py_in p supported) required) (\<lambda>known.
       let unknown = map fst (filter (\<lambda>(p, k). \<not> k) (zip required known)) in
       if \<not> list_all is_str unknown then Inl Type_error
       else Inr (failing_if ''policy.required_profile'' ''unsupported'' (unknown \<noteq> [])))))"

definition terminal_status :: "join_result list \<Rightarrow> string" where
  "terminal_status results =
     (case find (\<lambda>c. c \<in> set (map snd results)) [''fail'', ''unsupported'', ''indeterminate'', ''not_evaluated''] of
        None \<Rightarrow> ''pass''
      | Some c \<Rightarrow> c)"

section \<open>Evaluation and comparison\<close>

record native_row =
  nr_slot :: string
  nr_profile :: pyval
  nr_artifact_digest :: pyval
  nr_native_result :: pyval
  nr_reported_result :: pyval

record case_outcome =
  co_id :: pyval
  co_pair_id :: pyval
  co_variant :: pyval
  co_native :: "native_row list"
  co_joins :: "join_result list"
  co_primary :: string
  co_terminal :: string
  co_binding_state :: string

definition native_row_of :: "pyval \<Rightarrow> string \<times> pyval \<Rightarrow> py_error + native_row" where
  "native_row_of b ne =
     bind_sum (subscript (snd ne) ''profile'') (\<lambda>p. bind_sum (path_of (snd ne) [''artifact'', ''sha256'']) (\<lambda>h.
     bind_sum (subscript (snd ne) ''native_result'') (\<lambda>r. bind_sum (reported_of b (fst ne)) (\<lambda>rep.
       Inr \<lparr>nr_slot = fst ne, nr_profile = p, nr_artifact_digest = h, nr_native_result = r, nr_reported_result = rep\<rparr>))))"

definition join_checks :: "composition_lib \<Rightarrow> pyval \<Rightarrow> composition_exn + join_result list" where
  "join_checks lib b =
     bind_sum (px (field_basis b)) (\<lambda>basis.
     bind_sum (px (artifact_bytes lib b)) (\<lambda>r1.
     bind_sum (px (subject_bytes lib b)) (\<lambda>r2.
     bind_sum (digest_context lib b) (\<lambda>r3.
     bind_sum (px (representation b)) (\<lambda>r4.
     bind_sum (px (cross_references b)) (\<lambda>r5.
     bind_sum (px (additional_binding_context b)) (\<lambda>r6.
     bind_sum (px (binding_semantics b)) (\<lambda>r7.
     bind_sum (px (field_mapping b basis)) (\<lambda>r9.
     bind_sum (px (result_separation b)) (\<lambda>r10.
     bind_sum (px (result_preservation b)) (\<lambda>r11.
     bind_sum (px (exact_action b)) (\<lambda>r12.
     bind_sum (px (not_evaluated_preservation b)) (\<lambda>r13.
     bind_sum (px (required_profiles b)) (\<lambda>r14.
       Inr [r1, r2, r3, r4, r5, r6, r7, basis, r9, r10, r11, r12, r13, r14]))))))))))))))"

definition evaluate_case :: "composition_lib \<Rightarrow> pyval \<Rightarrow> composition_exn + case_outcome" where
  "evaluate_case lib item =
     bind_sum (px (subscript item ''input'')) (\<lambda>b.
     bind_sum (join_checks lib b) (\<lambda>results.
     if \<not> list_all (\<lambda>r. snd r \<in> set VOCABULARY) results then Inl (Px Value_error)
     else
       bind_sum (px (bind_sum (slots_of b) (traverse (native_row_of b)))) (\<lambda>native.
       bind_sum (px (subscript item ''id'')) (\<lambda>i. bind_sum (px (subscript item ''pair_id'')) (\<lambda>pi.
       bind_sum (px (subscript item ''variant'')) (\<lambda>v.
         Inr \<lparr>co_id = i, co_pair_id = pi, co_variant = v, co_native = native, co_joins = results,
              co_primary = (case find (\<lambda>r. snd r \<noteq> ''pass'') results of None \<Rightarrow> ''composition.complete'' | Some r \<Rightarrow> fst r),
              co_terminal = terminal_status results,
              co_binding_state =
                (if map_of results ''policy.binding_semantics'' = Some ''pass'' then ''understood'' else ''present_uninterpreted'')\<rparr>))))))"

definition compare_case :: "composition_lib \<Rightarrow> pyval \<Rightarrow> case_outcome \<Rightarrow> py_error + bool" where
  "compare_case lib item observed =
     bind_sum (subscript item ''expected_terminal'') (\<lambda>t.
     bind_sum (subscript item ''expected_check'') (\<lambda>c.
     bind_sum (subscript item ''expected_native_results'') (\<lambda>ns.
     bind_sum (subscript item ''expected_join_results'') (\<lambda>js.
       Inr (t = JStr (co_terminal observed) \<and> c = JStr (co_primary observed)
            \<and> canonical lib (JObj (map (\<lambda>r. (nr_slot r, nr_native_result r)) (co_native observed))) = canonical lib ns
            \<and> canonical lib (JObj (map (\<lambda>(i, s). (i, JStr s)) (co_joins observed))) = canonical lib js)))))"

definition composition_main :: "composition_lib \<Rightarrow> pyval \<Rightarrow> composition_exn + (case_outcome \<times> bool) list \<times> bool \<times> nat" where
  "composition_main lib bndl =
     bind_sum (px (bind_sum (subscript bndl ''cases'') py_iter)) (\<lambda>cases.
     bind_sum (traverse (evaluate_case lib) cases) (\<lambda>evaluated.
     bind_sum (px (traverse (\<lambda>(item, o'). compare_case lib item o') (zip cases evaluated))) (\<lambda>checks.
       Inr (zip evaluated checks, list_all id checks, length (filter id checks)))))"

end
