(* ===== verification/Composition_Checks.thy ===== *)
theory Composition_Checks
  imports Composition
begin

text \<open>
  What a terminal status of \<open>pass\<close> establishes of a composition bundle, and how the terminal status, the
  primary check and the fourteen results hang together.
\<close>

section \<open>Aggregation\<close>

lemma terminal_pass:
  assumes "list_all (\<lambda>r. snd r \<in> set VOCABULARY) rs"
  shows "terminal_status rs = ''pass'' \<longleftrightarrow> list_all (\<lambda>r. snd r = ''pass'') rs"
proof -
  define S where "S = snd ` set rs"
  have "terminal_status rs = ''pass'' \<longleftrightarrow>
      ''fail'' \<notin> S \<and> ''unsupported'' \<notin> S \<and> ''indeterminate'' \<notin> S \<and> ''not_evaluated'' \<notin> S"
    by (simp add: terminal_status_def S_def)
  also have "\<dots> \<longleftrightarrow> S \<subseteq> {''pass''}"
  proof -
    have "S \<subseteq> {''pass'', ''fail'', ''not_evaluated'', ''unsupported'', ''indeterminate''}"
      using assms by (simp add: S_def VOCABULARY_def list_all_iff image_subset_iff)
    then show ?thesis by auto
  qed
  finally show ?thesis by (simp add: S_def list_all_iff image_subset_iff)
qed

lemma failing_if_pass [simp]: "snd (failing_if cid status bad) = ''pass'' \<longleftrightarrow> \<not> bad \<or> status = ''pass''"
  by (auto simp: failing_if_def)

lemma traverse_all_False:
  "traverse f xs = Inr ys \<Longrightarrow> \<not> list_ex id ys \<Longrightarrow> x \<in> set xs \<Longrightarrow> f x = Inr False"
  by (induction xs arbitrary: ys) (auto split: bool.splits)

lemma any_of_False: "any_of f xs = Inr False \<Longrightarrow> x \<in> set xs \<Longrightarrow> f x = Inr False"
  by (induction xs) auto

lemma any_slot_False:
  "any_slot b f = Inr False \<Longrightarrow> slots_of b = Inr slots \<Longrightarrow> (n, e) \<in> set slots \<Longrightarrow> f n e = Inr False"
  by (auto simp: any_slot_def dest: any_of_False)

section \<open>The single checks\<close>

lemma artifact_bytes_pass:
  assumes "artifact_bytes lib b = Inr r" "snd r = ''pass''" "slots_of b = Inr slots" "(n, e) \<in> set slots"
  shows "slot_bytes_bad lib e = Inr False"
proof -
  obtain bad where "traverse (\<lambda>(n, e). slot_bytes_bad lib e) slots = Inr bad" "\<not> list_ex id bad"
    using assms(1-3) by (auto simp: artifact_bytes_def)
  from traverse_all_False [OF this assms(4)] show ?thesis by simp
qed

lemma cross_references_pass:
  assumes "cross_references b = Inr r" "snd r = ''pass''" "slots_of b = Inr slots" "(n, e) \<in> set slots"
  shows "reference_bad slots e = Inr False"
proof -
  obtain bad where "traverse (\<lambda>(n, e). reference_bad slots e) slots = Inr bad" "\<not> list_ex id bad"
    using assms(1-3) by (auto simp: cross_references_def)
  from traverse_all_False [OF this assms(4)] show ?thesis by simp
qed

lemma reference_good:
  assumes "reference_bad slots e = Inr False"
  obtains ref s target h d where "subscript e ''protected_cross_reference'' = Inr ref"
    "subscript ref ''target_slot'' = Inr (JStr s)" "(s, target) \<in> set slots"
    "path_of target [''artifact'', ''sha256''] = Inr h" "subscript ref ''artifact_digest'' = Inr d" "py_eq h d"
proof -
  obtain ref slot where r: "subscript e ''protected_cross_reference'' = Inr ref" "subscript ref ''target_slot'' = Inr slot"
    and hs: "hashable slot" using assms by (auto simp: reference_bad_def split: if_splits)
  define target where "target = (case slot of JStr s \<Rightarrow> get (JObj slots) s | _ \<Rightarrow> JNull)"
  have t: "target \<noteq> JNull" using assms r hs by (auto simp: reference_bad_def Let_def target_def)
  then obtain s where s: "slot = JStr s" by (auto simp: target_def split: json.splits)
  then have "(s, target) \<in> set slots"
    using t by (auto simp: target_def get_def dest: map_of_SomeD split: option.splits)
  moreover obtain h d where "path_of target [''artifact'', ''sha256''] = Inr h" "subscript ref ''artifact_digest'' = Inr d" "py_eq h d"
    using assms r hs t unfolding reference_bad_def by (auto simp: Let_def target_def [symmetric] simp del: path_of.simps)
  ultimately show ?thesis using that r s by blast
qed

lemma join_checks_parts:
  assumes "join_checks lib b = Inr rs"
  obtains r1 r2 r5 r10 r12 r13 where "artifact_bytes lib b = Inr r1" "subject_bytes lib b = Inr r2" "cross_references b = Inr r5"
    "exact_action b = Inr r12" "not_evaluated_preservation b = Inr r13" "{r1, r2, r5, r12, r13} \<subseteq> set rs"
  using assms by (auto simp: join_checks_def)

lemma subject_bytes_pass:
  assumes "subject_bytes lib b = Inr r" and "snd r = ''pass''"
  obtains action raw digest where "path_of b [''subject'', ''action''] = Inr action"
    "path_of b [''subject'', ''action_digest''] = Inr digest"
    "bind_sum (path_of b [''subject'', ''action_artifact'', ''bytes_b64u'']) b64u_bytes = Inr raw"
    "raw = canonical lib action" "py_eq (sha256_tagged lib raw) digest"
proof -
  obtain raw where raw: "bind_sum (path_of b [''subject'', ''action_artifact'', ''bytes_b64u'']) b64u_bytes = Inr raw"
    using assms(1) by (cases "bind_sum (path_of b [''subject'', ''action_artifact'', ''bytes_b64u'']) b64u_bytes")
      (simp_all add: subject_bytes_def del: path_of.simps)
  obtain digest where digest: "path_of b [''subject'', ''action_digest''] = Inr digest"
    using assms(1) raw by (cases "path_of b [''subject'', ''action_digest'']") (simp_all add: subject_bytes_def del: path_of.simps)
  obtain action where action: "path_of b [''subject'', ''action''] = Inr action"
    using assms(1) raw digest by (cases "path_of b [''subject'', ''action'']") (simp_all add: subject_bytes_def del: path_of.simps)
  have "raw = canonical lib action \<and> py_eq (sha256_tagged lib raw) digest"
    using assms raw digest action by (auto simp: subject_bytes_def simp del: path_of.simps)
  then show ?thesis using that raw digest action by blast
qed

section \<open>Properties\<close>

text \<open>C34: what a composition that passes establishes. When the terminal status is \<open>pass\<close>, the primary check is
  \<open>composition.complete\<close>; the bytes supplied for the subject's action (decoded from \<open>subject.action_artifact.bytes_b64u\<close>) are the canonical
  text of the visible action and have the pinned digest;
  and for every slot the artifact's bytes have the digest it pins, its protected cross-reference names a supplied
  slot and the digest that slot pins, it identifies the same exact action as the bundle, and a native result of
  \<open>not_evaluated\<close> is reported as such.\<close>

theorem composition_pass_sound:
  assumes "evaluate_case lib item = Inr out" "co_terminal out = ''pass''"
  shows "co_primary out = ''composition.complete'' \<and>
    (\<exists>b slots action raw digest. subscript item ''input'' = Inr b \<and> slots_of b = Inr slots \<and>
       path_of b [''subject'', ''action''] = Inr action \<and> path_of b [''subject'', ''action_digest''] = Inr digest \<and>
       bind_sum (path_of b [''subject'', ''action_artifact'', ''bytes_b64u'']) b64u_bytes = Inr raw \<and>
       raw = canonical lib action \<and> py_eq (sha256_tagged lib raw) digest \<and>
       (\<forall>(n, e) \<in> set slots.
          (\<exists>bytes pinned. bind_sum (path_of e [''artifact'', ''bytes_b64u'']) b64u_bytes = Inr bytes \<and>
             path_of e [''artifact'', ''sha256''] = Inr pinned \<and> py_eq (sha256_tagged lib bytes) pinned) \<and>
          (\<exists>ref s target h d. subscript e ''protected_cross_reference'' = Inr ref \<and> subscript ref ''target_slot'' = Inr (JStr s) \<and>
             (s, target) \<in> set slots \<and> path_of target [''artifact'', ''sha256''] = Inr h \<and>
             subscript ref ''artifact_digest'' = Inr d \<and> py_eq h d) \<and>
          (\<exists>x. path_of e [''subject'', ''action_digest''] = Inr x \<and> py_eq x digest) \<and>
          relabelled b n e = Inr False))"
proof -
  obtain b rs native where b: "subscript item ''input'' = Inr b" and rs: "join_checks lib b = Inr rs"
    and voc: "list_all (\<lambda>r. snd r \<in> set VOCABULARY) rs" and nat: "bind_sum (slots_of b) (traverse (native_row_of b)) = Inr native"
    and out: "co_primary out = (case find (\<lambda>r. snd r \<noteq> ''pass'') rs of None \<Rightarrow> ''composition.complete'' | Some r \<Rightarrow> fst r)"
      "co_terminal out = terminal_status rs"
    using assms(1) by (auto simp: evaluate_case_def split: if_splits)
  have pass: "\<forall>r\<in>set rs. snd r = ''pass''" using terminal_pass [OF voc] out(2) assms(2) by (simp add: list_all_iff)
  then have "find (\<lambda>r. snd r \<noteq> ''pass'') rs = None" by (auto simp: find_None_iff)
  then have primary: "co_primary out = ''composition.complete''" using out(1) by simp
  obtain slots where slots: "slots_of b = Inr slots" using nat by auto
  obtain r1 r2 r5 r12 r13 where r: "artifact_bytes lib b = Inr r1" "subject_bytes lib b = Inr r2" "cross_references b = Inr r5"
      "exact_action b = Inr r12" "not_evaluated_preservation b = Inr r13" and "{r1, r2, r5, r12, r13} \<subseteq> set rs"
    by (rule join_checks_parts [OF rs])
  then have p: "snd r1 = ''pass''" "snd r2 = ''pass''" "snd r5 = ''pass''" "snd r12 = ''pass''" "snd r13 = ''pass''"
    using pass by auto
  obtain action raw digest where subj: "path_of b [''subject'', ''action''] = Inr action"
      "path_of b [''subject'', ''action_digest''] = Inr digest"
      "bind_sum (path_of b [''subject'', ''action_artifact'', ''bytes_b64u'']) b64u_bytes = Inr raw"
      "raw = canonical lib action" "py_eq (sha256_tagged lib raw) digest"
    by (rule subject_bytes_pass [OF r(2) p(2)])
  have "\<forall>(n, e) \<in> set slots.
      (\<exists>bytes pinned. bind_sum (path_of e [''artifact'', ''bytes_b64u'']) b64u_bytes = Inr bytes \<and>
         path_of e [''artifact'', ''sha256''] = Inr pinned \<and> py_eq (sha256_tagged lib bytes) pinned) \<and>
      (\<exists>ref s target h d. subscript e ''protected_cross_reference'' = Inr ref \<and> subscript ref ''target_slot'' = Inr (JStr s) \<and>
         (s, target) \<in> set slots \<and> path_of target [''artifact'', ''sha256''] = Inr h \<and>
         subscript ref ''artifact_digest'' = Inr d \<and> py_eq h d) \<and>
      (\<exists>x. path_of e [''subject'', ''action_digest''] = Inr x \<and> py_eq x digest) \<and> relabelled b n e = Inr False"
  proof (clarify, intro conjI)
    fix n e assume e: "(n, e) \<in> set slots"
    show "\<exists>bytes pinned. bind_sum (path_of e [''artifact'', ''bytes_b64u'']) b64u_bytes = Inr bytes \<and>
         path_of e [''artifact'', ''sha256''] = Inr pinned \<and> py_eq (sha256_tagged lib bytes) pinned"
      using artifact_bytes_pass [OF r(1) p(1) slots e] unfolding slot_bytes_bad_def by (auto simp del: path_of.simps)
    show "\<exists>ref s target h d. subscript e ''protected_cross_reference'' = Inr ref \<and> subscript ref ''target_slot'' = Inr (JStr s) \<and>
         (s, target) \<in> set slots \<and> path_of target [''artifact'', ''sha256''] = Inr h \<and>
         subscript ref ''artifact_digest'' = Inr d \<and> py_eq h d"
      using reference_good [OF cross_references_pass [OF r(3) p(3) slots e]] by metis
    have "any_slot b (\<lambda>n e. bind_sum (path_of e [''subject'', ''action_digest'']) (\<lambda>x.
             bind_sum (path_of b [''subject'', ''action_digest'']) (\<lambda>y. Inr (\<not> py_eq x y)))) = Inr False"
      using r(4) p(4) unfolding exact_action_def by (auto simp del: path_of.simps)
    from any_slot_False [OF this slots e]
    show "\<exists>x. path_of e [''subject'', ''action_digest''] = Inr x \<and> py_eq x digest"
      using subj(2) by (auto simp del: path_of.simps)
    have "any_slot b (relabelled b) = Inr False" using r(5) p(5) by (auto simp: not_evaluated_preservation_def)
    from any_slot_False [OF this slots e] show "relabelled b n e = Inr False" .
  qed
  then show ?thesis using primary b slots subj by blast
qed

section \<open>A sample bundle\<close>

definition composition_sample_lib :: composition_lib where
  "composition_sample_lib = \<lparr>pl_sha256 = (\<lambda>_. []), pl_float = (\<lambda>_. [])\<rparr>"

definition sample_digest :: pyval where
  "sample_digest = JStr ''sha256:''"

definition sample_slot :: pyval where
  "sample_slot =
     JObj [(''artifact'', JObj [(''bytes_b64u'', JStr ''AA''), (''sha256'', sample_digest)]),
           (''subject'', JObj [(''action_digest'', sample_digest), (''digest_context'', JObj [(''representation'', JStr ''hex'')])]),
           (''protected_cross_reference'', JObj [(''target_slot'', JStr ''a''), (''artifact_digest'', sample_digest)]),
           (''additional_bindings'', JArr []), (''fields'', JObj [(''amount'', JObj [(''basis'', JStr ''g'')])]),
           (''profile'', JStr ''p''), (''native_result'', JStr ''pass'')]"

definition sample_item :: pyval where
  "sample_item =
     JObj [(''id'', JStr ''c''), (''pair_id'', JStr ''q''), (''variant'', JStr ''v''),
       (''input'', JObj [
          (''slots'', JObj [(''a'', sample_slot)]),
          (''subject'', JObj [(''action_artifact'', JObj [(''bytes_b64u'', JStr ''Nw'')]), (''action_digest'', sample_digest),
             (''action'', JInt 7), (''digest_context'', JObj [(''representation'', JStr ''hex'')])]),
          (''policy'', JObj [(''required_binding_purposes'', JArr []), (''supported_profiles'', JArr []), (''required_profiles'', JArr [])]),
          (''mappings'', JArr []),
          (''reporting'', JObj [(''native_results_separate'', JBool True), (''composition_overrides_native'', JBool False),
             (''reported_native_results'', JObj [])])])]"

definition passes :: "composition_exn + case_outcome \<Rightarrow> bool" where
  "passes r = (case r of Inl e \<Rightarrow> False | Inr out \<Rightarrow> co_terminal out = ''pass'')"

lemma sample_item_passes: "passes (evaluate_case composition_sample_lib sample_item)"
  by code_simp

theorem composition_pass_sound_witness:
  "\<exists>out b slots. evaluate_case composition_sample_lib sample_item = Inr out \<and> co_primary out = ''composition.complete'' \<and>
     subscript sample_item ''input'' = Inr b \<and> slots_of b = Inr slots \<and>
     (\<exists>action. path_of b [''subject'', ''action''] = Inr action \<and>
        bind_sum (path_of b [''subject'', ''action_artifact'', ''bytes_b64u'']) b64u_bytes = Inr (canonical composition_sample_lib action)) \<and>
     (\<forall>(n, e) \<in> set slots. relabelled b n e = Inr False)"
proof -
  obtain out where out: "evaluate_case composition_sample_lib sample_item = Inr out" "co_terminal out = ''pass''"
    using sample_item_passes by (auto simp: passes_def split: sum.splits)
  show ?thesis using composition_pass_sound [OF out] out(1) by fast
qed

end
