(* ===== verification/Aep.thy ===== *)
theory Aep
  imports Codec Python_Values
begin

text \<open>
  \<open>interop/wasmagent-aep-0.1.12-blind/verifier/aep_verify_v2.py\<close>: the blind verifier of AEP records:
  structural, semantic, authenticity and chain verdicts, and their aggregation for one fixture.
  Parameters: the errors of the JSON schema validator, \<open>rfc8785.dumps\<close> (\<open>None\<close> when it raises),
  SHA-256, Ed25519 under a loaded key, \<open>json.loads\<close>, \<open>str()\<close> of a value, and the strict standard base64
  decoder. Reasons are kept as they are written.
\<close>

record aep_lib =
  al_schema_errors :: "pyval \<Rightarrow> string list"
  al_jcs :: "pyval \<Rightarrow> byte list option"
  al_sha256 :: "byte list \<Rightarrow> byte list"
  al_verify :: "byte list \<Rightarrow> byte list \<Rightarrow> byte list \<Rightarrow> bool"
  al_loads :: "byte list \<Rightarrow> pyval option"
  al_str :: "pyval \<Rightarrow> string"
  al_b64_strict :: "string \<Rightarrow> byte list option"

datatype aep_exn = Ax py_error | Jcs_error

definition ax :: "py_error + 'a \<Rightarrow> aep_exn + 'a" where
  "ax x = (case x of Inl e \<Rightarrow> Inl (Ax e) | Inr y \<Rightarrow> Inr y)"

lemma ax_Inr [simp]: "ax m = Inr x \<longleftrightarrow> m = Inr x"
  by (simp add: ax_def split: sum.splits)

type_synonym level = "string \<times> string list"

definition PAYLOAD_TYPE :: string where
  "PAYLOAD_TYPE = ''application/vnd.in-toto+json''"

definition STATEMENT_TYPE :: string where
  "STATEMENT_TYPE = ''https://in-toto.io/Statement/v1''"

definition PREDICATE_TYPE :: string where
  "PREDICATE_TYPE = ''https://wasmagent.dev/attestations/aep/v0.4''"

definition SUBJECT_PREFIX :: string where
  "SUBJECT_PREFIX = ''urn:wasmagent:run:''"

definition EXCLUDED :: "string list" where
  "EXCLUDED = [''signature'', ''dsse_envelope'']"

definition GRADE_ORDER :: "string list" where
  "GRADE_ORDER = [''unknown'', ''operator_asserted'', ''principal_key_signed'', ''qualified_signature'']"

section \<open>Predicates and encodings\<close>

definition predicate :: "pyval \<Rightarrow> py_error + pyval" where
  "predicate record = bind_sum (items record) (\<lambda>ms. Inr (JObj (filter (\<lambda>(k, v). k \<notin> set EXCLUDED) ms)))"

definition aep_jcs :: "aep_lib \<Rightarrow> pyval \<Rightarrow> aep_exn + byte list" where
  "aep_jcs lib obj = (case al_jcs lib obj of None \<Rightarrow> Inl Jcs_error | Some b \<Rightarrow> Inr b)"

definition pred_hash :: "aep_lib \<Rightarrow> pyval \<Rightarrow> aep_exn + string" where
  "pred_hash lib record =
     bind_sum (ax (predicate record)) (\<lambda>p. bind_sum (aep_jcs lib p) (\<lambda>b. Inr (hexdigest (al_sha256 lib b))))"

definition strip :: "string \<Rightarrow> string" where
  "strip s = rev (dropWhile py_space (rev (dropWhile py_space s)))"

definition padded :: "string \<Rightarrow> string" where
  "padded s = s @ replicate ((4 - length s mod 4) mod 4) (CHR ''='')"

definition b64decode_any :: "aep_lib \<Rightarrow> pyval \<Rightarrow> py_error + byte list" where
  "b64decode_any lib v =
     (case v of
        JStr s \<Rightarrow>
          (let t = padded (strip s) in
           case al_b64_strict lib t of
             Some b \<Rightarrow> Inr b
           | None \<Rightarrow>
               (if list_all (\<lambda>c. of_char c < (128 :: nat)) t
                then (case b64_decode (cps t) of None \<Rightarrow> Inl Value_error | Some b \<Rightarrow> Inr b) else Inl Value_error))
      | _ \<Rightarrow> Inl Attribute_error)"

text \<open>\<open>b"DSSEv1 %d %s %d %s" % (len(t), t, len(body), body)\<close>\<close>

definition pae :: "string \<Rightarrow> byte list \<Rightarrow> byte list" where
  "pae payload_type body =
     (let t = utf8_of (cps payload_type) in
      cps ''DSSEv1 '' @ cps (str_nat (length t)) @ [32] @ t @ [32] @ cps (str_nat (length body)) @ [32] @ body)"

section \<open>Levels\<close>

definition level_of :: "string list \<Rightarrow> level" where
  "level_of v = (if v = [] then (''valid'', []) else (''invalid'', v))"

text \<open>The schema errors are given in the order of their paths; a sort that cannot compare two paths (a name with an index)
  raises in the source and is not modelled.\<close>

definition structural :: "aep_lib \<Rightarrow> pyval \<Rightarrow> level" where
  "structural lib record =
     (if al_schema_errors lib record = [] then ''valid'' else ''invalid'', take 5 (al_schema_errors lib record))"

definition graded_value :: "pyval \<Rightarrow> bool" where
  "graded_value v = (case v of JStr s \<Rightarrow> s \<in> set GRADE_ORDER | _ \<Rightarrow> False)"

definition note_if :: "bool \<Rightarrow> string \<Rightarrow> string list" where
  "note_if b n = (if b then [n] else [])"

definition grade_index :: "string \<Rightarrow> nat" where
  "grade_index g = length (takeWhile (\<lambda>x. x \<noteq> g) GRADE_ORDER)"

text \<open>\<open>min(known, key=GRADE_ORDER.index)\<close>: the first of the smallest\<close>

fun weakest :: "string list \<Rightarrow> string option" where
  "weakest [] = None"
| "weakest (g # gs) =
     (case weakest gs of None \<Rightarrow> Some g | Some h \<Rightarrow> if grade_index h < grade_index g then Some h else Some g)"

text \<open>Two values of the model have the same \<open>json.dumps\<close> text when they are the same value (a float is a rational
  here: the two zeros of the source, whose texts differ, are one), so the number of distinct texts is the number of
  distinct values.\<close>

definition distinct_count :: "pyval list \<Rightarrow> nat" where
  "distinct_count obs = length (remdups obs)"

definition vocabulary_notes :: "pyval \<Rightarrow> string list" where
  "vocabulary_notes record =
     concat (map (\<lambda>f. note_if (has_key record f \<and> \<not> graded_value (get record f)) (f @ ''_outside_vocabulary''))
               [''attribution_backing'', ''run_attribution_backing_floor''])
     @ note_if (is_list (get record ''run_attribution_backing_observed'')
                \<and> \<not> list_all graded_value (elements (get record ''run_attribution_backing_observed''))) ''observed_outside_vocabulary''"

definition floor_notes :: "pyval \<Rightarrow> pyval \<Rightarrow> string list" where
  "floor_notes flr obs =
     (if flr \<noteq> JNull then
        (if \<not> is_list obs \<or> elements obs = [] then [''floor_without_observed'']
         else
           note_if (\<not> list_ex (\<lambda>g. py_eq g flr) (elements obs)) ''floor_not_in_observed''
           @ (case weakest (map str_of (filter graded_value (elements obs))) of
                None \<Rightarrow> []
              | Some w \<Rightarrow> note_if (graded_value flr \<and> flr \<noteq> JStr w) ''floor_not_weakest_observed''))
      else if is_list obs \<and> elements obs \<noteq> [] then [''observed_without_floor'']
      else if is_list obs then [''empty_observed'']
      else [])"

definition count_notes :: "pyval \<Rightarrow> pyval \<Rightarrow> string list" where
  "count_notes cnt obs =
     (case cnt of
        JInt n \<Rightarrow>
          note_if (n < 0) ''negative_count''
          @ note_if (is_list obs \<and> n < int (distinct_count (elements obs))) ''count_below_observed_grades''
      | _ \<Rightarrow> [])"

definition semantic :: "pyval \<Rightarrow> py_error + level" where
  "semantic record =
     (case record of
        JObj ms \<Rightarrow>
          (let flr = get record ''run_attribution_backing_floor'';
               obs = get record ''run_attribution_backing_observed'';
               cnt = get record ''authorization_evidence_count'' in
           Inr (level_of (vocabulary_notes record
                  @ note_if (is_list obs \<and> length (elements obs) \<noteq> distinct_count (elements obs)) ''observed_not_unique''
                  @ floor_notes flr obs @ count_notes cnt obs)))
      | JArr xs \<Rightarrow>
          Inl (if JStr ''attribution_backing'' \<in> set xs \<or> JStr ''run_attribution_backing_floor'' \<in> set xs
               then Type_error else Attribute_error)
      | JStr s \<Rightarrow>
          Inl (if sublist ''attribution_backing'' s \<or> sublist ''run_attribution_backing_floor'' s
               then Type_error else Attribute_error)
      | _ \<Rightarrow> Inl Type_error)"

section \<open>Authenticity\<close>

type_synonym aep_keys = "(string \<times> byte list) list"

definition subject_notes :: "aep_lib \<Rightarrow> pyval \<Rightarrow> pyval \<Rightarrow> string \<Rightarrow> py_error + string list" where
  "subject_notes lib record subj want =
     (if \<not> is_list subj \<or> length (elements subj) \<noteq> 1 then Inr [''subject_count'']
      else
        let s = hd (elements subj) in
        bind_sum (mget s ''name'') (\<lambda>name.
        bind_sum (mget s ''digest'') (\<lambda>digest.
        bind_sum (mget (if falsy digest then JObj [] else digest) ''sha256'') (\<lambda>sha.
          Inr (note_if (name \<noteq> JStr (SUBJECT_PREFIX @ al_str lib (get record ''run_id''))) ''subject_name''
               @ note_if (sha \<noteq> JStr want) ''subject_digest'')))))"

definition signature_good :: "aep_lib \<Rightarrow> byte list \<Rightarrow> pyval \<Rightarrow> pyval \<Rightarrow> byte list \<Rightarrow> bool" where
  "signature_good lib key sig payload_type body =
     (case (b64decode_any lib (if has_key sig ''sig'' then get sig ''sig'' else JStr ''''), payload_type) of
        (Inr s, JStr t) \<Rightarrow> al_verify lib key s (pae t body)
      | _ \<Rightarrow> False)"

definition statement_of :: "aep_lib \<Rightarrow> pyval \<Rightarrow> (byte list \<times> pyval) option" where
  "statement_of lib env =
     (case b64decode_any lib (if has_key env ''payload'' then get env ''payload'' else JStr '''') of
        Inl e \<Rightarrow> None
      | Inr body \<Rightarrow> map_option (\<lambda>stmt. (body, stmt)) (al_loads lib body))"

definition statement_notes :: "aep_lib \<Rightarrow> pyval \<Rightarrow> pyval \<Rightarrow> aep_exn + string list" where
  "statement_notes lib record stmt =
     bind_sum (ax (mget stmt ''_type'')) (\<lambda>ty.
     bind_sum (ax (mget stmt ''predicateType'')) (\<lambda>pty.
     bind_sum (ax (predicate record)) (\<lambda>pred.
     bind_sum (aep_jcs lib pred) (\<lambda>b.
     bind_sum (ax (subject_notes lib record (get stmt ''subject'') (hexdigest (al_sha256 lib b)))) (\<lambda>subject.
       Inr (note_if (ty \<noteq> JStr STATEMENT_TYPE) ''statement_type''
            @ note_if (pty \<noteq> JStr PREDICATE_TYPE) ''predicate_type''
            @ subject
            @ note_if (al_jcs lib (get stmt ''predicate'') \<noteq> Some b) ''predicate_not_record''))))))"

definition legacy_notes :: "pyval \<Rightarrow> pyval \<Rightarrow> pyval \<Rightarrow> string list" where
  "legacy_notes legacy sig keyid =
     note_if (is_dict legacy \<and> (\<not> py_eq (get legacy ''sig'') (get sig ''sig'') \<or> \<not> py_eq (get legacy ''key_id'') keyid))
       ''legacy_signature_not_derived_from_envelope''"

definition authenticity :: "aep_lib \<Rightarrow> pyval \<Rightarrow> aep_keys \<Rightarrow> aep_exn + level" where
  "authenticity lib record keys =
     bind_sum (ax (mget record ''dsse_envelope'')) (\<lambda>env.
     let legacy = get record ''signature'' in
     if env = JNull then
       Inr (if legacy = JNull then (''unsigned'', [])
            else (''invalid'', [''inline_signature_without_dsse (unsupported legacy)'']))
     else if \<not> is_dict env then Inr (''invalid'', [''envelope_not_object''])
     else
       let r0 = note_if (get env ''payloadType'' \<noteq> JStr PAYLOAD_TYPE) ''payload_type''; sigs = get env ''signatures'' in
       if \<not> is_list sigs \<or> length (elements sigs) \<noteq> 1 then Inr (''invalid'', r0 @ [''signature_count''])
       else
         let sig = hd (elements sigs) in
         bind_sum (ax (mget sig ''keyid'')) (\<lambda>keyid.
         if \<not> hashable keyid then Inl (Ax Type_error)
         else
           case map_of keys (str_of keyid) of
             None \<Rightarrow> Inr (''invalid'', r0 @ [''unknown_keyid''])
           | Some key \<Rightarrow>
               (if \<not> is_str keyid then Inr (''invalid'', r0 @ [''unknown_keyid''])
                else case statement_of lib env of
                  None \<Rightarrow> Inr (''invalid'', r0 @ [''payload_decode''])
                | Some (body, stmt) \<Rightarrow>
                    bind_sum (statement_notes lib record stmt) (\<lambda>r1.
                      let payload_type = (if has_key env ''payloadType'' then get env ''payloadType'' else JStr '''');
                          reasons = r0 @ r1 @ note_if (\<not> signature_good lib key sig payload_type body) ''signature''
                            @ legacy_notes legacy sig keyid in
                      Inr (if reasons = [] then ''dsse-valid'' else ''invalid'', reasons)))))"

section \<open>Chain\<close>

definition chain_note :: "string \<Rightarrow> nat \<Rightarrow> string" where
  "chain_note what i = what @ str_nat i"

fun chain_from :: "aep_lib \<Rightarrow> nat \<Rightarrow> pyval \<Rightarrow> pyval list \<Rightarrow> level \<Rightarrow> aep_exn + level" where
  "chain_from lib i prev [] st = Inr st"
| "chain_from lib i prev (r # rs) st =
     (let p = get r ''prev_record_hash'' in
      if p = JNull then
        chain_from lib (Suc i) r rs (if fst st = ''intact'' then ''partial'' else fst st, snd st @ [chain_note ''missing_link_'' i])
      else
        bind_sum (pred_hash lib prev) (\<lambda>h.
          chain_from lib (Suc i) r rs (if p \<noteq> JStr h then (''broken'', snd st @ [chain_note ''mismatch_'' i]) else st)))"

definition aep_chain :: "aep_lib \<Rightarrow> pyval list \<Rightarrow> aep_exn + level" where
  "aep_chain lib records =
     bind_sum (ax (traverse (\<lambda>r. mget r ''prev_record_hash'') records)) (\<lambda>prevs.
       if list_all (\<lambda>p. p = JNull) prevs then Inr (''not-present'', [])
       else
         case records of
           [] \<Rightarrow> Inr (''not-present'', [])
         | r # rs \<Rightarrow>
             bind_sum (chain_from lib 1 r rs
                         (if get r ''prev_record_hash'' \<noteq> JNull then (''orphaned'', [''first_record_has_prev'']) else (''intact'', [])))
               (\<lambda>(status, notes).
                  Inr (if status = ''orphaned'' \<and> list_ex (prefix ''mismatch'') notes then ''broken'' else status, notes)))"

section \<open>A fixture\<close>

text \<open>\<open>max(statuses, key=order.index)\<close>: the first of the largest\<close>

definition order_index :: "string list \<Rightarrow> string \<Rightarrow> nat" where
  "order_index order s = length (takeWhile (\<lambda>x. x \<noteq> s) order)"

fun worst :: "string list \<Rightarrow> string list \<Rightarrow> string option" where
  "worst order [] = None"
| "worst order (s # ss) =
     (case worst order ss of None \<Rightarrow> Some s | Some t \<Rightarrow> if order_index order s < order_index order t then Some t else Some s)"

record fixture_levels =
  fl_records :: nat
  fl_structural :: string
  fl_semantic :: string
  fl_authenticity :: string
  fl_chain :: string
  fl_detail :: "string list \<times> string list \<times> string list \<times> string list"

definition all_equal :: "'a list \<Rightarrow> bool" where
  "all_equal xs = (\<exists>x\<in>set xs. list_all (\<lambda>y. y = x) xs)"

definition verify_fixture :: "aep_lib \<Rightarrow> aep_keys \<Rightarrow> pyval list \<Rightarrow> aep_exn + fixture_levels" where
  "verify_fixture lib keys recs =
     (let st = map (structural lib) recs in
      bind_sum (ax (traverse semantic recs)) (\<lambda>se.
      bind_sum (traverse (\<lambda>r. authenticity lib r keys) recs) (\<lambda>au.
      bind_sum (aep_chain lib recs) (\<lambda>ch.
        case (worst [''valid'', ''invalid''] (map fst st), worst [''valid'', ''invalid''] (map fst se),
              worst [''unsigned'', ''dsse-valid'', ''invalid''] (map fst au)) of
          (Some s1, Some s2, Some s3) \<Rightarrow>
            Inr \<lparr>fl_records = length recs, fl_structural = s1, fl_semantic = s2,
                 fl_authenticity = (if all_equal (map fst au) \<or> ''invalid'' \<in> set (map fst au) then s3 else ''mixed''),
                 fl_chain = fst ch,
                 fl_detail = (concat (map snd st), concat (map snd se), concat (map snd au), snd ch)\<rparr>
        | _ \<Rightarrow> Inl (Ax Value_error)))))"

end
