(* ===== verification/Aep_Checks.thy ===== *)
theory Aep_Checks
  imports Aep
begin

text \<open>
  What the verdicts of the AEP verifier establish: the semantic level against a reference definition of
  consistent grading, the chain level against the linkage it stands for, and a fixture's verdicts against
  the records in it.
\<close>

lemma note_if_Nil [simp]: "note_if b n = [] \<longleftrightarrow> \<not> b"
  by (simp add: note_if_def)

lemma level_of_valid [simp]: "level_of v = (''valid'', []) \<longleftrightarrow> v = []"
  by (simp add: level_of_def)

section \<open>Consistent grading\<close>

text \<open>The reference: floor and observed grades come together; the observed grades are a non-empty set of
  the vocabulary whose least member is the floor; a count is at least their number.\<close>

definition consistent_grading :: "pyval \<Rightarrow> bool" where
  "consistent_grading record =
     (let flr = get record ''run_attribution_backing_floor''; obs = get record ''run_attribution_backing_observed'';
          xs = elements obs in
      (has_key record ''attribution_backing'' \<longrightarrow> graded_value (get record ''attribution_backing''))
      \<and> (if is_list obs
          then xs \<noteq> [] \<and> distinct xs \<and> list_all graded_value xs \<and> flr \<in> set xs
            \<and> list_all (\<lambda>x. grade_index (str_of flr) \<le> grade_index (str_of x)) xs
          else \<not> has_key record ''run_attribution_backing_floor'')
      \<and> (case get record ''authorization_evidence_count'' of JInt n \<Rightarrow> max 0 (int (length xs)) \<le> n | _ \<Rightarrow> True))"

lemma graded_value_conv: "graded_value v \<longleftrightarrow> (\<exists>s. v = JStr s \<and> s \<in> set GRADE_ORDER)"
  by (cases v) (auto simp: graded_value_def)

lemma grade_index_inj:
  "g \<in> set GRADE_ORDER \<Longrightarrow> h \<in> set GRADE_ORDER \<Longrightarrow> grade_index g = grade_index h \<Longrightarrow> g = h"
  by (auto simp: GRADE_ORDER_def grade_index_def)

lemma weakest_None [simp]: "weakest gs = None \<longleftrightarrow> gs = []"
  by (cases gs) (auto split: option.splits)

lemma weakest_Some:
  "weakest gs = Some w \<Longrightarrow> w \<in> set gs \<and> (\<forall>g\<in>set gs. grade_index w \<le> grade_index g)"
  by (induction gs arbitrary: w) (fastforce split: option.splits if_splits)+

lemma weakest_is:
  assumes "set gs \<subseteq> set GRADE_ORDER" "f \<in> set gs"
  shows "weakest gs = Some f \<longleftrightarrow> (\<forall>g\<in>set gs. grade_index f \<le> grade_index g)"
proof
  assume "\<forall>g\<in>set gs. grade_index f \<le> grade_index g"
  moreover obtain w where w: "weakest gs = Some w" using assms(2) by (cases "weakest gs") auto
  ultimately have "grade_index f = grade_index w" using weakest_Some [OF w] assms(2) by (auto intro: le_antisym)
  then have "f = w" using grade_index_inj assms weakest_Some [OF w] by blast
  then show "weakest gs = Some f" using w by simp
qed (use weakest_Some in blast)

lemma distinct_count_distinct: "length obs = distinct_count obs \<longleftrightarrow> distinct obs"
  using length_remdups_eq [of obs] remdups_id_iff_distinct [of obs] unfolding distinct_count_def by metis

lemma vocabulary_clean:
  "vocabulary_notes record = [] \<longleftrightarrow>
     (has_key record ''attribution_backing'' \<longrightarrow> graded_value (get record ''attribution_backing''))
     \<and> (has_key record ''run_attribution_backing_floor'' \<longrightarrow> graded_value (get record ''run_attribution_backing_floor''))
     \<and> (is_list (get record ''run_attribution_backing_observed'')
          \<longrightarrow> list_all graded_value (elements (get record ''run_attribution_backing_observed'')))"
  by (auto simp: vocabulary_notes_def)

lemma floor_clean:
  assumes "list_all graded_value xs" "flr \<noteq> JNull" "graded_value flr"
  shows "floor_notes flr (JArr xs) = [] \<longleftrightarrow>
     xs \<noteq> [] \<and> flr \<in> set xs \<and> list_all (\<lambda>x. grade_index (str_of flr) \<le> grade_index (str_of x)) xs"
proof -
  obtain f where f: "flr = JStr f" "f \<in> set GRADE_ORDER" using assms(3) by (auto simp: graded_value_conv)
  have known: "filter graded_value xs = xs" using assms(1) by (simp add: list_all_iff)
  have all_str: "x = JStr (str_of x) \<and> str_of x \<in> set GRADE_ORDER" if "x \<in> set xs" for x
    using assms(1) that by (auto simp: list_all_iff graded_value_conv)
  then have sub: "set (map str_of xs) \<subseteq> set GRADE_ORDER" by auto
  have mem: "list_ex (\<lambda>g. py_eq g flr) xs \<longleftrightarrow> f \<in> set (map str_of xs)" "flr \<in> set xs \<longleftrightarrow> f \<in> set (map str_of xs)"
    using f all_str by (force simp: list_ex_iff)+
  show ?thesis
  proof (cases "f \<in> set (map str_of xs)")
    case True
    then obtain w where w: "weakest (map str_of xs) = Some w" by (cases "weakest (map str_of xs)") auto
    have "floor_notes flr (JArr xs) = [] \<longleftrightarrow> weakest (map str_of xs) = Some f"
      using True mem w assms(3) f by (auto simp: floor_notes_def known)
    then show ?thesis using weakest_is [OF sub True] True mem f by (auto simp: list_all_iff)
  next
    case False
    then show ?thesis using mem f by (auto simp: floor_notes_def)
  qed
qed

lemma floor_clean_no_list: "\<not> is_list obs \<Longrightarrow> floor_notes flr obs = [] \<longleftrightarrow> flr = JNull"
  by (auto simp: floor_notes_def)

lemma floor_clean_null: "floor_notes JNull (JArr xs) \<noteq> []"
  by (simp add: floor_notes_def)

lemma count_clean:
  "count_notes c obs = [] \<longleftrightarrow>
     (case c of JInt n \<Rightarrow> 0 \<le> n \<and> (is_list obs \<longrightarrow> int (distinct_count (elements obs)) \<le> n) | _ \<Rightarrow> True)"
  by (cases c) (auto simp: count_notes_def)

lemma semantic_consistent:
  "semantic (JObj ms) = Inr (''valid'', []) \<longleftrightarrow> consistent_grading (JObj ms)"
proof -
  let ?r = "JObj ms"
  let ?flr = "get ?r ''run_attribution_backing_floor''"
  let ?obs = "get ?r ''run_attribution_backing_observed''"
  have sem: "semantic ?r = Inr (''valid'', []) \<longleftrightarrow>
      vocabulary_notes ?r = [] \<and> (is_list ?obs \<longrightarrow> distinct (elements ?obs)) \<and> floor_notes ?flr ?obs = []
      \<and> count_notes (get ?r ''authorization_evidence_count'') ?obs = []"
    by (simp add: semantic_def Let_def distinct_count_distinct)
  have key: "?flr \<noteq> JNull \<Longrightarrow> has_key ?r ''run_attribution_backing_floor''" by (rule get_not_null)
  have nokey: "\<not> has_key ?r ''run_attribution_backing_floor'' \<Longrightarrow> ?flr = JNull" by (rule get_no_key)
  have null: "\<not> graded_value JNull" by (simp add: graded_value_def)
  show ?thesis
  proof (cases "is_list ?obs")
    case True
    then obtain xs where xs: "?obs = JArr xs" by (auto simp: is_list_conv)
    have floor: "list_all graded_value xs \<Longrightarrow>
        (has_key ?r ''run_attribution_backing_floor'' \<longrightarrow> graded_value ?flr) \<and> floor_notes ?flr (JArr xs) = [] \<longleftrightarrow>
        xs \<noteq> [] \<and> ?flr \<in> set xs \<and> list_all (\<lambda>x. grade_index (str_of ?flr) \<le> grade_index (str_of x)) xs"
    proof (cases "?flr = JNull")
      case False
      assume l: "list_all graded_value xs"
      show ?thesis
      proof (cases "graded_value ?flr")
        case True
        then show ?thesis using floor_clean [OF l False True] by simp
      next
        case neg: False
        then show ?thesis using key [OF False] l by (auto simp: list_all_iff)
      qed
    qed (use null in \<open>auto simp: floor_clean_null list_all_iff\<close>)
    have dc: "distinct xs \<Longrightarrow> distinct_count xs = length xs" using distinct_count_distinct [of xs] by simp
    show ?thesis
      unfolding sem consistent_grading_def Let_def vocabulary_clean count_clean xs
      using floor dc by (auto split: json.splits)
  next
    case False
    then have "elements ?obs = []" by (cases ?obs) auto
    moreover have "(has_key ?r ''run_attribution_backing_floor'' \<longrightarrow> graded_value ?flr) \<and> ?flr = JNull \<longleftrightarrow>
        \<not> has_key ?r ''run_attribution_backing_floor''"
      using key nokey null by metis
    ultimately show ?thesis using False
      unfolding sem consistent_grading_def Let_def vocabulary_clean count_clean floor_clean_no_list [OF False]
      by (auto split: json.splits)
  qed
qed

text \<open>C20: the semantic level equals its reference definition. A record is judged semantically valid exactly when
  its grading is consistent: every graded field is of the vocabulary, floor and observed grades come
  together, the observed grades are non-empty and distinct with the floor as their weakest, and the
  evidence count is no smaller than their number.\<close>

theorem semantic_valid_iff:
  "semantic (JObj ms) = Inr (''valid'', []) \<longleftrightarrow> consistent_grading (JObj ms)"
  by (rule semantic_consistent)

section \<open>Chains\<close>

text \<open>Every later record carries the hash of its predecessor's predicate.\<close>

fun linked :: "aep_lib \<Rightarrow> pyval \<Rightarrow> pyval list \<Rightarrow> bool" where
  "linked lib prev [] = True"
| "linked lib prev (r # rs) \<longleftrightarrow>
     (\<exists>h. pred_hash lib prev = Inr h \<and> get r ''prev_record_hash'' = JStr h) \<and> linked lib r rs"

lemma chain_from_intact:
  "chain_from lib i prev rs st = Inr (''intact'', notes) \<longleftrightarrow> linked lib prev rs \<and> st = (''intact'', notes)"
proof (induction rs arbitrary: i prev st)
  case (Cons r rs)
  show ?case by (cases st) (auto simp: Let_def Cons.IH split: if_splits)
qed simp

lemma traverse_mget:
  "traverse (\<lambda>r. mget r k) rs = Inr vs \<longleftrightarrow> list_all is_dict rs \<and> vs = map (\<lambda>r. get r k) rs"
  by (induction rs arbitrary: vs) (auto simp: mget_def)

text \<open>What an intact chain is. The chain verdict is \<open>intact\<close> exactly when the records are objects, at least two,
  the first carries no link, and every later one carries the SHA-256 of the canonical form of its
  predecessor's predicate.\<close>

theorem chain_intact_iff:
  "aep_chain lib (r # rs) = Inr (''intact'', notes) \<longleftrightarrow>
     notes = [] \<and> list_all is_dict (r # rs) \<and> rs \<noteq> [] \<and> get r ''prev_record_hash'' = JNull \<and> linked lib r rs"
proof -
  have some: "\<not> list_all (\<lambda>p. p = JNull) (map (\<lambda>x. get x ''prev_record_hash'') rs)" if "linked lib r rs" "rs \<noteq> []"
    using that by (cases rs) auto
  show ?thesis
  proof (cases "list_all is_dict (r # rs)")
    case True
    then have tr: "traverse (\<lambda>x. mget x ''prev_record_hash'') (r # rs) = Inr (map (\<lambda>x. get x ''prev_record_hash'') (r # rs))"
      using traverse_mget by blast
    have final: "(if s = ''orphaned'' \<and> c then ''broken'' else s) = ''intact'' \<longleftrightarrow> s = ''intact''" for s c by simp
    show ?thesis
    proof (cases "list_all (\<lambda>p. p = JNull) (map (\<lambda>x. get x ''prev_record_hash'') (r # rs))")
      case all: True
      then show ?thesis using some True unfolding aep_chain_def tr by (auto simp: ax_def)
    next
      case False
      then have "aep_chain lib (r # rs) = Inr (''intact'', notes) \<longleftrightarrow>
          chain_from lib 1 r rs (if get r ''prev_record_hash'' \<noteq> JNull then (''orphaned'', [''first_record_has_prev'']) else (''intact'', []))
            = Inr (''intact'', notes)"
        unfolding aep_chain_def tr by (auto simp: ax_def final simp del: list.pred_inject)
      then show ?thesis using False True unfolding chain_from_intact by auto
    qed
  next
    case False
    then show ?thesis using traverse_mget [of "''prev_record_hash''" "r # rs"] by (auto simp: aep_chain_def)
  qed
qed

section \<open>Authenticated records\<close>

text \<open>What a \<open>dsse-valid\<close> record establishes: its envelope has one signature, under a known key, of the DSSE
  pre-authentication encoding of a payload, and the payload is a statement whose subject digest and
  predicate are those of the record.\<close>

definition attested :: "aep_lib \<Rightarrow> aep_keys \<Rightarrow> pyval \<Rightarrow> bool" where
  "attested lib keys record =
     (let env = get record ''dsse_envelope''; sig = hd (elements (get env ''signatures'')) in
      length (elements (get env ''signatures'')) = 1 \<and>
      (case (map_of keys (str_of (get sig ''keyid'')), statement_of lib env, predicate record) of
         (Some key, Some (body, stmt), Inr p) \<Rightarrow>
           signature_good lib key sig (JStr PAYLOAD_TYPE) body
           \<and> get stmt ''_type'' = JStr STATEMENT_TYPE \<and> get stmt ''predicateType'' = JStr PREDICATE_TYPE
           \<and> al_jcs lib p \<noteq> None \<and> al_jcs lib (get stmt ''predicate'') = al_jcs lib p
           \<and> (let s = hd (elements (get stmt ''subject'')) in
               get s ''name'' = JStr (SUBJECT_PREFIX @ al_str lib (get record ''run_id''))
               \<and> get (get s ''digest'') ''sha256'' = JStr (hexdigest (al_sha256 lib (the (al_jcs lib p)))))
       | _ \<Rightarrow> False))"

lemma mget_Inr [simp]: "mget d k = Inr v \<longleftrightarrow> is_dict d \<and> v = get d k"
  by (auto simp: mget_def)

lemma get_empty_obj [simp]: "get (JObj []) k = JNull"
  by (simp add: get_def)

lemma get_falsy: "falsy v \<Longrightarrow> get v k = JNull"
  by (cases v) (simp_all add: get_def)

lemma subject_clean:
  "subject_notes lib record subj want = Inr [] \<Longrightarrow>
     get (hd (elements subj)) ''name'' = JStr (SUBJECT_PREFIX @ al_str lib (get record ''run_id''))
     \<and> get (get (hd (elements subj)) ''digest'') ''sha256'' = JStr want"
  by (auto simp: subject_notes_def Let_def split: if_splits)

lemma statement_clean:
  assumes "statement_notes lib record stmt = Inr []"
  obtains p b where "predicate record = Inr p" "al_jcs lib p = Some b" "al_jcs lib (get stmt ''predicate'') = Some b"
    "get stmt ''_type'' = JStr STATEMENT_TYPE" "get stmt ''predicateType'' = JStr PREDICATE_TYPE"
    "subject_notes lib record (get stmt ''subject'') (hexdigest (al_sha256 lib b)) = Inr []"
  using assms by (auto simp: statement_notes_def aep_jcs_def split: option.splits)

lemma dsse_valid_attested:
  assumes "authenticity lib record keys = Inr (''dsse-valid'', ns)"
  shows "attested lib keys record"
proof -
  let ?env = "get record ''dsse_envelope''"
  let ?sigs = "get ?env ''signatures''"
  let ?sig = "hd (elements ?sigs)"
  obtain key body stmt r1 where key: "map_of keys (str_of (get ?sig ''keyid'')) = Some key"
    and body: "statement_of lib ?env = Some (body, stmt)" and one: "length (elements ?sigs) = 1"
    and r1: "statement_notes lib record stmt = Inr r1"
    and clean: "note_if (get ?env ''payloadType'' \<noteq> JStr PAYLOAD_TYPE) ''payload_type'' @ r1
        @ note_if (\<not> signature_good lib key ?sig (if has_key ?env ''payloadType'' then get ?env ''payloadType'' else JStr '''') body) ''signature'' = []"
    using assms by (auto simp: authenticity_def Let_def split: if_splits option.splits)
  then have type: "get ?env ''payloadType'' = JStr PAYLOAD_TYPE" and r0: "r1 = []" by auto
  have "has_key ?env ''payloadType''" using get_not_null(2) [of ?env "''payloadType''"] type by simp
  then have sg: "signature_good lib key ?sig (JStr PAYLOAD_TYPE) body" using clean type by simp
  obtain p b where "predicate record = Inr p" "al_jcs lib p = Some b" "al_jcs lib (get stmt ''predicate'') = Some b"
    "get stmt ''_type'' = JStr STATEMENT_TYPE" "get stmt ''predicateType'' = JStr PREDICATE_TYPE"
    "subject_notes lib record (get stmt ''subject'') (hexdigest (al_sha256 lib b)) = Inr []"
    using statement_clean r1 r0 by blast
  then show ?thesis using key body one sg subject_clean by (simp add: attested_def Let_def)
qed

section \<open>Fixtures\<close>

lemma worst_some: "worst order ss = None \<longleftrightarrow> ss = []"
  by (cases ss) (auto split: option.splits)

lemma worst_bound: "worst order ss = Some w \<Longrightarrow> s \<in> set ss \<Longrightarrow> order_index order s \<le> order_index order w"
proof (induction ss arbitrary: w)
  case (Cons a ss)
  then show ?case by (cases "worst order ss") (auto split: if_splits dest: Cons.IH worst_some [THEN iffD1])
qed simp

lemma worst_in: "worst order ss = Some w \<Longrightarrow> w \<in> set ss"
  by (induction ss arbitrary: w) (auto split: option.splits if_splits)

lemma order_index_first [simp]: "order_index (x # xs) s = 0 \<longleftrightarrow> s = x"
  by (auto simp: order_index_def)

lemma worst_first: "worst (x # xs) ss = Some x \<Longrightarrow> s \<in> set ss \<Longrightarrow> s = x"
  using worst_bound [of "x # xs" ss x s] order_index_first [of x xs x] order_index_first [of x xs s] by (simp del: order_index_first)

lemma all_equal_to: "all_equal xs \<Longrightarrow> x \<in> set xs \<Longrightarrow> y \<in> set xs \<Longrightarrow> y = x"
  unfolding all_equal_def list_all_iff by metis

lemma ax_each: "ax (traverse f xs) = Inr ys \<Longrightarrow> list_all2 (\<lambda>x y. f x = Inr y) xs ys"
  by (simp add: traverse_list_all2)

lemma semantic_valid_object: "semantic r = Inr (''valid'', ns) \<Longrightarrow> semantic r = Inr (''valid'', []) \<and> is_dict r"
  by (cases r) (auto simp: semantic_def Let_def level_of_def split: if_splits)

lemma list_all2_each:
  "list_all2 (\<lambda>x y. f x = Inr y) xs ys \<Longrightarrow> (\<And>y. y \<in> set ys \<Longrightarrow> fst y = a) \<Longrightarrow> x \<in> set xs \<Longrightarrow> \<exists>ns. f x = Inr (a, ns)"
  by (induction xs ys rule: list_all2_induct) (auto, metis prod.collapse)

lemma verify_fixture_Inr:
  assumes "verify_fixture lib keys recs = Inr f"
  obtains se au where "ax (traverse semantic recs) = Inr se" "traverse (\<lambda>r. authenticity lib r keys) recs = Inr au"
    "worst [''valid'', ''invalid''] (map fst (map (structural lib) recs)) = Some (fl_structural f)"
    "worst [''valid'', ''invalid''] (map fst se) = Some (fl_semantic f)"
    "\<exists>s3. worst [''unsigned'', ''dsse-valid'', ''invalid''] (map fst au) = Some s3
      \<and> fl_authenticity f = (if all_equal (map fst au) \<or> ''invalid'' \<in> set (map fst au) then s3 else ''mixed'')"
proof -
  obtain se au ch where r: "ax (traverse semantic recs) = Inr se" "traverse (\<lambda>r. authenticity lib r keys) recs = Inr au"
      "aep_chain lib recs = Inr ch"
    and w: "(case (worst [''valid'', ''invalid''] (map fst (map (structural lib) recs)), worst [''valid'', ''invalid''] (map fst se),
              worst [''unsigned'', ''dsse-valid'', ''invalid''] (map fst au)) of
          (Some s1, Some s2, Some s3) \<Rightarrow>
            Inr \<lparr>fl_records = length recs, fl_structural = s1, fl_semantic = s2,
                 fl_authenticity = (if all_equal (map fst au) \<or> ''invalid'' \<in> set (map fst au) then s3 else ''mixed''),
                 fl_chain = fst ch,
                 fl_detail = (concat (map snd (map (structural lib) recs)), concat (map snd se), concat (map snd au), snd ch)\<rparr>
        | _ \<Rightarrow> Inl (Ax Value_error)) = Inr f"
    using assms unfolding verify_fixture_def Let_def bind_sum_Inr by blast
  obtain s1 s2 s3 where o: "worst [''valid'', ''invalid''] (map fst (map (structural lib) recs)) = Some s1"
      "worst [''valid'', ''invalid''] (map fst se) = Some s2" "worst [''unsigned'', ''dsse-valid'', ''invalid''] (map fst au) = Some s3"
    using w by (cases "worst [''valid'', ''invalid''] (map fst (map (structural lib) recs))";
        cases "worst [''valid'', ''invalid''] (map fst se)"; cases "worst [''unsigned'', ''dsse-valid'', ''invalid''] (map fst au)") auto
  show ?thesis
  proof (rule that [OF r(1,2)])
    have f: "f = \<lparr>fl_records = length recs, fl_structural = s1, fl_semantic = s2,
                 fl_authenticity = (if all_equal (map fst au) \<or> ''invalid'' \<in> set (map fst au) then s3 else ''mixed''),
                 fl_chain = fst ch,
                 fl_detail = (concat (map snd (map (structural lib) recs)), concat (map snd se), concat (map snd au), snd ch)\<rparr>"
      using w unfolding o by simp
    show "worst [''valid'', ''invalid''] (map fst (map (structural lib) recs)) = Some (fl_structural f)" by (simp add: f o del: map_map)
    show "worst [''valid'', ''invalid''] (map fst se) = Some (fl_semantic f)" by (simp add: f o)
    show "\<exists>s3. worst [''unsigned'', ''dsse-valid'', ''invalid''] (map fst au) = Some s3
      \<and> fl_authenticity f = (if all_equal (map fst au) \<or> ''invalid'' \<in> set (map fst au) then s3 else ''mixed'')" by (simp add: f o)
  qed
qed

text \<open>C19: the verdicts of a fixture speak for each of its records. A fixture whose structural and semantic levels
  are \<open>valid\<close> and whose authenticity is \<open>dsse-valid\<close> holds only records without schema errors, with
  consistent grading, and with an envelope whose single signature verifies under a known key over a
  statement about exactly that record.\<close>

theorem fixture_attested:
  assumes "verify_fixture lib keys recs = Inr f"
    and "fl_structural f = ''valid''" and "fl_semantic f = ''valid''" and "fl_authenticity f = ''dsse-valid''"
  shows "list_all (\<lambda>r. al_schema_errors lib r = [] \<and> consistent_grading r \<and> attested lib keys r) recs"
  unfolding list_all_iff
proof
  fix r assume r: "r \<in> set recs"
  let ?st = "map (structural lib) recs"
  obtain se au s3 where se: "ax (traverse semantic recs) = Inr se" and au: "traverse (\<lambda>r. authenticity lib r keys) recs = Inr au"
    and ws: "worst [''valid'', ''invalid''] (map fst ?st) = Some ''valid''" "worst [''valid'', ''invalid''] (map fst se) = Some ''valid''"
      "worst [''unsigned'', ''dsse-valid'', ''invalid''] (map fst au) = Some s3"
    and a: "(if all_equal (map fst au) \<or> ''invalid'' \<in> set (map fst au) then s3 else ''mixed'') = ''dsse-valid''"
    using verify_fixture_Inr [OF assms(1)] unfolding assms(2-4) by metis
  have "fst (structural lib r) = ''valid''" using worst_first [OF ws(1)] r by simp
  then have no_errors: "al_schema_errors lib r = []" by (auto simp: structural_def split: if_splits)
  have "\<And>y. y \<in> set se \<Longrightarrow> fst y = ''valid''" using worst_first [OF ws(2)] by simp
  then obtain ns where "semantic r = Inr (''valid'', ns)" using list_all2_each [OF ax_each [OF se]] r by blast
  then have "semantic r = Inr (''valid'', [])" "is_dict r" using semantic_valid_object by blast+
  then have grading: "consistent_grading r" using semantic_consistent by (auto simp: is_dict_conv)
  have s3: "s3 = ''dsse-valid''" using a by (auto split: if_splits)
  have "''invalid'' \<notin> set (map fst au)"
    using worst_bound [OF ws(3), of "''invalid''"] by (auto simp: s3 order_index_def)
  then have "all_equal (map fst au)" using a by (auto split: if_splits)
  then have "\<And>y. y \<in> set au \<Longrightarrow> fst y = ''dsse-valid''"
    using all_equal_to [OF _ worst_in [OF ws(3)]] s3 by simp
  then obtain ms where "authenticity lib r keys = Inr (''dsse-valid'', ms)"
    using list_all2_each [OF au [unfolded traverse_list_all2]] r by blast
  then show "al_schema_errors lib r = [] \<and> consistent_grading r \<and> attested lib keys r"
    using no_errors grading dsse_valid_attested by blast
qed

section \<open>A sample\<close>

definition sample_body :: pydict where
  "sample_body = [(''run_id'', JStr ''r1''), (''run_attribution_backing_floor'', JStr ''unknown''),
     (''run_attribution_backing_observed'', JArr [JStr ''principal_key_signed'', JStr ''unknown'']), (''authorization_evidence_count'', JInt 3)]"

definition sample_statement :: pyval where
  "sample_statement = JObj [(''_type'', JStr STATEMENT_TYPE), (''predicateType'', JStr PREDICATE_TYPE),
     (''subject'', JArr [JObj [(''name'', JStr ''urn:wasmagent:run:r1''), (''digest'', JObj [(''sha256'', JStr ''07'')])]]),
     (''predicate'', JObj sample_body)]"

definition aep_sample_record :: pyval where
  "aep_sample_record = JObj (sample_body @ [(''dsse_envelope'',
     JObj [(''payloadType'', JStr PAYLOAD_TYPE), (''payload'', JStr ''stmt''),
           (''signatures'', JArr [JObj [(''keyid'', JStr ''k1''), (''sig'', JStr ''good'')]])])])"

text \<open>A toy environment: one payload decodes, and only the sample's predicate has the canonical form \<open>[1]\<close>.\<close>

definition aep_sample_lib :: aep_lib where
  "aep_sample_lib = \<lparr>al_schema_errors = \<lambda>v. [], al_jcs = \<lambda>v. Some (if v = JObj sample_body then [1] else [2]),
     al_sha256 = \<lambda>b. if b = [1] then [7] else [8], al_verify = \<lambda>k s m. k = [9] \<and> s = cps ''good'',
     al_loads = \<lambda>b. if b = cps ''stmt'' then Some sample_statement else None, al_str = str_of,
     al_b64_strict = \<lambda>s. Some (cps s)\<rparr>"

lemma sample_record_authentic: "authenticity aep_sample_lib aep_sample_record [(''k1'', [9])] = Inr (''dsse-valid'', [])"
  by code_simp

theorem fixture_attested_witness:
  "list_all (\<lambda>r. al_schema_errors aep_sample_lib r = [] \<and> consistent_grading r \<and> attested aep_sample_lib [(''k1'', [9])] r) [aep_sample_record]"
proof -
  have "verify_fixture aep_sample_lib [(''k1'', [9])] [aep_sample_record] =
      Inr \<lparr>fl_records = 1, fl_structural = ''valid'', fl_semantic = ''valid'', fl_authenticity = ''dsse-valid'',
           fl_chain = ''not-present'', fl_detail = ([], [], [], [])\<rparr>"
    by code_simp
  from fixture_attested [OF this] show ?thesis by simp
qed

end
