(* ===== verification/Lease_Campaign.thy ===== *)
theory Lease_Campaign
  imports Lease_Corpus Python_Values
begin

text \<open>
  \<open>main\<close> of the lease-revocation-axes runner (revision 3): the gate on the frozen vectors, the baseline
  runs under the four profiles, the observation of the defective variants against their pinned failures,
  the post-expiry diagnostics, the reporting checks, the comparison with the oracle's checkpoints, and
  the status of the whole run. Whether a file with \<open>oracle\<close> in its name was opened while the scoring ran is a parameter
  (the scored functions open no file). Printed texts and the report's copies of its inputs are left out.
\<close>

section \<open>The vectors\<close>

record lra_case =
  case_id :: string
  timeline :: "event list"

record mutant_pin =
  pin_mutant :: mutant
  pin_mode :: mode
  pin_boundary :: boundary
  pin_expected :: "string list"

record lra_vectors =
  v_family :: string
  v_status :: string
  v_version :: int
  v_action_policy :: string
  v_profile :: profile
  v_cases :: "lra_case list"
  v_mutants :: "mutant_pin list"

datatype campaign_error = Run_error lra_error | Refused string | Assertion string | Stop_iteration | Index_missing
  | Key_missing string

definition MODES :: "mode list" where
  "MODES = [Cached_lease, Live_standing_read]"

definition BOUNDARIES :: "boundary list" where
  "BOUNDARIES = [Exclusive, Inclusive]"

definition DIAGNOSTIC_CASES :: "string list" where
  "DIAGNOSTIC_CASES = [''LRA-04'', ''LRA-05'', ''LRA-07'', ''LRA-08'', ''LRA-10'']"

section \<open>The gate\<close>

definition digest_gate :: "string \<Rightarrow> string list \<Rightarrow> bool" where
  "digest_gate digest manifest =
     list_ex (\<lambda>l. first_word l = digest) (filter (\<lambda>l. sublist ''vectors.json'' l) manifest)"

definition total_calls :: "lra_vectors \<Rightarrow> nat" where
  "total_calls v = length (filter is_call (concat (map timeline (v_cases v))))"

definition vector_assertions :: "int \<Rightarrow> lra_vectors \<Rightarrow> campaign_error option" where
  "vector_assertions revision v = first_error
     [raise_if (v_family v \<noteq> ''lease-revocation-axes'') (Assertion ''''),
      raise_if (v_status v \<noteq> ''candidate'' \<or> v_version v \<noteq> revision) (Assertion ''''),
      raise_if (lease_ms (v_profile v) \<noteq> 120000) (Assertion ''''),
      raise_if (lease_anchor (v_profile v) \<noteq> ''evidence_issued_at_ms'') (Assertion ''''),
      raise_if (v_action_policy v \<noteq> DEFAULT_POLICY) (Assertion ''''),
      raise_if (current_observation_max_age_ms (v_profile v) \<noteq> 0) (Assertion ''''),
      raise_if (length (v_cases v) \<noteq> 12) (Assertion ''''),
      raise_if (card (set (map case_id (v_cases v))) \<noteq> 12) (Assertion ''''),
      raise_if (total_calls v \<noteq> 44) (Assertion ''frozen call inventory changed'')]"

section \<open>Runs\<close>

record lra_run =
  run_id :: string
  run_mode :: mode
  run_boundary :: boundary
  run_status :: run_status
  run_final :: run_state

definition config_of :: "lra_vectors \<Rightarrow> mode \<Rightarrow> boundary \<Rightarrow> mutant \<Rightarrow> axis list \<Rightarrow> string \<Rightarrow> run_config" where
  "config_of v m b mu claimed policy =
     \<lparr>rc_profile = v_profile v, rc_mode = m, rc_boundary = b, rc_mutant = mu, rc_claimed = claimed,
      rc_policy = policy, rc_extras = (v_version v = 3)\<rparr>"

definition run_vector ::
  "lra_vectors \<Rightarrow> lra_case \<Rightarrow> mode \<Rightarrow> boundary \<Rightarrow> mutant \<Rightarrow> axis list \<Rightarrow> string \<Rightarrow> campaign_error + lra_run" where
  "run_vector v c m b mu claimed policy =
     (case run_case (config_of v m b mu claimed policy) (timeline c) of
        Inl e \<Rightarrow> Inl (Run_error e)
      | Inr (st, rs) \<Rightarrow>
          Inr \<lparr>run_id = case_id c, run_mode = m, run_boundary = b, run_status = st, run_final = rs\<rparr>)"

definition has_failures :: "lra_run \<Rightarrow> bool" where
  "has_failures r = (rs_failures (run_final r) \<noteq> [])"

definition worker_instances :: "lra_run \<Rightarrow> nat" where
  "worker_instances r = length (rs_workers (run_final r))"

definition profiles :: "(mode \<times> boundary) list" where
  "profiles = concat (map (\<lambda>m. map (\<lambda>b. (m, b)) BOUNDARIES) MODES)"

definition run_profiles :: "lra_vectors \<Rightarrow> mutant \<Rightarrow> lra_case list \<Rightarrow> campaign_error + lra_run list" where
  "run_profiles v mu cs =
     traverse (\<lambda>((m, b), c). run_vector v c m b mu AXES DEFAULT_POLICY)
       (concat (map (\<lambda>p. map (\<lambda>c. (p, c)) cs) profiles))"

definition baseline_runs :: "lra_vectors \<Rightarrow> campaign_error + lra_run list" where
  "baseline_runs v =
     bind_sum (run_profiles v Correct (v_cases v)) (\<lambda>runs.
       if list_ex (\<lambda>r. run_id r = ''LRA-08'' \<and> worker_instances r \<noteq> 2) runs
       then Inl (Assertion ''worker isolation broken'') else Inr runs)"

definition diagnostic_runs :: "lra_vectors \<Rightarrow> campaign_error + lra_run list" where
  "diagnostic_runs v =
     run_profiles v Post_expiry_diagnostic (filter (\<lambda>c. case_id c \<in> set DIAGNOSTIC_CASES) (v_cases v))"

section \<open>Mutation observation\<close>

text \<open>A failure is printed as the call's id, a space, the label and a colon before the two values;
  \<open>f.split(" ")[0]\<close> is the id up to its first space. The printed values are left out: the test for
  \<open>source_read_contract\<close> in the text could meet them only if a grant or evidence id held that label.\<close>

definition failure_head :: "string \<times> string \<Rightarrow> string" where
  "failure_head f = fst f @ '' '' @ snd f"

definition w2_only :: "lra_run \<Rightarrow> bool" where
  "w2_only r =
     list_all (\<lambda>f. list_all (\<lambda>rec. call_id (r_call rec) = takeWhile (\<lambda>c. c \<noteq> CHR '' '') (failure_head f)
                                   \<longrightarrow> worker (r_call rec) = ''w2'') (rs_records (run_final r)))
       (rs_failures (run_final r))"

definition all_source :: "lra_run list \<Rightarrow> bool" where
  "all_source runs =
     list_all (\<lambda>r. list_all (\<lambda>f. sublist ''source_read_contract'' (failure_head f)) (rs_failures (run_final r)))
       (filter has_failures runs)"

record mutation_row =
  mr_pin :: mutant_pin
  mr_failed :: "string list"
  mr_match :: bool

definition failed_cases :: "lra_run list \<Rightarrow> string list" where
  "failed_cases runs = map run_id (filter has_failures runs)"

definition observe_mutant :: "lra_vectors \<Rightarrow> mutant_pin \<Rightarrow> campaign_error + mutation_row" where
  "observe_mutant v p =
     bind_sum (traverse (\<lambda>c. run_vector v c (pin_mode p) (pin_boundary p) (pin_mutant p) AXES DEFAULT_POLICY) (v_cases v))
       (\<lambda>runs.
         let ok = (failed_cases runs = pin_expected p) in
         if pin_mutant p = Second_worker_stale then
           (case find (\<lambda>r. run_id r = ''LRA-08'') runs of
              None \<Rightarrow> Inl Stop_iteration
            | Some r \<Rightarrow> Inr \<lparr>mr_pin = p, mr_failed = failed_cases runs, mr_match = (ok \<and> w2_only r)\<rparr>)
         else if pin_mutant p = Fabricated_live_read then
           Inr \<lparr>mr_pin = p, mr_failed = failed_cases runs, mr_match = (ok \<and> all_source runs)\<rparr>
         else Inr \<lparr>mr_pin = p, mr_failed = failed_cases runs, mr_match = ok\<rparr>)"

section \<open>Oracle checkpoints\<close>

definition binding_text :: "binding \<Rightarrow> string" where
  "binding_text b = (case b of Matched \<Rightarrow> ''matched'' | Mismatch \<Rightarrow> ''mismatch'')"

definition freshness_text :: "freshness \<Rightarrow> string" where
  "freshness_text f = (case f of Fresh \<Rightarrow> ''fresh'' | Expired \<Rightarrow> ''expired'')"

definition validity_text :: "validity \<Rightarrow> string" where
  "validity_text x =
     (case x of Valid \<Rightarrow> ''valid'' | Revoked_validity \<Rightarrow> ''revoked'' | Not_established_validity \<Rightarrow> ''not_established'')"

definition decision_text :: "decision \<Rightarrow> string" where
  "decision_text x =
     (case x of Permit \<Rightarrow> ''permit'' | Deny \<Rightarrow> ''deny'' | Not_claimed \<Rightarrow> ''not_claimed'' | Not_supported \<Rightarrow> ''not_supported'')"

definition refusal_text :: "refusal \<Rightarrow> string" where
  "refusal_text x =
     (case x of Evidence_binding_mismatch \<Rightarrow> ''evidence_binding_mismatch'' | Evidence_expired \<Rightarrow> ''evidence_expired''
      | Authority_not_determined \<Rightarrow> ''authority_not_determined'' | Authority_revoked \<Rightarrow> ''authority_revoked''
      | Operation_not_permitted \<Rightarrow> ''operation_not_permitted'')"

definition observation_json :: "observation option \<Rightarrow> pyval" where
  "observation_json x =
     (case x of
        None \<Rightarrow> JNull
      | Some ob \<Rightarrow>
          JObj [(''status'', JStr (case ob_status ob of Active \<Rightarrow> ''active'' | Revoked \<Rightarrow> ''revoked'')),
                (''as_of_ms'', JInt (as_of_ms ob)), (''retrieved_at_ms'', JInt (retrieved_at_ms ob))])"

definition grant_ref_json :: "grant_ref \<Rightarrow> pyval" where
  "grant_ref_json g =
     JObj [(''grant'', JStr (gr_grant g)), (''evidence_id'', JStr (gr_evidence_id g)),
           (''issued_at_ms'', JInt (gr_issued_at_ms g)), (''expires_at_ms'', JInt (gr_expires_at_ms g)),
           (''observation_as_of_ms'', case observation_as_of_ms g of None \<Rightarrow> JNull | Some t \<Rightarrow> JInt t)]"

text \<open>The answer as the dictionary the verifier returns\<close>

definition answer_json :: "answer \<Rightarrow> pyval" where
  "answer_json a =
     JObj ([(''evidence_binding'', JStr (binding_text (evidence_binding a))),
            (''evidence_freshness'', JStr (freshness_text (evidence_freshness a))),
            (''observation'', observation_json (an_observation a)),
            (''authority_answer'', JStr (validity_text (authority_answer a))),
            (''current_validity'', JStr (validity_text (current_validity a))),
            (''verification_accepted'', JBool (verification_accepted a)),
            (''action_decision'', JStr (decision_text (action_decision a)))]
           @ (case extra_fields a of
                None \<Rightarrow> []
              | Some (refusal, g) \<Rightarrow>
                  [(''refusal_reason'', case refusal of None \<Rightarrow> JNull | Some x \<Rightarrow> JStr (refusal_text x)),
                   (''grant_ref'', grant_ref_json g)]))"

record checkpoint =
  ck_diagnostic :: bool
  ck_case :: string
  ck_mode :: mode
  ck_boundary :: boundary
  ck_call :: string
  ck_truth :: status
  ck_answer :: pydict
  ck_downstream :: bool

definition complain :: "bool \<Rightarrow> string \<Rightarrow> string list" where
  "complain b s = (if b then [s] else [])"

definition answer_field_failures :: "checkpoint \<Rightarrow> answer \<Rightarrow> campaign_error + string list" where
  "answer_field_failures row a =
     bind_sum
       (traverse (\<lambda>(k, x).
          if has_key (answer_json a) k
          then Inr (complain (\<not> py_eq (get (answer_json a) k) x) (ck_call row @ '' '' @ k))
          else Inl (Key_missing k)) (ck_answer row))
       (\<lambda>fs. Inr (concat fs))"

definition oracle_row :: "lra_run list \<Rightarrow> lra_run list \<Rightarrow> checkpoint \<Rightarrow> campaign_error + string list" where
  "oracle_row baselines diagnostics row =
     (case find (\<lambda>r. run_id r = ck_case row \<and> run_mode r = ck_mode row \<and> run_boundary r = ck_boundary row)
             (if ck_diagnostic row then diagnostics else baselines) of
        None \<Rightarrow> Inr [ck_case row @ '': no run'']
      | Some run \<Rightarrow>
          (case find (\<lambda>rec. call_id (r_call rec) = ck_call row) (rs_records (run_final run)) of
             None \<Rightarrow> Inr [ck_call row @ '': no record'']
           | Some rec \<Rightarrow>
               bind_sum (answer_field_failures row (r_answer rec)) (\<lambda>fs.
                 Inr (complain (r_truth rec \<noteq> ck_truth row) (ck_call row @ '' truth'')
                      @ fs @ complain (r_downstream_reached rec \<noteq> ck_downstream row) (ck_call row @ '' downstream'')))))"

section \<open>Reporting checks\<close>

record reporting =
  no_scored_coverage :: bool
  statement_only_matched :: bool
  policy_mismatch_partial :: bool
  unsupported_only_no_coverage :: bool
  oracle_inputs_not_read :: bool

definition reporting_checks :: "lra_vectors \<Rightarrow> bool \<Rightarrow> campaign_error + reporting" where
  "reporting_checks v unread =
     (case v_cases v of
        c0 # c1 # cs \<Rightarrow>
          bind_sum (run_vector v c0 Cached_lease Exclusive Correct [] DEFAULT_POLICY) (\<lambda>none_run.
          bind_sum (run_vector v c1 Cached_lease Exclusive Correct [Evidence_freshness, Authority_validity] DEFAULT_POLICY) (\<lambda>statement_run.
          bind_sum (run_vector v c0 Cached_lease Exclusive Correct AXES ''different-policy'') (\<lambda>unmapped_run.
          bind_sum (run_vector v c0 Cached_lease Exclusive Correct [Action_authorization] ''different-policy'') (\<lambda>action_only.
            Inr \<lparr>no_scored_coverage = (run_status none_run = No_scored_coverage \<and> rs_scored (run_final none_run) = 0),
                 statement_only_matched = (run_status statement_run = Run_matched \<and> rs_not_claimed (run_final statement_run) > 0),
                 policy_mismatch_partial = (run_status unmapped_run = Partial_coverage \<and> rs_not_supported (run_final unmapped_run) > 0),
                 unsupported_only_no_coverage = (run_status action_only = No_scored_coverage \<and> rs_scored (run_final action_only) = 0),
                 oracle_inputs_not_read = unread\<rparr>))))
      | _ \<Rightarrow> Inl Index_missing)"

definition all_reported :: "reporting \<Rightarrow> bool" where
  "all_reported r \<longleftrightarrow> no_scored_coverage r \<and> statement_only_matched r \<and> policy_mismatch_partial r
     \<and> unsupported_only_no_coverage r \<and> oracle_inputs_not_read r"

section \<open>The campaign\<close>

record campaign =
  ca_baselines :: "lra_run list"
  ca_mutations :: "mutation_row list"
  ca_diagnostics :: "lra_run list"
  ca_oracle_failures :: "string list"
  ca_reporting :: reporting

definition score_campaign :: "lra_vectors \<Rightarrow> checkpoint list \<Rightarrow> bool \<Rightarrow> campaign_error + campaign" where
  "score_campaign v oracle unread =
     bind_sum (baseline_runs v) (\<lambda>baselines.
     bind_sum (traverse (observe_mutant v) (v_mutants v)) (\<lambda>mutations.
     bind_sum (diagnostic_runs v) (\<lambda>diagnostics.
     bind_sum (reporting_checks v unread) (\<lambda>reported.
     bind_sum (traverse (oracle_row baselines diagnostics) oracle) (\<lambda>failures.
       Inr \<lparr>ca_baselines = baselines, ca_mutations = mutations, ca_diagnostics = diagnostics,
            ca_oracle_failures = concat failures, ca_reporting = reported\<rparr>)))))"

definition campaign_main ::
  "int \<Rightarrow> string \<Rightarrow> string list \<Rightarrow> lra_vectors \<Rightarrow> checkpoint list \<Rightarrow> bool \<Rightarrow> campaign_error + campaign" where
  "campaign_main revision digest manifest v oracle unread =
     (if \<not> digest_gate digest manifest then Inl (Refused ''DIGEST GATE FAILED'')
      else case vector_assertions revision v of Some e \<Rightarrow> Inl e | None \<Rightarrow> score_campaign v oracle unread)"

definition campaign_matched :: "campaign \<Rightarrow> bool" where
  "campaign_matched ca \<longleftrightarrow>
     filter has_failures (ca_baselines ca) = [] \<and> list_all mr_match (ca_mutations ca) \<and> ca_oracle_failures ca = []
     \<and> all_reported (ca_reporting ca) \<and> \<not> list_ex has_failures (ca_diagnostics ca)"

definition baseline_calls :: "campaign \<Rightarrow> nat" where
  "baseline_calls ca = sum_list (map (\<lambda>r. length (rs_records (run_final r))) (ca_baselines ca))"

definition baseline_scored_axes :: "campaign \<Rightarrow> nat" where
  "baseline_scored_axes ca = sum_list (map (\<lambda>r. rs_scored (run_final r)) (ca_baselines ca))"

definition composite_comparisons :: "campaign \<Rightarrow> nat" where
  "composite_comparisons ca = sum_list (map (\<lambda>r. rs_composite (run_final r)) (ca_baselines ca))"

end
