(* ===== verification/Lease_Campaign_Checks.thy ===== *)
theory Lease_Campaign_Checks
  imports Lease_Campaign
begin

text \<open>
  What a campaign that returns has counted, and what a matched campaign says of the verifier under test and of
  the defective variants.
\<close>

section \<open>Every run of a campaign\<close>

lemma traverse_returns:
  assumes "\<And>x. x \<in> set xs \<Longrightarrow> \<exists>y. f x = Inr y \<and> P y"
  shows "\<exists>ys. traverse f xs = Inr ys \<and> list_all P ys"
  using assms
proof (induction xs)
  case (Cons x xs)
  then obtain y ys where "f x = Inr y" "P y" "traverse f xs = Inr ys" "list_all P ys"
    using list.set_intros by metis
  then show ?case by (intro exI [of _ "y # ys"]) simp
qed simp

lemma all_profiles: "(m, b) \<in> set profiles"
  by (cases m; cases b) (simp_all add: profiles_def MODES_def BOUNDARIES_def)

lemma profile_pairs:
  assumes "c \<in> set cs"
  shows "((m, b), c) \<in> set (concat (map (\<lambda>p. map (\<lambda>c. (p, c)) cs) profiles))"
  using assms all_profiles [of m b] by fastforce

lemma run_profiles_each:
  assumes "run_profiles v mu cs = Inr runs" "c \<in> set cs"
  shows "\<exists>r\<in>set runs. run_vector v c m b mu AXES DEFAULT_POLICY = Inr r"
  using list_all2_left [OF assms(1) [unfolded run_profiles_def traverse_list_all2] profile_pairs [OF assms(2)], of m b] by simp

lemma run_vector_id: "run_vector v c m b mu claimed policy = Inr r \<Longrightarrow> run_id r = case_id c"
  by (auto simp: run_vector_def split: sum.splits)

section \<open>Pinned failures\<close>

lemma failed_cases_iff:
  assumes "list_all2 (\<lambda>c r. run_vector v c m b mu AXES DEFAULT_POLICY = Inr r) cs runs"
    and "distinct (map case_id cs)" and "c \<in> set cs"
  shows "\<exists>r. run_vector v c m b mu AXES DEFAULT_POLICY = Inr r \<and> (has_failures r \<longleftrightarrow> case_id c \<in> set (failed_cases runs))"
  using assms
proof (induction cs runs rule: list_all2_induct)
  case (Cons x cs r runs)
  have ids: "set (failed_cases runs) \<subseteq> case_id ` set cs"
    using Cons.hyps(2) by (induction cs runs rule: list_all2_induct) (auto simp: failed_cases_def run_vector_id)
  show ?case
  proof (cases "c = x")
    case True
    then show ?thesis using Cons.hyps(1) Cons.prems ids run_vector_id [OF Cons.hyps(1)]
      by (auto simp: failed_cases_def)
  next
    case False
    then have c: "c \<in> set cs" using Cons.prems by simp
    then have "case_id c \<noteq> run_id r" using Cons.prems run_vector_id [OF Cons.hyps(1)] by (metis distinct.simps(2) image_eqI list.simps(9) list.set_map)
    then show ?thesis using Cons.IH Cons.prems c by (auto simp: failed_cases_def)
  qed
qed simp

lemma observe_mutant_match:
  assumes "observe_mutant v p = Inr row" "mr_match row" "distinct (map case_id (v_cases v))" "c \<in> set (v_cases v)"
  shows "\<exists>r. run_vector v c (pin_mode p) (pin_boundary p) (pin_mutant p) AXES DEFAULT_POLICY = Inr r
    \<and> (has_failures r \<longleftrightarrow> case_id c \<in> set (pin_expected p))"
proof -
  obtain runs where runs: "traverse (\<lambda>c. run_vector v c (pin_mode p) (pin_boundary p) (pin_mutant p) AXES DEFAULT_POLICY) (v_cases v) = Inr runs"
    and "failed_cases runs = pin_expected p"
    using assms(1,2) by (auto simp: observe_mutant_def Let_def split: if_splits option.splits)
  then show ?thesis using failed_cases_iff [OF runs [unfolded traverse_list_all2] assms(3,4)] by simp
qed

section \<open>Counts of a fully claimed run\<close>

definition full_count :: "run_state \<Rightarrow> bool" where
  "full_count rs \<longleftrightarrow> rs_scored rs = 3 * length (rs_records rs) \<and> rs_composite rs = length (rs_records rs)"

lemma step_full_count:
  assumes "step k rs ev = Inr rs'" "rc_claimed k = AXES" "rc_policy k = DEFAULT_POLICY" "full_count rs"
  shows "full_count rs'"
proof -
  have "count_support k Supported = 3" "composite_claimed AXES"
    using assms(2,3) by (simp_all add: count_support_def axis_mapping_def AXES_def composite_claimed_def)
  with assms show ?thesis by (elim step_cases) (auto simp: full_count_def elim!: step_callE)
qed

lemma steps_full_count:
  "steps k rs evs = Inr rs' \<Longrightarrow> rc_claimed k = AXES \<Longrightarrow> rc_policy k = DEFAULT_POLICY \<Longrightarrow> full_count rs \<Longrightarrow> full_count rs'"
  by (induction evs arbitrary: rs) (auto dest: step_full_count)

lemma run_vector_counts:
  assumes "run_vector v c m b mu AXES DEFAULT_POLICY = Inr r"
  shows "length (rs_records (run_final r)) = length (filter is_call (timeline c)) \<and> full_count (run_final r)"
proof -
  let ?k = "config_of v m b mu AXES DEFAULT_POLICY"
  have r: "steps ?k (initial_run ?k) (timeline c) = Inr (run_final r)"
    using assms by (auto simp: run_vector_def run_case_def split: sum.splits)
  have "full_count (initial_run ?k)" by (simp add: full_count_def initial_run_def)
  then show ?thesis using steps_records [OF r] steps_full_count [OF r] by (simp add: config_of_def initial_run_def)
qed

lemma run_list_counts:
  assumes "list_all2 (\<lambda>((m, b), c) r. run_vector v c m b mu AXES DEFAULT_POLICY = Inr r) xs runs"
  shows "map (\<lambda>r. length (rs_records (run_final r))) runs = map (\<lambda>x. length (filter is_call (timeline (snd x)))) xs
    \<and> map (\<lambda>r. rs_scored (run_final r)) runs = map (\<lambda>x. 3 * length (filter is_call (timeline (snd x)))) xs
    \<and> map (\<lambda>r. rs_composite (run_final r)) runs = map (\<lambda>x. length (filter is_call (timeline (snd x)))) xs"
  using assms
proof (induction xs runs rule: list_all2_induct)
  case (Cons x xs r runs)
  then show ?case using run_vector_counts by (cases x) (fastforce simp: full_count_def)
qed simp

lemma sum_calls: "sum_list (map (\<lambda>c. length (filter is_call (timeline c))) cs) = length (filter is_call (concat (map timeline cs)))"
  by (induction cs) auto

lemma sum_triple: "sum_list (map (\<lambda>c. 3 * f c) cs) = 3 * sum_list (map f cs)" for f :: "'a \<Rightarrow> nat"
  by (induction cs) auto

lemma four_profiles: "profiles = [(Cached_lease, Exclusive), (Cached_lease, Inclusive), (Live_standing_read, Exclusive), (Live_standing_read, Inclusive)]"
  by (simp add: profiles_def MODES_def BOUNDARIES_def)

lemma run_profiles_counts:
  assumes "run_profiles v mu (v_cases v) = Inr runs"
  shows "length runs = 4 * length (v_cases v)
    \<and> sum_list (map (\<lambda>r. length (rs_records (run_final r))) runs) = 4 * total_calls v
    \<and> sum_list (map (\<lambda>r. rs_scored (run_final r)) runs) = 12 * total_calls v
    \<and> sum_list (map (\<lambda>r. rs_composite (run_final r)) runs) = 4 * total_calls v"
proof -
  have l: "list_all2 (\<lambda>((m, b), c) r. run_vector v c m b mu AXES DEFAULT_POLICY = Inr r)
      (concat (map (\<lambda>p. map (\<lambda>c. (p, c)) (v_cases v)) profiles)) runs"
    using assms by (simp add: run_profiles_def traverse_list_all2 case_prod_unfold)
  have len: "length runs = 4 * length (v_cases v)"
    using list_all2_lengthD [OF l] by (simp add: four_profiles)
  show ?thesis
    using run_list_counts [OF l] len
    by (simp add: four_profiles o_def total_calls_def sum_calls sum_triple)
qed

section \<open>Properties\<close>

lemma campaign_parts:
  assumes "campaign_main revision digest manifest v oracle unread = Inr ca"
  shows "vector_assertions revision v = None" and "run_profiles v Correct (v_cases v) = Inr (ca_baselines ca)"
    and "traverse (observe_mutant v) (v_mutants v) = Inr (ca_mutations ca)"
  using assms by (auto simp: campaign_main_def score_campaign_def baseline_runs_def split: if_splits option.splits)

lemma gate_clean:
  assumes "vector_assertions revision v = None"
  shows "length (v_cases v) = 12" and "distinct (map case_id (v_cases v))" and "total_calls v = 44"
proof -
  show l: "length (v_cases v) = 12" and "total_calls v = 44" using assms by (simp_all add: vector_assertions_def)
  have "card (set (map case_id (v_cases v))) = length (map case_id (v_cases v))"
    using assms l by (simp add: vector_assertions_def)
  then show "distinct (map case_id (v_cases v))" by (rule card_distinct)
qed

text \<open>C35: the inventory of a campaign. Whatever gated vectors the campaign scores, if it returns it has replayed every
  case under the four profiles: 48 baseline runs, 176 calls, 528 axis comparisons and 176 composite
  comparisons.\<close>

theorem campaign_inventory:
  assumes "campaign_main revision digest manifest v oracle unread = Inr ca"
  shows "length (ca_baselines ca) = 48 \<and> baseline_calls ca = 176 \<and> baseline_scored_axes ca = 528
    \<and> composite_comparisons ca = 176"
  using run_profiles_counts [OF campaign_parts(2) [OF assms]] gate_clean [OF campaign_parts(1) [OF assms]]
  by (simp add: baseline_calls_def baseline_scored_axes_def composite_comparisons_def)

text \<open>C18: a matched campaign separates the correct verifier from the defective ones. When the campaign's status is
  matched, the correct verifier fails no case under any profile, and each pinned variant fails exactly
  the cases pinned for it.\<close>

theorem matched_campaign_separates:
  assumes "campaign_main revision digest manifest v oracle unread = Inr ca" and "campaign_matched ca"
  shows "(\<forall>c\<in>set (v_cases v). \<forall>m b. \<exists>r. run_vector v c m b Correct AXES DEFAULT_POLICY = Inr r \<and> \<not> has_failures r)
    \<and> (\<forall>p\<in>set (v_mutants v). \<forall>c\<in>set (v_cases v).
         \<exists>r. run_vector v c (pin_mode p) (pin_boundary p) (pin_mutant p) AXES DEFAULT_POLICY = Inr r
           \<and> (has_failures r \<longleftrightarrow> case_id c \<in> set (pin_expected p)))"
proof (intro conjI ballI allI)
  note parts = campaign_parts [OF assms(1)]
  fix c assume c: "c \<in> set (v_cases v)"
  show "\<exists>r. run_vector v c m b Correct AXES DEFAULT_POLICY = Inr r \<and> \<not> has_failures r" for m b
    using run_profiles_each [OF parts(2) c, of m b] assms(2)
    by (auto simp: campaign_matched_def filter_empty_conv)
  fix p assume "p \<in> set (v_mutants v)"
  then obtain row where "row \<in> set (ca_mutations ca)" "observe_mutant v p = Inr row"
    using list_all2_left [OF parts(3) [unfolded traverse_list_all2]] by blast
  moreover from this have "mr_match row" using assms(2) by (simp add: campaign_matched_def list_all_iff)
  ultimately show "\<exists>r. run_vector v c (pin_mode p) (pin_boundary p) (pin_mutant p) AXES DEFAULT_POLICY = Inr r
      \<and> (has_failures r \<longleftrightarrow> case_id c \<in> set (pin_expected p))"
    using observe_mutant_match gate_clean(2) [OF parts(1)] c by blast
qed

section \<open>A sample campaign\<close>

text \<open>Twelve cases: the published revocation timeline with its last call moved to a second worker, eleven times, and one
  empty timeline; one pinned variant, and no checkpoints.\<close>

fun moved_to :: "string \<Rightarrow> event \<Rightarrow> event" where
  "moved_to w (Call_event ce) = Call_event (ce\<lparr>ce_call := (ce_call ce)\<lparr>worker := w\<rparr>\<rparr>)"
| "moved_to w e = e"

definition sample_timeline :: "event list" where
  "sample_timeline = butlast LRA_02 @ [moved_to ''w2'' (last LRA_02)]"

definition sample_ids :: "string list" where
  "sample_ids = [''LRA-01'', ''LRA-02'', ''LRA-03'', ''LRA-04'', ''LRA-05'', ''LRA-06'', ''LRA-07'', ''LRA-08'', ''LRA-09'',
     ''LRA-10'', ''LRA-11'']"

definition sample_vectors :: lra_vectors where
  "sample_vectors =
     \<lparr>v_family = ''lease-revocation-axes'', v_status = ''candidate'', v_version = 3, v_action_policy = DEFAULT_POLICY,
      v_profile = lra_profile,
      v_cases = map (\<lambda>i. \<lparr>case_id = i, timeline = sample_timeline\<rparr>) sample_ids @ [\<lparr>case_id = ''LRA-12'', timeline = []\<rparr>],
      v_mutants = [\<lparr>pin_mutant = Deny_but_dispatch, pin_mode = Live_standing_read, pin_boundary = Exclusive,
                    pin_expected = sample_ids\<rparr>]\<rparr>"

definition ends_as :: "mode \<Rightarrow> boundary \<Rightarrow> mutant \<Rightarrow> axis list \<Rightarrow> string \<Rightarrow> run_status \<Rightarrow> bool" where
  "ends_as m b mu claimed policy st =
     (case run_case (config_of sample_vectors m b mu claimed policy) sample_timeline of
        Inl e \<Rightarrow> False
      | Inr (s, rs) \<Rightarrow> s = st \<and> length (rs_workers rs) = 2 \<and> (rs_not_claimed rs > 0 \<longleftrightarrow> claimed \<noteq> AXES))"

lemma sample_baselines_end:
  "ends_as Cached_lease Exclusive Correct AXES DEFAULT_POLICY Run_matched"
  "ends_as Cached_lease Inclusive Correct AXES DEFAULT_POLICY Run_matched"
  "ends_as Live_standing_read Exclusive Correct AXES DEFAULT_POLICY Run_matched"
  "ends_as Live_standing_read Inclusive Correct AXES DEFAULT_POLICY Run_matched"
  by code_simp+

lemma sample_diagnostics_end:
  "ends_as Cached_lease Exclusive Post_expiry_diagnostic AXES DEFAULT_POLICY Run_matched"
  "ends_as Cached_lease Inclusive Post_expiry_diagnostic AXES DEFAULT_POLICY Run_matched"
  "ends_as Live_standing_read Exclusive Post_expiry_diagnostic AXES DEFAULT_POLICY Run_matched"
  "ends_as Live_standing_read Inclusive Post_expiry_diagnostic AXES DEFAULT_POLICY Run_matched"
  by code_simp+

lemma sample_others_end:
  "ends_as Live_standing_read Exclusive Deny_but_dispatch AXES DEFAULT_POLICY Run_failed"
  "ends_as Cached_lease Exclusive Correct [] DEFAULT_POLICY No_scored_coverage"
  "ends_as Cached_lease Exclusive Correct [Evidence_freshness, Authority_validity] DEFAULT_POLICY Run_matched"
  "ends_as Cached_lease Exclusive Correct AXES ''different-policy'' Partial_coverage"
  "ends_as Cached_lease Exclusive Correct [Action_authorization] ''different-policy'' No_scored_coverage"
  by code_simp+

lemma ends_as_run:
  assumes "ends_as m b mu claimed policy st" "timeline c = sample_timeline"
  shows "\<exists>r. run_vector sample_vectors c m b mu claimed policy = Inr r \<and> run_status r = st \<and> worker_instances r = 2
    \<and> st = status_of (run_final r) \<and> (rs_not_claimed (run_final r) > 0 \<longleftrightarrow> claimed \<noteq> AXES)"
  using assms by (auto simp: ends_as_def run_vector_def worker_instances_def run_case_def split: sum.splits)

lemma empty_run:
  assumes "timeline c = []"
  shows "\<exists>r. run_vector v c m b mu claimed policy = Inr r \<and> \<not> has_failures r \<and> worker_instances r = 0"
  using assms by (simp add: run_vector_def run_case_def has_failures_def worker_instances_def initial_run_def)

lemma status_of_failed: "status_of rs = Run_failed \<longleftrightarrow> rs_failures rs \<noteq> []"
  by (simp add: status_of_def)

lemma sample_case:
  assumes "c \<in> set (v_cases sample_vectors)"
  obtains "timeline c = sample_timeline" "case_id c \<in> set sample_ids" | "timeline c = []" "case_id c = ''LRA-12''"
  using assms by (auto simp: sample_vectors_def)

lemma sample_profile_run:
  assumes "\<And>m b. ends_as m b mu AXES DEFAULT_POLICY Run_matched" "c \<in> set (v_cases sample_vectors)"
  shows "\<exists>r. run_vector sample_vectors c m b mu AXES DEFAULT_POLICY = Inr r \<and> \<not> has_failures r
    \<and> (run_id r = ''LRA-08'' \<longrightarrow> worker_instances r = 2)"
  using assms(2)
proof (cases rule: sample_case)
  case 1
  then obtain r where "run_vector sample_vectors c m b mu AXES DEFAULT_POLICY = Inr r" "worker_instances r = 2"
    "Run_matched = status_of (run_final r)"
    using ends_as_run [OF assms(1)] by metis
  then show ?thesis using status_of_failed [of "run_final r"] by (auto simp: has_failures_def)
next
  case 2
  then obtain r where r: "run_vector sample_vectors c m b mu AXES DEFAULT_POLICY = Inr r" "\<not> has_failures r"
    using empty_run by blast
  then show ?thesis using run_vector_id [OF r(1)] 2 by simp
qed

lemma sample_profile_runs:
  assumes "\<And>m b. ends_as m b mu AXES DEFAULT_POLICY Run_matched" "set cs \<subseteq> set (v_cases sample_vectors)"
  shows "\<exists>runs. run_profiles sample_vectors mu cs = Inr runs
    \<and> list_all (\<lambda>r. \<not> has_failures r \<and> (run_id r = ''LRA-08'' \<longrightarrow> worker_instances r = 2)) runs"
  unfolding run_profiles_def
  by (rule traverse_returns) (use sample_profile_run [OF assms(1)] assms(2) in auto)

lemma sample_mutation:
  "\<exists>row. observe_mutant sample_vectors (hd (v_mutants sample_vectors)) = Inr row \<and> mr_match row"
proof -
  let ?f = "\<lambda>c. run_vector sample_vectors c Live_standing_read Exclusive Deny_but_dispatch AXES DEFAULT_POLICY"
  have each: "\<exists>r. ?f c = Inr r \<and> (has_failures r \<longleftrightarrow> timeline c \<noteq> [])" if "c \<in> set (v_cases sample_vectors)" for c
    using that
  proof (cases rule: sample_case)
    case 1
    have "sample_timeline \<noteq> []" by (simp add: sample_timeline_def)
    then show ?thesis using 1 ends_as_run [OF sample_others_end(1) 1(1)] status_of_failed by (metis has_failures_def)
  next
    case 2
    then show ?thesis using empty_run by metis
  qed
  have "\<exists>runs. traverse ?f cs = Inr runs \<and> failed_cases runs = map case_id (filter (\<lambda>c. timeline c \<noteq> []) cs)"
    if "set cs \<subseteq> set (v_cases sample_vectors)" for cs
    using that
  proof (induction cs)
    case (Cons c cs)
    then obtain r runs where "?f c = Inr r" "has_failures r \<longleftrightarrow> timeline c \<noteq> []" "traverse ?f cs = Inr runs"
      "failed_cases runs = map case_id (filter (\<lambda>c. timeline c \<noteq> []) cs)"
      using each by fastforce
    then show ?case using run_vector_id [of sample_vectors c] by (fastforce simp: failed_cases_def)
  qed (simp add: failed_cases_def)
  from this [of "v_cases sample_vectors"] obtain runs where "traverse ?f (v_cases sample_vectors) = Inr runs"
    and "failed_cases runs = map case_id (filter (\<lambda>c. timeline c \<noteq> []) (v_cases sample_vectors))" by auto
  moreover have "map case_id (filter (\<lambda>c. timeline c \<noteq> []) (v_cases sample_vectors)) = sample_ids"
    by (simp add: sample_vectors_def sample_timeline_def o_def)
  ultimately show ?thesis by (simp add: observe_mutant_def sample_vectors_def Let_def)
qed

lemma sample_reporting: "\<exists>r. reporting_checks sample_vectors True = Inr r \<and> all_reported r"
proof -
  obtain c0 c1 cs where cs: "v_cases sample_vectors = c0 # c1 # cs" "timeline c0 = sample_timeline" "timeline c1 = sample_timeline"
    by (simp add: sample_vectors_def sample_ids_def)
  obtain a b c d where runs:
    "run_vector sample_vectors c0 Cached_lease Exclusive Correct [] DEFAULT_POLICY = Inr a"
    "run_vector sample_vectors c1 Cached_lease Exclusive Correct [Evidence_freshness, Authority_validity] DEFAULT_POLICY = Inr b"
    "run_vector sample_vectors c0 Cached_lease Exclusive Correct AXES ''different-policy'' = Inr c"
    "run_vector sample_vectors c0 Cached_lease Exclusive Correct [Action_authorization] ''different-policy'' = Inr d"
    and st: "run_status a = No_scored_coverage" "No_scored_coverage = status_of (run_final a)" "run_status b = Run_matched"
      "rs_not_claimed (run_final b) > 0" "run_status c = Partial_coverage" "Partial_coverage = status_of (run_final c)"
      "run_status d = No_scored_coverage" "No_scored_coverage = status_of (run_final d)"
    using ends_as_run [OF sample_others_end(2) cs(2)] ends_as_run [OF sample_others_end(3) cs(3)]
      ends_as_run [OF sample_others_end(4) cs(2)] ends_as_run [OF sample_others_end(5) cs(2)]
    by (auto simp: AXES_def)
  have "status_of rs = No_scored_coverage \<Longrightarrow> rs_scored rs = 0" "status_of rs = Partial_coverage \<Longrightarrow> rs_not_supported rs > 0" for rs
    by (simp_all add: status_of_def split: if_splits)
  then show ?thesis using st by (simp add: reporting_checks_def cs runs all_reported_def del: bind_sum_Inr)
qed

lemma sample_total: "total_calls sample_vectors = 44"
proof -
  have "length (filter is_call sample_timeline) = 4" by (simp add: sample_timeline_def LRA_02_def)
  then show ?thesis by (simp add: total_calls_def sample_vectors_def sample_ids_def)
qed

lemma sample_campaign:
  "\<exists>ca. campaign_main 3 ''d1'' [''d1  vectors.json''] sample_vectors [] True = Inr ca \<and> campaign_matched ca"
proof -
  have ends: "ends_as m b Correct AXES DEFAULT_POLICY Run_matched" "ends_as m b Post_expiry_diagnostic AXES DEFAULT_POLICY Run_matched" for m b
    by (cases m; cases b; simp add: sample_baselines_end sample_diagnostics_end)+
  obtain runs where runs: "run_profiles sample_vectors Correct (v_cases sample_vectors) = Inr runs"
    "list_all (\<lambda>r. \<not> has_failures r \<and> (run_id r = ''LRA-08'' \<longrightarrow> worker_instances r = 2)) runs"
    using sample_profile_runs [OF ends(1), of "v_cases sample_vectors"] by blast
  then have base: "baseline_runs sample_vectors = Inr runs" by (auto simp: baseline_runs_def list_all_iff list_ex_iff)
  obtain diags where diags: "diagnostic_runs sample_vectors = Inr diags" "list_all (\<lambda>r. \<not> has_failures r) diags"
    using sample_profile_runs [OF ends(2), of "filter (\<lambda>c. case_id c \<in> set DIAGNOSTIC_CASES) (v_cases sample_vectors)"]
    by (auto simp: diagnostic_runs_def list_all_iff)
  obtain row where row: "observe_mutant sample_vectors (hd (v_mutants sample_vectors)) = Inr row" "mr_match row"
    using sample_mutation by blast
  then have muts: "traverse (observe_mutant sample_vectors) (v_mutants sample_vectors) = Inr [row]"
    by (simp add: sample_vectors_def)
  obtain rep where rep: "reporting_checks sample_vectors True = Inr rep" "all_reported rep" using sample_reporting by blast
  have digest: "digest_gate ''d1'' [''d1  vectors.json'']" by code_simp
  have gate: "vector_assertions 3 sample_vectors = None"
    using sample_total by (simp add: vector_assertions_def sample_vectors_def lra_profile_def sample_ids_def)
  show ?thesis
    using runs(2) diags(2) row(2) rep(2)
    by (auto simp: campaign_main_def digest gate score_campaign_def base muts diags(1) rep(1) campaign_matched_def
        filter_empty_conv list_all_iff list_ex_iff simp del: bind_sum_Inr)
qed

theorem campaign_inventory_witness:
  "\<exists>ca. campaign_main 3 ''d1'' [''d1  vectors.json''] sample_vectors [] True = Inr ca
     \<and> baseline_calls ca = 176 \<and> baseline_scored_axes ca = 528"
  using sample_campaign campaign_inventory by blast

theorem matched_campaign_separates_witness:
  "list_all (\<lambda>c. \<exists>r.
     run_vector sample_vectors c Live_standing_read Exclusive Deny_but_dispatch AXES DEFAULT_POLICY = Inr r
       \<and> (has_failures r \<longleftrightarrow> case_id c \<in> set sample_ids)) (v_cases sample_vectors)"
proof -
  obtain ca where "campaign_main 3 ''d1'' [''d1  vectors.json''] sample_vectors [] True = Inr ca" "campaign_matched ca"
    using sample_campaign by blast
  from matched_campaign_separates [OF this, THEN conjunct2] show ?thesis by (simp add: sample_vectors_def list_all_iff)
qed

end
