(* ===== verification/Tpm_Quote.thy ===== *)
theory Tpm_Quote
  imports Codec "HOL-Library.Word"
begin

unbundle bit_operations_syntax

text \<open>
  \<open>candidates/tactiq-tpm-bound-key/tpmq.py\<close> and \<open>run.py\<close>: the parsing of TPM 2.0 structures (the public area of
  a key, a quote, a file of PCR values, a signature), and the verdict on a vector. Bytes are 8-bit words and
  the fields of \<open>struct.unpack\<close> words of their width; offsets and lengths are Python's unbounded integers.
  \<open>struct.unpack\<close> on too few bytes raises \<open>struct.error\<close>, which is no \<open>ValueError\<close>.
  Parameters: SHA-256 and ECDSA over P-256 (\<open>None\<close> when the point is not on the curve, where the key
  constructor raises \<open>ValueError\<close>).
\<close>

type_synonym octet = "8 word"

datatype tpm_error = Bad_value | Bad_struct | Bad_index | Bad_key | Bad_overflow | Bad_assertion

record tpm_lib =
  tl_sha256 :: "octet list \<Rightarrow> octet list"
  tl_ecdsa :: "nat \<Rightarrow> nat \<Rightarrow> nat \<Rightarrow> nat \<Rightarrow> octet list \<Rightarrow> bool option"

section \<open>Reading\<close>

text \<open>\<open>m[o:o+n]\<close>\<close>

definition bytes_at :: "octet list \<Rightarrow> nat \<Rightarrow> nat \<Rightarrow> octet list" where
  "bytes_at m i n = take n (drop i m)"

text \<open>\<open>struct.unpack\<close> of one big-endian field at an offset\<close>

definition unpack :: "nat \<Rightarrow> octet list \<Rightarrow> nat \<Rightarrow> tpm_error + ('a :: len) word" where
  "unpack n m i = (if length (bytes_at m i n) = n then Inr (word_rcat (bytes_at m i n)) else Inl Bad_struct)"

abbreviation u16 :: "octet list \<Rightarrow> nat \<Rightarrow> tpm_error + 16 word" where
  "u16 \<equiv> unpack 2"

abbreviation u32 :: "octet list \<Rightarrow> nat \<Rightarrow> tpm_error + 32 word" where
  "u32 \<equiv> unpack 4"

definition unpack_le :: "nat \<Rightarrow> octet list \<Rightarrow> nat \<Rightarrow> tpm_error + ('a :: len) word" where
  "unpack_le n m i = (if length (bytes_at m i n) = n then Inr (word_rcat (rev (bytes_at m i n))) else Inl Bad_struct)"

text \<open>A two-byte length and as many bytes as there are, and the offset after it\<close>

definition sized :: "octet list \<Rightarrow> nat \<Rightarrow> tpm_error + octet list \<times> nat" where
  "sized m i = bind_sum (u16 m i) (\<lambda>n. Inr (bytes_at m (i + 2) (unat n), i + 2 + unat n))"

text \<open>\<open>int.from_bytes(b, "big")\<close> and \<open>n.to_bytes(32, "big")\<close>\<close>

definition from_bytes :: "octet list \<Rightarrow> nat" where
  "from_bytes bs = foldl (\<lambda>n b. 256 * n + unat b) 0 bs"

fun digits256 :: "nat \<Rightarrow> nat \<Rightarrow> octet list" where
  "digits256 0 n = []"
| "digits256 (Suc k) n = digits256 k (n div 256) @ [of_nat (n mod 256)]"

definition to_bytes32 :: "nat \<Rightarrow> tpm_error + octet list" where
  "to_bytes32 n = (if n < 256 ^ 32 then Inr (digits256 32 n) else Inl Bad_overflow)"

definition pack16 :: "16 word \<Rightarrow> octet list" where
  "pack16 w = [ucast (drop_bit 8 w), ucast w]"

section \<open>Keys\<close>

definition FIXED_TPM :: "32 word" where "FIXED_TPM = push_bit 1 1"
definition FIXED_PARENT :: "32 word" where "FIXED_PARENT = push_bit 4 1"
definition RESTRICTED :: "32 word" where "RESTRICTED = push_bit 16 1"
definition SIGN :: "32 word" where "SIGN = push_bit 18 1"

record public =
  pk_attrs :: "32 word"
  pk_x :: "octet list"
  pk_y :: "octet list"
  pk_area :: "octet list"

definition parse_point :: "octet list \<Rightarrow> nat \<Rightarrow> 32 word \<Rightarrow> tpm_error + public" where
  "parse_point area i attrs =
     bind_sum (sized area i) (\<lambda>(x, j).
     bind_sum (sized area j) (\<lambda>(y, k).
       if k \<noteq> length area then Inl Bad_value
       else Inr \<lparr>pk_attrs = attrs, pk_x = x, pk_y = y, pk_area = area\<rparr>))"

text \<open>A scheme other than \<open>TPM_ALG_NULL\<close> is followed by its two-byte hash.\<close>

definition hash_field :: "16 word \<Rightarrow> nat" where
  "hash_field alg = (if alg \<noteq> 0x0010 then 2 else 0)"

text \<open>The parameters before the point: policy, symmetric algorithm, scheme, curve and key derivation; the
  offset of the point.\<close>

definition parse_parameters :: "octet list \<Rightarrow> tpm_error + nat \<times> 32 word" where
  "parse_parameters area =
     bind_sum (u16 area 0) (\<lambda>typ. bind_sum (u16 area 2) (\<lambda>name_alg. bind_sum (u32 area 4) (\<lambda>attrs.
       if typ \<noteq> 0x0023 \<or> name_alg \<noteq> 0x000B then Inl Bad_value
       else
         bind_sum (u16 area 8) (\<lambda>plen. let i = 10 + unat plen in
         bind_sum (u16 area i) (\<lambda>sym.
           if sym \<noteq> 0x0010 then Inl Bad_value
           else
             bind_sum (u16 area (i + 2)) (\<lambda>scheme. let j = i + 4 + hash_field scheme in
             bind_sum (u16 area j) (\<lambda>curve. bind_sum (u16 area (j + 2)) (\<lambda>kdf.
               if curve \<noteq> 0x0003 then Inl Bad_value
               else Inr (j + 4 + hash_field kdf, attrs)))))))))"

definition parse_area :: "octet list \<Rightarrow> tpm_error + public" where
  "parse_area area = bind_sum (parse_parameters area) (\<lambda>(i, attrs). parse_point area i attrs)"

definition parse_public :: "octet list \<Rightarrow> tpm_error + public" where
  "parse_public b =
     bind_sum (u16 b 0) (\<lambda>size.
       let area = bytes_at b 2 (unat size) in
       if length area \<noteq> unat size \<or> length b \<noteq> unat size + 2 then Inl Bad_value else parse_area area)"

definition area_name :: "tpm_lib \<Rightarrow> octet list \<Rightarrow> octet list" where
  "area_name lib area = [0x00, 0x0b] @ tl_sha256 lib area"

definition tpm_name :: "tpm_lib \<Rightarrow> octet list \<Rightarrow> tpm_error + octet list" where
  "tpm_name lib pub = bind_sum (parse_public pub) (\<lambda>pk. Inr (area_name lib (pk_area pk)))"

section \<open>Quotes\<close>

definition TPM_GENERATED :: "32 word" where "TPM_GENERATED = 0xFF544347"
definition TPM_ST_ATTEST_QUOTE :: "16 word" where "TPM_ST_ATTEST_QUOTE = 0x8018"

record attest =
  at_magic :: "32 word"
  at_type :: "16 word"
  at_extra :: "octet list"
  at_extra_off :: nat
  at_reset :: "32 word"
  at_clock :: "64 word"
  at_sel :: "nat list"
  at_pcr_digest :: "octet list"

text \<open>\<open>[i * 8 + j for i in range(sz) for j in range(8) if bits[i] >> j & 1]\<close>\<close>

definition selected :: "octet list \<Rightarrow> nat list" where
  "selected bits =
     concat (map (\<lambda>(i, b). map (\<lambda>j. i * 8 + j) (filter (bit b) [0..<8])) (enumerate_from 0 bits))"

fun pcr_banks :: "octet list \<Rightarrow> nat \<Rightarrow> nat \<Rightarrow> tpm_error + nat list \<times> nat" where
  "pcr_banks m 0 i = Inr ([], i)"
| "pcr_banks m (Suc k) i =
     bind_sum (u16 m i) (\<lambda>alg. bind_sum (unpack 1 m (i + 2)) (\<lambda>sz :: octet.
       let bits = bytes_at m (i + 3) (unat sz) in
       if alg \<noteq> 0x000B then Inl Bad_value
       else if length bits < unat sz then Inl Bad_index
       else bind_sum (pcr_banks m k (i + 3 + unat sz)) (\<lambda>(sel, j). Inr (selected bits @ sel, j))))"

definition parse_attest :: "octet list \<Rightarrow> tpm_error + attest" where
  "parse_attest m =
     bind_sum (u32 m 0) (\<lambda>magic. bind_sum (u16 m 4) (\<lambda>typ.
     bind_sum (sized m 6) (\<lambda>(signer, i).
     bind_sum (sized m i) (\<lambda>(extra, j).
     bind_sum (unpack 8 m j) (\<lambda>clock :: 64 word. bind_sum (u32 m (j + 8)) (\<lambda>reset.
     bind_sum (u32 m (j + 12)) (\<lambda>restart. bind_sum (unpack 1 m (j + 16)) (\<lambda>safe :: octet.
     bind_sum (u32 m (j + 25)) (\<lambda>cnt.
     bind_sum (pcr_banks m (unat cnt) (j + 29)) (\<lambda>(sel, k).
     bind_sum (sized m k) (\<lambda>(digest, l).
       if l \<noteq> length m then Inl Bad_value
       else Inr \<lparr>at_magic = magic, at_type = typ, at_extra = extra, at_extra_off = i + 2, at_reset = reset,
                 at_clock = clock, at_sel = sel, at_pcr_digest = digest\<rparr>)))))))))))"

section \<open>PCR values\<close>

definition slot_offset :: "nat \<Rightarrow> nat \<Rightarrow> nat" where
  "slot_offset i k = i + 4 + 66 * k"

definition list_values :: "octet list \<Rightarrow> nat \<Rightarrow> tpm_error + octet list list" where
  "list_values b i =
     bind_sum (unpack_le 4 b i) (\<lambda>n :: 32 word.
       traverse (\<lambda>k. bind_sum (unpack_le 2 b (slot_offset i k)) (\<lambda>size :: 16 word.
                   Inr (bytes_at b (slot_offset i k + 2) (unat size)))) [0..<unat n])"

text \<open>\<open>dict(zip(sel, vals))\<close>: a repeated index keeps its last value.\<close>

definition parse_pcr :: "octet list \<Rightarrow> nat list \<Rightarrow> tpm_error + (nat \<times> octet list) list" where
  "parse_pcr b sel =
     bind_sum (unpack_le 4 b 132) (\<lambda>lists :: 32 word.
       if length b \<noteq> 136 + 532 * unat lists then Inl Bad_value
       else
         bind_sum (traverse (\<lambda>i. list_values b (136 + 532 * i)) [0..<unat lists]) (\<lambda>vss.
           let vals = concat vss in
           if length vals \<noteq> length sel then Inl Bad_value else Inr (rev (zip sel vals))))"

section \<open>Signatures\<close>

definition verify_sig :: "tpm_lib \<Rightarrow> octet list \<Rightarrow> octet list \<Rightarrow> octet list \<Rightarrow> tpm_error + bool" where
  "verify_sig lib pub msg sig =
     bind_sum (u16 sig 0) (\<lambda>alg. bind_sum (u16 sig 2) (\<lambda>h.
       if alg \<noteq> 0x0018 \<or> h \<noteq> 0x000B then Inr False
       else
         bind_sum (sized sig 4) (\<lambda>(r, i).
         bind_sum (sized sig i) (\<lambda>(s, j).
           if j \<noteq> length sig then Inr False
           else
             bind_sum (parse_public pub) (\<lambda>pk.
               case tl_ecdsa lib (from_bytes (pk_x pk)) (from_bytes (pk_y pk)) (from_bytes r) (from_bytes s) msg of
                 None \<Rightarrow> Inl Bad_value
               | Some ok \<Rightarrow> Inr ok)))))"

text \<open>\<open>sign_tpmt\<close> for the pair the deterministic signer returns\<close>

definition tpmt_of :: "nat \<times> nat \<Rightarrow> tpm_error + octet list" where
  "tpmt_of rs =
     bind_sum (to_bytes32 (fst rs)) (\<lambda>rb. bind_sum (to_bytes32 (snd rs)) (\<lambda>sb.
       Inr (pack16 0x0018 @ pack16 0x000B @ pack16 32 @ rb @ pack16 32 @ sb)))"

definition ends_with :: "'a list \<Rightarrow> 'a list \<Rightarrow> bool" where
  "ends_with xs ys = suffix ys xs"

text \<open>\<open>public_with_key\<close> for the coordinates of the new key\<close>

definition public_with_key :: "octet list \<Rightarrow> nat \<Rightarrow> nat \<Rightarrow> tpm_error + octet list" where
  "public_with_key template nx ny =
     bind_sum (parse_public template) (\<lambda>pk.
     bind_sum (to_bytes32 nx) (\<lambda>xb. bind_sum (to_bytes32 ny) (\<lambda>yb.
       let tail = pack16 32 @ pk_x pk @ pack16 32 @ pk_y pk in
       if \<not> ends_with (pk_area pk) tail then Inl Bad_assertion
       else
         let new = take (length (pk_area pk) - length tail) (pk_area pk) @ pack16 32 @ xb @ pack16 32 @ yb in
         if length new < 2 ^ 16 then Inr (pack16 (of_nat (length new)) @ new) else Inl Bad_struct)))"

section \<open>The verdict on a vector\<close>

record tpm_vector =
  tv_ak :: "octet list"
  tv_msg :: "octet list"
  tv_sig :: "octet list"
  tv_pcr :: "octet list"
  tv_cnf_jkt :: string
  tv_reference :: "(nat \<times> string) list"

datatype reject_reason = Ak_not_registered | Signature_invalid | Pcr_digest_mismatch | Key_not_bound | State_mismatch

datatype tpm_verdict = Accept | Reject reject_reason

definition hex_of :: "octet list \<Rightarrow> string" where
  "hex_of bs = hexdigest (map unat bs)"

definition needed_attrs :: "32 word" where
  "needed_attrs = FIXED_TPM OR FIXED_PARENT OR RESTRICTED OR SIGN"

definition concat_values :: "(nat \<times> octet list) list \<Rightarrow> nat list \<Rightarrow> octet list" where
  "concat_values vals sel = concat (map (\<lambda>i. case map_of vals i of Some v \<Rightarrow> v | None \<Rightarrow> []) sel)"

text \<open>\<open>vals.get(int(i), b"").hex() != ref\<close>\<close>

definition state_differs :: "(nat \<times> octet list) list \<Rightarrow> nat \<times> string \<Rightarrow> bool" where
  "state_differs vals r = (hex_of (case map_of vals (fst r) of Some v \<Rightarrow> v | None \<Rightarrow> []) \<noteq> snd r)"

definition judge_values :: "tpm_lib \<Rightarrow> tpm_vector \<Rightarrow> attest \<Rightarrow> tpm_error + tpm_verdict" where
  "judge_values lib v a =
     (case parse_pcr (tv_pcr v) (at_sel a) of
        Inl Bad_value \<Rightarrow> Inr (Reject Pcr_digest_mismatch)
      | Inl e \<Rightarrow> Inl e
      | Inr vals \<Rightarrow>
          (if tl_sha256 lib (concat_values vals (at_sel a)) \<noteq> at_pcr_digest a then Inr (Reject Pcr_digest_mismatch)
           else case fromhex_chars (tv_cnf_jkt v) of
             None \<Rightarrow> Inl Bad_value
           | Some jkt \<Rightarrow>
               (if map unat (at_extra a) \<noteq> jkt then Inr (Reject Key_not_bound)
                else if list_ex (state_differs vals) (tv_reference v) then Inr (Reject State_mismatch)
                else Inr Accept)))"

definition judge_quote :: "tpm_lib \<Rightarrow> tpm_vector \<Rightarrow> tpm_error + tpm_verdict" where
  "judge_quote lib v =
     (case parse_attest (tv_msg v) of
        Inl Bad_value \<Rightarrow> Inr (Reject Signature_invalid)
      | Inl Bad_index \<Rightarrow> Inr (Reject Signature_invalid)
      | Inl e \<Rightarrow> Inl e
      | Inr a \<Rightarrow>
          (if at_magic a \<noteq> TPM_GENERATED \<or> at_type a \<noteq> TPM_ST_ATTEST_QUOTE then Inr (Reject Signature_invalid)
           else
             bind_sum (verify_sig lib (tv_ak v) (tv_msg v) (tv_sig v)) (\<lambda>ok.
               if \<not> ok then Inr (Reject Signature_invalid) else judge_values lib v a)))"

definition evaluate_quote :: "tpm_lib \<Rightarrow> string \<Rightarrow> tpm_vector \<Rightarrow> tpm_error + tpm_verdict" where
  "evaluate_quote lib registered v =
     (case parse_public (tv_ak v) of
        Inl Bad_value \<Rightarrow> Inr (Reject Ak_not_registered)
      | Inl e \<Rightarrow> Inl e
      | Inr pk \<Rightarrow>
          (if hex_of (area_name lib (pk_area pk)) \<noteq> registered \<or> pk_attrs pk AND needed_attrs \<noteq> needed_attrs
           then Inr (Reject Ak_not_registered)
           else judge_quote lib v))"

text \<open>\<open>reference_ok\<close>: the source quote of the reference values, under the registered key\<close>

definition reference_values_hold :: "(nat \<times> octet list) list \<Rightarrow> (nat \<times> string) list \<Rightarrow> tpm_error + bool" where
  "reference_values_hold vals refs =
     foldr (\<lambda>(i, h) rest. case map_of vals i of None \<Rightarrow> Inl Bad_key | Some x \<Rightarrow> if hex_of x = h then rest else Inr False)
       refs (Inr True)"

definition reference_ok ::
  "tpm_lib \<Rightarrow> octet list \<Rightarrow> octet list \<times> octet list \<times> octet list \<Rightarrow> (nat \<times> string) list \<Rightarrow> tpm_error + bool" where
  "reference_ok lib ak src refs =
     (case src of (msg, sig, pcr) \<Rightarrow>
        bind_sum (parse_attest msg) (\<lambda>a.
        bind_sum (parse_pcr pcr (at_sel a)) (\<lambda>vals.
        bind_sum (verify_sig lib ak msg sig) (\<lambda>ok.
          if \<not> ok \<or> tl_sha256 lib (concat_values vals (at_sel a)) \<noteq> at_pcr_digest a then Inr False
          else reference_values_hold vals refs))))"

record tpm_case =
  tc_vector :: tpm_vector
  tc_source :: "octet list \<times> octet list \<times> octet list"
  tc_expected :: tpm_verdict

text \<open>\<open>main\<close> without \<open>--tpm2-tools\<close>: the number of failed vectors and the exit status\<close>

definition failed_vector :: "tpm_lib \<Rightarrow> string \<Rightarrow> octet list \<Rightarrow> tpm_case \<Rightarrow> tpm_error + bool" where
  "failed_vector lib registered ak c =
     bind_sum (reference_ok lib ak (tc_source c) (tv_reference (tc_vector c))) (\<lambda>ok.
       if \<not> ok then Inr True
       else bind_sum (evaluate_quote lib registered (tc_vector c)) (\<lambda>got. Inr (got \<noteq> tc_expected c)))"

definition quote_main :: "tpm_lib \<Rightarrow> string \<Rightarrow> octet list \<Rightarrow> tpm_case list \<Rightarrow> tpm_error + nat" where
  "quote_main lib registered ak cs =
     bind_sum (traverse (failed_vector lib registered ak) cs) (\<lambda>fs.
       Inr (if filter id fs \<noteq> [] then 1 else 0))"

end
