(* ===== verification/Tpm_Quote_Checks.thy ===== *)
theory Tpm_Quote_Checks
  imports Tpm_Quote
begin

text \<open>
  What an accepted quote establishes, that a key put in the place of the registered one is refused, and that
  signatures written by the generator are read back.
\<close>

section \<open>Fields\<close>

lemma bytes_at_prefix [simp]: "i + n \<le> length p \<Longrightarrow> bytes_at (p @ z) i n = bytes_at p i n"
  by (simp add: bytes_at_def)

lemma bytes_at_after: "bytes_at (p @ f @ z) (length p) (length f) = f"
  by (simp add: bytes_at_def)

lemma unpack_within: "0 < n \<Longrightarrow> unpack n m i = Inr w \<Longrightarrow> i + n \<le> length m"
  by (auto simp: unpack_def bytes_at_def split: if_splits)

lemma unpack_prefix: "i + n \<le> length p \<Longrightarrow> unpack n (p @ z) i = unpack n p i"
  by (simp add: unpack_def)

lemma unpack_take:
  fixes w :: "('a :: len) word"
  assumes "0 < n" "unpack n m i = Inr w" "i + n \<le> k"
  shows "unpack n (take k m @ z) i = Inr w"
proof -
  have "i + n \<le> length (take k m)" using unpack_within [OF assms(1,2)] assms(3) by simp
  then have "(unpack n (take k m @ z) i :: tpm_error + 'a word) = unpack n (take k m @ drop k m) i"
    by (simp only: unpack_prefix)
  then show ?thesis using assms(2) by simp
qed

lemma rcat_pack16: "word_rcat (pack16 w) = w"
proof -
  have b: "0 \<le> uint w" "uint w < 65536" using unsigned_less [of w] by simp_all
  have "uint (ucast (drop_bit 8 w) :: octet) = uint w div 256 mod 256" "uint (ucast w :: octet) = uint w mod 256"
    by (simp_all add: unsigned_ucast_eq take_bit_eq_mod drop_bit_eq_div uint_div_distrib)
  moreover have "uint w div 256 < 256" "0 \<le> uint w div 256" using b by linarith+
  then have "uint w div 256 mod 256 = uint w div 256" by simp
  moreover have "uint w mod 256 + 256 * (uint w div 256) = uint w" by simp
  ultimately have "word_rcat (pack16 w) = (word_of_int (uint w) :: 16 word)"
    unfolding word_rcat_def pack16_def by simp
  then show ?thesis by simp
qed

lemma length_pack16 [simp]: "length (pack16 w) = 2"
  by (simp add: pack16_def)

lemma u16_pack16: "u16 (p @ pack16 w @ z) (length p) = Inr w"
  using bytes_at_after [of p "pack16 w" z] by (simp add: unpack_def rcat_pack16)

section \<open>Coordinates\<close>

lemma length_digits256 [simp]: "length (digits256 k n) = k"
  by (induction k arbitrary: n) auto

lemma from_bytes_snoc: "from_bytes (bs @ [b]) = 256 * from_bytes bs + unat b"
  by (simp add: from_bytes_def)

lemma from_digits256: "n < 256 ^ k \<Longrightarrow> from_bytes (digits256 k n) = n"
proof (induction k arbitrary: n)
  case (Suc k)
  then have "n div 256 < 256 ^ k" by (simp add: less_mult_imp_div_less mult.commute)
  moreover have "unat (of_nat (n mod 256) :: octet) = n mod 256"
    by (simp add: unat_of_nat)
  ultimately show ?case using Suc.IH by (simp add: from_bytes_snoc)
qed (simp add: from_bytes_def)

section \<open>The place of the point\<close>

lemma sizedE:
  assumes "sized m i = Inr (x, j)"
  obtains n where "u16 m i = Inr n" "x = bytes_at m (i + 2) (unat n)" "j = i + 2 + unat n" "i + 2 \<le> length m"
proof -
  obtain n where n: "u16 m i = Inr n" "x = bytes_at m (i + 2) (unat n)" "j = i + 2 + unat n"
    using assms by (auto simp: sized_def)
  then show ?thesis using that unpack_within [of 2 m i n] by simp
qed

lemma sized_pack: "unat n = length f \<Longrightarrow> sized (p @ pack16 n @ f @ z) (length p) = Inr (f, length p + 2 + length f)"
  using u16_pack16 [of p n "f @ z"] bytes_at_after [of "p @ pack16 n" f z] by (simp add: sized_def)

lemma parse_parameters_prefix:
  assumes "parse_parameters area = Inr (i, attrs)"
  shows "parse_parameters (take i area @ z) = Inr (i, attrs)"
proof -
  obtain ty name_alg plen sym scheme curve kdf where
    r: "u16 area 0 = Inr ty" "u16 area 2 = Inr name_alg" "u32 area 4 = Inr attrs"
      "ty = 0x0023" "name_alg = 0x000B" "u16 area 8 = Inr plen" "u16 area (10 + unat plen) = Inr sym" "sym = 0x0010"
      "u16 area (12 + unat plen) = Inr scheme"
    and c: "u16 area (14 + unat plen + hash_field scheme) = Inr curve"
      "u16 area (16 + unat plen + hash_field scheme) = Inr kdf" "curve = 0x0003"
    and i: "i = 18 + unat plen + hash_field scheme + hash_field kdf"
    using assms by (auto simp: parse_parameters_def Let_def ac_simps split: if_splits)
  note t = unpack_take [where k = i and z = z and m = area]
  have "u16 (take i area @ z) 0 = Inr ty" "u16 (take i area @ z) 2 = Inr name_alg" "u32 (take i area @ z) 4 = Inr attrs"
    "u16 (take i area @ z) 8 = Inr plen" "u16 (take i area @ z) (10 + unat plen) = Inr sym"
    "u16 (take i area @ z) (12 + unat plen) = Inr scheme"
    "u16 (take i area @ z) (14 + unat plen + hash_field scheme) = Inr curve"
    "u16 (take i area @ z) (16 + unat plen + hash_field scheme) = Inr kdf"
    by (intro t r c; simp add: i)+
  then show ?thesis using r(4,5,8) c(3) i by (simp add: parse_parameters_def Let_def ac_simps)
qed

lemma parse_areaE:
  assumes "parse_area area = Inr pk"
  obtains i j m n where "parse_parameters area = Inr (i, pk_attrs pk)"
    "u16 area i = Inr m" "u16 area j = Inr n" "j = i + 2 + unat m" "length area = j + 2 + unat n"
    "pk_x pk = bytes_at area (i + 2) (unat m)" "pk_y pk = bytes_at area (j + 2) (unat n)" "pk_area pk = area"
proof -
  obtain i attrs x j y k where "parse_parameters area = Inr (i, attrs)" "sized area i = Inr (x, j)" "sized area j = Inr (y, k)"
    "k = length area" "pk = \<lparr>pk_attrs = attrs, pk_x = x, pk_y = y, pk_area = area\<rparr>"
    using assms by (auto simp: parse_area_def parse_point_def split: if_splits)
  then show ?thesis using that by (auto elim!: sizedE)
qed

lemma parse_publicE:
  assumes "parse_public b = Inr pk"
  obtains "parse_area (pk_area pk) = Inr pk" "length (pk_area pk) < 2 ^ 16"
proof -
  obtain size where r: "u16 b 0 = Inr size" "length (bytes_at b 2 (unat size)) = unat size"
    "parse_area (bytes_at b 2 (unat size)) = Inr pk"
    using assms by (auto simp: parse_public_def Let_def split: if_splits)
  have "pk_area pk = bytes_at b 2 (unat size)" using r(3) by (rule parse_areaE)
  then show ?thesis using that r unsigned_less [of size, where ?'a = nat] by simp
qed

section \<open>A key in the place of another\<close>

lemma parse_public_packed:
  assumes "length area < 2 ^ 16"
  shows "parse_public (pack16 (of_nat (length area)) @ area) = parse_area area"
proof -
  let ?w = "of_nat (length area) :: 16 word"
  have n: "unat ?w = length area" using assms by (simp add: unat_of_nat)
  have "u16 (pack16 ?w @ area) 0 = Inr ?w" using u16_pack16 [of "[]" ?w area] by simp
  moreover have "bytes_at (pack16 ?w @ area) 2 (length area) = area"
    using bytes_at_after [of "pack16 ?w" area "[]"] by simp
  ultimately show ?thesis by (simp add: parse_public_def n)
qed

lemma replaced_point:
  assumes area: "parse_area area = Inr pk" and tail: "suffix (pack16 32 @ pk_x pk @ pack16 32 @ pk_y pk) area"
    and xy: "length xb = 32" "length yb = 32"
  defines "new \<equiv> take (length area - length (pack16 32 @ pk_x pk @ pack16 32 @ pk_y pk)) area @ pack16 32 @ xb @ pack16 32 @ yb"
  shows "parse_area new = Inr \<lparr>pk_attrs = pk_attrs pk, pk_x = xb, pk_y = yb, pk_area = new\<rparr>"
proof -
  obtain i j m n where p: "parse_parameters area = Inr (i, pk_attrs pk)" and "u16 area i = Inr m" "u16 area j = Inr n"
    "j = i + 2 + unat m" "length area = j + 2 + unat n"
    "pk_x pk = bytes_at area (i + 2) (unat m)" "pk_y pk = bytes_at area (j + 2) (unat n)" "pk_area pk = area"
    using area by (rule parse_areaE)
  then have len: "length area = i + length (pack16 32 @ pk_x pk @ pack16 32 @ pk_y pk)"
    by (simp add: bytes_at_def)
  let ?p = "take i area"
  have i: "length ?p = i" using len by simp
  have n32: "unat (32 :: 16 word) = length xb" "unat (32 :: 16 word) = length yb" using xy by simp_all
  have new: "new = ?p @ pack16 32 @ xb @ pack16 32 @ yb" by (simp add: new_def len)
  have "sized new i = Inr (xb, i + 34)"
    using sized_pack [OF n32(1), of ?p "pack16 32 @ yb"] unfolding new i xy by (simp add: add.commute)
  moreover have "sized new (i + 34) = Inr (yb, i + 68)"
    using sized_pack [OF n32(2), of "?p @ pack16 32 @ xb" "[]"] unfolding new length_append i xy by (simp add: add.commute)
  moreover have "parse_parameters new = Inr (i, pk_attrs pk)" unfolding new by (rule parse_parameters_prefix [OF p])
  moreover have "length new = i + 68" unfolding new length_append i xy by simp
  ultimately show ?thesis by (simp add: parse_area_def parse_point_def)
qed

lemma public_with_keyE:
  assumes "public_with_key t nx ny = Inr b"
  obtains pk pk' where "parse_public t = Inr pk" "parse_public b = Inr pk'" "pk_attrs pk' = pk_attrs pk"
    "from_bytes (pk_x pk') = nx" "from_bytes (pk_y pk') = ny"
proof -
  obtain pk xb yb where pk: "parse_public t = Inr pk" and xb: "to_bytes32 nx = Inr xb" and yb: "to_bytes32 ny = Inr yb"
    and tail: "suffix (pack16 32 @ pk_x pk @ pack16 32 @ pk_y pk) (pk_area pk)"
    and b: "(let new = take (length (pk_area pk) - length (pack16 32 @ pk_x pk @ pack16 32 @ pk_y pk)) (pk_area pk)
                @ pack16 32 @ xb @ pack16 32 @ yb in
         if length new < 2 ^ 16 then Inr (pack16 (of_nat (length new)) @ new) else Inl Bad_struct) = Inr b"
    using assms by (auto simp: public_with_key_def Let_def ends_with_def split: if_splits)
  have x: "xb = digits256 32 nx" "nx < 256 ^ 32" "yb = digits256 32 ny" "ny < 256 ^ 32"
    using xb yb by (auto simp: to_bytes32_def split: if_splits)
  have "parse_area (pk_area pk) = Inr pk" using pk by (rule parse_publicE)
  define new where "new = take (length (pk_area pk) - length (pack16 32 @ pk_x pk @ pack16 32 @ pk_y pk)) (pk_area pk)
                @ pack16 32 @ xb @ pack16 32 @ yb"
  have "parse_area new = Inr \<lparr>pk_attrs = pk_attrs pk, pk_x = xb, pk_y = yb, pk_area = new\<rparr>"
    unfolding new_def by (rule replaced_point [OF \<open>parse_area (pk_area pk) = Inr pk\<close> tail]) (simp_all add: x)
  moreover have "length new < 2 ^ 16" "b = pack16 (of_nat (length new)) @ new"
    using b unfolding new_def [symmetric] Let_def by (auto split: if_splits)
  ultimately have "parse_public b = Inr \<lparr>pk_attrs = pk_attrs pk, pk_x = xb, pk_y = yb, pk_area = new\<rparr>"
    using parse_public_packed by simp
  then show ?thesis using that [OF pk] x from_digits256 [of nx 32] from_digits256 [of ny 32] by simp
qed

lemma hex_char_inj: "m < 16 \<Longrightarrow> n < 16 \<Longrightarrow> hex m mod 256 = hex n mod 256 \<Longrightarrow> m = n"
  by (auto simp: hex_def split: if_splits)

lemma hex_of_inj: "hex_of xs = hex_of ys \<Longrightarrow> xs = ys"
proof (induction xs arbitrary: ys)
  case Nil
  then show ?case by (cases ys) (simp_all add: hex_of_def hexdigest_def ascii_def)
next
  case (Cons x xs)
  then obtain y ys' where ys: "ys = y # ys'" by (cases ys) (simp_all add: hex_of_def hexdigest_def ascii_def)
  have b: "unat x < 256" "unat y < 256" using unsigned_less [of x] unsigned_less [of y] by simp_all
  then have d: "unat x div 16 < 16" "unat y div 16 < 16" by linarith+
  have "hex_of xs = hex_of ys'" and "char_of (hex (unat x div 16)) = (char_of (hex (unat y div 16)) :: char)"
    and "char_of (hex (unat x mod 16)) = (char_of (hex (unat y mod 16)) :: char)"
    using Cons.prems by (simp_all add: ys hex_of_def hexdigest_def ascii_def)
  then have "unat x div 16 = unat y div 16" "unat x mod 16 = unat y mod 16"
    using d by (simp_all add: hex_char_inj)
  then have "unat x = unat y" by (metis div_mult_mod_eq)
  then show ?case using Cons.IH [OF \<open>hex_of xs = hex_of ys'\<close>] by (simp add: ys word_unat_eq_iff)
qed

section \<open>Established quotes\<close>

text \<open>The key presented is the registered one and a restricted signing key fixed to its TPM; the message is a
  quote the TPM generated, signed by that key; the PCR values reproduce its digest, its qualifying data is the
  grant's key, and every reference value is met.\<close>

definition quote_established :: "tpm_lib \<Rightarrow> string \<Rightarrow> tpm_vector \<Rightarrow> bool" where
  "quote_established lib registered v \<longleftrightarrow>
     (case parse_public (tv_ak v) of
        Inl e \<Rightarrow> False
      | Inr pk \<Rightarrow>
          hex_of (area_name lib (pk_area pk)) = registered \<and> list_all (bit (pk_attrs pk)) [1, 4, 16, 18] \<and>
          (case parse_attest (tv_msg v) of
             Inl e \<Rightarrow> False
           | Inr a \<Rightarrow>
               at_magic a = 0xFF544347 \<and> at_type a = 0x8018 \<and> verify_sig lib (tv_ak v) (tv_msg v) (tv_sig v) = Inr True \<and>
               (case parse_pcr (tv_pcr v) (at_sel a) of
                  Inl e \<Rightarrow> False
                | Inr vals \<Rightarrow>
                    tl_sha256 lib (concat_values vals (at_sel a)) = at_pcr_digest a
                    \<and> fromhex_chars (tv_cnf_jkt v) = Some (map unat (at_extra a))
                    \<and> list_all (\<lambda>(i, h). (case map_of vals i of Some x \<Rightarrow> hex_of x | None \<Rightarrow> []) = h) (tv_reference v))))"

lemma needed_bits: "w AND needed_attrs = needed_attrs \<longleftrightarrow> list_all (bit w) [1, 4, 16, 18]"
proof -
  have "bit needed_attrs n \<longleftrightarrow> n \<in> {1, 4, 16, 18}" for n
    unfolding needed_attrs_def FIXED_TPM_def FIXED_PARENT_def RESTRICTED_def SIGN_def bit_or_iff bit_push_bit_iff bit_1_iff
    by auto
  moreover have "w AND needed_attrs = needed_attrs \<longleftrightarrow> (\<forall>n. bit needed_attrs n \<longrightarrow> bit w n)"
    using bit_imp_le_length [of needed_attrs] by (auto simp: bit_eq_iff bit_and_iff)
  ultimately show ?thesis by auto
qed

lemma hex_of_Nil [simp]: "hex_of [] = []"
  by (simp add: hex_of_def hexdigest_def ascii_def)

lemma state_agrees: "\<not> list_ex (state_differs vals) rs \<longleftrightarrow>
    list_all (\<lambda>(i, h). (case map_of vals i of Some x \<Rightarrow> hex_of x | None \<Rightarrow> []) = h) rs"
  by (induction rs) (auto simp: state_differs_def split: option.splits)

lemma judge_values_accept: "judge_values lib v a = Inr Accept \<longleftrightarrow>
    (case parse_pcr (tv_pcr v) (at_sel a) of
       Inl e \<Rightarrow> False
     | Inr vals \<Rightarrow>
         tl_sha256 lib (concat_values vals (at_sel a)) = at_pcr_digest a
         \<and> fromhex_chars (tv_cnf_jkt v) = Some (map unat (at_extra a))
         \<and> list_all (\<lambda>(i, h). (case map_of vals i of Some x \<Rightarrow> hex_of x | None \<Rightarrow> []) = h) (tv_reference v))"
  unfolding state_agrees [symmetric]
  by (auto simp: judge_values_def split: sum.splits tpm_error.splits option.splits)

lemma judge_quote_accept: "judge_quote lib v = Inr Accept \<longleftrightarrow>
    (case parse_attest (tv_msg v) of
       Inl e \<Rightarrow> False
     | Inr a \<Rightarrow> at_magic a = TPM_GENERATED \<and> at_type a = TPM_ST_ATTEST_QUOTE
         \<and> verify_sig lib (tv_ak v) (tv_msg v) (tv_sig v) = Inr True \<and> judge_values lib v a = Inr Accept)"
  by (cases "parse_attest (tv_msg v)"; cases "verify_sig lib (tv_ak v) (tv_msg v) (tv_sig v)")
    (auto simp: judge_quote_def split: tpm_error.splits)

text \<open>C23: what an accepted quote establishes, and all it needs. The verdict is \<open>accept\<close> exactly when the presented key
  has the registered name and the four attribute bits of a restricted signing key fixed to its TPM, the
  message is a TPM-generated quote whose signature verifies under that key, the PCR values hash to the signed
  digest, the qualifying data is the grant's key thumbprint, and every reference value is met.\<close>

theorem quote_accepted_iff:
  "evaluate_quote lib registered v = Inr Accept \<longleftrightarrow> quote_established lib registered v"
proof -
  have "evaluate_quote lib registered v = Inr Accept \<longleftrightarrow>
    (case parse_public (tv_ak v) of Inl e \<Rightarrow> False
     | Inr pk \<Rightarrow> hex_of (area_name lib (pk_area pk)) = registered \<and> pk_attrs pk AND needed_attrs = needed_attrs
         \<and> judge_quote lib v = Inr Accept)"
    by (auto simp: evaluate_quote_def split: sum.splits tpm_error.splits)
  then show ?thesis
    unfolding quote_established_def needed_bits judge_quote_accept judge_values_accept TPM_GENERATED_def TPM_ST_ATTEST_QUOTE_def .
qed

text \<open>C21: a substituted key is refused. If the point of the registered key is replaced by another one, with everything
  else of the key kept, the key is not accepted in its place, whatever the quote and its signature are, unless
  the two public areas have the same SHA-256 digest.\<close>

theorem substituted_key_refused:
  assumes "public_with_key t nx ny = Inr b" and "parse_public t = Inr pk"
    and "(nx, ny) \<noteq> (from_bytes (pk_x pk), from_bytes (pk_y pk))"
    and no_collision: "\<And>pk'. parse_public b = Inr pk' \<Longrightarrow> tl_sha256 lib (pk_area pk') = tl_sha256 lib (pk_area pk) \<Longrightarrow> pk_area pk' = pk_area pk"
    and "tv_ak v = b"
  shows "evaluate_quote lib (hex_of (area_name lib (pk_area pk))) v = Inr (Reject Ak_not_registered)"
proof -
  obtain pk' where b: "parse_public b = Inr pk'" and xy: "from_bytes (pk_x pk') = nx" "from_bytes (pk_y pk') = ny"
    using assms(1) by (rule public_with_keyE)
  have "parse_area (pk_area pk) = Inr pk" "parse_area (pk_area pk') = Inr pk'"
    using assms(2) b by (auto elim: parse_publicE)
  then have "pk_area pk' \<noteq> pk_area pk" using xy assms(3) by auto
  then have "area_name lib (pk_area pk') \<noteq> area_name lib (pk_area pk)"
    using no_collision [OF b] by (auto simp: area_name_def)
  then show ?thesis using b assms(5) hex_of_inj by (auto simp: evaluate_quote_def)
qed

text \<open>Signatures round trip. A signature structure written for a pair of integers is read back as that pair:
  verifying it is the ECDSA verification of the pair under the key of the public area.\<close>

theorem tpmt_roundtrip:
  assumes "tpmt_of (r, s) = Inr sg"
  shows "verify_sig lib pub msg sg =
    bind_sum (parse_public pub) (\<lambda>pk.
      case tl_ecdsa lib (from_bytes (pk_x pk)) (from_bytes (pk_y pk)) r s msg of None \<Rightarrow> Inl Bad_value | Some ok \<Rightarrow> Inr ok)"
proof -
  let ?rb = "digits256 32 r" and ?sb = "digits256 32 s"
  have b: "r < 256 ^ 32" "s < 256 ^ 32"
    and sg: "sg = pack16 0x0018 @ pack16 0x000B @ pack16 32 @ ?rb @ pack16 32 @ ?sb"
    using assms by (auto simp: tpmt_of_def to_bytes32_def split: if_splits)
  have "u16 sg 0 = Inr 0x0018" "u16 sg 2 = Inr 0x000B"
    using u16_pack16 [of "[]" "0x0018" "pack16 0x000B @ pack16 32 @ ?rb @ pack16 32 @ ?sb"]
      u16_pack16 [of "pack16 0x0018" "0x000B" "pack16 32 @ ?rb @ pack16 32 @ ?sb"] by (simp_all add: sg)
  moreover have "sized sg 4 = Inr (?rb, 38)" "sized sg 38 = Inr (?sb, 72)"
    using sized_pack [of 32 ?rb "pack16 0x0018 @ pack16 0x000B" "pack16 32 @ ?sb"]
      sized_pack [of 32 ?sb "pack16 0x0018 @ pack16 0x000B @ pack16 32 @ ?rb" "[]"] by (simp_all add: sg)
  moreover have "length sg = 72" by (simp add: sg)
  ultimately show ?thesis using from_digits256 [OF b(1)] from_digits256 [OF b(2)] by (simp add: verify_sig_def)
qed

text \<open>A key or quote file too short for its first field is no verdict: \<open>struct.error\<close> passes the handlers.\<close>

lemma truncated_key_raises: "length (tv_ak v) < 2 \<Longrightarrow> evaluate_quote lib registered v = Inl Bad_struct"
  by (simp add: evaluate_quote_def parse_public_def unpack_def bytes_at_def)

lemma truncated_quote_raises: "length (tv_msg v) < 4 \<Longrightarrow> judge_quote lib v = Inl Bad_struct"
  by (simp add: judge_quote_def parse_attest_def unpack_def bytes_at_def)

section \<open>A sample key\<close>

definition sample_header :: "octet list" where
  "sample_header = [0, 0x23, 0, 0x0b, 0, 5, 0, 0x72, 0, 0, 0, 0x10, 0, 0x18, 0, 0x0b, 0, 3, 0, 0x10]"

definition sample_area :: "octet list" where
  "sample_area = sample_header @ pack16 32 @ replicate 32 1 @ pack16 32 @ replicate 32 2"

definition sample_key :: "octet list" where
  "sample_key = pack16 (of_nat (length sample_area)) @ sample_area"

definition sample_tpm :: tpm_lib where
  "sample_tpm = \<lparr>tl_sha256 = \<lambda>m. m, tl_ecdsa = \<lambda>x y r s m. Some (r = x \<and> s = y)\<rparr>"

lemma sample_parameters: "parse_parameters sample_header = Inr (20, 0x50072)"
  by (simp add: parse_parameters_def sample_header_def unpack_def bytes_at_def word_rcat_def hash_field_def Let_def del: bind_sum_Inr)

lemma sample_header_length: "length sample_header = 20"
  by (simp add: sample_header_def)

lemma sample_area_parses:
  "parse_area sample_area =
     Inr \<lparr>pk_attrs = 0x50072, pk_x = replicate 32 1, pk_y = replicate 32 2, pk_area = sample_area\<rparr>"
proof -
  have "parse_parameters sample_area = Inr (20, 0x50072)"
    using parse_parameters_prefix [OF sample_parameters, of "drop 20 sample_area"]
    by (simp add: sample_area_def sample_header_length)
  moreover have "sized sample_area 20 = Inr (replicate 32 1, 54)"
    using sized_pack [of 32 "replicate 32 1" sample_header "pack16 32 @ replicate 32 2"]
    by (simp add: sample_area_def sample_header_length)
  moreover have "sized sample_area 54 = Inr (replicate 32 2, 88)"
    using sized_pack [of 32 "replicate 32 2" "sample_header @ pack16 32 @ replicate 32 1" "[]"]
    by (simp add: sample_area_def sample_header_length)
  moreover have "length sample_area = 88" by (simp add: sample_area_def sample_header_length)
  ultimately show ?thesis by (simp add: parse_area_def parse_point_def)
qed

lemma sample_key_parses:
  "parse_public sample_key =
     Inr \<lparr>pk_attrs = 0x50072, pk_x = replicate 32 1, pk_y = replicate 32 2, pk_area = sample_area\<rparr>"
  using parse_public_packed [of sample_area] sample_area_parses
  by (simp add: sample_key_def sample_area_def sample_header_length)

lemma sample_replaced: "\<exists>b. public_with_key sample_key 3 4 = Inr b"
proof -
  have "suffix (pack16 32 @ replicate 32 1 @ pack16 32 @ replicate 32 2) sample_area"
    unfolding sample_area_def by (rule suffixI) simp
  then show ?thesis
    by (simp add: public_with_key_def sample_key_parses to_bytes32_def ends_with_def Let_def sample_area_def sample_header_length)
qed

lemma from_bytes_Cons: "from_bytes (b # bs) \<ge> unat b * 256 ^ length bs"
proof (induction bs rule: rev_induct)
  case (snoc c cs)
  then show ?case using from_bytes_snoc [of "b # cs" c] by simp
qed (simp add: from_bytes_def)

lemma sample_x_large: "5 < from_bytes (replicate 32 1)"
proof -
  have "replicate 32 (1 :: octet) = 1 # replicate 31 1" by (simp add: numeral_eq_Suc)
  then show ?thesis using from_bytes_Cons [of 1 "replicate 31 1"] by simp
qed

theorem substituted_key_refused_witness:
  "\<exists>b. public_with_key sample_key 3 4 = Inr b \<and>
     evaluate_quote sample_tpm (hex_of (area_name sample_tpm sample_area))
       \<lparr>tv_ak = b, tv_msg = [], tv_sig = [], tv_pcr = [], tv_cnf_jkt = [], tv_reference = []\<rparr> = Inr (Reject Ak_not_registered)"
proof -
  obtain b where b: "public_with_key sample_key 3 4 = Inr b" using sample_replaced by blast
  have differs: "(3, 4) \<noteq> (from_bytes (replicate 32 1), from_bytes (replicate 32 2))" using sample_x_large by auto
  from substituted_key_refused [OF b sample_key_parses, of sample_tpm "\<lparr>tv_ak = b, tv_msg = [], tv_sig = [], tv_pcr = [], tv_cnf_jkt = [], tv_reference = []\<rparr>"]
  show ?thesis using b differs by (simp add: sample_tpm_def)
qed

theorem tpmt_roundtrip_witness:
  "\<exists>sg. tpmt_of (5, 6) = Inr sg \<and> verify_sig sample_tpm sample_key [] sg = Inr False"
proof -
  obtain sg where sg: "tpmt_of (5, 6) = Inr sg" by (simp add: tpmt_of_def to_bytes32_def)
  show ?thesis using sample_x_large tpmt_roundtrip [OF sg, of sample_tpm sample_key "[]"] sg
    by (simp add: sample_key_parses sample_tpm_def)
qed

end
