(* ===== verification/Candidate_Rules.thy ===== *)
theory Candidate_Rules
  imports Python_Values
begin

text \<open>
  The rule checkers of two candidate families: \<open>candidates/aicent-grant-ref/check.py\<close> and
  \<open>candidates/aicent-lease-boundary/check.py\<close>. Each
  recomputes a case's verdict from its input and outcome and compares it, with the named parts of it where
  a rule has parts, with what the case declares. Inputs and outcomes are JSON objects.
\<close>

datatype grade = Conformant | Nonconformant | Ambiguous

type_synonym parts = "(string \<times> grade) list"

definition py_true :: "pyval \<Rightarrow> bool" where
  "py_true v = (\<not> falsy v)"

text \<open>\<open>"conformant" if ok else "nonconformant"\<close>\<close>

definition graded_if :: "bool \<Rightarrow> grade" where
  "graded_if ok = (if ok then Conformant else Nonconformant)"

definition reason_is :: "pydict \<Rightarrow> string \<Rightarrow> bool" where
  "reason_is ob r = (get (JObj ob) ''reason'' = JStr r)"

definition no_reason :: "pydict \<Rightarrow> bool" where
  "no_reason ob = (get (JObj ob) ''reason'' = JNull)"

definition combine :: "parts \<Rightarrow> grade" where
  "combine ps =
     (if Nonconformant \<in> set (map snd ps) then Nonconformant
      else if Ambiguous \<in> set (map snd ps) then Ambiguous else Conformant)"

record rule_case =
  cs_rule :: string
  cs_input :: pydict
  cs_outcome :: pydict
  cs_expect :: string
  cs_expect_parts :: "parts option"

definition grade_text :: "grade \<Rightarrow> string" where
  "grade_text g = (case g of Conformant \<Rightarrow> ''conformant'' | Nonconformant \<Rightarrow> ''nonconformant'' | Ambiguous \<Rightarrow> ''ambiguous'')"

section \<open>Grant reference\<close>

definition FIVE :: "string list" where
  "FIVE = [''evidence_binding_mismatch'', ''evidence_expired'', ''authority_not_determined'', ''authority_revoked'',
     ''operation_not_permitted'']"

definition first_applicable :: "pydict \<Rightarrow> string option" where
  "first_applicable i =
     (if py_true (get (JObj i) ''binding_mismatch'') then Some ''evidence_binding_mismatch''
      else if py_true (get (JObj i) ''evidence_expired'') then Some ''evidence_expired''
      else if get (JObj i) ''authority'' = JStr ''revoked'' then Some ''authority_revoked''
      else if get (JObj i) ''operation_permitted'' = JBool False then Some ''operation_not_permitted''
      else None)"

definition reason_matches :: "pydict \<Rightarrow> string option \<Rightarrow> bool" where
  "reason_matches ob r = (case r of None \<Rightarrow> no_reason ob | Some x \<Rightarrow> reason_is ob x)"

definition order_parts :: "pydict \<Rightarrow> pydict \<Rightarrow> parts option" where
  "order_parts i ob =
     (if falsy (get (JObj i) ''race_boundary'') then None
      else Some [(''value'', graded_if (reason_matches ob (first_applicable i))), (''boundary_call'', Ambiguous)])"

definition r_order :: "pydict \<Rightarrow> pydict \<Rightarrow> grade" where
  "r_order i ob =
     (case order_parts i ob of
        Some ps \<Rightarrow> combine ps
      | None \<Rightarrow> graded_if (reason_matches ob (first_applicable i)))"

definition notdet_parts :: "pydict \<Rightarrow> pydict \<Rightarrow> parts option" where
  "notdet_parts i ob =
     (if get (JObj i) ''computed_over'' \<noteq> JStr ''label'' then None
      else Some [(''value_and_assent'', graded_if (reason_is ob ''authority_not_determined'')), (''computation_source'', Ambiguous)])"

definition r_notdet :: "pydict \<Rightarrow> pydict \<Rightarrow> grade" where
  "r_notdet i ob =
     (case notdet_parts i ob of
        Some ps \<Rightarrow> combine ps
      | None \<Rightarrow> graded_if (reason_is ob ''authority_not_determined''))"

definition r_closed :: "pydict \<Rightarrow> grade" where
  "r_closed ob =
     (if \<not> has_key (JObj ob) ''reason'' then Nonconformant
      else graded_if (no_reason ob \<or> list_ex (\<lambda>x. reason_is ob x) FIVE))"

definition or_empty :: "pyval \<Rightarrow> pyval" where
  "or_empty v = (if falsy v then JObj [] else v)"

definition r_nullobs :: "pydict \<Rightarrow> pydict \<Rightarrow> py_error + grade" where
  "r_nullobs i ob =
     (let gr = or_empty (get (JObj ob) ''grant_ref''); relied = or_empty (get (JObj i) ''relied_on_observation'') in
      bind_sum (mget relied ''present'') (\<lambda>present.
      bind_sum (if falsy present then Inr JNull else mget relied ''fresh'') (\<lambda>fresh.
      bind_sum (if falsy present \<or> falsy fresh then mget gr ''observation_as_of_ms'' else Inr JNull) (\<lambda>seen.
        if (falsy present \<or> falsy fresh) \<and> seen \<noteq> JNull then Inr Nonconformant
        else
          bind_sum (if falsy (get (JObj i) ''diagnostic_read'') then Inr (JBool True) else mget relied ''fresh'') (\<lambda>still.
            if py_true still then Inr Conformant
            else
              bind_sum (mget gr ''expires_at_ms'') (\<lambda>ex.
                if ex = JNull then Inr Conformant
                else
                  bind_sum (subscript gr ''expires_at_ms'') (\<lambda>a. bind_sum (subscript (JObj i) ''grant_expires_at_ms'') (\<lambda>b.
                  bind_sum (py_gt a b) (\<lambda>renewed. Inr (graded_if (\<not> renewed)))))))))))"

definition GRANT_MEMBERS :: "string list" where
  "GRANT_MEMBERS = [''grant'', ''evidence_id'', ''issued_at_ms'', ''expires_at_ms'', ''observation_as_of_ms'']"

definition r_grantref :: "pydict \<Rightarrow> grade" where
  "r_grantref ob =
     (let gr = get (JObj ob) ''grant_ref'' in
      if \<not> is_dict gr then Nonconformant else graded_if (list_all (has_key gr) GRANT_MEMBERS))"

definition evaluate_grant_ref :: "rule_case \<Rightarrow> py_error + grade" where
  "evaluate_grant_ref c =
     (let i = cs_input c; ob = cs_outcome c in
      if cs_rule c = ''R-ORDER'' then Inr (r_order i ob)
      else if cs_rule c = ''R-NOTDET'' then Inr (r_notdet i ob)
      else if cs_rule c = ''R-CLOSED'' then Inr (r_closed ob)
      else if cs_rule c = ''R-NULLOBS'' then r_nullobs i ob
      else if cs_rule c = ''R-GRANTREF'' then Inr (r_grantref ob)
      else Inl Key_error)"

definition grant_ref_parts :: "rule_case \<Rightarrow> parts option" where
  "grant_ref_parts c =
     (if cs_rule c = ''R-ORDER'' then order_parts (cs_input c) (cs_outcome c)
      else if cs_rule c = ''R-NOTDET'' then notdet_parts (cs_input c) (cs_outcome c) else None)"

text \<open>One line of \<open>main\<close>: whether the recomputed verdict or its parts differ from the declared ones.
  Two dictionaries of parts are equal when they map the same names alike; the names of a rule are distinct.\<close>

definition same_parts :: "parts option \<Rightarrow> parts option \<Rightarrow> bool" where
  "same_parts p q =
     (case (p, q) of
        (None, None) \<Rightarrow> True
      | (Some a, Some b) \<Rightarrow> length a = length b \<and> list_all (\<lambda>(k, g). map_of b k = Some g) a
      | _ \<Rightarrow> False)"

definition grant_ref_main :: "rule_case list \<Rightarrow> py_error + nat" where
  "grant_ref_main cs =
     bind_sum (traverse evaluate_grant_ref cs) (\<lambda>gs.
       Inr (if list_ex (\<lambda>(c, g). grade_text g \<noteq> cs_expect c \<or> \<not> same_parts (grant_ref_parts c) (cs_expect_parts c)) (zip cs gs)
            then 1 else 0))"

section \<open>Lease boundary\<close>

definition declared_parts :: "pydict \<Rightarrow> pydict \<Rightarrow> parts option" where
  "declared_parts i ob =
     (if get (JObj i) ''declared_boundary'' \<noteq> JNull then None
      else Some [(''answer_within_a_convention'', graded_if (no_reason ob \<or> reason_is ob ''evidence_expired'')),
                 (''declaration'', Ambiguous)])"

definition r_declared :: "pydict \<Rightarrow> pydict \<Rightarrow> grade" where
  "r_declared i ob =
     (case declared_parts i ob of
        Some ps \<Rightarrow> combine ps
      | None \<Rightarrow>
          (if py_true (get (JObj i) ''frame_accepted_at_equality'') then graded_if (reason_is ob ''evidence_expired'')
           else if get (JObj i) ''declared_boundary'' = JStr ''fresh_at_instant'' then graded_if (no_reason ob)
           else graded_if (reason_is ob ''evidence_expired'')))"

definition r_noextend :: "pydict \<Rightarrow> pydict \<Rightarrow> py_error + grade" where
  "r_noextend i ob =
     bind_sum (subscript (JObj i) ''now_ms'') (\<lambda>now. bind_sum (subscript (JObj i) ''lease_expiry_ms'') (\<lambda>expiry.
     bind_sum (py_gt now expiry) (\<lambda>past.
       Inr (graded_if (if past then reason_is ob ''evidence_expired'' else no_reason ob)))))"

definition r_mode :: "pydict \<Rightarrow> pydict \<Rightarrow> py_error + grade" where
  "r_mode i ob =
     bind_sum (subscript (JObj i) ''mode'') (\<lambda>m.
       Inr (graded_if
         (if m = JStr ''live'' then reason_is ob ''authority_not_determined''
          else if falsy (get (JObj i) ''cache_fresh'') then reason_is ob ''evidence_expired''
          else if get (JObj i) ''policy'' = JStr ''current'' then reason_is ob ''authority_not_determined''
          else no_reason ob)))"

text \<open>\<open>i["now_ms"] < i["lease_expiry_ms"]\<close>\<close>

definition r_window :: "pydict \<Rightarrow> pydict \<Rightarrow> py_error + grade" where
  "r_window i ob =
     bind_sum (subscript (JObj i) ''now_ms'') (\<lambda>now. bind_sum (subscript (JObj i) ''lease_expiry_ms'') (\<lambda>expiry.
     bind_sum (py_gt expiry now) (\<lambda>inside.
       Inr (graded_if (if inside then no_reason ob else reason_is ob ''evidence_expired'')))))"

definition evaluate_lease_boundary :: "rule_case \<Rightarrow> py_error + grade" where
  "evaluate_lease_boundary c =
     (let i = cs_input c; ob = cs_outcome c in
      if cs_rule c = ''R-DECLARED'' then Inr (r_declared i ob)
      else if cs_rule c = ''R-NOEXTEND'' then r_noextend i ob
      else if cs_rule c = ''R-MODE'' then r_mode i ob
      else if cs_rule c = ''R-WINDOW'' then r_window i ob
      else Inl Key_error)"

definition lease_boundary_parts :: "rule_case \<Rightarrow> parts option" where
  "lease_boundary_parts c =
     (if cs_rule c = ''R-DECLARED'' then declared_parts (cs_input c) (cs_outcome c) else None)"

definition lease_boundary_main :: "rule_case list \<Rightarrow> py_error + nat" where
  "lease_boundary_main cs =
     bind_sum (traverse evaluate_lease_boundary cs) (\<lambda>gs.
       Inr (if list_ex (\<lambda>(c, g). grade_text g \<noteq> cs_expect c \<or> \<not> same_parts (lease_boundary_parts c) (cs_expect_parts c)) (zip cs gs)
            then 1 else 0))"

end
