(* ===== verification/Candidate_Checks.thy ===== *)
theory Candidate_Checks
  imports Candidate_Rules Lease_Campaign
begin

text \<open>
  The candidate rules against the lease verifier: the outcome of a call, written as the families write it,
  meets the rules on the order of refusals, on the closed vocabulary, on the grant reference and on the boundary
  of a lease; and the two rules that settle the lease's last instant against each other.
\<close>

section \<open>An answer as a candidate outcome\<close>

definition lease_outcome :: "answer \<Rightarrow> pydict" where
  "lease_outcome a =
     (case extra_fields a of
        None \<Rightarrow> []
      | Some (refusal, g) \<Rightarrow>
          [(''reason'', case refusal of None \<Rightarrow> JNull | Some x \<Rightarrow> JStr (refusal_text x)), (''grant_ref'', grant_ref_json g)])"

text \<open>A call, its evidence and the state of the source as the input of a grant reference case\<close>

definition grant_ref_input :: "lease_decl \<Rightarrow> source \<Rightarrow> call \<Rightarrow> evidence \<Rightarrow> pydict" where
  "grant_ref_input d s c e =
     (let fresh = lease_within (d_boundary d) (at_ms c) (expires_at_ms e) in
      [(''binding_mismatch'', JBool (grant c \<noteq> ev_grant e)), (''evidence_expired'', JBool (\<not> fresh)),
       (''authority'', JStr (if states s (grant c) = Some Revoked then ''revoked'' else ''active'')),
       (''operation_permitted'', JBool (operation c \<in> set (allowed_operations e))),
       (''relied_on_observation'', JObj [(''present'', JBool (grant c = ev_grant e \<and> fresh \<and> available s)), (''fresh'', JBool fresh)]),
       (''grant_expires_at_ms'', JInt (expires_at_ms e))])"

lemma get_simps [simp]:
  "get (JObj ((k, v) # ms)) j = (if k = j then v else get (JObj ms) j)"
  "has_key (JObj ((k, v) # ms)) j \<longleftrightarrow> k = j \<or> has_key (JObj ms) j"
  "get (JObj []) j = JNull"
  by (simp_all add: get_def has_key_def)

lemma refusal_texts [simp]: "refusal_text x \<in> set FIVE"
  by (cases x) (simp_all add: refusal_text_def FIVE_def)

lemma outcome_access:
  assumes "extra_fields a = Some (r, g)"
  shows "reason_is (lease_outcome a) x \<longleftrightarrow> map_option refusal_text r = Some x" "no_reason (lease_outcome a) \<longleftrightarrow> r = None"
    "get (JObj (lease_outcome a)) ''grant_ref'' = grant_ref_json g" "has_key (JObj (lease_outcome a)) ''reason''"
  using assms by (auto simp: lease_outcome_def reason_is_def no_reason_def split: option.splits)

lemma closed_outcome:
  assumes "extra_fields a = Some (r, g)"
  shows "r_closed (lease_outcome a) = Conformant" "r_grantref (lease_outcome a) = Conformant"
proof -
  show "r_closed (lease_outcome a) = Conformant"
    using refusal_texts by (cases r) (auto simp: r_closed_def outcome_access [OF assms] graded_if_def list_ex_iff)
  show "r_grantref (lease_outcome a) = Conformant"
    by (simp add: r_grantref_def outcome_access [OF assms] graded_if_def grant_ref_json_def GRANT_MEMBERS_def Let_def)
qed

text \<open>The refusal of a live call under the default policy, and the observation its grant reference carries\<close>

definition live_refusal :: "lease_decl \<Rightarrow> source \<Rightarrow> call \<Rightarrow> evidence \<Rightarrow> refusal option" where
  "live_refusal d s c e =
     (if grant c \<noteq> ev_grant e then Some Evidence_binding_mismatch
      else if \<not> lease_within (d_boundary d) (at_ms c) (expires_at_ms e) then Some Evidence_expired
      else if \<not> available s then Some Authority_not_determined
      else if states s (grant c) = Some Revoked then Some Authority_revoked
      else if operation c \<notin> set (allowed_operations e) then Some Operation_not_permitted
      else None)"

lemma not_revoked: "st \<noteq> Revoked \<longleftrightarrow> st = Active"
  by (cases st) simp_all

lemma live_extra_fields:
  assumes "verifier_call Correct d True v s down c e = Inr (ans, v', s', down')"
    and "d_mode d = Live_standing_read" "Action_authorization \<in> set (claimed_axes d)" "action_policy d = DEFAULT_POLICY"
  obtains g where "extra_fields ans = Some (live_refusal d s c e, g)"
    "\<not> (grant c = ev_grant e \<and> lease_within (d_boundary d) (at_ms c) (expires_at_ms e) \<and> available s) \<longrightarrow> observation_as_of_ms g = None"
proof -
  let ?bound = "grant c = ev_grant e" and ?fresh = "lease_within (d_boundary d) (at_ms c) (expires_at_ms e)"
  obtain ob where ob: "correct_observation Live_standing_read (d_boundary d) s c e = Inr (ob, s')"
    and ans: "ans = correct_answer d True ob c e"
    using assms(1,2) by (metis verifier_call_correct)
  have rd: "?bound \<Longrightarrow> ?fresh \<Longrightarrow> read s (grant c) (at_ms c) = Inr (ob, s')"
    and none: "\<not> (?bound \<and> ?fresh) \<Longrightarrow> ob = None"
    using ob by (auto simp: correct_observation_def)
  have seen: "?bound \<Longrightarrow> ?fresh \<Longrightarrow> (available s \<longrightarrow> (\<exists>st. states s (grant c) = Some st \<and> validity_at c ob = validity_of st))
      \<and> (\<not> available s \<longrightarrow> ob = None \<and> validity_at c ob = Not_established_validity)"
    using auth.read_value [OF rd] by (auto simp: validity_at_def)
  have "refusal_of (decide_action Correct d ?bound ?fresh (validity_at c ob) c e) ?bound ?fresh (validity_at c ob) = live_refusal d s c e"
    using assms(3,4) seen by (auto simp: refusal_of_def decide_action_correct live_refusal_def not_revoked)
  then have "extra_fields ans = Some (live_refusal d s c e, grant_ref_of e ?fresh ob)"
    by (simp add: ans correct_answer_def answer_of_def Let_def)
  then show ?thesis
    using that none seen by (auto simp: grant_ref_of_def split: option.splits)
qed

text \<open>C22: the lease verifier meets the grant-reference rules. Whatever call the correct verifier answers in live mode,
  with the action axis claimed under the default policy, its outcome is conformant for the closed
  vocabulary, for the members of the grant reference and for the null observation; when the source answers,
  or the evidence is not bound or not fresh, it is conformant for the order of the refusals, and otherwise
  for the rule on undetermined authority.\<close>

theorem lease_answers_meet_grant_ref:
  assumes "verifier_call Correct d True v s down c e = Inr (ans, v', s', down')"
    and "d_mode d = Live_standing_read" "Action_authorization \<in> set (claimed_axes d)" "action_policy d = DEFAULT_POLICY"
  shows "r_closed (lease_outcome ans) = Conformant \<and> r_grantref (lease_outcome ans) = Conformant
    \<and> r_nullobs (grant_ref_input d s c e) (lease_outcome ans) = Inr Conformant
    \<and> (if available s \<or> grant c \<noteq> ev_grant e \<or> \<not> lease_within (d_boundary d) (at_ms c) (expires_at_ms e)
       then r_order (grant_ref_input d s c e) (lease_outcome ans) = Conformant
       else r_notdet (grant_ref_input d s c e) (lease_outcome ans) = Conformant)"
proof -
  obtain g where x: "extra_fields ans = Some (live_refusal d s c e, g)"
    and null: "\<not> (grant c = ev_grant e \<and> lease_within (d_boundary d) (at_ms c) (expires_at_ms e) \<and> available s) \<longrightarrow> observation_as_of_ms g = None"
    using assms by (rule live_extra_fields)
  note closed = closed_outcome [OF x] and access = outcome_access [OF x]
  have "r_nullobs (grant_ref_input d s c e) (lease_outcome ans) = Inr Conformant"
    using null by (auto simp: r_nullobs_def access or_empty_def grant_ref_input_def grant_ref_json_def mget_def py_true_def Let_def
        get_no_key has_key_def)
  moreover have "r_order (grant_ref_input d s c e) (lease_outcome ans) = Conformant"
    if "available s \<or> grant c \<noteq> ev_grant e \<or> \<not> lease_within (d_boundary d) (at_ms c) (expires_at_ms e)"
    using that by (auto simp: r_order_def order_parts_def first_applicable_def reason_matches_def graded_if_def py_true_def access
        grant_ref_input_def live_refusal_def refusal_text_def Let_def)
  moreover have "r_notdet (grant_ref_input d s c e) (lease_outcome ans) = Conformant"
    if "\<not> (available s \<or> grant c \<noteq> ev_grant e \<or> \<not> lease_within (d_boundary d) (at_ms c) (expires_at_ms e))"
    using that by (auto simp: r_notdet_def notdet_parts_def graded_if_def access grant_ref_input_def live_refusal_def
        refusal_text_def Let_def)
  ultimately show ?thesis using closed by simp
qed

theorem lease_answers_meet_grant_ref_witness:
  "\<exists>ans v' s' down'. verifier_call Correct (full_decl Live_standing_read Exclusive) True new_verifier
       (source_in_call Revoked 30000) {} (call_at 30000) e1 = Inr (ans, v', s', down')
     \<and> r_order (grant_ref_input (full_decl Live_standing_read Exclusive) (source_in_call Revoked 30000) (call_at 30000) e1)
         (lease_outcome ans) = Conformant"
proof -
  obtain ans v' s' down' where r: "verifier_call Correct (full_decl Live_standing_read Exclusive) True new_verifier
       (source_in_call Revoked 30000) {} (call_at 30000) e1 = Inr (ans, v', s', down')"
    by (auto simp: verifier_call_correct_eq correct_observation_def read_def lease_examples lease_within_def Let_def)
  from lease_answers_meet_grant_ref [OF r] r show ?thesis by (auto simp: lease_examples)
qed

section \<open>The last instant of a lease\<close>

text \<open>The two rules on expiry settle the last instant against each other. When the time of the answer is the expiry
  of the lease, no outcome is conformant both for the rule that an expired lease is not extended, which takes
  the instant as fresh, and for the rule on window lengths, which takes it as expired.\<close>

theorem expiry_instant_conflict:
  assumes "get (JObj i) ''now_ms'' = JInt t" and "get (JObj i) ''lease_expiry_ms'' = JInt t"
  shows "\<not> (r_noextend i ob = Inr Conformant \<and> r_window i ob = Inr Conformant)"
proof -
  have "subscript (JObj i) ''now_ms'' = Inr (JInt t)" "subscript (JObj i) ''lease_expiry_ms'' = Inr (JInt t)"
    using assms by (auto simp: subscript_def get_def split: option.splits)
  then have "r_noextend i ob = Inr (graded_if (no_reason ob))" "r_window i ob = Inr (graded_if (reason_is ob ''evidence_expired''))"
    by (simp_all add: r_noextend_def r_window_def)
  then show ?thesis by (auto simp: graded_if_def no_reason_def reason_is_def)
qed

theorem expiry_instant_conflict_witness:
  "\<not> (r_noextend [(''now_ms'', JInt 5), (''lease_expiry_ms'', JInt 5)] [(''reason'', JNull)] = Inr Conformant
    \<and> r_window [(''now_ms'', JInt 5), (''lease_expiry_ms'', JInt 5)] [(''reason'', JNull)] = Inr Conformant)"
  by (rule expiry_instant_conflict [of _ 5]) simp_all

end
