(* ===== verification/Aep_Lab.thy ===== *)
theory Aep_Lab
  imports Aep_Checks
begin

text \<open>
  \<open>interop/wasmagent-aep-2026-09-13-03/adapter/lab-semantic.py\<close>: a second recomputation of the semantic rules of AEP
  records, written independently of the verifier of \<open>Aep\<close>, the tags it reports for a fixture, and where the
  two agree.
\<close>

definition VOCAB :: "string list" where
  "VOCAB = [''unknown'', ''operator_asserted'', ''principal_key_signed'', ''qualified_signature'']"

definition RANK :: "string \<Rightarrow> nat" where
  "RANK g = length (takeWhile (\<lambda>x. x \<noteq> g) VOCAB)"

text \<open>\<open>g in RANK\<close>: a dictionary membership, which hashes the value\<close>

definition in_rank :: "pyval \<Rightarrow> py_error + bool" where
  "in_rank g = (if hashable g then Inr (is_str g \<and> str_of g \<in> set VOCAB) else Inl Type_error)"

definition sem :: "bool \<Rightarrow> string \<Rightarrow> string list" where
  "sem b tag = (if b then [tag] else [])"

definition graded_fields :: "pyval \<Rightarrow> pyval \<Rightarrow> pyval \<Rightarrow> pyval list" where
  "graded_fields backing flr observed =
     (if backing \<noteq> JNull then [backing] else []) @ (if flr \<noteq> JNull then [flr] else [])
     @ (if is_list observed then elements observed else [])"

definition floor_tags :: "pyval \<Rightarrow> pyval \<Rightarrow> py_error + string list" where
  "floor_tags flr observed =
     (if is_list observed \<and> elements observed \<noteq> [] \<and> flr \<noteq> JNull then
        bind_sum (traverse in_rank (elements observed)) (\<lambda>bs.
        let known = map (\<lambda>(g, b). str_of g) (filter snd (zip (elements observed) bs)) in
        bind_sum (if known \<noteq> [] then in_rank flr else Inr False) (\<lambda>b.
          Inr (sem (\<not> list_ex (\<lambda>g. py_eq g flr) (elements observed)) ''SEM_FLOOR_NOT_OBSERVED''
               @ sem (known \<noteq> [] \<and> b \<and> RANK (str_of flr) \<noteq> Min (set (map RANK known))) ''SEM_FLOOR_NOT_WEAKEST'')))
      else Inr [])"

definition lab_check :: "pyval \<Rightarrow> py_error + string list" where
  "lab_check rec =
     bind_sum (mget rec ''run_attribution_backing_floor'') (\<lambda>flr.
     bind_sum (mget rec ''run_attribution_backing_observed'') (\<lambda>observed.
     bind_sum (mget rec ''attribution_backing'') (\<lambda>backing.
     bind_sum (mget rec ''authorization_evidence_count'') (\<lambda>cnt.
     bind_sum (all_of in_rank (graded_fields backing flr observed)) (\<lambda>known.
     bind_sum (if is_list observed then py_set observed else Inr []) (\<lambda>s.
     bind_sum (floor_tags flr observed) (\<lambda>fs.
       Inr (sem (\<not> known) ''SEM_UNKNOWN_GRADE''
            @ sem (flr \<noteq> JNull \<and> observed = JNull) ''SEM_FLOOR_WITHOUT_OBSERVED''
            @ sem (observed \<noteq> JNull \<and> flr = JNull) ''SEM_OBSERVED_WITHOUT_FLOOR''
            @ sem (observed = JArr []) ''SEM_EMPTY_OBSERVED''
            @ sem (is_list observed \<and> length (py_distinct (elements observed)) \<noteq> length (elements observed)) ''SEM_DUPLICATE_OBSERVED''
            @ fs
            @ sem (case cnt of JInt n \<Rightarrow> n < 0 | _ \<Rightarrow> False) ''SEM_NEGATIVE_AUTH_EVIDENCE_COUNT''))))))))"

text \<open>The tags of a fixture: one record's as they are, several records' with their index, each once; and whether the
  verdict agrees with the manifest's\<close>

definition lab_tags :: "pyval list \<Rightarrow> py_error + string list" where
  "lab_tags recs =
     bind_sum (traverse lab_check recs) (\<lambda>vss.
       Inr (rev (remdups (rev
         (concat (map (\<lambda>(i, vs). map (\<lambda>c. if length recs = 1 then c else c @ ''@'' @ str_nat i) vs) (enumerate_from 0 vss)))))))"

definition lab_agrees :: "pyval list \<Rightarrow> pyval \<Rightarrow> py_error + bool" where
  "lab_agrees recs manifest = bind_sum (lab_tags recs) (\<lambda>viols. Inr ((viols = []) = (manifest = JStr ''valid'')))"

text \<open>The exit status over the fixtures and their manifest verdicts\<close>

definition lab_main :: "(pyval list \<times> pyval) list \<Rightarrow> py_error + nat" where
  "lab_main es = bind_sum (traverse (\<lambda>(recs, m). lab_agrees recs m) es) (\<lambda>bs. Inr (if list_all id bs then 0 else 1))"

section \<open>Agreement with the verifier\<close>

lemma in_rank_graded: "hashable g \<Longrightarrow> in_rank g = Inr (graded_value g)"
  by (cases g) (simp_all add: in_rank_def graded_value_def VOCAB_def GRADE_ORDER_def)

lemma RANK_index: "RANK g = grade_index g"
  by (simp add: RANK_def grade_index_def VOCAB_def GRADE_ORDER_def)

lemma graded_hashable: "graded_value g \<Longrightarrow> hashable g"
  by (cases g) (simp_all add: graded_value_def hashable_def)

lemma py_distinct_id: "list_all is_str xs \<Longrightarrow> distinct xs \<Longrightarrow> py_distinct xs = xs"
proof (induction xs)
  case (Cons x xs)
  then obtain t where "x = JStr t" by (auto simp: is_str_conv)
  then show ?case using Cons by (auto simp: filter_id_conv)
qed simp

lemma length_py_distinct: "length (py_distinct xs) \<le> length xs"
  by (induction xs) (auto intro: le_trans [OF length_filter_le])

lemma py_distinct_strings:
  "list_all is_str xs \<Longrightarrow> length (py_distinct xs) = length xs \<longleftrightarrow> distinct xs"
proof (induction xs)
  case (Cons x xs)
  obtain t where x: "x = JStr t" using Cons.prems by (auto simp: is_str_conv)
  have "length (filter (\<lambda>y. \<not> py_eq y x) (py_distinct xs)) = length xs \<longleftrightarrow> x \<notin> set xs \<and> distinct xs"
  proof
    assume l: "length (filter (\<lambda>y. \<not> py_eq y x) (py_distinct xs)) = length xs"
    then have full: "length (py_distinct xs) = length xs"
      using length_filter_le [of "\<lambda>y. \<not> py_eq y x" "py_distinct xs"] length_py_distinct [of xs] by linarith
    then have d: "distinct xs" using Cons by simp
    have "filter (\<lambda>y. \<not> py_eq y x) (py_distinct xs) = py_distinct xs"
      using l full by (metis filter_id_conv length_filter_less less_irrefl)
    then have "x \<notin> set (py_distinct xs)" by (auto simp: x filter_id_conv)
    moreover have "py_distinct xs = xs" using d Cons.prems by (intro py_distinct_id) auto
    ultimately show "x \<notin> set xs \<and> distinct xs" using d by simp
  next
    assume a: "x \<notin> set xs \<and> distinct xs"
    then have "py_distinct xs = xs" using Cons.prems by (intro py_distinct_id) auto
    moreover have "filter (\<lambda>y. \<not> py_eq y x) xs = xs" using a by (auto simp: x filter_id_conv)
    ultimately show "length (filter (\<lambda>y. \<not> py_eq y x) (py_distinct xs)) = length xs" by simp
  qed
  then show ?case by simp
qed simp

text \<open>The records on which the two are compared: no graded field is an explicit null or unhashable, and the observed
  grades are absent or a list of hashable values.\<close>

definition comparable :: "pyval \<Rightarrow> bool" where
  "comparable rec \<longleftrightarrow>
     list_all (\<lambda>f. has_key rec f \<longrightarrow> get rec f \<noteq> JNull \<and> hashable (get rec f)) [''attribution_backing'', ''run_attribution_backing_floor'']
     \<and> (let observed = get rec ''run_attribution_backing_observed'' in
         observed = JNull \<or> (is_list observed \<and> list_all hashable (elements observed)))"

text \<open>The one rule the lab does not recompute: an evidence count covers the observed grades.\<close>

definition count_covers :: "pyval \<Rightarrow> bool" where
  "count_covers rec \<longleftrightarrow>
     (case get rec ''authorization_evidence_count'' of
        JInt n \<Rightarrow> n < 0 \<or> int (length (elements (get rec ''run_attribution_backing_observed''))) \<le> n | _ \<Rightarrow> True)"

lemma sem_Nil [simp]: "sem b t = [] \<longleftrightarrow> \<not> b"
  by (simp add: sem_def)

lemma filter_snd_zip: "map (\<lambda>(g, b). h g) (filter snd (zip xs (map P xs))) = map h (filter P xs)"
  by (induction xs) auto

lemma floor_tags_graded:
  assumes "list_all graded_value xs" "xs \<noteq> []" "graded_value flr"
  shows "floor_tags flr (JArr xs) = Inr [] \<longleftrightarrow>
    flr \<in> set xs \<and> list_all (\<lambda>x. grade_index (str_of flr) \<le> grade_index (str_of x)) xs"
proof -
  have r: "traverse in_rank xs = Inr (map graded_value xs)" "in_rank flr = Inr True" "filter graded_value xs = xs" "flr \<noteq> JNull"
    using assms by (auto intro!: traverse_Inr simp: list_all_iff in_rank_graded graded_hashable graded_value_def)
  obtain f where f: "flr = JStr f" using assms(3) by (auto simp: graded_value_conv)
  have k: "map (\<lambda>(g, b). str_of g) (filter snd (zip xs (map graded_value xs))) = map str_of xs"
    unfolding filter_snd_zip r(3) ..
  have "floor_tags flr (JArr xs) =
      Inr (sem (\<not> list_ex (\<lambda>g. py_eq g flr) xs) ''SEM_FLOOR_NOT_OBSERVED''
           @ sem (RANK (str_of flr) \<noteq> Min (set (map RANK (map str_of xs)))) ''SEM_FLOOR_NOT_WEAKEST'')"
    using assms(2) r(2,4) unfolding floor_tags_def is_list.simps elements.simps r(1) bind_sum.simps Let_def k by simp
  then have "floor_tags flr (JArr xs) = Inr [] \<longleftrightarrow>
      flr \<in> set xs \<and> grade_index f = Min (set (map grade_index (map str_of xs)))"
    by (auto simp: f RANK_index list_ex_iff)
  moreover have "grade_index f = Min (set (map grade_index (map str_of xs))) \<longleftrightarrow>
      list_all (\<lambda>x. grade_index (str_of flr) \<le> grade_index (str_of x)) xs" if "flr \<in> set xs"
  proof -
    have "grade_index f \<in> set (map grade_index (map str_of xs))" using that f by force
    moreover from this have "set (map grade_index (map str_of xs)) \<noteq> {}" by auto
    ultimately show ?thesis by (subst eq_Min_iff) (auto simp: list_all_iff f)
  qed
  ultimately show ?thesis by blast
qed

lemma lab_check_parts:
  assumes "comparable (JObj ms)"
  defines "r \<equiv> JObj ms"
  defines "flr \<equiv> get r ''run_attribution_backing_floor''" and "obs \<equiv> get r ''run_attribution_backing_observed''"
    and "backing \<equiv> get r ''attribution_backing''"
  shows "lab_check r = Inr [] \<longleftrightarrow>
    list_all graded_value (graded_fields backing flr obs) \<and> (obs = JNull \<longleftrightarrow> flr = JNull) \<and> obs \<noteq> JArr []
    \<and> (is_list obs \<longrightarrow> length (py_distinct (elements obs)) = length (elements obs)) \<and> floor_tags flr obs = Inr []
    \<and> \<not> (case get r ''authorization_evidence_count'' of JInt n \<Rightarrow> n < 0 | _ \<Rightarrow> False)"
proof -
  have h: "list_all hashable (graded_fields backing flr obs)"
    using assms(1) get_not_null [of r "''attribution_backing''"] get_not_null [of r "''run_attribution_backing_floor''"]
    by (auto simp: comparable_def graded_fields_def flr_def obs_def backing_def r_def Let_def)
  then have "all_of in_rank (graded_fields backing flr obs) = Inr (list_all graded_value (graded_fields backing flr obs))"
    by (intro all_of_total) (auto simp: list_all_iff in_rank_graded)
  moreover have "(if is_list obs then py_set obs else Inr []) = Inr (elements obs)"
    using h by (cases obs) (auto simp: py_set_def graded_fields_def split: if_splits)
  ultimately show ?thesis
    by (cases "floor_tags flr obs")
      (auto simp: lab_check_def mget_def r_def flr_def obs_def backing_def)
qed

text \<open>C36: two independent recomputations agree. On records whose graded fields are hashable and not explicit nulls, and
  whose observed grades are absent or a list, the lab's check reports nothing exactly when the verifier's
  semantic level is valid, up to the one rule the lab leaves out: that an evidence count is no smaller than
  the number of observed grades.\<close>

theorem aep_checkers_agree:
  assumes "comparable (JObj ms)"
  shows "semantic (JObj ms) = Inr (''valid'', []) \<longleftrightarrow> lab_check (JObj ms) = Inr [] \<and> count_covers (JObj ms)"
proof -
  let ?r = "JObj ms"
  let ?flr = "get ?r ''run_attribution_backing_floor''"
  let ?obs = "get ?r ''run_attribution_backing_observed''"
  let ?bck = "get ?r ''attribution_backing''"
  have keyed: "has_key ?r f \<longleftrightarrow> get ?r f \<noteq> JNull" if "f = ''attribution_backing'' \<or> f = ''run_attribution_backing_floor''" for f
    using that assms get_not_null(2) [of ?r f] by (auto simp: comparable_def)
  have backed: "(has_key ?r ''attribution_backing'' \<longrightarrow> graded_value ?bck) \<longleftrightarrow> (?bck \<noteq> JNull \<longrightarrow> graded_value ?bck)"
    and flr: "has_key ?r ''run_attribution_backing_floor'' \<longleftrightarrow> ?flr \<noteq> JNull"
    by (simp_all add: keyed)
  have cnt: "(case c of JInt n \<Rightarrow> max 0 k \<le> n | _ \<Rightarrow> True) \<longleftrightarrow>
      \<not> (case c of JInt n \<Rightarrow> n < 0 | _ \<Rightarrow> False) \<and> (case c of JInt n \<Rightarrow> n < 0 \<or> k \<le> n | _ \<Rightarrow> True)" for c :: pyval and k :: int
    by (cases c) auto
  show ?thesis
  proof (cases "is_list ?obs")
    case False
    then have "?obs = JNull" using assms by (auto simp: comparable_def Let_def)
    then show ?thesis
      unfolding semantic_consistent consistent_grading_def lab_check_parts [OF assms] count_covers_def Let_def cnt backed flr
      by (auto simp: graded_fields_def floor_tags_def split: json.splits)
  next
    case True
    then obtain xs where xs: "?obs = JArr xs" by (auto simp: is_list_conv)
    have in_list: "flr \<in> set xs \<Longrightarrow> list_all graded_value xs \<Longrightarrow> graded_value flr" for flr by (simp add: list_all_iff)
    have strs: "list_all graded_value xs \<Longrightarrow> length (py_distinct xs) = length xs \<longleftrightarrow> distinct xs"
      by (rule py_distinct_strings) (auto simp: list_all_iff graded_value_conv)
    have null: "\<not> graded_value JNull" by (simp add: graded_value_def)
    show ?thesis
      unfolding semantic_consistent consistent_grading_def lab_check_parts [OF assms] count_covers_def Let_def cnt backed xs
      using strs floor_tags_graded [of xs ?flr] in_list [of ?flr] null
      by (auto simp: graded_fields_def)
  qed
qed

theorem aep_checkers_agree_witness:
  "comparable (JObj sample_body) \<and> lab_check (JObj sample_body) = Inr []"
proof -
  have c: "comparable (JObj sample_body)" by code_simp
  have "semantic (JObj sample_body) = Inr (''valid'', [])" by code_simp
  then show ?thesis using aep_checkers_agree [OF c] c by simp
qed

text \<open>Records on which they part: an evidence count below the number of observed grades.\<close>

lemma lab_misses_low_count:
  "lab_check (JObj (AList.update ''authorization_evidence_count'' (JInt 1) sample_body)) = Inr []"
  "semantic (JObj (AList.update ''authorization_evidence_count'' (JInt 1) sample_body)) = Inr (''invalid'', [''count_below_observed_grades''])"
  by code_simp+

end
