(* ===== verification/Candidate_Halt.thy ===== *)
theory Candidate_Halt
  imports Candidate_Rules
begin

text \<open>
  \<open>candidates/aeoess-running-call-halt/check.py\<close>: what a halt owes calls already running. A new call is
  refused, a non-interruptible call finishes, an interruptible one stops at its first checkpoint at or after
  the halt was observed, and receipts agree with observers.
\<close>

definition ARRIVED :: "string list" where
  "ARRIVED = [''tryLater'', ''not_authoritative'', ''internal_error'']"

definition arrived :: "pyval \<Rightarrow> bool" where
  "arrived v = list_ex (\<lambda>x. v = JStr x) ARRIVED"

definition r_admit :: "pydict \<Rightarrow> grade" where
  "r_admit ob = graded_if (get (JObj ob) ''new_call'' = JStr ''DENIED'')"

text \<open>\<open>o[a][b]\<close>\<close>

definition nested :: "pydict \<Rightarrow> string \<Rightarrow> string \<Rightarrow> py_error + pyval" where
  "nested ob a b = bind_sum (subscript (JObj ob) a) (\<lambda>r. subscript r b)"

definition r_fts :: "pydict \<Rightarrow> pydict \<Rightarrow> py_error + grade" where
  "r_fts i ob =
     bind_sum (subscript (JObj i) ''call'') (\<lambda>call. bind_sum (subscript call ''kind'') (\<lambda>kind.
     bind_sum (if kind \<noteq> JStr ''non_interruptible'' then Inr JNull else subscript call ''contract'') (\<lambda>contract.
       if contract \<noteq> JStr ''FINISH_THEN_STOP'' then Inr Ambiguous
       else
         bind_sum (nested ob ''receipt'' ''operation_completed'') (\<lambda>rc.
         bind_sum (nested ob ''observer'' ''completed'') (\<lambda>seen.
           Inr (graded_if (rc = JBool True \<and> seen = JBool True)))))))"

section \<open>The first checkpoint\<close>

text \<open>\<open>a >= b\<close>, and \<open><\<close> on pairs of a time and a name; times are numbers or strings\<close>

definition py_ge :: "pyval \<Rightarrow> pyval \<Rightarrow> py_error + bool" where
  "py_ge a b = bind_sum (py_gt a b) (\<lambda>g. Inr (g \<or> py_eq a b))"

definition earlier :: "pyval \<times> string \<Rightarrow> pyval \<times> string \<Rightarrow> py_error + bool" where
  "earlier p q = (if py_eq (fst p) (fst q) then Inr (snd p < snd q) else py_gt (fst q) (fst p))"

text \<open>The head of \<open>sorted(x : xs)\<close>\<close>

fun earliest :: "pyval \<times> string \<Rightarrow> (pyval \<times> string) list \<Rightarrow> py_error + pyval \<times> string" where
  "earliest x [] = Inr x"
| "earliest x (y # ys) = bind_sum (earlier y x) (\<lambda>b. earliest (if b then y else x) ys)"

definition first_checkpoint_at_or_after :: "pyval \<Rightarrow> pyval \<Rightarrow> py_error + string option" where
  "first_checkpoint_at_or_after cps t =
     bind_sum (items cps) (\<lambda>ms.
     bind_sum (traverse (\<lambda>(cid, ts). py_ge ts t) ms) (\<lambda>bs.
       case map (\<lambda>((cid, ts), b). (ts, cid)) (filter snd (zip ms bs)) of
         [] \<Rightarrow> Inr None
       | x # xs \<Rightarrow> bind_sum (earliest x xs) (\<lambda>e. Inr (Some (snd e)))))"

text \<open>\<open>d[k] is v\<close> or \<open>d[k] == v\<close> for a boolean or a string \<open>v\<close>\<close>

definition item_is :: "pyval \<Rightarrow> string \<Rightarrow> pyval \<Rightarrow> py_error + bool" where
  "item_is d k v = bind_sum (subscript d k) (\<lambda>x. Inr (x = v))"

definition r_sac :: "pydict \<Rightarrow> pydict \<Rightarrow> py_error + grade" where
  "r_sac i ob =
     bind_sum (subscript (JObj i) ''call'') (\<lambda>call. bind_sum (subscript call ''checkpoints'') (\<lambda>cps.
     bind_sum (subscript (JObj i) ''t_observed'') (\<lambda>t. bind_sum (first_checkpoint_at_or_after cps t) (\<lambda>target.
       case target of
         None \<Rightarrow> Inr Ambiguous
       | Some cid \<Rightarrow>
           bind_sum (subscript (JObj ob) ''receipt'') (\<lambda>r. bind_sum (subscript (JObj ob) ''observer'') (\<lambda>obs.
           bind_sum
             (and_also (item_is r ''operation_completed'' (JBool False))
             (and_also (item_is r ''checkpoint_id'' (JStr cid))
             (and_also (item_is obs ''completed'' (JBool False)) (item_is obs ''last_checkpoint'' (JStr cid)))))
             (\<lambda>ok. Inr (graded_if ok))))))))"

definition r_obs :: "pydict \<Rightarrow> py_error + grade" where
  "r_obs ob =
     bind_sum (subscript (JObj ob) ''receipt'') (\<lambda>r. bind_sum (subscript (JObj ob) ''observer'') (\<lambda>obs.
     bind_sum (subscript r ''operation_completed'') (\<lambda>a. bind_sum (subscript obs ''completed'') (\<lambda>b.
     bind_sum (if \<not> py_eq a b then Inr False
               else bind_sum (mget r ''checkpoint_id'') (\<lambda>x. bind_sum (mget obs ''last_checkpoint'') (\<lambda>y. Inr (py_eq x y))))
       (\<lambda>ok. Inr (graded_if ok))))))"

section \<open>Rules with parts\<close>

definition reason_of :: "pydict \<Rightarrow> py_error + pyval" where
  "reason_of ob =
     bind_sum (mget (or_empty (get (JObj ob) ''receipt'')) ''incomplete_check'') (\<lambda>v. mget (or_empty v) ''reason'')"

definition halt_notdet_parts :: "pydict \<Rightarrow> pydict \<Rightarrow> py_error + parts" where
  "halt_notdet_parts i ob =
     (let r = or_empty (get (JObj ob) ''receipt''); paused = (get (JObj ob) ''state'' = JStr ''PAUSE'') in
      bind_sum (subscript (JObj i) ''registry'') (\<lambda>registry.
        if registry = JStr ''stale_root'' then
          Inr (if \<not> paused then [(''state'', Nonconformant)] else [(''state'', Conformant), (''determination'', Ambiguous)])
        else
          bind_sum
            (and_also (Inr paused)
            (and_also (bind_sum (mget r ''trigger'') (\<lambda>x. Inr (x = JStr ''registry_unreachable'')))
                      (bind_sum (mget r ''determination'') (\<lambda>x. Inr (x = JStr ''authority_not_determined'')))))
            (\<lambda>halt. bind_sum (reason_of ob) (\<lambda>reason.
               Inr [(''halt'', graded_if halt),
                    (''receipt'', if reason = JNull \<or> arrived reason then Nonconformant else Ambiguous)]))))"

definition incomplete_parts :: "pydict \<Rightarrow> pydict \<Rightarrow> py_error + parts" where
  "incomplete_parts i ob =
     bind_sum (reason_of ob) (\<lambda>reason. bind_sum (subscript (JObj i) ''responder'') (\<lambda>responder.
       Inr (if arrived responder then [(''recorded_answer'', graded_if (reason = responder))]
            else [(''no_inferred_answer'', graded_if (\<not> arrived reason)),
                  (''recorded_value'', if reason = JNull \<or> arrived reason then Nonconformant else Ambiguous)])))"

definition split_parts :: "pydict \<Rightarrow> pydict \<Rightarrow> py_error + parts" where
  "split_parts i ob = bind_sum (r_fts i ob) (\<lambda>g. Inr [(''admission'', r_admit ob), (''effects'', g)])"

definition evaluate_halt :: "rule_case \<Rightarrow> py_error + grade" where
  "evaluate_halt c =
     (let i = cs_input c; ob = cs_outcome c in
      if cs_rule c = ''R-ADMIT'' then Inr (r_admit ob)
      else if cs_rule c = ''R-FTS'' then r_fts i ob
      else if cs_rule c = ''R-SAC'' then r_sac i ob
      else if cs_rule c = ''R-OBS'' then r_obs ob
      else if cs_rule c = ''R-NOTDET'' then bind_sum (halt_notdet_parts i ob) (\<lambda>ps. Inr (combine ps))
      else if cs_rule c = ''R-INCOMPLETE'' then bind_sum (incomplete_parts i ob) (\<lambda>ps. Inr (combine ps))
      else if cs_rule c = ''R-SPLIT'' then bind_sum (split_parts i ob) (\<lambda>ps. Inr (combine ps))
      else Inl Key_error)"

definition halt_parts :: "rule_case \<Rightarrow> py_error + parts option" where
  "halt_parts c =
     (let i = cs_input c; ob = cs_outcome c in
      if cs_rule c = ''R-NOTDET'' then bind_sum (halt_notdet_parts i ob) (\<lambda>ps. Inr (Some ps))
      else if cs_rule c = ''R-INCOMPLETE'' then bind_sum (incomplete_parts i ob) (\<lambda>ps. Inr (Some ps))
      else if cs_rule c = ''R-SPLIT'' then bind_sum (split_parts i ob) (\<lambda>ps. Inr (Some ps))
      else Inr None)"

definition missed :: "rule_case \<Rightarrow> py_error + bool" where
  "missed c =
     bind_sum (evaluate_halt c) (\<lambda>g. bind_sum (halt_parts c) (\<lambda>ps.
       Inr (grade_text g \<noteq> cs_expect c \<or> \<not> same_parts ps (cs_expect_parts c))))"

definition halt_main :: "rule_case list \<Rightarrow> py_error + nat" where
  "halt_main cs = bind_sum (traverse missed cs) (\<lambda>bs. Inr (if list_ex id bs then 1 else 0))"

section \<open>The stop of an interruptible call\<close>

text \<open>Checkpoints at integer times\<close>

definition timed :: "(string \<times> int) list \<Rightarrow> pyval" where
  "timed cps = JObj (map (\<lambda>(c, n). (c, JInt n)) cps)"

lemma earliest_ints: "earliest (JInt n, c) (map (\<lambda>(m, d). (JInt m, d)) xs) =
    (case foldl min (n, c) xs of (m, d) \<Rightarrow> Inr (JInt m, d))"
proof (induction xs arbitrary: n c)
  case (Cons x xs)
  obtain m d where x: "x = (m, d)" by (cases x)
  have "earlier (JInt m, d) (JInt n, c) = Inr ((m, d) < (n, c))"
    by (auto simp: earlier_def less_prod_simp)
  moreover have "min (n, c) (m, d) = (if (m, d) < (n, c) then (m, d) else (n, c))"
    by (auto simp: min_def)
  ultimately show ?case using Cons.IH by (simp add: x)
qed simp

lemma foldl_min: "foldl min (x :: 'a :: linorder) xs \<in> set (x # xs)" "y \<in> set (x # xs) \<Longrightarrow> foldl min x xs \<le> y"
proof -
  have "foldl min x xs = Min (set (x # xs))" by (simp only: Min.set_eq_fold foldl_conv_fold) (simp add: min.commute)
  then show "foldl min x xs \<in> set (x # xs)" "y \<in> set (x # xs) \<Longrightarrow> foldl min x xs \<le> y"
    by (metis List.finite_set Min_in empty_not_insert list.set(2)) (simp add: Min_le \<open>foldl min x xs = Min (set (x # xs))\<close>)
qed

lemma first_checkpoint_ints:
  assumes "first_checkpoint_at_or_after (timed cps) (JInt t) = Inr (Some cid)"
  obtains n where "(cid, n) \<in> set cps" "t \<le> n" "list_all (\<lambda>(c, m). t \<le> m \<longrightarrow> n \<le> m) cps"
proof -
  let ?late = "map (\<lambda>(c, n). (n, c)) (filter (\<lambda>(c, n). t \<le> n) cps)"
  have e1: "traverse (\<lambda>(cid, ts). py_ge ts (JInt t)) (map (\<lambda>(c, n). (c, JInt n)) cps) = Inr (map (\<lambda>(c, n). t \<le> n) cps)"
    by (induction cps) (auto simp: py_ge_def)
  have e2: "map (\<lambda>((cid, ts), b). (ts, cid)) (filter snd (zip (map (\<lambda>(c, n). (c, JInt n)) cps) (map (\<lambda>(c, n). t \<le> n) cps)))
      = map (\<lambda>(m, d). (JInt m, d)) ?late"
    by (induction cps) auto
  have e3: "items (timed cps) = Inr (map (\<lambda>(c, n). (c, JInt n)) cps)" by (simp add: items_def timed_def)
  have "(case map (\<lambda>(m, d). (JInt m, d)) ?late of [] \<Rightarrow> Inr None
      | x # xs \<Rightarrow> bind_sum (earliest x xs) (\<lambda>e. Inr (Some (snd e)))) = Inr (Some cid)"
    using assms unfolding first_checkpoint_at_or_after_def e3 bind_sum.simps e1 e2 .
  then obtain x xs where l: "?late = x # xs" and cid: "cid = snd (foldl min x xs)"
    by (cases ?late; cases "hd ?late") (auto simp del: filter.simps simp: earliest_ints split: prod.splits)
  have "foldl min x xs \<in> set ?late" "\<And>y. y \<in> set ?late \<Longrightarrow> foldl min x xs \<le> y"
    unfolding l by (rule foldl_min)+
  then show ?thesis using cid
    by (intro that [of "fst (foldl min x xs)"]) (fastforce simp: less_eq_prod_def list_all_iff split: prod.splits)+
qed

text \<open>C37: an interruptible call stops at its first checkpoint. When the rule on interruptible calls is met, and the times of
  the checkpoints and of the observed halt are integers (as in every committed vector), the receipt names a checkpoint of the call that is the earliest at or after the moment the halt was observed, and the
  receipt agrees with the observer.\<close>

theorem stop_at_first_checkpoint:
  assumes "r_sac i ob = Inr Conformant" and "get (JObj i) ''call'' = JObj call"
    and "get (JObj call) ''checkpoints'' = timed cps" and "get (JObj i) ''t_observed'' = JInt t"
  shows "\<exists>cid n r. get (JObj ob) ''receipt'' = r \<and> get r ''checkpoint_id'' = JStr cid \<and> get r ''operation_completed'' = JBool False
    \<and> (cid, n) \<in> set cps \<and> t \<le> n \<and> list_all (\<lambda>(c, m). t \<le> m \<longrightarrow> n \<le> m) cps \<and> r_obs ob = Inr Conformant"
proof -
  have sub: "subscript d k = Inr v \<Longrightarrow> get d k = v \<and> is_dict d" for d k v
    by (auto simp: subscript_def get_def split: if_splits option.splits)
  have "subscript (JObj i) ''call'' = Inr (JObj call)" "subscript (JObj call) ''checkpoints'' = Inr (timed cps)"
    "subscript (JObj i) ''t_observed'' = Inr (JInt t)"
    using assms(2-4) by (auto simp: subscript_def get_def timed_def split: option.splits)
  then obtain cid r obs where f: "first_checkpoint_at_or_after (timed cps) (JInt t) = Inr (Some cid)"
    and r: "subscript (JObj ob) ''receipt'' = Inr r" "subscript (JObj ob) ''observer'' = Inr obs"
    and v: "subscript r ''operation_completed'' = Inr (JBool False)" "subscript r ''checkpoint_id'' = Inr (JStr cid)"
      "subscript obs ''completed'' = Inr (JBool False)" "subscript obs ''last_checkpoint'' = Inr (JStr cid)"
    using assms(1) by (auto simp: r_sac_def item_is_def graded_if_def split: option.splits if_splits)
  obtain n where n: "(cid, n) \<in> set cps" "t \<le> n" "list_all (\<lambda>(c, m). t \<le> m \<longrightarrow> n \<le> m) cps"
    using f by (rule first_checkpoint_ints)
  have "r_obs ob = Inr Conformant"
    using r v sub [OF v(2)] sub [OF v(4)] by (simp add: r_obs_def graded_if_def mget_def)
  then show ?thesis using n sub [OF r(1)] sub [OF v(1)] sub [OF v(2)] by blast
qed

theorem stop_at_first_checkpoint_witness:
  "let rc = JObj [(''operation_completed'', JBool False), (''checkpoint_id'', JStr ''c2'')] in
   \<exists>cid n r. get (JObj [(''receipt'', rc), (''observer'', JObj [(''completed'', JBool False), (''last_checkpoint'', JStr ''c2'')])]) ''receipt'' = r
    \<and> get r ''checkpoint_id'' = JStr cid \<and> (cid, n) \<in> set [(''c3'', 30), (''c1'', 10), (''c2'', 20)] \<and> (15 :: int) \<le> n"
proof -
  let ?i = "[(''call'', JObj [(''checkpoints'', timed [(''c3'', 30), (''c1'', 10), (''c2'', 20)])]), (''t_observed'', JInt 15)]"
  let ?o = "[(''receipt'', JObj [(''operation_completed'', JBool False), (''checkpoint_id'', JStr ''c2'')]),
             (''observer'', JObj [(''completed'', JBool False), (''last_checkpoint'', JStr ''c2'')])]"
  have "r_sac ?i ?o = Inr Conformant" by code_simp
  from stop_at_first_checkpoint [OF this] show ?thesis unfolding Let_def get_def by fastforce
qed

text \<open>An unreachable registry is never settled as conformant, only as ambiguous at best.\<close>

lemma notdet_never_conformant: "halt_notdet_parts i ob = Inr ps \<Longrightarrow> combine ps \<noteq> Conformant"
  by (cases "subscript (JObj i) ''registry''"; cases "reason_of ob")
    (auto simp: halt_notdet_parts_def combine_def graded_if_def Let_def split: if_splits)

end
