(* ===== verification/Candidate_Issuance.thy ===== *)
theory Candidate_Issuance
  imports Candidate_Rules
begin

text \<open>
  \<open>candidates/aeoess-oauth-actor-profile/check.py\<close>: whether the token an authorization server issued, or its
  refusal, satisfies the issuance rules of the actor profile. Verdicts come with the text of the rule that
  decided; its first word is compared with the expected rule.
\<close>

datatype issuance = Graded grade | Not_evaluated

record issuance_case =
  ic_request :: pydict
  ic_as_state :: pydict
  ic_outcome :: pydict
  ic_expect :: "(string \<times> string) list"
  ic_expect_rule :: "(string \<times> string) list"

text \<open>\<open>act_objects\<close>: the nested actor objects, outermost first\<close>

function (sequential) act_objects :: "pyval \<Rightarrow> pyval list" where
  "act_objects (JObj ms) = JObj ms # (case map_of ms ''act'' of None \<Rightarrow> [] | Some v \<Rightarrow> act_objects v)"
| "act_objects v = []"
  by pat_completeness auto

lemma size_member: "map_of ms k = Some v \<Longrightarrow> size v < size (JObj ms)"
  by (induction ms) (auto split: if_splits)

termination act_objects
  by (relation "measure size") (use size_member in auto)

definition shared_registration :: "pyval \<Rightarrow> py_error + bool" where
  "shared_registration b =
     and_also (bind_sum (mget b ''kind'') (\<lambda>k. Inr (k = JStr ''registration'')))
       (bind_sum (mget_or b ''registration_unique'' (JBool False)) (\<lambda>u. Inr (falsy u)))"

definition basis_holds :: "pydict \<Rightarrow> pyval \<Rightarrow> py_error + bool" where
  "basis_holds st sb =
     (let b = get (JObj st) ''delegation_basis'' in
      if falsy b then Inr False
      else
        bind_sum (shared_registration b) (\<lambda>shared.
          if shared then Inr False
          else bind_sum (mget b ''covers_sub'') (\<lambda>c. Inr (py_eq c sb))))"

fun malformed_act :: "pyval list \<Rightarrow> string option" where
  "malformed_act [] = None"
| "malformed_act (x # xs) =
     (if \<not> has_key x ''sub'' \<or> \<not> has_key x ''iss'' then Some ''R-3.4-iss (act object missing sub or iss)''
      else if has_key x ''client_profile'' then Some ''R-3.4-iss (client_profile inside act)''
      else malformed_act xs)"

definition rejection :: "pyval \<Rightarrow> pyval \<Rightarrow> issuance \<times> string" where
  "rejection grant recorded =
     (if grant = JStr ''refresh_token'' \<and> py_true recorded then (Graded Conformant, ''R-5.2-refresh (reject branch)'')
      else (Not_evaluated, ''rejection outside refresh-with-chain is policy''))"

definition refreshed :: "pyval \<Rightarrow> pyval \<Rightarrow> issuance \<times> string" where
  "refreshed recorded act =
     (if falsy recorded then (Not_evaluated, ''refresh without recorded chain is not decided here'')
      else if act = JNull then (Graded Nonconformant, ''R-5.2-refresh (chain dropped)'')
      else if \<not> py_eq act recorded then (Graded Nonconformant, ''R-5.2-refresh (chain changed)'')
      else (Graded Conformant, ''R-5.2-refresh (carried unchanged)''))"

text \<open>\<open>(act.get("iss"), act.get("sub")) != (want["iss"], want["sub"])\<close>, negated\<close>

definition actor_from_basis :: "pyval \<Rightarrow> pyval \<Rightarrow> py_error + bool" where
  "actor_from_basis act b =
     bind_sum (subscript b ''actor'') (\<lambda>want.
     bind_sum (mget act ''iss'') (\<lambda>ai. bind_sum (mget act ''sub'') (\<lambda>asub.
     bind_sum (subscript want ''iss'') (\<lambda>wi. bind_sum (subscript want ''sub'') (\<lambda>ws.
       Inr (py_eq ai wi \<and> py_eq asub ws))))))"

definition code_issued :: "string \<Rightarrow> pydict \<Rightarrow> pyval \<Rightarrow> pyval \<Rightarrow> py_error + issuance \<times> string" where
  "code_issued txt st tok act =
     (let b = get (JObj st) ''delegation_basis'' in
      bind_sum (if falsy b then Inr False else shared_registration b) (\<lambda>shared.
        if shared then
          Inr (if act \<noteq> JNull then (Graded Nonconformant, ''R-5.2-shared (shared registration is no basis)'')
               else (Graded Conformant, ''R-5.2-shared (no act without basis)''))
        else
          bind_sum (mget tok ''sub'') (\<lambda>sb. bind_sum (basis_holds st sb) (\<lambda>holds.
            if \<not> holds then
              Inr (if act \<noteq> JNull then (Graded Nonconformant, ''R-3.5-iff (act without a basis covering this sub)'')
                   else (Graded Conformant, ''R-3.5-iff (no basis, no act)''))
            else if act = JNull then
              Inr (if txt = ''-01'' then (Graded Ambiguous, ''R-3.5-iff MUST vs -01 R-5.2 MAY (basis present, act missing)'')
                   else (Graded Nonconformant, ''R-5.2-basis / R-3.5-iff (basis present, act missing)''))
            else
              bind_sum (actor_from_basis act b) (\<lambda>same.
                Inr (if \<not> same then (Graded Nonconformant, ''R-5.2-derive (actor not from basis)'')
                     else (Graded Conformant, ''R-5.2-basis'')))))))"

definition client_issued :: "pydict \<Rightarrow> pyval \<Rightarrow> issuance \<times> string" where
  "client_issued st act =
     (if has_key (JObj st) ''client_acts_on_own_behalf'' \<and> falsy (get (JObj st) ''client_acts_on_own_behalf'')
      then (Not_evaluated, ''client_credentials on behalf of another subject'')
      else if act \<noteq> JNull then (Graded Nonconformant, ''R-3.5-iff (client acts on own behalf, no actor separate from sub)'')
      else (Graded Conformant, ''R-3.5-iff''))"

definition check_issuance :: "issuance_case \<Rightarrow> string \<Rightarrow> py_error + issuance \<times> string" where
  "check_issuance c txt =
     (let st = ic_as_state c; recorded = get (JObj st) ''recorded_act'' in
      bind_sum (subscript (JObj (ic_request c)) ''grant_type'') (\<lambda>grant.
        if has_key (JObj (ic_outcome c)) ''error'' then Inr (rejection grant recorded)
        else
          bind_sum (subscript (JObj (ic_outcome c)) ''issued'') (\<lambda>tok. bind_sum (mget tok ''act'') (\<lambda>act.
            case (if act = JNull then None else malformed_act (act_objects act)) of
              Some r \<Rightarrow> Inr (Graded Nonconformant, r)
            | None \<Rightarrow>
                (if grant = JStr ''refresh_token'' then Inr (refreshed recorded act)
                 else if grant = JStr ''authorization_code'' then code_issued txt st tok act
                 else if grant = JStr ''client_credentials'' then Inr (client_issued st act)
                 else Inr (Not_evaluated, ''grant type not covered''))))))"

section \<open>main\<close>

definition issuance_text :: "issuance \<Rightarrow> string" where
  "issuance_text v = (case v of Graded g \<Rightarrow> grade_text g | Not_evaluated \<Rightarrow> ''not-evaluated'')"

definition expected_at :: "(string \<times> string) list \<Rightarrow> string \<Rightarrow> py_error + string" where
  "expected_at m txt = (case map_of m txt of None \<Rightarrow> Inl Key_error | Some s \<Rightarrow> Inr s)"

definition issuance_ok :: "string \<Rightarrow> issuance_case \<Rightarrow> py_error + bool" where
  "issuance_ok txt c =
     bind_sum (check_issuance c txt) (\<lambda>(v, rule). bind_sum (expected_at (ic_expect c) txt) (\<lambda>want.
       if issuance_text v \<noteq> want then Inr False
       else bind_sum (expected_at (ic_expect_rule c) txt) (\<lambda>r. Inr (takeWhile (\<lambda>x. x \<noteq> CHR '' '') rule = r))))"

definition issuance_main :: "issuance_case list \<Rightarrow> string \<Rightarrow> py_error + nat" where
  "issuance_main cs txt = bind_sum (traverse (issuance_ok txt) cs) (\<lambda>bs. Inr (if list_all id bs then 0 else 1))"

section \<open>What a conformant issuance rests on\<close>

lemma well_formed_acts: "malformed_act xs = None \<longleftrightarrow>
    list_all (\<lambda>x. has_key x ''sub'' \<and> has_key x ''iss'' \<and> \<not> has_key x ''client_profile'') xs"
  by (induction xs) auto

text \<open>The grounds of an actor claim: the recorded chain carried over by a refresh, or a basis of the server that is no shared
  registration, covers the subject and names the actor.\<close>

definition grounded :: "pydict \<Rightarrow> pydict \<Rightarrow> pyval \<Rightarrow> bool" where
  "grounded req st tok \<longleftrightarrow>
     (let act = get tok ''act''; recorded = get (JObj st) ''recorded_act''; b = get (JObj st) ''delegation_basis'' in
      (get (JObj req) ''grant_type'' = JStr ''refresh_token'' \<and> py_true recorded \<and> py_eq act recorded)
      \<or> (get (JObj req) ''grant_type'' = JStr ''authorization_code''
         \<and> \<not> (get b ''kind'' = JStr ''registration'' \<and> falsy (get b ''registration_unique''))
         \<and> py_eq (get b ''covers_sub'') (get tok ''sub'')
         \<and> py_eq (get act ''iss'') (get (get b ''actor'') ''iss'') \<and> py_eq (get act ''sub'') (get (get b ''actor'') ''sub'')))"

lemma unshared_basis: "shared_registration b = Inr False \<Longrightarrow> \<not> (get b ''kind'' = JStr ''registration'' \<and> falsy (get b ''registration_unique''))"
  by (auto simp: shared_registration_def mget_def mget_or_def get_no_key split: if_splits)

lemma actor_grounded:
  assumes "actor_from_basis act b = Inr True"
  shows "py_eq (get act ''iss'') (get (get b ''actor'') ''iss'') \<and> py_eq (get act ''sub'') (get (get b ''actor'') ''sub'')"
proof -
  have sub: "subscript d k = Inr v \<Longrightarrow> get d k = v" for d :: pyval and k v
    by (auto simp: subscript_def get_def split: if_splits option.splits)
  show ?thesis using assms by (auto simp: actor_from_basis_def mget_def split: if_splits dest!: sub)
qed

lemma code_grounded:
  assumes "code_issued txt st tok act = Inr (Graded Conformant, r)" and "act \<noteq> JNull"
  obtains "shared_registration (get (JObj st) ''delegation_basis'') = Inr False"
    "py_eq (get (get (JObj st) ''delegation_basis'') ''covers_sub'') (get tok ''sub'')"
    "actor_from_basis act (get (JObj st) ''delegation_basis'') = Inr True"
  using assms by (auto simp: code_issued_def basis_holds_def mget_def Let_def split: if_splits)

text \<open>C38: a conformant actor claim is grounded. When the checker calls an issued token with an actor claim conformant, under
  either text, every nested actor object names its subject and issuer and carries no client profile, and the
  claim is the chain the server recorded, on a refresh, or the actor of a delegation basis that covers the
  token's subject and is no shared registration, on an authorization code.\<close>

theorem conformant_actor_grounded:
  assumes "check_issuance c txt = Inr (Graded Conformant, r)"
    and "get (JObj (ic_outcome c)) ''issued'' = tok" and "get tok ''act'' \<noteq> JNull" and "\<not> has_key (JObj (ic_outcome c)) ''error''"
  shows "list_all (\<lambda>x. has_key x ''sub'' \<and> has_key x ''iss'' \<and> \<not> has_key x ''client_profile'') (act_objects (get tok ''act''))
    \<and> grounded (ic_request c) (ic_as_state c) tok"
proof -
  let ?st = "ic_as_state c"
  have sub: "subscript d k = Inr v \<Longrightarrow> get d k = v" for d :: pyval and k v
    by (auto simp: subscript_def get_def split: if_splits option.splits)
  obtain grant where g: "get (JObj (ic_request c)) ''grant_type'' = grant" by simp
  have m: "malformed_act (act_objects (get tok ''act'')) = None"
    and v: "(grant = JStr ''refresh_token'' \<and> refreshed (get (JObj ?st) ''recorded_act'') (get tok ''act'') = (Graded Conformant, r))
      \<or> (grant = JStr ''authorization_code'' \<and> code_issued txt ?st tok (get tok ''act'') = Inr (Graded Conformant, r))
      \<or> client_issued ?st (get tok ''act'') = (Graded Conformant, r)"
    using assms g by (auto simp: check_issuance_def mget_def Let_def split: if_splits option.splits dest!: sub)
  have "client_issued ?st (get tok ''act'') \<noteq> (Graded Conformant, r)" using assms(3) by (simp add: client_issued_def)
  with v have "grounded (ic_request c) ?st tok"
    using assms(3) g
    by (auto simp: grounded_def refreshed_def py_true_def Let_def actor_grounded dest: unshared_basis elim!: code_grounded split: if_splits)
  then show ?thesis using m well_formed_acts by blast
qed

text \<open>The two texts differ on one outcome only: what the first leaves open the second refuses.\<close>

lemma texts_agree:
  "check_issuance c ''-01+pr32'' =
     bind_sum (check_issuance c ''-01'') (\<lambda>(v, r).
       Inr (if v = Graded Ambiguous then (Graded Nonconformant, ''R-5.2-basis / R-3.5-iff (basis present, act missing)'') else (v, r)))"
proof -
  have "code_issued ''-01+pr32'' st tok act = bind_sum (code_issued ''-01'' st tok act) (\<lambda>(v, r).
       Inr (if v = Graded Ambiguous then (Graded Nonconformant, ''R-5.2-basis / R-3.5-iff (basis present, act missing)'') else (v, r)))"
    for st tok act
    by (cases "if falsy (get (JObj st) ''delegation_basis'') then Inr False else shared_registration (get (JObj st) ''delegation_basis'')";
        cases "mget tok ''sub''"; cases "basis_holds st (get tok ''sub'')"; cases "actor_from_basis act (get (JObj st) ''delegation_basis'')")
      (auto simp: code_issued_def Let_def mget_def split: if_splits)
  then show ?thesis
    by (cases "subscript (JObj (ic_request c)) ''grant_type''"; cases "subscript (JObj (ic_outcome c)) ''issued''")
      (auto simp: check_issuance_def Let_def mget_def rejection_def refreshed_def client_issued_def split: option.splits)
qed

definition sample_issuance :: issuance_case where
  "sample_issuance =
     \<lparr>ic_request = [(''grant_type'', JStr ''authorization_code'')],
      ic_as_state = [(''delegation_basis'', JObj [(''kind'', JStr ''consent''), (''covers_sub'', JStr ''alice''),
        (''actor'', JObj [(''iss'', JStr ''as''), (''sub'', JStr ''agent'')])])],
      ic_outcome = [(''issued'', JObj [(''sub'', JStr ''alice''), (''act'', JObj [(''iss'', JStr ''as''), (''sub'', JStr ''agent'')])])],
      ic_expect = [], ic_expect_rule = []\<rparr>"

theorem conformant_actor_grounded_witness:
  "check_issuance sample_issuance ''-01'' = Inr (Graded Conformant, ''R-5.2-basis'')
    \<and> grounded (ic_request sample_issuance) (ic_as_state sample_issuance)
        (JObj [(''sub'', JStr ''alice''), (''act'', JObj [(''iss'', JStr ''as''), (''sub'', JStr ''agent'')])])"
proof -
  have c: "check_issuance sample_issuance ''-01'' = Inr (Graded Conformant, ''R-5.2-basis'')" by code_simp
  from conformant_actor_grounded [OF c refl] c show ?thesis by (simp add: sample_issuance_def get_def has_key_def)
qed

end
