(* ===== verification/Asor.thy ===== *)
theory Asor
  imports Codec Python_Values Attenuation
begin

text \<open>
  \<open>interop/attenu-guard-0.6.1/cleanroom/verify_asor00.py\<close>: the clean-room verifier of an agent delegation
  chain of signed tokens, root first, with the five steps its vectors cover: signatures, links by the digest
  of the parent, depths, authority that does not widen, and lifetimes. The verdict is the reason text.
  Parameters: HMAC-SHA256, SHA-256 and \<open>json.loads\<close>.
\<close>

record asor_lib =
  zl_hmac :: "byte list \<Rightarrow> byte list \<Rightarrow> byte list"
  zl_sha256 :: "byte list \<Rightarrow> byte list"
  zl_loads :: "byte list \<Rightarrow> pyval option"

record signer =
  sg_alg :: string
  sg_secret :: string

definition ascii_text :: "string \<Rightarrow> bool" where
  "ascii_text s = list_all (\<lambda>c. of_char c < (128 :: nat)) s"

section \<open>Tokens\<close>

definition b64d :: "string \<Rightarrow> py_error + byte list" where
  "b64d s =
     (if \<not> ascii_text s then Inl Value_error
      else case b64u_decode (cps s) of None \<Rightarrow> Inl Value_error | Some b \<Rightarrow> Inr b)"

definition loads_bytes :: "asor_lib \<Rightarrow> byte list \<Rightarrow> py_error + pyval" where
  "loads_bytes lib b = (case zl_loads lib b of None \<Rightarrow> Inl Value_error | Some v \<Rightarrow> Inr v)"

text \<open>\<open>parts\<close>: the two signed segments, what they decode to, and the signature\<close>

definition token_parts :: "asor_lib \<Rightarrow> string \<Rightarrow> py_error + (string \<times> string) \<times> pyval \<times> pyval \<times> byte list" where
  "token_parts lib tok =
     (case split_on (CHR ''.'') tok of
        [h, p, s] \<Rightarrow>
          bind_sum (bind_sum (b64d h) (loads_bytes lib)) (\<lambda>hd.
          bind_sum (bind_sum (b64d p) (loads_bytes lib)) (\<lambda>pl.
          bind_sum (b64d s) (\<lambda>sig. Inr ((h, p), hd, pl, sig))))
      | _ \<Rightarrow> Inl Value_error)"

definition signing_input :: "string \<times> string \<Rightarrow> byte list" where
  "signing_input hp = cps (fst hp @ ''.'' @ snd hp)"

definition mac_ok :: "asor_lib \<Rightarrow> string \<times> string \<Rightarrow> byte list \<Rightarrow> byte list \<Rightarrow> bool" where
  "mac_ok lib hp sig secret = (zl_hmac lib secret (signing_input hp) = sig)"

type_synonym parsed = "(string \<times> string) \<times> pyval"

text \<open>Step 1: the tokens are read and authenticated one by one; \<open>None\<close> is \<open>signature_invalid\<close>.\<close>

fun read_tokens :: "asor_lib \<Rightarrow> signer \<Rightarrow> byte list \<Rightarrow> string list \<Rightarrow> py_error + parsed list option" where
  "read_tokens lib sg secret [] = Inr (Some [])"
| "read_tokens lib sg secret (t # ts) =
     bind_sum (token_parts lib t) (\<lambda>(hp, hd, pl, sig).
     bind_sum (mget hd ''alg'') (\<lambda>alg.
       if alg \<noteq> JStr (sg_alg sg) \<or> \<not> mac_ok lib hp sig secret then Inr None
       else bind_sum (read_tokens lib sg secret ts) (\<lambda>r. Inr (map_option ((#) (hp, pl)) r))))"

section \<open>Links and depths\<close>

text \<open>\<open>hmac.compare_digest\<close> of a text with a value: only ASCII texts compare.\<close>

definition compare_digest :: "string \<Rightarrow> pyval \<Rightarrow> py_error + bool" where
  "compare_digest want v =
     (case v of JStr s \<Rightarrow> if ascii_text s then Inr (want = s) else Inl Type_error | _ \<Rightarrow> Inl Type_error)"

definition par_hash :: "asor_lib \<Rightarrow> string \<times> string \<Rightarrow> string" where
  "par_hash lib hp = ascii (b64u_encode (zl_sha256 lib (signing_input hp)))"

fun parents_hashed :: "asor_lib \<Rightarrow> parsed list \<Rightarrow> py_error + bool" where
  "parents_hashed lib (p # c # rest) =
     bind_sum (mget_or (snd c) ''par_hash'' (JStr [])) (\<lambda>v.
     bind_sum (compare_digest (par_hash lib (fst p)) v) (\<lambda>ok.
       if ok then parents_hashed lib (c # rest) else Inr False))"
| "parents_hashed lib _ = Inr True"

definition depth_is :: "nat \<times> parsed \<Rightarrow> py_error + bool" where
  "depth_is ip = bind_sum (mget (snd (snd ip)) ''del_depth'') (\<lambda>d. Inr (py_eq d (JInt (int (fst ip)))))"

text \<open>Step 3: the root is at depth 0 and states a bound, token \<open>i\<close> is at depth \<open>i\<close>, and the last depth is below the bound.\<close>

definition depths_ok :: "parsed list \<Rightarrow> py_error + bool" where
  "depths_ok ps =
     (case ps of
        [] \<Rightarrow> Inl Index_error
      | first # _ \<Rightarrow>
          bind_sum (depth_is (0, first)) (\<lambda>at_root.
            if \<not> at_root \<or> \<not> has_key (snd first) ''del_max_depth'' then Inr False
            else
              bind_sum (all_of depth_is (enumerate_from 0 ps)) (\<lambda>ok.
                if \<not> ok then Inr False
                else bind_sum (subscript (snd first) ''del_max_depth'') (\<lambda>bound. py_gt bound (JInt (int (length ps - 1)))))))"

section \<open>Authority\<close>

definition rank_of :: "pyval \<Rightarrow> nat option" where
  "rank_of v = (if v = JStr ''none'' then Some 0 else if v = JStr ''internal'' then Some 1 else if v = JStr ''any'' then Some 2 else None)"

text \<open>\<open>v in RANK\<close>\<close>

definition ranked :: "pyval \<Rightarrow> py_error + bool" where
  "ranked v = (if hashable v then Inr (rank_of v \<noteq> None) else Inl Type_error)"

definition included :: "pyval list \<Rightarrow> pyval list \<Rightarrow> bool" where
  "included xs ys = list_all (\<lambda>x. list_ex (py_eq x) ys) xs"

definition constraint_subsumed :: "pyval \<Rightarrow> pyval \<Rightarrow> py_error + bool" where
  "constraint_subsumed c p =
     (if has_key p ''max'' then
        (if \<not> has_key c ''max'' \<or> number (get c ''max'') = None then Inr False
         else bind_sum (py_gt (get c ''max'') (get p ''max'')) (\<lambda>above. Inr (\<not> above)))
      else if has_key p ''rank'' then
        (if \<not> has_key c ''rank'' then Inr False
         else and_also (ranked (get c ''rank'')) (and_also (ranked (get p ''rank''))
                (Inr (the (rank_of (get c ''rank'')) \<le> the (rank_of (get p ''rank''))))))
      else if has_key p ''one_of'' then
        (if \<not> has_key c ''one_of'' then Inr False
         else bind_sum (py_set (get c ''one_of'')) (\<lambda>a. bind_sum (py_set (get p ''one_of'')) (\<lambda>b. Inr (included a b))))
      else if has_key p ''not_one_of'' then
        (if \<not> has_key c ''not_one_of'' then Inr False
         else bind_sum (py_set (get c ''not_one_of'')) (\<lambda>a. bind_sum (py_set (get p ''not_one_of'')) (\<lambda>b. Inr (included b a))))
      else if has_key p ''prefix'' then
        (case (get c ''prefix'', get p ''prefix'') of
           (JStr s, JStr q) \<Rightarrow> Inr (prefix q s)
         | (JStr s, _) \<Rightarrow> Inl Type_error
         | _ \<Rightarrow> Inr False)
      else Inr False)"

text \<open>One parent scope against one child scope\<close>

definition scope_test :: "pyval \<Rightarrow> pyval \<Rightarrow> py_error + bool" where
  "scope_test sc ps =
     (if py_eq sc ps \<or> ps = JStr ''*'' then Inr True
      else case ps of
        JStr p \<Rightarrow>
          (if suffix ''.*'' p
           then (case sc of JStr s \<Rightarrow> Inr (prefix (butlast p) s) | _ \<Rightarrow> Inl Attribute_error)
           else Inr False)
      | _ \<Rightarrow> Inl Attribute_error)"

definition scope_covered :: "pyval \<Rightarrow> pyval \<Rightarrow> py_error + bool" where
  "scope_covered pscopes sc = bind_sum (py_iter pscopes) (any_of (scope_test sc))"

text \<open>\<open>{c["key"]: c for c in d.get("constraints", [])}\<close>\<close>

definition constraints_by_key :: "pyval \<Rightarrow> py_error + (pyval \<times> pyval) list" where
  "constraints_by_key d =
     bind_sum (bind_sum (mget_or d ''constraints'' (JArr [])) py_iter) (\<lambda>cs.
       loop (\<lambda>c m. bind_sum (subscript c ''key'') (\<lambda>k. dict_set k c m)) cs [])"

definition detail_covered :: "pyval \<Rightarrow> pyval \<Rightarrow> py_error + bool" where
  "detail_covered cd pd =
     bind_sum (mget_or pd ''scopes'' (JArr [])) (\<lambda>pscopes.
     bind_sum (bind_sum (mget_or cd ''scopes'' (JArr [])) py_iter) (\<lambda>scs.
     bind_sum (all_of (scope_covered pscopes) scs) (\<lambda>ok.
       if \<not> ok then Inr False
       else
         bind_sum (constraints_by_key pd) (\<lambda>pcons. bind_sum (constraints_by_key cd) (\<lambda>ccons.
           all_of (\<lambda>(k, pc). bind_sum (dict_get ccons k) (\<lambda>found.
             case found of None \<Rightarrow> Inr False | Some cc \<Rightarrow> constraint_subsumed cc pc)) pcons)))))"

definition same_type :: "pyval \<Rightarrow> pyval \<Rightarrow> py_error + bool" where
  "same_type cd pd = bind_sum (mget pd ''type'') (\<lambda>a. bind_sum (mget cd ''type'') (\<lambda>b. Inr (py_eq a b)))"

definition homes :: "pyval \<Rightarrow> pyval list \<Rightarrow> py_error + pyval list" where
  "homes cd pds = bind_sum (traverse (same_type cd) pds) (\<lambda>bs. Inr (map fst (filter snd (zip pds bs))))"

definition authority_subsumed :: "pyval \<Rightarrow> pyval \<Rightarrow> py_error + bool" where
  "authority_subsumed child parent =
     bind_sum (py_iter child) (all_of (\<lambda>cd.
       bind_sum (bind_sum (py_iter parent) (homes cd)) (any_of (detail_covered cd))))"

definition details :: "pyval \<Rightarrow> py_error + pyval" where
  "details pl = mget_or pl ''authorization_details'' (JArr [])"

text \<open>Step 4\<close>

fun narrowing :: "pyval list \<Rightarrow> py_error + bool" where
  "narrowing (p # c # rest) =
     bind_sum (details c) (\<lambda>cd. bind_sum (details p) (\<lambda>pd. bind_sum (authority_subsumed cd pd) (\<lambda>ok.
       if ok then narrowing (c # rest) else Inr False)))"
| "narrowing _ = Inr True"

section \<open>Lifetimes\<close>

text \<open>Step 5; \<open>prev\<close> is the expiry of the parent\<close>

fun within_lifetime :: "int \<Rightarrow> pyval option \<Rightarrow> pyval list \<Rightarrow> py_error + bool" where
  "within_lifetime now prev [] = Inr True"
| "within_lifetime now prev (pl # pls) =
     bind_sum (if has_key pl ''nbf'' then py_gt (get pl ''nbf'') (JInt now) else Inr False) (\<lambda>early.
       if early then Inr False
       else
         bind_sum (subscript pl ''exp'') (\<lambda>e. bind_sum (py_gt (JInt now) e) (\<lambda>late.
           if late then Inr False
           else
             bind_sum (case prev of None \<Rightarrow> Inr False | Some p \<Rightarrow> py_gt e p) (\<lambda>longer.
               if longer then Inr False else within_lifetime now (Some e) pls))))"

section \<open>The verifier\<close>

definition asor_steps :: "asor_lib \<Rightarrow> int \<Rightarrow> parsed list \<Rightarrow> py_error + string" where
  "asor_steps lib now ps =
     bind_sum (parents_hashed lib ps) (\<lambda>ok. if \<not> ok then Inr ''par_hash_mismatch'' else
     bind_sum (depths_ok ps) (\<lambda>ok. if \<not> ok then Inr ''depth_invalid'' else
     bind_sum (narrowing (map snd ps)) (\<lambda>ok. if \<not> ok then Inr ''not_narrower'' else
     bind_sum (within_lifetime now None (map snd ps)) (\<lambda>ok. Inr (if ok then ''accept'' else ''expired'')))))"

definition asor_verify :: "asor_lib \<Rightarrow> string list \<Rightarrow> signer \<Rightarrow> int \<Rightarrow> py_error + string" where
  "asor_verify lib tokens sg now =
     (case fromhex_chars (sg_secret sg) of
        None \<Rightarrow> Inl Value_error
      | Some secret \<Rightarrow>
          bind_sum (read_tokens lib sg secret tokens) (\<lambda>r.
            case r of None \<Rightarrow> Inr ''signature_invalid'' | Some ps \<Rightarrow> asor_steps lib now ps))"

text \<open>The script over the vectors: each with its tokens, signer and clock, and the verdict it names; the exit status\<close>

record asor_vector =
  zv_tokens :: "string list"
  zv_signer :: signer
  zv_now :: int
  zv_want :: pyval

definition asor_main :: "asor_lib \<Rightarrow> asor_vector list \<Rightarrow> py_error + nat" where
  "asor_main lib vs =
     bind_sum (traverse (\<lambda>v. asor_verify lib (zv_tokens v) (zv_signer v) (zv_now v)) vs) (\<lambda>got.
       Inr (if list_ex (\<lambda>(v, g). JStr g \<noteq> zv_want v) (zip vs got) then 1 else 0))"

end
