(* ===== verification/Asor_Checks.thy ===== *)
theory Asor_Checks
  imports Asor
begin

text \<open>
  What an accepted delegation chain establishes: the leaf's authority is within that of every token above it
  (through the locale of delegation hops), the leaf determines the chain, and lifetimes shrink. The authority
  of a token is given a meaning of its own: the requests it permits.
\<close>

section \<open>Requests\<close>

text \<open>A request names a type of authority and a scope, and gives values for the keys that constraints refer to.\<close>

record chain_request =
  rq_type :: string
  rq_scope :: string
  rq_values :: "(pyval \<times> pyval) list"

definition value_at :: "chain_request \<Rightarrow> pyval \<Rightarrow> pyval" where
  "value_at r k = (case find (\<lambda>(k', v). py_eq k k') (rq_values r) of Some (k', v) \<Rightarrow> v | None \<Rightarrow> JNull)"

definition in_values :: "pyval \<Rightarrow> pyval \<Rightarrow> bool" where
  "in_values v set_v = (case py_set set_v of Inr xs \<Rightarrow> list_ex (py_eq v) xs | Inl e \<Rightarrow> False)"

text \<open>A value meets a constraint when it meets every bound the constraint states.\<close>

definition meets :: "pyval \<Rightarrow> pyval \<Rightarrow> bool" where
  "meets c v \<longleftrightarrow>
     (has_key c ''max'' \<longrightarrow> number v \<noteq> None \<and> number (get c ''max'') \<noteq> None \<and> the (number v) \<le> the (number (get c ''max'')))
     \<and> (has_key c ''rank'' \<longrightarrow> rank_of v \<noteq> None \<and> rank_of (get c ''rank'') \<noteq> None \<and> the (rank_of v) \<le> the (rank_of (get c ''rank'')))
     \<and> (has_key c ''one_of'' \<longrightarrow> hashable v \<and> in_values v (get c ''one_of''))
     \<and> (has_key c ''not_one_of'' \<longrightarrow> hashable v \<and> \<not> in_values v (get c ''not_one_of''))
     \<and> (has_key c ''prefix'' \<longrightarrow> is_str v \<and> is_str (get c ''prefix'') \<and> prefix (str_of (get c ''prefix'')) (str_of v))"

definition listed_constraints :: "pyval \<Rightarrow> pyval list" where
  "listed_constraints d = (case bind_sum (mget_or d ''constraints'' (JArr [])) py_iter of Inr cs \<Rightarrow> cs | Inl e \<Rightarrow> [])"

definition scopes_in :: "pyval \<Rightarrow> pyval list" where
  "scopes_in d = (case bind_sum (mget_or d ''scopes'' (JArr [])) py_iter of Inr ss \<Rightarrow> ss | Inl e \<Rightarrow> [])"

text \<open>A detail permits a request of its type, within one of its scopes, that meets all of its constraints.\<close>

definition detail_permits :: "pyval \<Rightarrow> chain_request \<Rightarrow> bool" where
  "detail_permits d r \<longleftrightarrow>
     get d ''type'' = JStr (rq_type r)
     \<and> list_ex (\<lambda>s. scope_test (JStr (rq_scope r)) s = Inr True) (scopes_in d)
     \<and> list_all (\<lambda>c. meets c (value_at r (get c ''key''))) (listed_constraints d)"

definition entries :: "pyval \<Rightarrow> pyval list" where
  "entries ds = (case py_iter ds of Inr xs \<Rightarrow> xs | Inl e \<Rightarrow> [])"

definition authority_permits :: "pyval \<Rightarrow> chain_request \<Rightarrow> bool" where
  "authority_permits ds r = list_ex (\<lambda>d. detail_permits d r) (entries ds)"

text \<open>The profile the module assumes: a constraint carries one kind of bound, and a detail one constraint per key.\<close>

definition KINDS :: "string list" where
  "KINDS = [''max'', ''rank'', ''one_of'', ''not_one_of'', ''prefix'']"

definition one_kind :: "pyval \<Rightarrow> bool" where
  "one_kind c = (length (filter (has_key c) KINDS) \<le> 1)"

fun distinct_keys :: "pyval list \<Rightarrow> bool" where
  "distinct_keys [] \<longleftrightarrow> True"
| "distinct_keys (c # cs) \<longleftrightarrow> list_all (\<lambda>c'. \<not> py_eq (get c' ''key'') (get c ''key'')) cs \<and> distinct_keys cs"

definition in_profile :: "pyval \<Rightarrow> bool" where
  "in_profile ds = list_all (\<lambda>d. list_all one_kind (listed_constraints d) \<and> distinct_keys (listed_constraints d)) (entries ds)"

section \<open>One constraint\<close>

lemma py_eq_trans:
  assumes "py_eq a b" "hashable a" "hashable b"
  shows "py_eq a c \<longleftrightarrow> py_eq b c"
  using assms by (cases a; cases b; cases c) (auto simp: hashable_def split: if_splits)

lemma py_eq_hashable:
  assumes "py_eq a b" "hashable a"
  shows "hashable b"
  using assms by (cases a; cases b) (auto simp: hashable_def)

lemma py_eq_sym:
  assumes "hashable a"
  shows "py_eq a b \<longleftrightarrow> py_eq b a"
  using assms by (cases a; cases b) (auto simp: hashable_def)

lemma py_set_hashable: "py_set v = Inr xs \<Longrightarrow> list_all hashable xs"
  by (auto simp: py_set_def split: if_splits)

lemma included_values:
  assumes "included a b" "list_all hashable a" "list_all hashable b" "hashable v" "list_ex (py_eq v) a"
  shows "list_ex (py_eq v) b"
proof -
  obtain x where x: "x \<in> set a" "py_eq v x" using assms(5) by (auto simp: list_ex_iff)
  then obtain y where y: "y \<in> set b" "py_eq x y" using assms(1) by (auto simp: included_def list_all_iff list_ex_iff)
  have "py_eq v y" using py_eq_trans [OF x(2), of y] y assms(2,4) x(1) by (auto simp: list_all_iff)
  then show ?thesis using y by (auto simp: list_ex_iff)
qed

lemma subsumed_meets:
  assumes "constraint_subsumed c p = Inr True" "one_kind p" "meets c v"
  shows "meets p v"
proof -
  have gt: "py_gt a b = Inr False \<Longrightarrow> number a = Some x \<Longrightarrow> \<exists>y. number b = Some y \<and> x \<le> y" for a b x
    by (cases a; cases b) auto
  consider (max) "has_key p ''max''" | (rank) "\<not> has_key p ''max''" "has_key p ''rank''"
    | (one) "\<not> has_key p ''max''" "\<not> has_key p ''rank''" "has_key p ''one_of''"
    | (no) "\<not> has_key p ''max''" "\<not> has_key p ''rank''" "\<not> has_key p ''one_of''" "has_key p ''not_one_of''"
    | (pre) "\<not> has_key p ''max''" "\<not> has_key p ''rank''" "\<not> has_key p ''one_of''" "\<not> has_key p ''not_one_of''" "has_key p ''prefix''"
    using assms(1) by (auto simp: constraint_subsumed_def split: if_splits)
  then show ?thesis
  proof cases
    case max
    then have c: "has_key c ''max''" "number (get c ''max'') \<noteq> None" "py_gt (get c ''max'') (get p ''max'') = Inr False"
      using assms(1) by (auto simp: constraint_subsumed_def split: if_splits)
    obtain x where x: "number (get c ''max'') = Some x" using c(2) by blast
    from gt [OF c(3) x] assms(3) c(1) x have "number v \<noteq> None \<and> number (get p ''max'') \<noteq> None
      \<and> the (number v) \<le> the (number (get p ''max''))" by (auto simp: meets_def)
    then show ?thesis using max assms(2) by (auto simp: meets_def one_kind_def KINDS_def split: if_splits)
  next
    case rank
    then show ?thesis using assms by (auto simp: constraint_subsumed_def ranked_def meets_def one_kind_def KINDS_def split: if_splits)
  next
    case one
    then obtain a b where s: "has_key c ''one_of''" "py_set (get c ''one_of'') = Inr a" "py_set (get p ''one_of'') = Inr b" "included a b"
      using assms(1) by (auto simp: constraint_subsumed_def split: if_splits)
    have "hashable v" "list_ex (py_eq v) a" using assms(3) s by (auto simp: meets_def in_values_def)
    then have "list_ex (py_eq v) b" using included_values [OF s(4)] s(2,3) py_set_hashable by blast
    then show ?thesis using one assms(2) s \<open>hashable v\<close>
      by (auto simp: meets_def in_values_def one_kind_def KINDS_def split: if_splits)
  next
    case no
    then obtain a b where s: "has_key c ''not_one_of''" "py_set (get c ''not_one_of'') = Inr a" "py_set (get p ''not_one_of'') = Inr b" "included b a"
      using assms(1) by (auto simp: constraint_subsumed_def split: if_splits)
    have "hashable v" "\<not> list_ex (py_eq v) a" using assms(3) s by (auto simp: meets_def in_values_def)
    then have "\<not> list_ex (py_eq v) b" using included_values [OF s(4)] s(2,3) py_set_hashable by blast
    then show ?thesis using no assms(2) s \<open>hashable v\<close>
      by (auto simp: meets_def in_values_def one_kind_def KINDS_def split: if_splits)
  next
    case pre
    then obtain s q where s: "get c ''prefix'' = JStr s" "get p ''prefix'' = JStr q" "prefix q s"
      using assms(1) by (auto simp: constraint_subsumed_def split: if_splits json.splits)
    have "has_key c ''prefix''" using s(1) get_not_null(2) [of c "''prefix''"] by simp
    then show ?thesis using pre s assms(2,3)
      by (auto simp: meets_def one_kind_def KINDS_def split: if_splits intro: prefix_order.trans)
  qed
qed

section \<open>Constraints by key\<close>

lemma dict_put_in: "(k', v') \<in> set (dict_put k v m) \<Longrightarrow> v' = v \<and> py_eq k k' \<or> v' = v \<and> k' = k \<or> (k', v') \<in> set m"
  by (induction m) (auto split: if_splits)

text \<open>Every entry of the dictionary is a constraint of the list, under a key equal to its own.\<close>

lemma loop_keys:
  assumes "loop (\<lambda>c m. bind_sum (subscript c ''key'') (\<lambda>k. dict_set k c m)) cs m = Inr m'"
    and "list_all (\<lambda>(k, c). c \<in> S \<and> hashable k \<and> hashable (get c ''key'') \<and> py_eq (get c ''key'') k) m" and "set cs \<subseteq> S"
  shows "list_all (\<lambda>(k, c). c \<in> S \<and> hashable k \<and> hashable (get c ''key'') \<and> py_eq (get c ''key'') k) m'"
  using assms
proof (induction cs arbitrary: m)
  case (Cons c cs)
  obtain k where k: "subscript c ''key'' = Inr k" "hashable k"
    "loop (\<lambda>c m. bind_sum (subscript c ''key'') (\<lambda>k. dict_set k c m)) cs (dict_put k c m) = Inr m'"
    using Cons.prems(1) by (auto simp: dict_set_def split: if_splits)
  have g: "get c ''key'' = k" using k(1) by (auto simp: subscript_def get_def split: if_splits option.splits)
  have "py_eq k k" using k(2) by (cases k) (auto simp: hashable_def)
  then have "list_all (\<lambda>(k, c). c \<in> S \<and> hashable k \<and> hashable (get c ''key'') \<and> py_eq (get c ''key'') k) (dict_put k c m)"
    using Cons.prems(2,3) k(2) g py_eq_hashable unfolding list_all_iff by (fastforce dest!: dict_put_in)
  then show ?case using Cons.IH [OF k(3)] Cons.prems(3) by simp
qed simp

lemma dict_put_new: "list_all (\<lambda>(k', v'). \<not> py_eq k k') m \<Longrightarrow> dict_put k v m = m @ [(k, v)]"
  by (induction m) auto

text \<open>With distinct keys nothing is overwritten.\<close>

lemma loop_distinct:
  assumes "loop (\<lambda>c m. bind_sum (subscript c ''key'') (\<lambda>k. dict_set k c m)) cs m = Inr m'"
    and "distinct_keys cs" "list_all (\<lambda>c. list_all (\<lambda>(k, v). \<not> py_eq (get c ''key'') k) m) cs"
  shows "m' = m @ map (\<lambda>c. (get c ''key'', c)) cs"
  using assms
proof (induction cs arbitrary: m)
  case (Cons c cs)
  obtain k where k: "subscript c ''key'' = Inr k" "hashable k"
    "loop (\<lambda>c m. bind_sum (subscript c ''key'') (\<lambda>k. dict_set k c m)) cs (dict_put k c m) = Inr m'"
    using Cons.prems(1) by (auto simp: dict_set_def split: if_splits)
  have g: "get c ''key'' = k" using k(1) by (auto simp: subscript_def get_def split: if_splits option.splits)
  have put: "dict_put k c m = m @ [(k, c)]" using Cons.prems(3) g by (intro dict_put_new) simp
  show ?case using Cons.IH [of "m @ [(k, c)]"] k(3) put Cons.prems(2,3) g by (auto simp: list_all_iff)
qed simp

lemma by_key_loop: "constraints_by_key d = Inr m \<Longrightarrow>
    loop (\<lambda>c m. bind_sum (subscript c ''key'') (\<lambda>k. dict_set k c m)) (listed_constraints d) [] = Inr m"
  by (auto simp: constraints_by_key_def listed_constraints_def)

lemma by_key_in: "constraints_by_key d = Inr m \<Longrightarrow> (k, c) \<in> set m \<Longrightarrow>
    c \<in> set (listed_constraints d) \<and> hashable k \<and> hashable (get c ''key'') \<and> py_eq (get c ''key'') k"
  using loop_keys [OF by_key_loop, of d m "set (listed_constraints d)"] by (auto simp: list_all_iff)

lemma by_key_all: "constraints_by_key d = Inr m \<Longrightarrow> distinct_keys (listed_constraints d) \<Longrightarrow> c \<in> set (listed_constraints d) \<Longrightarrow>
    (get c ''key'', c) \<in> set m"
  using loop_distinct [OF by_key_loop, of d m] by (auto simp: list_all_iff)

lemma value_at_cong:
  assumes "py_eq a b" "hashable a" "hashable b"
  shows "value_at r a = value_at r b"
proof -
  have "py_eq a = py_eq b" using py_eq_trans [OF assms] by blast
  then show ?thesis by (simp add: value_at_def)
qed

section \<open>Scopes\<close>

lemma scope_test_JStr: "scope_test (JStr s) v = Inr True \<longleftrightarrow>
    (\<exists>p. v = JStr p \<and> (p = s \<or> p = ''*'' \<or> (\<exists>q. p = q @ ''.*'' \<and> prefix (q @ ''.'') s)))"
  by (cases v) (auto simp: scope_test_def suffix_def butlast_append split: if_splits)

lemma scope_test_trans:
  assumes "scope_test (JStr s) c = Inr True" and "scope_test c p = Inr True"
  shows "scope_test (JStr s) p = Inr True"
proof -
  obtain t where t: "c = JStr t" using assms(1) scope_test_JStr by blast
  obtain w where w: "p = JStr w" using assms(2) scope_test_JStr t by blast
  have step: "prefix (u @ ''.'') s" if "prefix (u @ ''.'') (q @ ''.*'')" and "prefix (q @ ''.'') s" for u q
  proof -
    have "prefix (u @ ''.'') ((q @ ''.'') @ ''*'')" using that(1) by simp
    then have "prefix (u @ ''.'') (q @ ''.'')" unfolding prefix_snoc by auto
    then show ?thesis using that(2) prefix_order.trans by blast
  qed
  have star: "\<not> prefix (u @ ''.'') ''*''" for u by (cases u) (auto simp: prefix_Cons)
  show ?thesis using assms step star unfolding t w scope_test_JStr by blast
qed

section \<open>One detail and one token\<close>

lemma detail_covered_facts:
  assumes "detail_covered cd pd = Inr True"
  shows "s \<in> set (scopes_in cd) \<Longrightarrow> \<exists>p\<in>set (scopes_in pd). scope_test s p = Inr True"
    and "\<exists>pm cm. constraints_by_key pd = Inr pm \<and> constraints_by_key cd = Inr cm
      \<and> (\<forall>(k, pc)\<in>set pm. \<exists>k' cc. (k', cc) \<in> set cm \<and> py_eq k k' \<and> constraint_subsumed cc pc = Inr True)"
proof -
  obtain ps ss pm cm where f: "mget_or pd ''scopes'' (JArr []) = Inr ps" "bind_sum (mget_or cd ''scopes'' (JArr [])) py_iter = Inr ss"
    "all_of (scope_covered ps) ss = Inr True" "constraints_by_key pd = Inr pm" "constraints_by_key cd = Inr cm"
    and cons: "all_of (\<lambda>(k, pc). bind_sum (dict_get cm k) (\<lambda>found.
             case found of None \<Rightarrow> Inr False | Some cc \<Rightarrow> constraint_subsumed cc pc)) pm = Inr True"
    using assms by (auto simp: detail_covered_def split: if_splits)
  { assume "s \<in> set (scopes_in cd)"
    then have "scope_covered ps s = Inr True" using f(2,3) by (simp add: scopes_in_def all_of_True)
    then show "\<exists>p\<in>set (scopes_in pd). scope_test s p = Inr True"
      using f(1) any_of_True [of "scope_test s"] by (fastforce simp: scope_covered_def scopes_in_def) }
  have "\<exists>k' cc. (k', cc) \<in> set cm \<and> py_eq k k' \<and> constraint_subsumed cc pc = Inr True" if "(k, pc) \<in> set pm" for k pc
    using cons that unfolding all_of_True
    by (fastforce simp: dict_get_def split: option.splits if_splits dest: find_Some_in)
  then show "\<exists>pm cm. constraints_by_key pd = Inr pm \<and> constraints_by_key cd = Inr cm
      \<and> (\<forall>(k, pc)\<in>set pm. \<exists>k' cc. (k', cc) \<in> set cm \<and> py_eq k k' \<and> constraint_subsumed cc pc = Inr True)"
    using f(4,5) by blast
qed

lemma detail_keeps:
  assumes "detail_covered cd pd = Inr True" and "same_type cd pd = Inr True"
    and "list_all one_kind (listed_constraints pd)" "distinct_keys (listed_constraints pd)" and "detail_permits cd r"
  shows "detail_permits pd r"
proof -
  have "get pd ''type'' = JStr (rq_type r)"
    using assms(2,5) by (auto simp: same_type_def mget_def detail_permits_def split: if_splits)
  moreover have "list_ex (\<lambda>s. scope_test (JStr (rq_scope r)) s = Inr True) (scopes_in pd)"
    using assms(5) detail_covered_facts(1) [OF assms(1)] scope_test_trans
    by (fastforce simp: detail_permits_def list_ex_iff)
  moreover have "meets p (value_at r (get p ''key''))" if p: "p \<in> set (listed_constraints pd)" for p
  proof -
    obtain pm cm where m: "constraints_by_key pd = Inr pm" "constraints_by_key cd = Inr cm"
      "\<forall>(k, pc)\<in>set pm. \<exists>k' cc. (k', cc) \<in> set cm \<and> py_eq k k' \<and> constraint_subsumed cc pc = Inr True"
      using detail_covered_facts(2) [OF assms(1)] by blast
    have in_pm: "(get p ''key'', p) \<in> set pm" using by_key_all [OF m(1) assms(4) p] .
    then obtain k' c where c: "(k', c) \<in> set cm" "py_eq (get p ''key'') k'" "constraint_subsumed c p = Inr True"
      using m(3) by fastforce
    note ck = by_key_in [OF m(2) c(1)] and pk = by_key_in [OF m(1) in_pm]
    have "meets c (value_at r (get c ''key''))" using assms(5) ck by (auto simp: detail_permits_def list_all_iff)
    moreover have "value_at r (get c ''key'') = value_at r (get p ''key'')"
      using value_at_cong [of "get c ''key''" k'] value_at_cong [of "get p ''key''" k'] ck pk c(2) by simp
    moreover have "one_kind p" using assms(3) p by (simp add: list_all_iff)
    ultimately show ?thesis using subsumed_meets [OF c(3)] by simp
  qed
  ultimately show ?thesis by (simp add: detail_permits_def list_all_iff)
qed

definition narrower_authority :: "pyval \<Rightarrow> pyval \<Rightarrow> bool" where
  "narrower_authority c p \<longleftrightarrow> authority_subsumed c p = Inr True \<and> in_profile p"

interpretation asor: attenuation narrower_authority authority_permits
proof unfold_locales
  fix c p r
  assume n: "narrower_authority c p" and r: "authority_permits c r"
  obtain cd where cd: "cd \<in> set (entries c)" "detail_permits cd r" using r by (auto simp: authority_permits_def list_ex_iff)
  obtain cs where cs: "py_iter c = Inr cs" "cd \<in> set cs" using cd(1) by (cases "py_iter c") (auto simp: entries_def)
  then have "bind_sum (bind_sum (py_iter p) (homes cd)) (any_of (detail_covered cd)) = Inr True"
    using n by (auto simp: narrower_authority_def authority_subsumed_def all_of_True)
  then obtain ps bs where ps: "py_iter p = Inr ps" "traverse (same_type cd) ps = Inr bs"
    and a: "any_of (detail_covered cd) (map fst (filter snd (zip ps bs))) = Inr True"
    by (auto simp: homes_def)
  obtain pd where pd: "(pd, True) \<in> set (zip ps bs)" "detail_covered cd pd = Inr True" using any_of_True [OF a] by auto
  have "list_all2 (\<lambda>x b. same_type cd x = Inr b) ps bs" using ps(2) by (simp add: traverse_list_all2)
  then have ty: "same_type cd pd = Inr True" using pd(1) by (fastforce simp: list_all2_iff)
  have "pd \<in> set (entries p)" using pd(1) ps(1) by (auto simp: entries_def dest: set_zip_leftD)
  moreover from this have "detail_permits pd r"
    using detail_keeps [OF pd(2) ty _ _ cd(2)] n by (auto simp: narrower_authority_def in_profile_def list_all_iff)
  ultimately show "authority_permits p r" by (auto simp: authority_permits_def list_ex_iff)
qed

section \<open>An accepted chain\<close>

text \<open>A token that reads as its two signed segments and a payload, and whose signature verifies\<close>

definition authentic_token :: "asor_lib \<Rightarrow> signer \<Rightarrow> byte list \<Rightarrow> string \<Rightarrow> parsed \<Rightarrow> bool" where
  "authentic_token lib sg secret t p \<longleftrightarrow>
     (\<exists>hd sig. token_parts lib t = Inr (fst p, hd, snd p, sig) \<and> get hd ''alg'' = JStr (sg_alg sg) \<and> mac_ok lib (fst p) sig secret)"

lemma read_tokens_Some:
  "read_tokens lib sg secret ts = Inr (Some ps) \<longleftrightarrow> list_all2 (authentic_token lib sg secret) ts ps"
proof (induction ts arbitrary: ps)
  case (Cons t ts)
  have "read_tokens lib sg secret (t # ts) = Inr (Some ps) \<longleftrightarrow>
      (\<exists>p ps'. ps = p # ps' \<and> authentic_token lib sg secret t p \<and> read_tokens lib sg secret ts = Inr (Some ps'))"
    using get_not_null(1) [of _ "''alg''"] by (fastforce simp: authentic_token_def mget_def split: if_splits)
  then show ?case unfolding Cons.IH by (auto simp: list_all2_Cons1)
qed auto

lemma accepted:
  assumes "asor_verify lib ts sg now = Inr ''accept''"
  obtains secret ps where "fromhex_chars (sg_secret sg) = Some secret" "read_tokens lib sg secret ts = Inr (Some ps)"
    "parents_hashed lib ps = Inr True" "depths_ok ps = Inr True" "narrowing (map snd ps) = Inr True"
    "within_lifetime now None (map snd ps) = Inr True"
  using assms by (auto simp: asor_verify_def asor_steps_def split: option.splits if_splits)

text \<open>The payloads of a chain of tokens, and the authority of a payload\<close>

definition payloads :: "asor_lib \<Rightarrow> string list \<Rightarrow> py_error + pyval list" where
  "payloads lib = traverse (\<lambda>t. bind_sum (token_parts lib t) (\<lambda>(hp, hd, pl, sig). Inr pl))"

definition authority_of_payload :: "pyval \<Rightarrow> pyval" where
  "authority_of_payload pl = (case details pl of Inr a \<Rightarrow> a | Inl e \<Rightarrow> JArr [])"

lemma payloads_read:
  "read_tokens lib sg secret ts = Inr (Some ps) \<Longrightarrow> payloads lib ts = Inr (map snd ps)"
  unfolding read_tokens_Some
  by (induction ts ps rule: list_all2_induct) (auto simp: payloads_def authentic_token_def)

lemma narrowing_hops:
  "narrowing pls = Inr True \<Longrightarrow> list_all (in_profile \<circ> authority_of_payload) pls \<Longrightarrow>
     hops narrower_authority (map authority_of_payload pls)"
  by (induction pls rule: narrowing.induct)
    (auto simp: narrower_authority_def authority_of_payload_def split: if_splits)

lemma depths_nonempty: "depths_ok ps = Inr True \<Longrightarrow> ps \<noteq> []"
  by (auto simp: depths_ok_def)

text \<open>C24: an accepted chain bounds the authority of its leaf. If the verifier accepts the tokens and every constraint follows
  the profile the module assumes (one kind of bound each, one constraint per key), every request the leaf's
  authority details permit is permitted by every token of the chain, the root among them.\<close>

theorem accepted_chain_bounds_authority:
  assumes "asor_verify lib ts sg now = Inr ''accept''" and "payloads lib ts = Inr pls"
    and "list_all (in_profile \<circ> authority_of_payload) pls" and "authority_permits (authority_of_payload (last pls)) r"
  shows "list_all (\<lambda>pl. authority_permits (authority_of_payload pl) r) pls"
proof -
  obtain secret ps where a: "read_tokens lib sg secret ts = Inr (Some ps)" "depths_ok ps = Inr True" "narrowing (map snd ps) = Inr True"
    using assms(1) by (rule accepted)
  have p: "pls = map snd ps" "pls \<noteq> []" using payloads_read [OF a(1)] assms(2) depths_nonempty [OF a(2)] by auto
  have "hops narrower_authority (map authority_of_payload pls)" by (rule narrowing_hops) (use a(3) assms(3) p(1) in auto)
  from asor.hops_permit [OF this] show ?thesis using assms(4) p(2) by (auto simp: last_map list_all_iff)
qed

section \<open>The chain behind a leaf\<close>

lemma dot_free_inj: "x \<notin> set a \<Longrightarrow> x \<notin> set b \<Longrightarrow> a @ x # as = b @ x # bs \<Longrightarrow> a = b \<and> as = bs"
proof (induction a arbitrary: b)
  case Nil
  then show ?case by (cases b) auto
next
  case (Cons y a)
  then show ?case by (cases b) auto
qed

text \<open>The two segments a token's signature covers\<close>

definition signed_part :: "string \<Rightarrow> string \<times> string" where
  "signed_part t = (case split_on (CHR ''.'') t of [h, p, s] \<Rightarrow> (h, p) | _ \<Rightarrow> ([], []))"

lemma authentic_parts:
  assumes "authentic_token lib sg secret t p"
  shows "fst p = signed_part t" "CHR ''.'' \<notin> set (fst (fst p))"
    "bind_sum (b64d (snd (fst p))) (loads_bytes lib) = Inr (snd p)"
proof -
  obtain h q s where t: "split_on (CHR ''.'') t = [h, q, s]" and p: "fst p = (h, q)"
    "bind_sum (b64d q) (loads_bytes lib) = Inr (snd p)"
    using assms by (auto simp: authentic_token_def token_parts_def split: list.splits)
  have "CHR ''.'' \<notin> set h" using split_on_free [of h "CHR ''.''" t] by (simp add: t)
  then show "fst p = signed_part t" "CHR ''.'' \<notin> set (fst (fst p))"
    "bind_sum (b64d (snd (fst p))) (loads_bytes lib) = Inr (snd p)" using t p by (simp_all add: signed_part_def)
qed

lemma signed_parts: "list_all2 (authentic_token lib sg secret) ts ps \<Longrightarrow> map fst ps = map signed_part ts"
  by (induction ts ps rule: list_all2_induct) (simp_all only: list.map authentic_parts(1))

lemma signing_input_inj:
  assumes "signing_input a = signing_input b" "CHR ''.'' \<notin> set (fst a)" "CHR ''.'' \<notin> set (fst b)"
  shows "a = b"
proof -
  have "map (of_char :: char \<Rightarrow> nat) xs = map of_char ys \<Longrightarrow> xs = ys" for xs ys
    by (drule map_injective) (auto simp: inj_on_def)
  then have "fst a @ CHR ''.'' # snd a = fst b @ CHR ''.'' # snd b"
    using assms(1) by (fastforce simp: signing_input_def)
  from dot_free_inj [OF assms(2,3) this] show ?thesis by (simp add: prod_eq_iff)
qed

lemma par_hash_inj:
  assumes "par_hash lib a = par_hash lib b" and "\<And>m. list_all (\<lambda>x. x < 256) (zl_sha256 lib m)"
  shows "zl_sha256 lib (signing_input a) = zl_sha256 lib (signing_input b)"
proof -
  have "b64u_encode (zl_sha256 lib (signing_input a)) = b64u_encode (zl_sha256 lib (signing_input b))"
    using arg_cong [OF assms(1), of cps] unfolding par_hash_def b64u_text [OF assms(2)] .
  then show ?thesis using b64u_decode_encode [OF assms(2)] by (metis option.inject)
qed

definition hashes_parent :: "asor_lib \<Rightarrow> parsed \<Rightarrow> parsed \<Rightarrow> bool" where
  "hashes_parent lib c p \<longleftrightarrow> mget_or (snd c) ''par_hash'' (JStr []) = Inr (JStr (par_hash lib (fst p)))"

lemma parents_hashed_hops: "parents_hashed lib ps = Inr True \<Longrightarrow> hops (hashes_parent lib) ps"
  by (induction lib ps rule: parents_hashed.induct)
    (auto simp: hashes_parent_def compare_digest_def split: if_splits json.splits)

lemma last_enumerated: "xs \<noteq> [] \<Longrightarrow> (n + (length xs - 1), last xs) \<in> set (enumerate_from n xs)"
proof (induction xs arbitrary: n)
  case (Cons x xs)
  then show ?case using Cons.IH [of "Suc n"] by (cases xs) auto
qed simp

lemma last_depth:
  assumes "depths_ok ps = Inr True"
  shows "py_eq (get (snd (last ps)) ''del_depth'') (JInt (int (length ps - 1)))"
proof -
  have ne: "ps \<noteq> []" using assms by (rule depths_nonempty)
  then have "all_of depth_is (enumerate_from 0 ps) = Inr True"
    using assms by (cases ps) (auto simp: depths_ok_def split: if_splits)
  moreover have "(length ps - 1, last ps) \<in> set (enumerate_from 0 ps)"
    using last_enumerated [OF ne, of 0] by simp
  ultimately show ?thesis by (auto simp: all_of_True depth_is_def mget_def split: if_splits)
qed

lemma list_all2_lastD: "list_all2 P xs ys \<Longrightarrow> ys \<noteq> [] \<Longrightarrow> P (last xs) (last ys)"
  by (induction xs ys rule: list_all2_induct) auto

text \<open>C25: the leaf determines the chain. Two accepted chains with the same last token consist of the same signed
  segments, token by token, whoever signed them and whenever they were checked, unless SHA-256 collides on
  the segments of the two chains.\<close>

theorem leaf_determines_chain:
  assumes "asor_verify lib ts sg now = Inr ''accept''" and "asor_verify lib us sg' now' = Inr ''accept''" and "last ts = last us"
    and sha_bytes: "\<And>m. list_all (\<lambda>x. x < 256) (zl_sha256 lib m)"
    and no_collision: "\<And>t u. t \<in> set ts \<Longrightarrow> u \<in> set us \<Longrightarrow>
      zl_sha256 lib (signing_input (signed_part t)) = zl_sha256 lib (signing_input (signed_part u)) \<Longrightarrow>
      signing_input (signed_part t) = signing_input (signed_part u)"
  shows "map signed_part ts = map signed_part us"
proof -
  obtain k ps where p: "read_tokens lib sg k ts = Inr (Some ps)" "parents_hashed lib ps = Inr True" "depths_ok ps = Inr True"
    using assms(1) by (rule accepted)
  obtain l qs where q: "read_tokens lib sg' l us = Inr (Some qs)" "parents_hashed lib qs = Inr True" "depths_ok qs = Inr True"
    using assms(2) by (rule accepted)
  have rp: "list_all2 (authentic_token lib sg k) ts ps" and rq: "list_all2 (authentic_token lib sg' l) us qs"
    using p(1) q(1) by (simp_all add: read_tokens_Some)
  have ne: "ps \<noteq> []" "qs \<noteq> []" using p(3) q(3) depths_nonempty by auto
  then have "authentic_token lib sg k (last ts) (last ps)" "authentic_token lib sg' l (last us) (last qs)"
    using list_all2_lastD [OF rp] list_all2_lastD [OF rq] by simp_all
  then have last: "last ps = last qs"
    using assms(3) by (auto simp: authentic_token_def prod_eq_iff)
  have "int (length ps - 1) = int (length qs - 1)"
    using last_depth [OF p(3)] last_depth [OF q(3)] unfolding last
    by (cases "get (snd (last qs)) ''del_depth''") simp_all
  then have len: "length ps = length qs" using ne by (cases ps; cases qs) simp_all
  have "x = y" if x: "x \<in> set ps" and y: "y \<in> set qs" and h: "hashes_parent lib c x" "hashes_parent lib c y" for x y c
  proof -
    obtain t where t: "t \<in> set ts" "authentic_token lib sg k t x" using list_all2_right [OF rp x] by blast
    obtain u where u: "u \<in> set us" "authentic_token lib sg' l u y" using list_all2_right [OF rq y] by blast
    note a = authentic_parts [OF t(2)] and b = authentic_parts [OF u(2)]
    have "par_hash lib (fst x) = par_hash lib (fst y)" using h by (simp add: hashes_parent_def)
    then have "signing_input (fst x) = signing_input (fst y)"
      using no_collision [OF t(1) u(1)] par_hash_inj [OF _ sha_bytes] a(1) b(1) by metis
    then have "fst x = fst y" using a(2) b(2) signing_input_inj by blast
    then show ?thesis using a(3) b(3) by (simp add: prod_eq_iff)
  qed
  then have "ps = qs"
    using hops_determined [OF parents_hashed_hops [OF p(2)] parents_hashed_hops [OF q(2)] len ne(1) last] by blast
  moreover have "map fst ps = map signed_part ts" "map fst qs = map signed_part us"
    using signed_parts [OF rp] signed_parts [OF rq] .
  ultimately show ?thesis by simp
qed

section \<open>A sample chain\<close>

definition sample_detail :: "string \<Rightarrow> int \<Rightarrow> pyval" where
  "sample_detail scope limit =
     JObj [(''type'', JStr ''tool''), (''scopes'', JArr [JStr scope]),
           (''constraints'', JArr [JObj [(''key'', JStr ''amount''), (''max'', JInt limit)]])]"

definition sample_parent :: pyval where
  "sample_parent = JObj [(''del_depth'', JInt 0), (''del_max_depth'', JInt 3), (''exp'', JInt 90),
     (''authorization_details'', JArr [sample_detail ''crm.*'' 100])]"

definition sample_child :: pyval where
  "sample_child = JObj [(''del_depth'', JInt 1), (''exp'', JInt 80), (''par_hash'', JStr ''UQ''),
     (''authorization_details'', JArr [sample_detail ''crm.read'' 50])]"

text \<open>A digest of one byte, a constant MAC, and a decoder that knows three texts\<close>

definition sample_asor :: asor_lib where
  "sample_asor = \<lparr>zl_hmac = \<lambda>k m. [], zl_sha256 = \<lambda>m. [last m mod 256],
     zl_loads = \<lambda>b. if b = [0] then Some (JObj [(''alg'', JStr ''HS256'')]) else if b = [1] then Some sample_parent
       else if b = [2] then Some sample_child else None\<rparr>"

definition sample_tokens :: "string list" where
  "sample_tokens = [''AA.AQ.'', ''AA.Ag.'']"

definition sample_asor_signer :: signer where
  "sample_asor_signer = \<lparr>sg_alg = ''HS256'', sg_secret = ''00''\<rparr>"

lemma sample_accepted: "asor_verify sample_asor sample_tokens sample_asor_signer 10 = Inr ''accept''"
  by code_simp

theorem accepted_chain_bounds_authority_witness:
  "asor_verify sample_asor sample_tokens sample_asor_signer 10 = Inr ''accept''
    \<and> authority_permits (authority_of_payload sample_parent)
        \<lparr>rq_type = ''tool'', rq_scope = ''crm.read'', rq_values = [(JStr ''amount'', JInt 30)]\<rparr>"
proof -
  let ?r = "\<lparr>rq_type = ''tool'', rq_scope = ''crm.read'', rq_values = [(JStr ''amount'', JInt 30)]\<rparr>"
  have p: "payloads sample_asor sample_tokens = Inr [sample_parent, sample_child]" by code_simp
  have f: "list_all (in_profile \<circ> authority_of_payload) [sample_parent, sample_child]" by code_simp
  have r: "authority_permits (authority_of_payload (last [sample_parent, sample_child])) ?r" by code_simp
  from accepted_chain_bounds_authority [OF sample_accepted p f r] sample_accepted show ?thesis by simp
qed

theorem leaf_determines_chain_witness:
  "asor_verify sample_asor sample_tokens sample_asor_signer 10 = Inr ''accept''
    \<and> map signed_part sample_tokens = [(''AA'', ''AQ''), (''AA'', ''Ag'')]"
proof -
  have b: "list_all (\<lambda>x. x < 256) (zl_sha256 sample_asor m)" for m by (simp add: sample_asor_def)
  have "map (\<lambda>t. zl_sha256 sample_asor (signing_input (signed_part t))) sample_tokens = [[81], [103]]" by code_simp
  then have n: "signing_input (signed_part t) = signing_input (signed_part u)"
    if "t \<in> set sample_tokens" "u \<in> set sample_tokens"
      "zl_sha256 sample_asor (signing_input (signed_part t)) = zl_sha256 sample_asor (signing_input (signed_part u))" for t u
    using that by (auto simp: sample_tokens_def)
  from leaf_determines_chain [OF sample_accepted sample_accepted refl b n] sample_accepted
  show ?thesis by (simp add: sample_tokens_def signed_part_def)
qed

section \<open>Outside the profile\<close>

text \<open>The verifier does not check the profile. Of a constraint with two kinds only the first is compared, so a child
  may drop the other; of two constraints on one key only the last is, so a child may drop the first. In both
  cases the child permits what its parent does not.\<close>

definition with_constraints :: "pyval list \<Rightarrow> pyval" where
  "with_constraints cs = JArr [JObj [(''type'', JStr ''t''), (''scopes'', JArr [JStr ''s'']), (''constraints'', JArr cs)]]"

definition sample_request :: "pyval \<Rightarrow> chain_request" where
  "sample_request v = \<lparr>rq_type = ''t'', rq_scope = ''s'', rq_values = [(JStr ''k'', v)]\<rparr>"

lemma second_kind_dropped:
  fixes p c defines "p \<equiv> with_constraints [JObj [(''key'', JStr ''k''), (''one_of'', JArr [JStr ''a'', JStr ''b'']), (''not_one_of'', JArr [JStr ''b''])]]"
  defines "c \<equiv> with_constraints [JObj [(''key'', JStr ''k''), (''one_of'', JArr [JStr ''b''])]]"
  shows "authority_subsumed c p = Inr True" "authority_permits c (sample_request (JStr ''b''))"
    "\<not> authority_permits p (sample_request (JStr ''b''))"
  unfolding p_def c_def by code_simp+

lemma first_constraint_dropped:
  fixes p c defines "p \<equiv> with_constraints [JObj [(''key'', JStr ''k''), (''max'', JInt 5)], JObj [(''key'', JStr ''k''), (''max'', JInt 9)]]"
  defines "c \<equiv> with_constraints [JObj [(''key'', JStr ''k''), (''max'', JInt 7)]]"
  shows "authority_subsumed c p = Inr True" "authority_permits c (sample_request (JInt 7))"
    "\<not> authority_permits p (sample_request (JInt 7))"
  unfolding p_def c_def by code_simp+

end
