(* ===== verification/Presenter_Key.thy ===== *)
theory Presenter_Key
  imports Candidate_Rules Codec
begin

text \<open>
  \<open>candidates/aeoess-presenter-key-possession/check.py\<close>: a proof of possession presented with an access token,
  judged on four axes (signature of the proof, binding to the key of the token, binding to the request,
  authority), and the verdict on what a verifier answered. Parameters: SHA-256, Ed25519 under a raw key of 32
  bytes, \<open>json.loads\<close>, \<open>urlsplit\<close> up to the path, and the text of a float.
\<close>

record presenter_lib =
  pl_sha256 :: "byte list \<Rightarrow> byte list"
  pl_ed25519 :: "byte list \<Rightarrow> byte list \<Rightarrow> byte list \<Rightarrow> bool"
  pl_loads :: "byte list \<Rightarrow> pyval option"
  pl_urlsplit :: "string \<Rightarrow> (string \<times> string \<times> string) option"
  pl_float :: "rat \<Rightarrow> string"

section \<open>Texts\<close>

text \<open>\<open>json.dumps(v, separators=(",", ":"), sort_keys=True)\<close>: everything outside the printable ASCII characters is escaped.\<close>

definition json_char :: "char \<Rightarrow> string" where
  "json_char c =
     (let n = of_char c :: nat in
      if n = 34 then [CHR 0x5c, CHR 0x22] else if n = 92 then [CHR 0x5c, CHR 0x5c]
      else if n = 10 then [CHR 0x5c, CHR ''n''] else if n = 13 then [CHR 0x5c, CHR ''r''] else if n = 9 then [CHR 0x5c, CHR ''t'']
      else if n = 12 then [CHR 0x5c, CHR ''f''] else if n = 8 then [CHR 0x5c, CHR ''b'']
      else if 32 \<le> n \<and> n < 127 then [c]
      else CHR 0x5c # CHR ''u'' # ascii [48, 48, hex (n div 16), hex (n mod 16)])"

definition json_str :: "string \<Rightarrow> string" where
  "json_str s = [CHR 0x22] @ concat (map json_char s) @ [CHR 0x22]"

fun dumps_ascii :: "(rat \<Rightarrow> string) \<Rightarrow> pyval \<Rightarrow> string" where
  "dumps_ascii fl JNull = ''null''"
| "dumps_ascii fl (JBool b) = (if b then ''true'' else ''false'')"
| "dumps_ascii fl (JInt i) = map char_of (str_int i)"
| "dumps_ascii fl (JFloat r) = fl r"
| "dumps_ascii fl (JStr s) = json_str s"
| "dumps_ascii fl (JArr xs) = ''['' @ join '','' (map (dumps_ascii fl) xs) @ '']''"
| "dumps_ascii fl (JObj ms) =
     ''{'' @ join '','' (map (\<lambda>(k, t). json_str k @ '':'' @ t)
       (sort_key fst (map (\<lambda>(k, v). (k, dumps_ascii fl v)) ms))) @ ''}''"

definition only_ascii :: "string \<Rightarrow> bool" where
  "only_ascii s = list_all (\<lambda>c. of_char c < (128 :: nat)) s"

text \<open>\<open>b64d\<close>: every failure is a \<open>ValueError\<close>\<close>

definition decode_b64u :: "string \<Rightarrow> byte list option" where
  "decode_b64u s = (if only_ascii s then b64u_decode (cps s) else None)"

definition encode_b64u :: "byte list \<Rightarrow> string" where
  "encode_b64u bs = ascii (b64u_encode bs)"

text \<open>\<open>s.split()\<close>\<close>

fun words_from :: "string \<Rightarrow> string \<Rightarrow> string list" where
  "words_from w [] = (if w = [] then [] else [w])"
| "words_from w (c # s) =
     (if py_space c then (if w = [] then words_from [] s else w # words_from [] s) else words_from (w @ [c]) s)"

text \<open>\<open>x in d\<close>: a name of a dictionary, an element of a list, a substring\<close>

definition contains :: "pyval \<Rightarrow> pyval \<Rightarrow> py_error + bool" where
  "contains x d =
     (case d of
        JObj ms \<Rightarrow> (if hashable x then Inr (is_str x \<and> has_key d (str_of x)) else Inl Type_error)
      | JArr ys \<Rightarrow> Inr (list_ex (py_eq x) ys)
      | JStr s \<Rightarrow> (case x of JStr t \<Rightarrow> Inr (sublist t s) | _ \<Rightarrow> Inl Type_error)
      | _ \<Rightarrow> Inl Type_error)"

section \<open>The proof\<close>

type_synonym proof_parts = "pyval \<times> pyval \<times> byte list \<times> byte list"

definition parse_proof :: "presenter_lib \<Rightarrow> pyval \<Rightarrow> proof_parts option" where
  "parse_proof lib dpop =
     (case dpop of
        JStr s \<Rightarrow>
          (case split_on (CHR ''.'') s of
             [h, p, g] \<Rightarrow>
               (case (Option.bind (decode_b64u h) (pl_loads lib), Option.bind (decode_b64u p) (pl_loads lib), decode_b64u g) of
                  (Some hdr, Some cl, Some sig) \<Rightarrow> Some (hdr, cl, cps (h @ ''.'' @ p), sig)
                | _ \<Rightarrow> None)
           | _ \<Rightarrow> None)
      | _ \<Rightarrow> None)"

definition jwk_thumbprint :: "presenter_lib \<Rightarrow> pyval \<Rightarrow> py_error + string" where
  "jwk_thumbprint lib jwk =
     bind_sum (subscript jwk ''crv'') (\<lambda>crv. bind_sum (subscript jwk ''kty'') (\<lambda>kty. bind_sum (subscript jwk ''x'') (\<lambda>x.
       Inr (encode_b64u (pl_sha256 lib (cps (dumps_ascii (pl_float lib)
              (JObj [(''crv'', crv), (''kty'', kty), (''x'', x)]))))))))"

definition required_claims :: "pydict \<Rightarrow> py_error + string list" where
  "required_claims i =
     bind_sum (subscript (JObj i) ''request'') (\<lambda>r. bind_sum (mget r ''server_nonce'') (\<lambda>nonce.
       Inr ([''jti'', ''htm'', ''htu'', ''iat''] @ (if get (JObj i) ''access_token'' \<noteq> JNull then [''ath''] else [])
            @ (if nonce \<noteq> JNull then [''nonce''] else []))))"

text \<open>Items 5 to 7: the algorithm is accepted and supported, and the key is a public Ed25519 key that verifies the proof.\<close>

definition verifies_under :: "presenter_lib \<Rightarrow> pyval \<Rightarrow> byte list \<Rightarrow> byte list \<Rightarrow> py_error + bool" where
  "verifies_under lib jwk sig msg =
     (if \<not> has_key jwk ''x'' then Inr False
      else case get jwk ''x'' of
        JStr x \<Rightarrow>
          (case decode_b64u x of
             None \<Rightarrow> Inr False
           | Some raw \<Rightarrow> Inr (length raw = 32 \<and> pl_ed25519 lib raw sig msg))
      | _ \<Rightarrow> Inl Type_error)"

definition accepted_alg :: "pydict \<Rightarrow> pyval \<Rightarrow> py_error + bool" where
  "accepted_alg i alg =
     (if alg = JNull \<or> alg = JStr ''none'' then Inr False
      else bind_sum (bind_sum (subscript (JObj i) ''policy'') (\<lambda>pol. subscript pol ''accepted_algs'')) (contains alg))"

definition key_verifies :: "presenter_lib \<Rightarrow> pydict \<Rightarrow> pyval \<Rightarrow> byte list \<Rightarrow> byte list \<Rightarrow> py_error + bool" where
  "key_verifies lib i hdr msg sig =
     bind_sum (mget hdr ''alg'') (\<lambda>alg. bind_sum (accepted_alg i alg) (\<lambda>accepted.
       if \<not> accepted then Inr False
       else
         bind_sum (mget hdr ''jwk'') (\<lambda>jwk.
           if \<not> is_dict jwk \<or> has_key jwk ''d'' then Inr False
           else if alg \<noteq> JStr ''EdDSA'' \<or> get jwk ''kty'' \<noteq> JStr ''OKP'' \<or> get jwk ''crv'' \<noteq> JStr ''Ed25519'' then Inr False
           else verifies_under lib jwk sig msg)))"

definition proof_signature :: "presenter_lib \<Rightarrow> pydict \<Rightarrow> py_error + bool" where
  "proof_signature lib i =
     bind_sum (subscript (JObj i) ''dpop'') (\<lambda>dpop.
       case parse_proof lib dpop of
         None \<Rightarrow> Inr False
       | Some (hdr, cl, msg, sig) \<Rightarrow>
           bind_sum (required_claims i) (\<lambda>req. bind_sum (all_of (\<lambda>c. contains (JStr c) cl) req) (\<lambda>complete.
             if \<not> complete then Inr False
             else
               bind_sum (mget hdr ''typ'') (\<lambda>ty.
                 if ty \<noteq> JStr ''dpop+jwt'' then Inr False else key_verifies lib i hdr msg sig))))"

definition key_binding :: "presenter_lib \<Rightarrow> pydict \<Rightarrow> py_error + bool" where
  "key_binding lib i =
     bind_sum (subscript (JObj i) ''dpop'') (\<lambda>dpop.
       case parse_proof lib dpop of
         None \<Rightarrow> Inr False
       | Some (hdr, cl, msg, sig) \<Rightarrow>
           bind_sum (subscript (JObj i) ''token_claims'') (\<lambda>tc.
           bind_sum (mget (or_empty tc) ''cnf'') (\<lambda>cnf. bind_sum (mget (or_empty cnf) ''jkt'') (\<lambda>jkt.
           bind_sum (mget hdr ''jwk'') (\<lambda>jwk.
             if jkt = JNull \<or> \<not> is_dict jwk \<or> \<not> list_all (has_key jwk) [''crv'', ''kty'', ''x''] then Inr False
             else
               bind_sum (subscript (JObj i) ''access_token'') (\<lambda>tok.
                 case tok of
                   JStr t \<Rightarrow>
                     (if \<not> only_ascii t then Inl Unicode_error
                      else
                        bind_sum (mget cl ''ath'') (\<lambda>ath.
                          if ath \<noteq> JStr (encode_b64u (pl_sha256 lib (cps t))) then Inr False
                          else bind_sum (jwk_thumbprint lib jwk) (\<lambda>th. Inr (jkt = JStr th))))
                 | _ \<Rightarrow> Inl Attribute_error))))))"

section \<open>The request\<close>

text \<open>\<open>True\<close>, \<open>False\<close> or \<open>'ambiguous'\<close>\<close>

datatype answer3 = Holds | Fails | Undecided

definition holds_if :: "bool \<Rightarrow> answer3" where
  "holds_if b = (if b then Holds else Fails)"

definition split_uri :: "presenter_lib \<Rightarrow> pyval \<Rightarrow> py_error + string \<times> string \<times> string" where
  "split_uri lib u =
     (case u of JStr s \<Rightarrow> (case pl_urlsplit lib s of None \<Rightarrow> Inl Value_error | Some x \<Rightarrow> Inr x) | _ \<Rightarrow> Inl Type_error)"

definition strip_uri :: "presenter_lib \<Rightarrow> pyval \<Rightarrow> py_error + string" where
  "strip_uri lib u = bind_sum (split_uri lib u) (\<lambda>(scheme, netloc, path). Inr (scheme @ ''://'' @ netloc @ path))"

text \<open>Sums and differences of numbers; anything else ends in a \<open>TypeError\<close>, at the latest when it is compared with
  the integer \<open>iat\<close>.\<close>

fun whole :: "pyval \<Rightarrow> int option" where
  "whole (JInt i) = Some i"
| "whole (JBool b) = Some (of_bool b)"
| "whole _ = None"

definition sum_of :: "pyval \<Rightarrow> pyval \<Rightarrow> py_error + rat" where
  "sum_of a b = (case (number a, number b) of (Some x, Some y) \<Rightarrow> Inr (x + y) | _ \<Rightarrow> Inl Type_error)"

definition difference_of :: "pyval \<Rightarrow> pyval \<Rightarrow> py_error + rat" where
  "difference_of a b = (case (number a, number b) of (Some x, Some y) \<Rightarrow> Inr (x - y) | _ \<Rightarrow> Inl Type_error)"

definition seen_entry :: "presenter_lib \<Rightarrow> pyval \<Rightarrow> py_error + string \<times> pyval" where
  "seen_entry lib e =
     bind_sum (py_iter e) (\<lambda>xs.
       case xs of [u, j] \<Rightarrow> bind_sum (strip_uri lib u) (\<lambda>s. Inr (s, j)) | _ \<Rightarrow> Inl Value_error)"

definition replayed :: "presenter_lib \<Rightarrow> pyval \<Rightarrow> pyval \<Rightarrow> pyval \<Rightarrow> py_error + bool" where
  "replayed lib r pol cl =
     bind_sum (mget pol ''tracks_jti'') (\<lambda>tracks.
       if falsy tracks then Inr False
       else
         bind_sum (bind_sum (subscript r ''uri'') (strip_uri lib)) (\<lambda>s. bind_sum (mget cl ''jti'') (\<lambda>jti.
         bind_sum (bind_sum (mget_or r ''seen_jti'' (JArr [])) py_iter) (\<lambda>es.
         bind_sum (traverse (seen_entry lib) es) (\<lambda>seen.
           Inr (list_ex (\<lambda>(u, j). u = s \<and> py_eq jti j) seen))))))"

text \<open>Item 11 and the near future of 11.1\<close>

definition in_window :: "pyval \<Rightarrow> pyval \<Rightarrow> pyval \<Rightarrow> py_error + answer3" where
  "in_window r pol iat =
     (case whole iat of
        None \<Rightarrow> Inr Fails
      | Some t \<Rightarrow>
          bind_sum (subscript r ''now'') (\<lambda>now. bind_sum (subscript pol ''iat_window_s'') (\<lambda>w.
          bind_sum (difference_of now w) (\<lambda>earliest.
            if of_int t < earliest then Inr Fails
            else
              bind_sum (py_gt iat now) (\<lambda>future.
                if \<not> future then Inr Holds
                else
                  bind_sum (mget pol ''future_skew_s'') (\<lambda>skew.
                    if skew = JNull then Inr Undecided
                    else bind_sum (sum_of now skew) (\<lambda>latest. Inr (holds_if (of_int t \<le> latest)))))))))"

definition request_binding :: "presenter_lib \<Rightarrow> pydict \<Rightarrow> py_error + answer3" where
  "request_binding lib i =
     bind_sum (subscript (JObj i) ''dpop'') (\<lambda>dpop.
       case parse_proof lib dpop of
         None \<Rightarrow> Inr Fails
       | Some (hdr, cl, msg, sig) \<Rightarrow>
           bind_sum (subscript (JObj i) ''request'') (\<lambda>r. bind_sum (subscript (JObj i) ''policy'') (\<lambda>pol.
           bind_sum (mget cl ''htm'') (\<lambda>htm. bind_sum (subscript r ''method'') (\<lambda>method.
             if \<not> py_eq htm method then Inr Fails
             else if \<not> is_str (get cl ''htu'') then Inr Fails
             else
               bind_sum (split_uri lib (get cl ''htu'')) (\<lambda>a. bind_sum (bind_sum (subscript r ''uri'') (split_uri lib)) (\<lambda>b.
                 if a \<noteq> b then Inr Fails
                 else
                   bind_sum (mget r ''server_nonce'') (\<lambda>nonce.
                     if nonce \<noteq> JNull \<and> \<not> py_eq (get cl ''nonce'') nonce then Inr Fails
                     else
                       bind_sum (in_window r pol (get cl ''iat'')) (\<lambda>w.
                         if w \<noteq> Holds then Inr w
                         else bind_sum (replayed lib r pol cl) (\<lambda>again. Inr (holds_if (\<not> again))))))))))))"

definition scope_held :: "pydict \<Rightarrow> py_error + bool" where
  "scope_held i =
     bind_sum (bind_sum (subscript (JObj i) ''request'') (\<lambda>r. subscript r ''required_scope'')) (\<lambda>need.
     bind_sum (subscript (JObj i) ''token_claims'') (\<lambda>tc. bind_sum (mget (or_empty tc) ''scope'') (\<lambda>scope.
       case (if falsy scope then JStr [] else scope) of
         JStr s \<Rightarrow> Inr (list_ex (\<lambda>w. need = JStr w) (words_from [] s))
       | _ \<Rightarrow> Inl Attribute_error)))"

section \<open>The verdict\<close>

definition PRESENTER_AXES :: "string list" where
  "PRESENTER_AXES = [''proof_signature'', ''key_binding'', ''request_binding'', ''authority'']"

definition truth :: "presenter_lib \<Rightarrow> pydict \<Rightarrow> py_error + (string \<times> answer3) list" where
  "truth lib i =
     bind_sum (proof_signature lib i) (\<lambda>a. bind_sum (key_binding lib i) (\<lambda>b.
     bind_sum (request_binding lib i) (\<lambda>c. bind_sum (scope_held i) (\<lambda>d.
       Inr (zip PRESENTER_AXES [holds_if a, holds_if b, c, holds_if d])))))"

definition axis_rule :: "presenter_lib \<Rightarrow> string \<Rightarrow> pydict \<Rightarrow> pydict \<Rightarrow> py_error + grade" where
  "axis_rule lib axis i ob =
     bind_sum (truth lib i) (\<lambda>t.
       Inr (case map_of t axis of
              Some Undecided \<Rightarrow> Ambiguous
            | a \<Rightarrow> graded_if (get (JObj ob) axis = JBool (a = Some Holds))))"

definition r_decision :: "presenter_lib \<Rightarrow> pydict \<Rightarrow> pydict \<Rightarrow> py_error + grade" where
  "r_decision lib i ob =
     bind_sum (truth lib i) (\<lambda>t.
       Inr (if list_ex (\<lambda>(a, v). v = Fails) t then
              graded_if (get (JObj ob) ''decision'' = JStr ''reject''
                \<and> list_ex (\<lambda>(a, v). v = Fails \<and> get (JObj ob) ''reject_axis'' = JStr a) t)
            else if list_ex (\<lambda>(a, v). v = Undecided) t then Ambiguous
            else graded_if (get (JObj ob) ''decision'' = JStr ''accept'' \<and> get (JObj ob) ''reject_axis'' = JNull)))"

definition apply_rule :: "presenter_lib \<Rightarrow> pydict \<Rightarrow> pydict \<Rightarrow> string \<Rightarrow> py_error + grade" where
  "apply_rule lib i ob rule =
     (if rule = ''R-SIG'' then axis_rule lib ''proof_signature'' i ob
      else if rule = ''R-BIND'' then axis_rule lib ''key_binding'' i ob
      else if rule = ''R-REQ'' then axis_rule lib ''request_binding'' i ob
      else if rule = ''R-AUTH'' then axis_rule lib ''authority'' i ob
      else if rule = ''R-DECISION'' then r_decision lib i ob
      else Inl Key_error)"

record presenter_case =
  pc_rules :: "string list"
  pc_input :: pydict
  pc_outcome :: pydict
  pc_expect :: string

definition combine_grades :: "grade list \<Rightarrow> grade" where
  "combine_grades gs =
     (if Nonconformant \<in> set gs then Nonconformant else if Ambiguous \<in> set gs then Ambiguous else Conformant)"

definition presenter_verdict :: "presenter_lib \<Rightarrow> presenter_case \<Rightarrow> py_error + grade" where
  "presenter_verdict lib c =
     bind_sum (traverse (apply_rule lib (pc_input c) (pc_outcome c)) (pc_rules c)) (\<lambda>gs. Inr (combine_grades gs))"

definition presenter_main :: "presenter_lib \<Rightarrow> presenter_case list \<Rightarrow> py_error + nat" where
  "presenter_main lib cs =
     bind_sum (traverse (presenter_verdict lib) cs) (\<lambda>gs.
       Inr (if list_all (\<lambda>(c, g). grade_text g = pc_expect c) (zip cs gs) then 0 else 1))"

end
