(* ===== verification/Presenter_Checks.thy ===== *)
theory Presenter_Checks
  imports Presenter_Key
begin

text \<open>
  What a conformant acceptance of a proof of possession establishes: the proof is signed by the key the token is
  bound to, for this token and this request, within its time window, and, under a policy that tracks identifiers,
  it was not seen before.
\<close>

lemma subscript_get: "subscript d k = Inr v \<Longrightarrow> get d k = v"
  by (auto simp: subscript_def get_def split: if_splits option.splits)

lemma mget_get: "mget d k = Inr v \<Longrightarrow> get d k = v"
  by (auto simp: mget_def split: if_splits)

lemma or_empty_get: "get (or_empty v) k \<noteq> JNull \<Longrightarrow> or_empty v = v"
  by (auto simp: or_empty_def get_def split: if_splits)

section \<open>The axes\<close>

text \<open>The key in the header of a proof signed the proof, and carries no private part.\<close>

definition signed_by_header_key :: "presenter_lib \<Rightarrow> proof_parts \<Rightarrow> bool" where
  "signed_by_header_key lib p \<longleftrightarrow>
     (case p of (hdr, cl, msg, sig) \<Rightarrow>
        get hdr ''typ'' = JStr ''dpop+jwt'' \<and> get hdr ''alg'' = JStr ''EdDSA'' \<and> \<not> has_key (get hdr ''jwk'') ''d''
        \<and> (case get (get hdr ''jwk'') ''x'' of
             JStr x \<Rightarrow> (case decode_b64u x of Some raw \<Rightarrow> length raw = 32 \<and> pl_ed25519 lib raw sig msg | None \<Rightarrow> False)
           | _ \<Rightarrow> False))"

lemma key_verifies_True:
  assumes "key_verifies lib i hdr msg sig = Inr True"
  shows "get hdr ''alg'' = JStr ''EdDSA'' \<and> \<not> has_key (get hdr ''jwk'') ''d''
    \<and> (case get (get hdr ''jwk'') ''x'' of
         JStr x \<Rightarrow> (case decode_b64u x of Some raw \<Rightarrow> length raw = 32 \<and> pl_ed25519 lib raw sig msg | None \<Rightarrow> False)
       | _ \<Rightarrow> False)"
  using assms by (auto simp: key_verifies_def verifies_under_def split: if_splits json.splits option.splits dest!: mget_get)

lemma proof_signature_True:
  assumes "proof_signature lib i = Inr True"
  obtains p where "parse_proof lib (get (JObj i) ''dpop'') = Some p" "signed_by_header_key lib p"
proof -
  obtain dpop where d: "subscript (JObj i) ''dpop'' = Inr dpop" using assms by (auto simp: proof_signature_def)
  then obtain hdr cl msg sig where p: "parse_proof lib dpop = Some (hdr, cl, msg, sig)" "mget hdr ''typ'' = Inr (JStr ''dpop+jwt'')"
    "key_verifies lib i hdr msg sig = Inr True"
    using assms by (auto simp: proof_signature_def split: option.splits if_splits)
  show ?thesis
    by (rule that [of "(hdr, cl, msg, sig)"])
      (use subscript_get [OF d] p mget_get [OF p(2)] key_verifies_True [OF p(3)] in \<open>simp_all add: signed_by_header_key_def\<close>)
qed

text \<open>The token is bound to that key, and the proof to the token.\<close>

definition bound_to_token :: "presenter_lib \<Rightarrow> pydict \<Rightarrow> proof_parts \<Rightarrow> bool" where
  "bound_to_token lib i p \<longleftrightarrow>
     (case p of (hdr, cl, msg, sig) \<Rightarrow>
        (case jwk_thumbprint lib (get hdr ''jwk'') of
           Inr th \<Rightarrow> get (get (get (JObj i) ''token_claims'') ''cnf'') ''jkt'' = JStr th
         | Inl e \<Rightarrow> False)
        \<and> (case get (JObj i) ''access_token'' of
             JStr t \<Rightarrow> get cl ''ath'' = JStr (encode_b64u (pl_sha256 lib (cps t)))
           | _ \<Rightarrow> False))"

lemma key_binding_True:
  assumes "key_binding lib i = Inr True" and "parse_proof lib (get (JObj i) ''dpop'') = Some p"
  shows "bound_to_token lib i p"
proof -
  obtain hdr cl msg sig where p: "p = (hdr, cl, msg, sig)" by (cases p)
  obtain dpop where d: "subscript (JObj i) ''dpop'' = Inr dpop" using assms by (auto simp: key_binding_def)
  have pp: "parse_proof lib dpop = Some (hdr, cl, msg, sig)" using assms(2) subscript_get [OF d] p by simp
  obtain tc cnf jkt jwk tok where f: "subscript (JObj i) ''token_claims'' = Inr tc" "mget (or_empty tc) ''cnf'' = Inr cnf"
    "mget (or_empty cnf) ''jkt'' = Inr jkt" "mget hdr ''jwk'' = Inr jwk" "jkt \<noteq> JNull" "subscript (JObj i) ''access_token'' = Inr tok"
    and tok: "(case tok of JStr t \<Rightarrow> if \<not> only_ascii t then Inl Unicode_error
       else bind_sum (mget cl ''ath'') (\<lambda>ath. if ath \<noteq> JStr (encode_b64u (pl_sha256 lib (cps t))) then Inr False
         else bind_sum (jwk_thumbprint lib jwk) (\<lambda>th. Inr (jkt = JStr th))) | _ \<Rightarrow> Inl Attribute_error) = Inr True"
    using assms(1) unfolding key_binding_def d bind_sum.simps pp option.case prod.case by (auto split: if_splits)
  obtain t th where g: "tok = JStr t" "mget cl ''ath'' = Inr (JStr (encode_b64u (pl_sha256 lib (cps t))))"
    "jwk_thumbprint lib jwk = Inr th" "jkt = JStr th"
    using tok by (cases tok) (auto split: if_splits)
  have cnf: "or_empty cnf = cnf" using or_empty_get [of cnf "''jkt''"] mget_get [OF f(3)] f(5) by simp
  moreover have "or_empty tc = tc"
  proof (rule or_empty_get [of tc "''cnf''"])
    show "get (or_empty tc) ''cnf'' \<noteq> JNull"
      using mget_get [OF f(2)] cnf by (auto simp: or_empty_def)
  qed
  ultimately have "get (get (get (JObj i) ''token_claims'') ''cnf'') ''jkt'' = jkt"
    using mget_get [OF f(2)] mget_get [OF f(3)] subscript_get [OF f(1)] by simp
  then show ?thesis
    using g mget_get [OF f(4)] mget_get [OF g(2)] subscript_get [OF f(6)] by (simp add: bound_to_token_def p)
qed

text \<open>No entry of the request's \<open>seen_jti\<close> has the address of the request and the identifier of the proof.\<close>

definition never_seen :: "presenter_lib \<Rightarrow> pyval \<Rightarrow> pyval \<Rightarrow> bool" where
  "never_seen lib r cl \<longleftrightarrow>
     (\<exists>s es seen. strip_uri lib (get r ''uri'') = Inr s \<and> bind_sum (mget_or r ''seen_jti'' (JArr [])) py_iter = Inr es
        \<and> traverse (seen_entry lib) es = Inr seen \<and> list_all (\<lambda>(u, j). u \<noteq> s \<or> \<not> py_eq (get cl ''jti'') j) seen)"

lemma replayed_False:
  assumes "replayed lib r pol cl = Inr False"
  shows "falsy (get pol ''tracks_jti'') \<or> never_seen lib r cl"
proof (rule disjCI)
  assume "\<not> never_seen lib r cl"
  show "falsy (get pol ''tracks_jti'')"
  proof (rule ccontr)
    assume tr: "\<not> falsy (get pol ''tracks_jti'')"
    obtain tracks where t: "mget pol ''tracks_jti'' = Inr tracks" using assms by (auto simp: replayed_def)
    with tr have "\<not> falsy tracks" using mget_get [OF t] by simp
    with assms t obtain uri s jti es seen where f: "subscript r ''uri'' = Inr uri" "strip_uri lib uri = Inr s" "mget cl ''jti'' = Inr jti"
      "bind_sum (mget_or r ''seen_jti'' (JArr [])) py_iter = Inr es" "traverse (seen_entry lib) es = Inr seen"
      "\<not> list_ex (\<lambda>(u, j). u = s \<and> py_eq jti j) seen"
      by (auto simp: replayed_def)
    then have "never_seen lib r cl"
      using subscript_get [OF f(1)] mget_get [OF f(3)] by (force simp: never_seen_def list_ex_iff list_all_iff)
    with \<open>\<not> never_seen lib r cl\<close> show False ..
  qed
qed

text \<open>The proof is for the method and the URI of the request, carries the server's nonce when there is one, is no older than
  the window and, if the policy tracks identifiers, was not presented before.\<close>

definition bound_to_request :: "presenter_lib \<Rightarrow> pydict \<Rightarrow> proof_parts \<Rightarrow> bool" where
  "bound_to_request lib i p \<longleftrightarrow>
     (case p of (hdr, cl, msg, sig) \<Rightarrow>
        let r = get (JObj i) ''request''; pol = get (JObj i) ''policy'' in
        py_eq (get cl ''htm'') (get r ''method'') \<and> is_str (get cl ''htu'') \<and> split_uri lib (get cl ''htu'') = split_uri lib (get r ''uri'')
        \<and> (get r ''server_nonce'' = JNull \<or> py_eq (get cl ''nonce'') (get r ''server_nonce''))
        \<and> (case (whole (get cl ''iat''), number (get r ''now''), number (get pol ''iat_window_s'')) of
             (Some t, Some now, Some w) \<Rightarrow> now - w \<le> of_int t
               \<and> (of_int t \<le> now \<or> (\<exists>s. number (get pol ''future_skew_s'') = Some s \<and> of_int t \<le> now + s))
           | _ \<Rightarrow> False)
        \<and> (falsy (get pol ''tracks_jti'') \<or> never_seen lib r cl))"

lemma whole_number: "whole v = Some t \<Longrightarrow> number v = Some (of_int t)"
  by (cases v) auto

lemma py_gt_number:
  assumes "py_gt a b = Inr g" "number a = Some x"
  shows "\<exists>y. number b = Some y \<and> g = (y < x)"
  using assms by (cases a; cases b) auto

lemma in_window_Holds:
  assumes "in_window r pol iat = Inr Holds"
  shows "case (whole iat, number (get r ''now''), number (get pol ''iat_window_s'')) of
       (Some t, Some now, Some w) \<Rightarrow> now - w \<le> of_int t
         \<and> (of_int t \<le> now \<or> (\<exists>s. number (get pol ''future_skew_s'') = Some s \<and> of_int t \<le> now + s))
     | _ \<Rightarrow> False"
proof -
  obtain t where t: "whole iat = Some t" using assms by (auto simp: in_window_def split: option.splits)
  obtain now w e g where f: "subscript r ''now'' = Inr now" "subscript pol ''iat_window_s'' = Inr w" "difference_of now w = Inr e"
    "\<not> of_int t < e" "py_gt iat now = Inr g"
    and h: "\<not> g \<or> (\<exists>skew latest. mget pol ''future_skew_s'' = Inr skew \<and> sum_of now skew = Inr latest \<and> of_int t \<le> latest)"
    using assms t by (auto simp: in_window_def holds_if_def split: if_splits)
  obtain n v where n: "number now = Some n" "number w = Some v" "e = n - v"
    using f(3) by (auto simp: difference_of_def split: option.splits)
  have g: "g = (n < of_int t)" using py_gt_number [OF f(5) whole_number [OF t]] n(1) by simp
  have "of_int t \<le> n \<or> (\<exists>s. number (get pol ''future_skew_s'') = Some s \<and> of_int t \<le> n + s)"
    using h g n(1) by (auto simp: sum_of_def split: option.splits dest!: mget_get)
  then show ?thesis using t n f(4) subscript_get [OF f(1)] subscript_get [OF f(2)] by simp
qed

lemma request_binding_Holds:
  assumes "request_binding lib i = Inr Holds" and "parse_proof lib (get (JObj i) ''dpop'') = Some p"
  shows "bound_to_request lib i p"
proof -
  obtain hdr cl msg sig where p: "p = (hdr, cl, msg, sig)" by (cases p)
  obtain dpop where d: "subscript (JObj i) ''dpop'' = Inr dpop" using assms by (auto simp: request_binding_def)
  have pp: "parse_proof lib dpop = Some (hdr, cl, msg, sig)" using assms(2) subscript_get [OF d] p by simp
  obtain r pol htm meth uri a nonce where f: "subscript (JObj i) ''request'' = Inr r" "subscript (JObj i) ''policy'' = Inr pol"
    "mget cl ''htm'' = Inr htm" "subscript r ''method'' = Inr meth" "py_eq htm meth" "is_str (get cl ''htu'')"
    "split_uri lib (get cl ''htu'') = Inr a" "subscript r ''uri'' = Inr uri" "split_uri lib uri = Inr a"
    "mget r ''server_nonce'' = Inr nonce" "nonce = JNull \<or> py_eq (get cl ''nonce'') nonce"
    "in_window r pol (get cl ''iat'') = Inr Holds" "replayed lib r pol cl = Inr False"
    using assms(1) d pp by (auto simp: request_binding_def holds_if_def split: if_splits)
  show ?thesis
    using f(5-7,9,11) replayed_False [OF f(13)] in_window_Holds [OF f(12)] subscript_get [OF f(1)] subscript_get [OF f(2)] mget_get [OF f(3)]
      subscript_get [OF f(4)] subscript_get [OF f(8)] mget_get [OF f(10)]
    by (simp add: bound_to_request_def p Let_def)
qed

section \<open>Acceptance\<close>

lemma decision_accept:
  assumes "r_decision lib i ob = Inr Conformant" and "get (JObj ob) ''decision'' = JStr ''accept''"
  shows "proof_signature lib i = Inr True" "key_binding lib i = Inr True" "request_binding lib i = Inr Holds" "scope_held i = Inr True"
proof -
  obtain a b c d where t: "proof_signature lib i = Inr a" "key_binding lib i = Inr b" "request_binding lib i = Inr c" "scope_held i = Inr d"
    using assms(1) by (auto simp: r_decision_def truth_def)
  then show "proof_signature lib i = Inr True" "key_binding lib i = Inr True" "request_binding lib i = Inr Holds" "scope_held i = Inr True"
    using assms by (auto simp: r_decision_def truth_def PRESENTER_AXES_def graded_if_def holds_if_def split: if_splits)
      (cases c; simp)+
qed

text \<open>C26: an acceptance found conformant is a possession. If the rule on decisions is met and the answer was \<open>accept\<close>, the
  presented proof parses, the key in its header signed it, the access token is bound to that key and the proof
  to the token, and the proof is for this request: its method and URI, the server's nonce if there is one, within its time window;
  where the policy tracks identifiers, the identifier of the proof is not among those seen at that URI (a policy
  that does not track them accepts a repeated proof); and the required scope is among the token's.\<close>

theorem accepted_presentation_possesses:
  assumes "r_decision lib i ob = Inr Conformant" and "get (JObj ob) ''decision'' = JStr ''accept''"
  shows "\<exists>p. parse_proof lib (get (JObj i) ''dpop'') = Some p \<and> signed_by_header_key lib p \<and> bound_to_token lib i p
    \<and> bound_to_request lib i p \<and> scope_held i = Inr True"
proof -
  note t = decision_accept [OF assms]
  obtain p where p: "parse_proof lib (get (JObj i) ''dpop'') = Some p" "signed_by_header_key lib p"
    using t(1) by (rule proof_signature_True)
  show ?thesis using p key_binding_True [OF t(2) p(1)] request_binding_Holds [OF t(3) p(1)] t(4) by blast
qed

text \<open>A case without an access token is not judged: the token of the input is encoded before it is looked at.\<close>

lemma missing_token_raises:
  assumes "parse_proof lib (JStr d) = Some (JObj [(''jwk'', JObj [(''crv'', a), (''kty'', b), (''x'', c)])], cl, msg, sig)"
  shows "key_binding lib [(''dpop'', JStr d), (''token_claims'', JObj [(''cnf'', JObj [(''jkt'', JStr t)])]), (''access_token'', JNull)]
    = Inl Attribute_error"
  using assms by (simp add: key_binding_def subscript_def mget_def or_empty_def get_def has_key_def)

section \<open>A sample presentation\<close>

definition sample_proof_header :: pyval where
  "sample_proof_header = JObj [(''typ'', JStr ''dpop+jwt''), (''alg'', JStr ''EdDSA''),
     (''jwk'', JObj [(''crv'', JStr ''Ed25519''), (''kty'', JStr ''OKP''), (''x'', JStr (replicate 43 CHR ''A''))])]"

definition sample_claims :: pyval where
  "sample_claims = JObj [(''jti'', JStr ''1''), (''htm'', JStr ''GET''), (''htu'', JStr ''u''), (''iat'', JInt 7), (''ath'', JStr ''AQ'')]"

definition sample_presenter :: presenter_lib where
  "sample_presenter = \<lparr>pl_sha256 = \<lambda>m. [1], pl_ed25519 = \<lambda>k s m. True,
     pl_loads = \<lambda>b. if b = [0] then Some sample_proof_header else Some sample_claims,
     pl_urlsplit = \<lambda>s. Some ([], [], s), pl_float = \<lambda>r. []\<rparr>"

definition sample_input :: pydict where
  "sample_input =
     [(''dpop'', JStr ''AA.AQ.''), (''access_token'', JStr ''t''),
      (''token_claims'', JObj [(''cnf'', JObj [(''jkt'', JStr ''AQ'')]), (''scope'', JStr ''read write'')]),
      (''request'', JObj [(''method'', JStr ''GET''), (''uri'', JStr ''u''), (''now'', JInt 9),
        (''seen_jti'', JArr [JArr [JStr ''u'', JStr ''2''], JArr [JStr ''v'', JStr ''1'']]), (''required_scope'', JStr ''write'')]),
      (''policy'', JObj [(''accepted_algs'', JArr [JStr ''EdDSA'']), (''iat_window_s'', JInt 5), (''tracks_jti'', JBool True)])]"

theorem accepted_presentation_possesses_witness:
  "\<exists>p. parse_proof sample_presenter (JStr ''AA.AQ.'') = Some p \<and> signed_by_header_key sample_presenter p
     \<and> bound_to_request sample_presenter sample_input p
     \<and> never_seen sample_presenter (get (JObj sample_input) ''request'') (fst (snd p))"
proof -
  have r: "r_decision sample_presenter sample_input [(''decision'', JStr ''accept'')] = Inr Conformant" by code_simp
  have d: "get (JObj [(''decision'', JStr ''accept'')]) ''decision'' = (JStr ''accept'' :: pyval)" by (simp add: get_def)
  have i: "get (JObj sample_input) ''dpop'' = JStr ''AA.AQ.''" by (simp add: sample_input_def get_def)
  have tracks: "\<not> falsy (get (get (JObj sample_input) ''policy'') ''tracks_jti'')" by (simp add: sample_input_def get_def)
  from accepted_presentation_possesses [OF r d] obtain p where p: "parse_proof sample_presenter (JStr ''AA.AQ.'') = Some p"
    "signed_by_header_key sample_presenter p" "bound_to_request sample_presenter sample_input p" unfolding i by blast
  moreover have "never_seen sample_presenter (get (JObj sample_input) ''request'') (fst (snd p))"
    using p(3) tracks by (cases p) (simp add: bound_to_request_def Let_def)
  ultimately show ?thesis by blast
qed

end
