(* ===== verification/Did_Receipts.thy ===== *)
theory Did_Receipts
  imports Token_Checks Receipts
begin

text \<open>
  \<open>runners/receipt_runner.py\<close>: the runner for receipts whose signer is a did:key: the stages profile, key
  resolution, signature and receipt id, and the grading of a vector file. The base58 decoder is the one of
  \<open>Token_Runner\<close>, of which the file carries a copy. Parameters: SHA-256, Ed25519 under a raw key, and the text
  of a float. A verdict is its result, code and stage; the detail text is left out.
\<close>

record did_lib =
  vl_sha256 :: "byte list \<Rightarrow> byte list"
  vl_ed25519 :: "byte list \<Rightarrow> byte list \<Rightarrow> byte list \<Rightarrow> bool"
  vl_float :: "rat \<Rightarrow> cp list"

definition b64url_nopad :: "byte list \<Rightarrow> string" where
  "b64url_nopad b = ascii (b64u_encode b)"

definition b64url_decode :: "pyval \<Rightarrow> py_error + byte list option" where
  "b64url_decode v =
     (case v of
        JStr s \<Rightarrow> Inr (if ascii_str s then b64u_decode (cps s) else None)
      | _ \<Rightarrow> Inl Type_error)"

definition sorted_text :: "did_lib \<Rightarrow> pydict \<Rightarrow> byte list" where
  "sorted_text lib ms = utf8_of (dumps_sorted (vl_float lib) (jv (JObj ms)))"

text \<open>The key, or the code of the failure\<close>

definition resolve_did_key :: "pyval \<Rightarrow> py_error + (string + byte list)" where
  "resolve_did_key did =
     (if falsy did then Inr (Inl ''SIGNER_DID_MISSING'')
      else case did of
        JStr s \<Rightarrow>
          (if \<not> prefix did_prefix s then Inr (Inl ''DID_URI_INVALID'')
           else case b58_decode (drop (length did_prefix) s) of
             None \<Rightarrow> Inr (Inl ''DID_URI_INVALID'')
           | Some raw \<Rightarrow>
               (if take 2 raw \<noteq> [237, 1] then Inr (Inl ''DID_URI_INVALID'')
                else if length (drop 2 raw) \<noteq> 32 then Inr (Inl ''DID_URI_INVALID'')
                else Inr (Inr (drop 2 raw))))
      | _ \<Rightarrow> Inl Attribute_error)"

definition leave_out :: "string list \<Rightarrow> pydict \<Rightarrow> pydict" where
  "leave_out ks ms = filter (\<lambda>(k, v). k \<notin> set ks) ms"

definition flat_receipt_id :: "did_lib \<Rightarrow> pydict \<Rightarrow> string" where
  "flat_receipt_id lib r =
     ''r1:'' @ b64url_nopad (vl_sha256 lib (cps ''agentlair-receipt/v1:'' @ sorted_text lib (leave_out [''receipt_id'', ''signature''] r)))"

type_synonym did_verdict = "string \<times> string \<times> string"

definition verify_flat :: "did_lib \<Rightarrow> pydict \<Rightarrow> py_error + did_verdict" where
  "verify_flat lib r =
     (if \<not> has_key (JObj r) ''signature'' then Inr (''invalid'', ''SIGNATURE_MISSING'', ''profile'')
      else
        bind_sum (resolve_did_key (if has_key (JObj r) ''signer_did'' then get (JObj r) ''signer_did'' else JStr [])) (\<lambda>res.
          case res of
            Inl code \<Rightarrow> Inr (''invalid'', code, ''key_resolution'')
          | Inr pub \<Rightarrow>
              bind_sum (b64url_decode (get (JObj r) ''signature'')) (\<lambda>dec.
                if (case dec of None \<Rightarrow> True | Some sig \<Rightarrow> \<not> vl_ed25519 lib pub sig (sorted_text lib (leave_out [''signature''] r)))
                then Inr (''invalid'', ''SIGNATURE_INVALID'', ''signature'')
                else if get (JObj r) ''receipt_id'' \<noteq> JStr (flat_receipt_id lib r)
                then Inr (''invalid'', ''RECEIPT_ID_MISMATCH'', ''receipt_id'')
                else Inr (''valid'', ''OK'', ''''))))"

record did_vector =
  dv_receipt :: pydict
  dv_result :: pyval
  dv_reason :: pyval
  dv_stage :: pyval

text \<open>\<open>expected_failure_stage\<close> defaults to the empty text, which matches any stage.\<close>

definition verdict_matches :: "did_verdict \<Rightarrow> did_vector \<Rightarrow> bool" where
  "verdict_matches got v =
     (case got of (res, code, stage) \<Rightarrow>
        JStr res = dv_result v \<and> JStr code = dv_reason v \<and> (falsy (dv_stage v) \<or> JStr stage = dv_stage v))"

definition did_main :: "did_lib \<Rightarrow> did_vector list \<Rightarrow> py_error + nat" where
  "did_main lib vs =
     (if vs = [] then Inl Index_error
      else
        bind_sum (traverse (\<lambda>v. verify_flat lib (dv_receipt v)) vs) (\<lambda>got.
          Inr (if list_all (\<lambda>(g, v). verdict_matches g v) (zip got vs) then 0 else 1)))"

section \<open>What a valid receipt shows\<close>

lemma stage_choice:
  assumes "V \<noteq> S" "M \<noteq> S" "V \<noteq> M"
  shows "bind_sum dec (\<lambda>d. if (case d of None \<Rightarrow> True | Some sig \<Rightarrow> \<not> P sig) then Inr S else if \<not> Q then Inr M else Inr V) = Inr V
      \<longleftrightarrow> (\<exists>sig. dec = Inr (Some sig) \<and> P sig \<and> Q)"
    and "bind_sum dec (\<lambda>d. if (case d of None \<Rightarrow> True | Some sig \<Rightarrow> \<not> P sig) then Inr S else if \<not> Q then Inr M else Inr V) = Inr M
      \<longleftrightarrow> (\<exists>sig. dec = Inr (Some sig) \<and> P sig \<and> \<not> Q)"
  using assms by (auto split: option.splits)

text \<open>C39: a valid receipt, stage by stage. The verdict is \<open>valid\<close> exactly when the receipt names its signer by a did:key that
  resolves to a key, the signature decodes and verifies under that key over the receipt without its
  signature, and the receipt id is the digest of the receipt without id and signature; a mismatching id is
  reported exactly when only that last test fails, so that it never hides behind a bad signature.\<close>

theorem flat_receipt_valid_iff:
  "(verify_flat lib r = Inr (''valid'', ''OK'', '''')) =
     (\<exists>pub sig. resolve_did_key (get (JObj r) ''signer_did'') = Inr (Inr pub) \<and> b64url_decode (get (JObj r) ''signature'') = Inr (Some sig)
        \<and> vl_ed25519 lib pub sig (sorted_text lib (leave_out [''signature''] r)) \<and> get (JObj r) ''receipt_id'' = JStr (flat_receipt_id lib r))
   \<and> (verify_flat lib r = Inr (''invalid'', ''RECEIPT_ID_MISMATCH'', ''receipt_id'')) =
     (\<exists>pub sig. resolve_did_key (get (JObj r) ''signer_did'') = Inr (Inr pub) \<and> b64url_decode (get (JObj r) ''signature'') = Inr (Some sig)
        \<and> vl_ed25519 lib pub sig (sorted_text lib (leave_out [''signature''] r)) \<and> get (JObj r) ''receipt_id'' \<noteq> JStr (flat_receipt_id lib r))"
proof -
  have missing: "resolve_did_key JNull = Inr (Inl ''SIGNER_DID_MISSING'')" "resolve_did_key (JStr []) = Inr (Inl ''SIGNER_DID_MISSING'')"
    by (simp_all add: resolve_did_key_def)
  have unsigned: "\<not> has_key (JObj r) ''signature'' \<Longrightarrow> b64url_decode (get (JObj r) ''signature'') = Inl Type_error"
    by (simp add: get_no_key b64url_decode_def)
  have did: "resolve_did_key (if has_key (JObj r) ''signer_did'' then get (JObj r) ''signer_did'' else JStr [])
      = resolve_did_key (get (JObj r) ''signer_did'')"
    by (simp add: missing get_no_key)
  show ?thesis
  proof (cases "has_key (JObj r) ''signature''")
    case False
    then show ?thesis using unsigned by (simp add: verify_flat_def)
  next
    case True
    note eq = verify_flat_def [of lib r, unfolded did, simplified True not_True_eq_False if_False]
    show ?thesis
    proof (cases "resolve_did_key (get (JObj r) ''signer_did'')")
      case (Inr res)
      show ?thesis
      proof (cases res)
        case (Inl code)
        then show ?thesis by (simp add: eq Inr)
      next
        case (Inr pub)
        have k: "resolve_did_key (get (JObj r) ''signer_did'') = Inr (Inr pub)" using Inr \<open>resolve_did_key _ = Inr res\<close> by simp
        have d: "(''valid'', ''OK'', '''') \<noteq> (''invalid'', ''SIGNATURE_INVALID'', ''signature'')"
          "(''invalid'', ''RECEIPT_ID_MISMATCH'', ''receipt_id'') \<noteq> (''invalid'', ''SIGNATURE_INVALID'', ''signature'')"
          "(''valid'', ''OK'', '''') \<noteq> (''invalid'', ''RECEIPT_ID_MISMATCH'', ''receipt_id'')" by simp_all
        have one: "(\<exists>p sig. Inr (Inr pub :: string + byte list) = (Inr (Inr p) :: py_error + _) \<and> R p sig) \<longleftrightarrow> (\<exists>sig. R pub sig)" for R by blast
        show ?thesis unfolding eq k bind_sum.simps sum.case one
          by (rule conjI; rule stage_choice [OF d])
      qed
    qed (simp add: eq)
  qed
qed

section \<open>A key has one name\<close>

lemma index_in_inj: "index_in x xs = Some d \<Longrightarrow> index_in y xs = Some d \<Longrightarrow> x = y"
  by (induction xs arbitrary: d) (auto split: if_splits)

lemma b58_value_inj:
  "length s = length t \<Longrightarrow> b58_value m s = Some n \<Longrightarrow> b58_value m' t = Some n \<Longrightarrow> m = m' \<and> s = t"
proof (induction s arbitrary: t m m')
  case (Cons c s)
  then obtain e t' where t: "t = e # t'" by (cases t) auto
  obtain d where d: "index_in c B58 = Some d" "b58_value (m * 58 + d) s = Some n" using Cons.prems(2) by (auto split: option.splits)
  obtain d' where d': "index_in e B58 = Some d'" "b58_value (m' * 58 + d') t' = Some n"
    using Cons.prems(3) unfolding t by (auto split: option.splits)
  have e: "m * 58 + d = m' * 58 + d'" "s = t'" using Cons.IH [OF _ d(2) d'(2)] Cons.prems(1) t by auto
  have "d < 58" "d' < 58" using index_in_less [OF d(1)] index_in_less [OF d'(1)] by (simp_all add: B58_def)
  then have "(m * 58 + d) div 58 = m" "(m' * 58 + d') div 58 = m'" by simp_all
  then have "m = m'" "d = d'" using e(1) by simp_all
  then show ?case using index_in_inj [OF d(1)] d'(1) t e(2) by simp
qed simp

lemma resolved_key:
  assumes "resolve_did_key (JStr s) = Inr (Inr k)"
  obtains body where "s = did_prefix @ body" "did_key_wellformed (JStr s)" "b58_decode body = Some (237 # 1 # k)"
proof -
  obtain body where s: "s = did_prefix @ body"
    using assms by (auto simp: resolve_did_key_def prefix_def split: if_splits)
  then obtain raw where r: "b58_decode body = Some raw" "take 2 raw = [237, 1]" "length (drop 2 raw) = 32" "k = drop 2 raw"
    using assms by (auto simp: resolve_did_key_def split: if_splits option.splits)
  have "raw = 237 # 1 # k" using append_take_drop_id [of 2 raw] r(2,4) by simp
  then show ?thesis using that [OF s] r s by (auto simp: did_key_wellformed_def)
qed

text \<open>The identifier of a signer is determined by the key. Two did:key texts that resolve to the same key are the same
  text, so a receipt's signer cannot be respelled.\<close>

theorem did_key_unique:
  assumes "resolve_did_key (JStr s) = Inr (Inr k)" and "resolve_did_key (JStr t) = Inr (Inr k)"
  shows "s = t"
proof -
  obtain u where u: "s = did_prefix @ u" "did_key_wellformed (JStr s)" "b58_decode u = Some (237 # 1 # k)"
    using assms(1) by (rule resolved_key)
  obtain v where v: "t = did_prefix @ v" "did_key_wellformed (JStr t)" "b58_decode v = Some (237 # 1 # k)"
    using assms(2) by (rule resolved_key)
  have "length u = length v" using wellformed_length [of u] wellformed_length [of v] u v by simp
  moreover obtain m where m: "b58_value 0 u = Some m" "replicate (length (takeWhile (\<lambda>c. c = CHR ''1'') u)) 0 @ big_endian m = 237 # 1 # k"
    using u(3) by (auto simp: b58_decode_def)
  moreover obtain n where n: "b58_value 0 v = Some n" "replicate (length (takeWhile (\<lambda>c. c = CHR ''1'') v)) 0 @ big_endian n = 237 # 1 # k"
    using v(3) by (auto simp: b58_decode_def)
  moreover have "m = n"
  proof -
    have "big_endian m = 237 # 1 # k" using m(2) by (cases "takeWhile (\<lambda>c. c = CHR ''1'') u") auto
    moreover have "big_endian n = 237 # 1 # k" using n(2) by (cases "takeWhile (\<lambda>c. c = CHR ''1'') v") auto
    ultimately show ?thesis by (metis big_endian_value)
  qed
  ultimately have "u = v" using b58_value_inj by blast
  then show ?thesis using u v by simp
qed

end
