(* ===== verification/X402.thy ===== *)
theory X402
  imports Receipts
begin

text \<open>
  \<open>interop/x402-receipts-debc94f/recompute.py\<close>: an independent recomputation of the digests of receipt envelopes,
  with a canonicaliser of its own (integers in the exactly representable range only), a survey of the values
  the corpus exercises, and the comparison with the pinned digests; and that what it recomputes is the
  digest under the canonicaliser of \<open>Jcs\<close>. SHA-256 is a parameter.
\<close>

datatype x402_error = Range_error | Not_implemented | Encode_error

text \<open>\<open>utf16_code_units\<close>\<close>

definition utf16_code_units :: "cp list \<Rightarrow> nat list" where
  "utf16_code_units s = concat (map utf16_units s)"

definition js_number :: "int \<Rightarrow> x402_error + cp list" where
  "js_number n = (if - (2 ^ 53 - 1) \<le> n \<and> n \<le> 2 ^ 53 - 1 then Inr (str_int n) else Inl Range_error)"

definition unit_members :: "(cp list \<times> 'a) list \<Rightarrow> (cp list \<times> 'a) list" where
  "unit_members ms = sort_key (\<lambda>kv. utf16_code_units (fst kv)) ms"

text \<open>As in \<open>Jcs\<close>, the names are encoded before any value is visited, and the values serialised in sorted order.\<close>

fun x402_ser :: "jval \<Rightarrow> x402_error + cp list" where
  "x402_ser JNull = Inr (cps ''null'')"
| "x402_ser (JBool b) = Inr (if b then cps ''true'' else cps ''false'')"
| "x402_ser (JInt i) = js_number i"
| "x402_ser (JFloat r) = Inl Not_implemented"
| "x402_ser (JStr s) = Inr (jcs_str s)"
| "x402_ser (JArr xs) = bind_sum (traverse id (map x402_ser xs)) (\<lambda>ts. Inr (cps ''['' @ join (cps '','') ts @ cps '']''))"
| "x402_ser (JObj ms) =
     (if \<not> list_all (\<lambda>(k, v). encodable k) ms then Inl Encode_error
      else bind_sum (traverse (\<lambda>(k, t). bind_sum t (\<lambda>x. Inr (jcs_str k @ cps '':'' @ x)))
                       (unit_members (map (\<lambda>(k, v). (k, x402_ser v)) ms)))
             (\<lambda>ts. Inr (cps ''{'' @ join (cps '','') ts @ cps ''}'')))"

definition envelope_digest :: "(byte list \<Rightarrow> byte list) \<Rightarrow> jval \<Rightarrow> x402_error + string" where
  "envelope_digest sha receipt =
     bind_sum (x402_ser receipt) (\<lambda>t.
       case encode_utf8 t of Inl e \<Rightarrow> Inl Encode_error | Inr b \<Rightarrow> Inr (hexdigest (sha b)))"

section \<open>The survey\<close>

record survey =
  sv_objects :: nat
  sv_arrays :: nat
  sv_strings :: nat
  sv_integers :: nat
  sv_nulls :: nat
  sv_bools :: nat
  sv_non_ascii_keys :: "cp list list"
  sv_non_ascii_strings :: "cp list list"
  sv_control_chars :: "cp list list"
  sv_non_integers :: "rat list"
  sv_astral_keys :: "cp list list"

definition new_survey :: survey where
  "new_survey = \<lparr>sv_objects = 0, sv_arrays = 0, sv_strings = 0, sv_integers = 0, sv_nulls = 0, sv_bools = 0,
     sv_non_ascii_keys = [], sv_non_ascii_strings = [], sv_control_chars = [], sv_non_integers = [], sv_astral_keys = []\<rparr>"

definition listed_if :: "bool \<Rightarrow> 'a \<Rightarrow> 'a list \<Rightarrow> 'a list" where
  "listed_if b x xs = (if b then xs @ [x] else xs)"

definition see_key :: "cp list \<Rightarrow> survey \<Rightarrow> survey" where
  "see_key k s =
     s\<lparr>sv_non_ascii_keys := listed_if (list_ex (\<lambda>c. c > 127) k) k (sv_non_ascii_keys s),
       sv_astral_keys := listed_if (list_ex (\<lambda>c. c > 65535) k) k (sv_astral_keys s)\<rparr>"

fun walk_value :: "jval \<Rightarrow> survey \<Rightarrow> survey" where
  "walk_value (JObj ms) s =
     fold (\<lambda>(k, f) s. f (see_key k s)) (map (\<lambda>(k, v). (k, walk_value v)) ms) (s\<lparr>sv_objects := sv_objects s + 1\<rparr>)"
| "walk_value (JArr xs) s = fold (\<lambda>f s. f s) (map walk_value xs) (s\<lparr>sv_arrays := sv_arrays s + 1\<rparr>)"
| "walk_value (JBool b) s = s\<lparr>sv_bools := sv_bools s + 1\<rparr>"
| "walk_value (JInt i) s = s\<lparr>sv_integers := sv_integers s + 1\<rparr>"
| "walk_value (JFloat r) s = s\<lparr>sv_non_integers := sv_non_integers s @ [r]\<rparr>"
| "walk_value (JStr t) s =
     s\<lparr>sv_strings := sv_strings s + 1, sv_non_ascii_strings := listed_if (list_ex (\<lambda>c. c > 127) t) t (sv_non_ascii_strings s),
       sv_control_chars := listed_if (list_ex (\<lambda>c. c < 32) t) t (sv_control_chars s)\<rparr>"
| "walk_value JNull s = s\<lparr>sv_nulls := sv_nulls s + 1\<rparr>"

definition survey_of :: "jval list \<Rightarrow> survey" where
  "survey_of objs = fold walk_value objs new_survey"

section \<open>The run\<close>

text \<open>The vectors with their names, the pinned digests by name; the number recomputed, the number matching, the survey and
  the exit status\<close>

definition digests :: "(byte list \<Rightarrow> byte list) \<Rightarrow> (string \<times> jval) list \<Rightarrow> x402_error + (string \<times> string) list" where
  "digests sha vs = traverse (\<lambda>(name, r). bind_sum (envelope_digest sha r) (\<lambda>d. Inr (name, d))) vs"

definition matched_digests :: "(string \<times> string) list \<Rightarrow> (string \<times> string) list \<Rightarrow> nat" where
  "matched_digests computed pinned = length (filter (\<lambda>(name, d). map_of pinned name = Some d) computed)"

definition x402_main ::
  "(byte list \<Rightarrow> byte list) \<Rightarrow> (string \<times> jval) list \<Rightarrow> (string \<times> string) list \<Rightarrow> x402_error + survey \<times> nat" where
  "x402_main sha vs pinned =
     (if vs = [] then Inr (new_survey, 2)
      else
        bind_sum (digests sha vs) (\<lambda>computed.
          Inr (survey_of (map snd vs), if matched_digests computed pinned = length computed then 0 else 1)))"

section \<open>Agreement of the canonicalisers\<close>

lemma byte_order:
  "(u :: nat) < v \<longleftrightarrow> u div 256 < v div 256 \<or> u div 256 = v div 256 \<and> u mod 256 < v mod 256"
  "u = v \<longleftrightarrow> u div 256 = v div 256 \<and> u mod 256 = v mod 256"
proof -
  have u: "u = 256 * (u div 256) + u mod 256" "u mod 256 < 256" and v: "v = 256 * (v div 256) + v mod 256" "v mod 256 < 256" by simp_all
  consider "u div 256 < v div 256" | "u div 256 = v div 256" | "v div 256 < u div 256" by linarith
  then show "u < v \<longleftrightarrow> u div 256 < v div 256 \<or> u div 256 = v div 256 \<and> u mod 256 < v mod 256"
    by cases (use u v in linarith)+
  show "u = v \<longleftrightarrow> u div 256 = v div 256 \<and> u mod 256 = v mod 256" using u v by metis
qed

text \<open>Units order names as the bytes of their encoding do.\<close>

lemma unit_bytes_order:
  assumes "list_all (\<lambda>u. u < 65536) us" "list_all (\<lambda>u. u < 65536) vs"
  shows "concat (map (\<lambda>u. [u div 256, u mod 256]) us) \<le> concat (map (\<lambda>u. [u div 256, u mod 256]) vs) \<longleftrightarrow> us \<le> (vs :: nat list)"
  using assms
proof (induction us arbitrary: vs)
  case (Cons u us)
  show ?case
  proof (cases vs)
    case (Cons v ws)
    have "us \<le> ws \<longleftrightarrow> concat (map (\<lambda>u. [u div 256, u mod 256]) us) \<le> concat (map (\<lambda>u. [u div 256, u mod 256]) ws)"
      using Cons.IH [of ws] Cons.prems Cons by simp
    then show ?thesis using byte_order [of u v] by (auto simp: Cons)
  qed simp
qed simp

lemma units_bound: "encodable s \<Longrightarrow> list_all (\<lambda>u. u < 65536) (utf16_code_units s)"
  by (auto simp: encodable_def utf16_code_units_def list_all_iff scalar_def utf16_units_def split: if_splits)

lemma units_order: "encodable s \<Longrightarrow> encodable t \<Longrightarrow> utf16_code_units s \<le> utf16_code_units t \<longleftrightarrow> utf16_key s \<le> utf16_key t"
  using unit_bytes_order [OF units_bound units_bound, of s t] by (simp add: utf16_key_def utf16_code_units_def)

lemma unit_members_sorted: "list_all (\<lambda>(k, v). encodable k) ms \<Longrightarrow> unit_members ms = sorted_members ms"
  unfolding unit_members_def sorted_members_def
  by (rule sort_key_order_cong) (simp add: list_all_iff case_prod_beta units_order)

text \<open>The integers of a value are in the exactly representable range.\<close>

fun in_range :: "jval \<Rightarrow> bool" where
  "in_range (JInt i) \<longleftrightarrow> - (2 ^ 53 - 1) \<le> i \<and> i \<le> 2 ^ 53 - 1"
| "in_range (JArr xs) \<longleftrightarrow> list_all in_range xs"
| "in_range (JObj ms) \<longleftrightarrow> list_all (\<lambda>(k, v). in_range v) ms"
| "in_range _ \<longleftrightarrow> True"

lemma list_all2_conj_left: "list_all2 (\<lambda>x y. P x y \<and> Q x) xs ys \<longleftrightarrow> list_all2 P xs ys \<and> list_all Q xs"
  by (auto simp: list_all2_conv_all_nth list_all_length)

lemma x402_ser_iff: "x402_ser v = Inr t \<longleftrightarrow> ser v = Inr t \<and> in_range v"
proof (induction v arbitrary: t rule: x402_ser.induct)
  case (6 xs)
  have "traverse id (map x402_ser xs) = Inr ts \<longleftrightarrow> traverse id (map ser xs) = Inr ts \<and> list_all in_range xs" for ts
  proof -
    have "traverse id (map x402_ser xs) = Inr ts \<longleftrightarrow> list_all2 (\<lambda>x t. x402_ser x = Inr t) xs ts"
      by (simp add: traverse_list_all2 list_all2_map1)
    also have "\<dots> \<longleftrightarrow> list_all2 (\<lambda>x t. ser x = Inr t \<and> in_range x) xs ts"
      by (rule list.rel_cong) (use 6 in auto)
    finally show ?thesis by (simp add: list_all2_conj_left traverse_list_all2 list_all2_map1)
  qed
  then show ?case by auto
next
  case (7 ms)
  let ?entry = "\<lambda>(k, t). bind_sum t (\<lambda>x. Inr (jcs_str k @ cps '':'' @ x))"
  show ?case
  proof (cases "list_all (\<lambda>(k, v). encodable k) ms")
    case True
    have s: "unit_members (map (\<lambda>(k, v). (k, x402_ser v)) ms) = sorted_members (map (\<lambda>(k, v). (k, x402_ser v)) ms)"
      by (rule unit_members_sorted) (use True in \<open>auto simp: list_all_iff\<close>)
    have ih: "x402_ser v = Inr x \<longleftrightarrow> ser v = Inr x \<and> in_range v" if "(k, v) \<in> set ms" for k v x
      using "7.IH" True that by auto
    have "traverse ?entry (sorted_members (map (\<lambda>(k, v). (k, x402_ser v)) ms)) = Inr ts \<longleftrightarrow>
        traverse ?entry (sorted_members (map (\<lambda>(k, v). (k, ser v)) ms)) = Inr ts \<and> list_all (\<lambda>(k, v). in_range v) ms" for ts
    proof -
      have "traverse ?entry (sorted_members (map (\<lambda>(k, v). (k, x402_ser v)) ms)) = Inr ts \<longleftrightarrow>
          list_all2 (\<lambda>(k, v) t. \<exists>x. x402_ser v = Inr x \<and> t = jcs_str k @ cps '':'' @ x) (sorted_members ms) ts"
        unfolding sorted_members_map traverse_list_all2 list_all2_map1 by (rule list.rel_cong) auto
      also have "\<dots> \<longleftrightarrow> list_all2 (\<lambda>(k, v) t. (\<exists>x. ser v = Inr x \<and> t = jcs_str k @ cps '':'' @ x) \<and> in_range v) (sorted_members ms) ts"
        by (rule list.rel_cong) (use ih in auto)
      also have "\<dots> \<longleftrightarrow> list_all2 (\<lambda>(k, v) t. \<exists>x. ser v = Inr x \<and> t = jcs_str k @ cps '':'' @ x) (sorted_members ms) ts
          \<and> list_all (\<lambda>(k, v). in_range v) (sorted_members ms)"
        unfolding list_all2_conj_left [symmetric] by (rule list.rel_cong) auto
      also have "list_all (\<lambda>(k, v). in_range v) (sorted_members ms) \<longleftrightarrow> list_all (\<lambda>(k, v). in_range v) ms"
        by (simp add: list_all_iff)
      also have "list_all2 (\<lambda>(k, v) t. \<exists>x. ser v = Inr x \<and> t = jcs_str k @ cps '':'' @ x) (sorted_members ms) ts
          \<longleftrightarrow> traverse ?entry (sorted_members (map (\<lambda>(k, v). (k, ser v)) ms)) = Inr ts"
        unfolding sorted_members_map traverse_list_all2 list_all2_map1 by (rule list.rel_cong) auto
      finally show ?thesis .
    qed
    then show ?thesis using True s by auto
  qed auto
qed (auto simp: js_number_def)

lemma envelope_digest_iff:
  "envelope_digest sha r = Inr d \<longleftrightarrow> (\<exists>b. jcs r = Inr b \<and> d = hexdigest (sha b)) \<and> in_range r"
proof (cases "x402_ser r")
  case (Inl e)
  then have "\<not> (ser r = Inr t \<and> in_range r)" for t using x402_ser_iff [of r t] by simp
  then show ?thesis using Inl by (auto simp: envelope_digest_def jcs_def)
next
  case (Inr t)
  then have "ser r = Inr t" "in_range r" using x402_ser_iff by simp_all
  then show ?thesis using Inr by (auto simp: envelope_digest_def jcs_def split: sum.splits)
qed

lemma filter_all: "length (filter P xs) = length xs \<longleftrightarrow> list_all P xs"
proof
  assume "length (filter P xs) = length xs"
  then show "list_all P xs" using length_filter_less [of _ xs P] by (auto simp: list_all_iff)
qed (simp add: list_all_iff)

text \<open>C40: a clean recomputation confirms the pinned digests. The run ends with status 0 exactly when there is a vector and, for
  every vector, the integers of its receipt are exactly representable and the digest pinned under its name is
  the SHA-256 of the receipt's canonical bytes, as the canonicaliser shared by the adapters computes them.\<close>

theorem x402_zero_iff:
  "(\<exists>s. x402_main sha vs pinned = Inr (s, 0)) \<longleftrightarrow>
     vs \<noteq> [] \<and> list_all (\<lambda>(name, r). in_range r \<and> (\<exists>b. jcs r = Inr b \<and> map_of pinned name = Some (hexdigest (sha b)))) vs"
proof -
  have d: "digests sha vs = Inr ds \<longleftrightarrow>
      list_all2 (\<lambda>(name, r) nd. fst nd = name \<and> envelope_digest sha r = Inr (snd nd)) vs ds" for ds
    unfolding digests_def traverse_list_all2 by (rule list.rel_cong) auto
  have "(\<exists>ds. digests sha vs = Inr ds \<and> list_all (\<lambda>(name, d). map_of pinned name = Some d) ds) \<longleftrightarrow>
      list_all (\<lambda>(name, r). \<exists>d. envelope_digest sha r = Inr d \<and> map_of pinned name = Some d) vs"
    unfolding d
  proof (induction vs)
    case (Cons v vs)
    then show ?case by (cases v) (force simp: list_all2_Cons1)
  qed simp
  moreover have "(\<lambda>(name, r). \<exists>d. envelope_digest sha r = Inr d \<and> map_of pinned name = Some d)
      = (\<lambda>(name, r). in_range r \<and> (\<exists>b. jcs r = Inr b \<and> map_of pinned name = Some (hexdigest (sha b))))"
    by (auto simp: envelope_digest_iff fun_eq_iff)
  moreover have "(\<exists>s. x402_main sha vs pinned = Inr (s, 0)) \<longleftrightarrow>
      vs \<noteq> [] \<and> (\<exists>ds. digests sha vs = Inr ds \<and> list_all (\<lambda>(name, d). map_of pinned name = Some d) ds)"
    by (auto simp: x402_main_def matched_digests_def filter_all split: if_splits)
  ultimately show ?thesis by simp
qed

text \<open>The survey lists every float it meets, so that without one the corpus has none.\<close>

fun floats_in :: "jval \<Rightarrow> rat list" where
  "floats_in (JFloat r) = [r]"
| "floats_in (JArr xs) = concat (map floats_in xs)"
| "floats_in (JObj ms) = concat (map (\<lambda>(k, v). floats_in v) ms)"
| "floats_in _ = []"

lemma walk_floats: "sv_non_integers (walk_value v s) = sv_non_integers s @ floats_in v"
proof (induction v arbitrary: s rule: floats_in.induct)
  case (2 xs)
  have "sv_non_integers (fold (\<lambda>f s. f s) (map walk_value ys) s) = sv_non_integers s @ concat (map floats_in ys)" if "set ys \<subseteq> set xs" for ys s
    using that by (induction ys arbitrary: s) (simp_all add: 2)
  then show ?case by simp
next
  case (3 ms)
  have k: "sv_non_integers (see_key k s) = sv_non_integers s" for k s by (simp add: see_key_def)
  have "sv_non_integers (fold (\<lambda>(k, f) s. f (see_key k s)) (map (\<lambda>(k, v). (k, walk_value v)) ns) s)
      = sv_non_integers s @ concat (map (\<lambda>(k, v). floats_in v) ns)" if "set ns \<subseteq> set ms" for ns s
    using that
  proof (induction ns arbitrary: s)
    case (Cons n ns)
    obtain key v where n: "(key, v) = n" by (cases n) simp
    have "n \<in> set ms" using Cons.prems by simp
    from "3" [OF this n] have "sv_non_integers (walk_value v (see_key key s)) = sv_non_integers s @ floats_in v"
      by (simp only: k)
    then show ?case using Cons.IH Cons.prems by (simp add: n [symmetric])
  qed simp
  then show ?case by simp
qed simp_all

lemma survey_floats: "sv_non_integers (survey_of vs) = concat (map floats_in vs)"
proof -
  have "sv_non_integers (fold walk_value vs s) = sv_non_integers s @ concat (map floats_in vs)" for s
    by (induction vs arbitrary: s) (simp_all add: walk_floats)
  then show ?thesis by (simp add: survey_of_def new_survey_def)
qed

end
