(* ===== verification/Spec2Isabelle.thy ===== *)
theory Spec2Isabelle
  imports Decision_Effect_Corpus Evidence_Sufficiency Lease_Corpus Denial_Continuity Teardown_Runner
    Delegation Vaid_Chain Envelope Gateway_Recompute Token_Checks Lease_Rev2 Receipt_Checks Composition_Checks
    Aep_Checks Lease_Campaign_Checks Tpm_Quote_Checks Candidate_Checks Aep_Lab
    Candidate_Halt Candidate_Issuance Asor_Checks Presenter_Checks Did_Receipts X402
begin

text \<open>
  The Python verifiers of the APS conformance suite, modelled and verified.

  The repository is a corpus of test vectors for agent identity, delegated authority and signed
  decision receipts, with programs that evaluate them: checkers that turn evidence into a verdict,
  verifiers of signed chains and bundles, and runners that replay a vector file and compare what they
  compute with what the file expects. Each program is a script of its own; they share conventions
  (JSON values, RFC 8785 canonical text, SHA-256 digests, base64url, Ed25519) and copies of a few
  functions. The development follows that: a shared layer, then one theory or two per program.

  Shared layer.
  \<^item> \<open>Prelude\<close>: JSON values, dictionary access, guards as the first error of a list, errors as the left
    of a sum (\<open>bind_sum\<close>, \<open>traverse\<close>), and the locale of machines that keep an invariant.
  \<^item> \<open>Python_Values\<close>: equality across kinds, truth, iteration, subscripts, hashing, \<open>any\<close>/\<open>all\<close> over
    tests that may raise, splitting.
  \<^item> \<open>Jcs\<close>: the canonicaliser the adapters \<open>sharif-aat-03\<close>, \<open>cosai-odis\<close> and \<open>vaid-a2a\<close> carry; it is
    injective up to member order (locales \<open>prefix_code\<close> and its extension, interpreted on its
    escapes and on UTF-8), and member order does not matter.
  \<^item> \<open>Codec\<close>: base64url, hexadecimal, \<open>json.dumps\<close>, with decode-of-encode lemmas.
  \<^item> \<open>Calendar\<close>: the RFC 3339 ordering keys of \<open>sharif-aat-03/adapter/py/rfc3339.py\<close>, the civil calendar
    against a day count, and agreement with the instants of the teardown runner.
  \<^item> \<open>Attenuation\<close>: the contract of a hop test along a delegation chain (locale \<open>attenuation\<close>), which
    gives that authority at the end is within authority at the start.
  \<^item> \<open>Verdicts\<close>: the verdict vocabulary of the two CoSAI checkers.

  Programs (paths under src/).
  \<^item> \<open>Decision_Effect\<close>, \<open>Decision_Effect_Corpus\<close>: interop/cosai-ws4-149-decision-to-effect/adapter/py, the
    checker (\<open>evaluate\<close> and its three evaluators) and the candidate corpus of run.py.
  \<^item> \<open>Evidence_Sufficiency\<close>: interop/cosai-ws4-189-evidence-sufficiency/adapter/py, checker and cases.
  \<^item> \<open>Lease_Verifier\<close>, \<open>Lease_Runner\<close>, \<open>Lease_Corpus\<close>: the lease-revocation-axes runner, revision 3
    (lra_runner.py): the status source (locale \<open>status_source\<close>), the verifier with all of its defective
    variants, and the replay and grading of a timeline.
  \<^item> \<open>Lease_Campaign\<close>, \<open>Lease_Campaign_Checks\<close>: the main of that runner: gate on the frozen vectors, the
    baselines, the defective variants, diagnostics, reporting checks and checkpoints, and the status.
  \<^item> \<open>Lease_Rev2\<close>: the revision-2 runner, and the refinement that relates the two.
  \<^item> \<open>Denial_Continuity\<close>: fixtures/runtime-authority-denial-continuity/verify.py: enforcement point, ledger
    of denials, effect composition, negative controls.
  \<^item> \<open>Teardown\<close>, \<open>Teardown_Runner\<close>: fixtures/teardown-accounting/verify.py: schema validation, the rule
    table, its abstract specification, and the file runner.
  \<^item> \<open>Audit_Trail\<close>: interop/sharif-aat-03/adapter/py/aat.py: hash chain and signatures.
  \<^item> \<open>Delegation\<close>: interop/cosai-odis-148dc41/adapter/py/odis.py: one non-root delegation record.
  \<^item> \<open>Vaid\<close>, \<open>Vaid_Chain\<close>: interop/vaid-a2a-0.1.1-cleanroom-ca6077a2/vaid_cr.py: the seven-step procedure,
    and what a pass establishes.
  \<^item> \<open>Evidence_Bundle\<close>, \<open>Envelope\<close>: the attenu-guard clean-room verifiers (0.11 bundles, 0.13 and 0.15
    envelopes): hash chain, authority narrowing, execution binding, observer envelopes.
  \<^item> \<open>Gateway_Canonical\<close>, \<open>Gateway_Recompute\<close>: interop/mcp-audit-gateway-v0.6-cleanroom-a0f14a0/recompute.py.
  \<^item> \<open>Token_Runner\<close>, \<open>Token_Checks\<close>: runners/aat_runner.py, the standing runner for signed tokens.
  \<^item> \<open>Receipts\<close>, \<open>Receipt_Checks\<close>: runners/aeoess_receipt_runner.py, signed receipts.
  \<^item> \<open>Composition\<close>, \<open>Composition_Checks\<close>: interop/mih-sato-composition-00/adapter/py/run.py, the fourteen
    cross-slot join checks.
  \<^item> \<open>Aep\<close>, \<open>Aep_Checks\<close>: interop/wasmagent-aep-0.1.12-blind/verifier/aep_verify_v2.py, the four levels of
    an AEP record and the verdicts of a fixture.
  \<^item> \<open>Aep_Lab\<close>: interop/wasmagent-aep-2026-09-13-03/adapter/lab-semantic.py, a second recomputation of the
    semantic level, and its agreement with the verifier.
  \<^item> \<open>Did_Receipts\<close>, \<open>X402\<close>: runners/receipt_runner.py and interop/x402-receipts-debc94f/recompute.py, receipts
    signed under a did:key, and recomputed envelope digests.
  \<^item> \<open>Asor\<close>, \<open>Asor_Checks\<close>: interop/attenu-guard-0.6.1/cleanroom/verify_asor00.py, chains of signed delegation
    tokens: a meaning for authority details as the requests they permit, which an accepted chain narrows.
  \<^item> \<open>Tpm_Quote\<close>, \<open>Tpm_Quote_Checks\<close>: candidates/tactiq-tpm-bound-key (tpmq.py, run.py), quotes of a TPM at the
    level of their bytes.
  \<^item> \<open>Candidate_Rules\<close>, \<open>Candidate_Checks\<close>: candidates/aicent-grant-ref and candidates/aicent-lease-boundary, rules on
    refusals and lease boundaries, and that the lease verifier meets them.
  \<^item> \<open>Candidate_Halt\<close>, \<open>Candidate_Issuance\<close>: candidates/aeoess-running-call-halt and
    candidates/aeoess-oauth-actor-profile, rules on halting running calls and on issuing actor claims.
  \<^item> \<open>Presenter_Key\<close>, \<open>Presenter_Checks\<close>: candidates/aeoess-presenter-key-possession, proofs of possession of the
    key an access token is bound to.

  What the lemmas show. Soundness of a verdict: a pass, a permit or an exit status of 0 implies the
  conditions the program stands for (signatures under the right key, digests, narrowing along a chain,
  freshness, an established observation), often as an equivalence. Safety along runs: a revoked grant
  or a denied effect stays refused on every later step. Tamper evidence: equal digests imply equal
  content, up to member order, where the digest has no collision on the texts compared; that
  hypothesis is stated in each such theorem. Agreement: two versions or two copies of a program, or
  the detailed program and an abstract specification, give the same results. Error behaviour: which
  inputs raise, and that refusals are reported and do not escape. Bounds and termination: the domain of a
  canonical form, the length of identifiers, the climb of a delegation chain.

  Parameters. SHA-256, Ed25519, ECDSA and HMAC verification, the RFC 8785 and JSON packages where a program
  imports them, Unicode normalisation, the text of a float, \<open>fromisoformat\<close>, \<open>fromtimestamp\<close> and
  network fetches are functions given to the definitions, in one record per program; nothing is
  assumed of them but what a theorem states.

  Bounds. Strings of the record models are over \<open>char\<close> (code points below 256): no text of theirs has a lone surrogate, so the
  \<open>UnicodeEncodeError\<close> such a text raises in the programs that hash it (\<open>vaid_cr.py\<close>, \<open>receipt_runner.py\<close>) is outside them;
  the canonicaliser and the gateway work over all code points. A name looked up with \<open>.get\<close> in something that is no dictionary
  reads as \<open>None\<close> in the record checkers that read validated members; \<open>mget\<close> raises where the raise is observable. Integers are unbounded, as Python's are; floats are rationals, so the infinities and NaN, which
  are not JSON, do not occur. The fields of TPM structures are words of their width
  (8, 16, 32 and 64 bits), offsets into them unbounded. The climb of \<open>Vaid\<close> ends by the program's own MAX_DEPTH of 64: 66 tests of
  the loop condition are enough (\<open>vaid_climb_terminates\<close>). No other loop needs a bound: each runs over a finite list.

  Not modelled. File access, argument parsing, printing and report writing of the drivers (the parts of
  a \<open>main\<close> that aggregate verdicts are modelled where the manifest says so); texts of messages, of which the values that
  decide anything are kept; the scripts that mint or mutate vectors; the runners in other languages; the data
  files themselves, apart from the cases used as concrete runs. The verifiers left out are
  listed in the manifest with the reason: earlier versions of a verifier that is modelled, a
  one-off script over a second version of the did:key receipts, and the driver of the revision-2 lease runner (that of revision 3
  is modelled).
\<close>

end
